(* ===== verification/KC_Prelude.thy ===== *)
theory KC_Prelude
  imports Main "HOL-Library.Word" "HOL-Library.AList" "HOL-Library.Multiset"
begin

text \<open>
  Shared material of the development: machine integers, results, services with state and
  errors, the keyed tables the repositories are built from, and the automation the component
  theories use.

  \<^item> A pure fallible Rust function (\<open>Result\<close>, or a function that can panic) is a value of
    \<open>'e + 'a\<close>, \<open>Inl\<close> for the error. \<open>rbind\<close> is the \<open>?\<close> operator.
  \<^item> An effectful service method is a value of \<open>('s, 'e, 'a) svc\<close>: it takes the state and
    returns the result together with the state it leaves, in the error case too (an early
    return of Rust does not undo what was done before it). \<open>sbind\<close> sequences two calls.
  \<^item> \<open>keeps P m\<close> says that \<open>m\<close> preserves \<open>P\<close> on every outcome, \<open>returns P m Q\<close> that a
    successful run from \<open>P\<close> ends in \<open>Q\<close>; both compose along \<open>sbind\<close>.
  \<^item> The locale \<open>keyed_table\<close> is the contract of a table whose rows are updated by key, the
    locale \<open>unit_of_work\<close> the contract of a repository that queues statements and applies
    them on \<open>save_changed\<close>.
\<close>

named_theorems svc_simps "unfolding rules of the service combinators"
named_theorems keeps_intro "composition rules for preserved predicates"
named_theorems list_facts "generic facts on lists used by several components"

section \<open>Machine integers\<close>

type_synonym uuid = "128 word"
type_synonym i32 = "32 word"
type_synonym u32 = "32 word"

text \<open>
  \<open>usize\<close>, \<open>u64\<close> and \<open>i64\<close> values are kept as numbers; where the code computes with
  them the width is written out. \<open>oc\<close> tells whether the build checks overflow (a debug
  build, which panics) or wraps around (a release build).
\<close>

definition usize_max :: nat where
  "usize_max = 2 ^ 64 - 1"

definition usize_mul :: "bool \<Rightarrow> nat \<Rightarrow> nat \<Rightarrow> nat option" where
  "usize_mul oc a b =
     (if a * b \<le> usize_max then Some (a * b)
      else if oc then None else Some ((a * b) mod 2 ^ 64))"

definition usize_sub :: "bool \<Rightarrow> nat \<Rightarrow> nat \<Rightarrow> nat option" where
  "usize_sub oc a b =
     (if b \<le> a then Some (a - b) else if oc then None else Some (2 ^ 64 + a - b))"

definition usize_not :: "nat \<Rightarrow> nat" where
  "usize_not a = usize_max - a"

definition i32_add :: "bool \<Rightarrow> i32 \<Rightarrow> i32 \<Rightarrow> i32 option" where
  "i32_add oc a b =
     (if oc \<and> sint a + sint b \<notin> {- (2 ^ 31)..2 ^ 31 - 1} then None else Some (a + b))"

lemma usize_mul_small: "a * b \<le> usize_max \<Longrightarrow> usize_mul oc a b = Some (a * b)"
  by (simp add: usize_mul_def)

lemma usize_not_ge_1: "n \<le> usize_max \<Longrightarrow> (1 \<le> usize_not n) = (n \<noteq> usize_max)"
  by (auto simp: usize_not_def)

section \<open>Printing\<close>

text \<open>\<open>to_string\<close> of the integers, in decimal.\<close>

fun show_nat :: "nat \<Rightarrow> string" where
  "show_nat n =
     (if n < 10 then [char_of (48 + n)] else show_nat (n div 10) @ [char_of (48 + n mod 10)])"

declare show_nat.simps [simp del]

definition show_i32 :: "i32 \<Rightarrow> string" where
  "show_i32 w = (if sint w < 0 then CHR ''-'' # show_nat (nat (- sint w)) else show_nat (nat (sint w)))"

definition show_int :: "int \<Rightarrow> string" where
  "show_int i = (if i < 0 then CHR ''-'' # show_nat (nat (- i)) else show_nat (nat i))"

text \<open>A UUID's 32 hexadecimal digits, and its \<open>to_string\<close> with the hyphens.\<close>

definition hex_digit :: "nat \<Rightarrow> char" where
  "hex_digit n = (if n < 10 then char_of (48 + n) else char_of (87 + n))"

definition uuid_simple :: "uuid \<Rightarrow> string" where
  "uuid_simple i = map (\<lambda>k. hex_digit (unat (drop_bit (4 * (31 - k)) i) mod 16)) [0..<32]"

definition show_uuid :: "uuid \<Rightarrow> string" where
  "show_uuid i = (let d = uuid_simple i in
     take 8 d @ ''-'' @ take 4 (drop 8 d) @ ''-'' @ take 4 (drop 12 d) @ ''-'' @
     take 4 (drop 16 d) @ ''-'' @ drop 20 d)"

text \<open>\<open>[String]::join\<close>.\<close>

fun join :: "string \<Rightarrow> string list \<Rightarrow> string" where
  "join sep [] = []"
| "join sep [x] = x"
| "join sep (x # y # ys) = x @ sep @ join sep (y # ys)"

section \<open>Results\<close>

definition rbind :: "'e + 'a \<Rightarrow> ('a \<Rightarrow> 'e + 'b) \<Rightarrow> 'e + 'b" where
  "rbind r f = (case r of Inl e \<Rightarrow> Inl e | Inr x \<Rightarrow> f x)"

definition ok_or :: "'e \<Rightarrow> 'a option \<Rightarrow> 'e + 'a" where
  "ok_or e x = (case x of None \<Rightarrow> Inl e | Some v \<Rightarrow> Inr v)"

primrec rmap :: "('a \<Rightarrow> 'e + 'b) \<Rightarrow> 'a list \<Rightarrow> 'e + 'b list" where
  "rmap f [] = Inr []"
| "rmap f (x # xs) = rbind (f x) (\<lambda>y. rbind (rmap f xs) (\<lambda>ys. Inr (y # ys)))"

primrec rfold :: "('a \<Rightarrow> 'b \<Rightarrow> 'e + 'b) \<Rightarrow> 'a list \<Rightarrow> 'b \<Rightarrow> 'e + 'b" where
  "rfold f [] b = Inr b"
| "rfold f (x # xs) b = rbind (f x b) (rfold f xs)"

primrec rfor :: "'a list \<Rightarrow> ('a \<Rightarrow> 'e + unit) \<Rightarrow> 'e + unit" where
  "rfor [] f = Inr ()"
| "rfor (x # xs) f = rbind (f x) (\<lambda>_. rfor xs f)"

lemma rbind_simps [simp]:
  "rbind (Inl e) f = Inl e"
  "rbind (Inr x) f = f x"
  by (simp_all add: rbind_def)

lemma rbind_Inr_iff: "rbind r f = Inr y \<longleftrightarrow> (\<exists>x. r = Inr x \<and> f x = Inr y)"
  by (cases r) auto

lemma rbind_assoc: "rbind (rbind r f) g = rbind r (\<lambda>x. rbind (f x) g)"
  by (cases r) auto

lemma ok_or_simps [simp]:
  "ok_or e None = Inl e"
  "ok_or e (Some x) = Inr x"
  by (simp_all add: ok_or_def)

lemma ok_or_Inr_iff: "ok_or e o' = Inr x \<longleftrightarrow> o' = Some x"
  by (cases o') auto

lemma rfor_Inr_iff: "rfor xs f = Inr u \<longleftrightarrow> (\<forall>x \<in> set xs. f x = Inr ())"
  by (induction xs) (auto simp: rbind_Inr_iff)

lemma rmap_Inr_iff: "rmap f xs = Inr ys \<longleftrightarrow> list_all2 (\<lambda>x y. f x = Inr y) xs ys"
  by (induction xs arbitrary: ys) (auto simp: rbind_Inr_iff list_all2_Cons1)

lemma rmap_length: "rmap f xs = Inr ys \<Longrightarrow> length ys = length xs"
  by (auto simp: rmap_Inr_iff dest: list_all2_lengthD)

lemma rmap_cong: "(\<And>x. x \<in> set xs \<Longrightarrow> f x = g x) \<Longrightarrow> rmap f xs = rmap g xs"
  by (induction xs) auto

lemma rmap_total: "(\<And>x. x \<in> set xs \<Longrightarrow> f x = Inr (g x)) \<Longrightarrow> rmap f xs = Inr (map g xs)"
  by (induction xs) auto

section \<open>Services: state, errors and early return\<close>

type_synonym ('s, 'e, 'a) svc = "'s \<Rightarrow> ('e + 'a) \<times> 's"

definition sret :: "'a \<Rightarrow> ('s, 'e, 'a) svc" where
  "sret x = (\<lambda>s. (Inr x, s))"

definition sfail :: "'e \<Rightarrow> ('s, 'e, 'a) svc" where
  "sfail e = (\<lambda>s. (Inl e, s))"

definition sbind :: "('s, 'e, 'a) svc \<Rightarrow> ('a \<Rightarrow> ('s, 'e, 'b) svc) \<Rightarrow> ('s, 'e, 'b) svc" where
  "sbind m f = (\<lambda>s. case m s of (Inl e, t) \<Rightarrow> (Inl e, t) | (Inr x, t) \<Rightarrow> f x t)"

definition sthen :: "('s, 'e, 'a) svc \<Rightarrow> ('s, 'e, 'b) svc \<Rightarrow> ('s, 'e, 'b) svc" where
  "sthen m k = sbind m (\<lambda>_. k)"

definition sgets :: "('s \<Rightarrow> 'a) \<Rightarrow> ('s, 'e, 'a) svc" where
  "sgets f = (\<lambda>s. (Inr (f s), s))"

definition smodify :: "('s \<Rightarrow> 's) \<Rightarrow> ('s, 'e, unit) svc" where
  "smodify f = (\<lambda>s. (Inr (), f s))"

definition slift :: "'e + 'a \<Rightarrow> ('s, 'e, 'a) svc" where
  "slift r = (\<lambda>s. (r, s))"

text \<open>\<open>satt m\<close> runs \<open>m\<close> and hands its result over as a value: a \<open>match\<close> on a call.\<close>

definition satt :: "('s, 'e, 'a) svc \<Rightarrow> ('s, 'e, 'e + 'a) svc" where
  "satt m = (\<lambda>s. case m s of (r, t) \<Rightarrow> (Inr r, t))"

primrec sfor :: "'a list \<Rightarrow> ('a \<Rightarrow> ('s, 'e, unit) svc) \<Rightarrow> ('s, 'e, unit) svc" where
  "sfor [] f = sret ()"
| "sfor (x # xs) f = sthen (f x) (sfor xs f)"

primrec smap :: "('a \<Rightarrow> ('s, 'e, 'b) svc) \<Rightarrow> 'a list \<Rightarrow> ('s, 'e, 'b list) svc" where
  "smap f [] = sret []"
| "smap f (x # xs) = sbind (f x) (\<lambda>y. sbind (smap f xs) (\<lambda>ys. sret (y # ys)))"

lemma sret_run [svc_simps]: "sret x s = (Inr x, s)"
  by (simp add: sret_def)

lemma sfail_run [svc_simps]: "sfail e s = (Inl e, s)"
  by (simp add: sfail_def)

lemma sgets_run [svc_simps]: "sgets f s = (Inr (f s), s)"
  by (simp add: sgets_def)

lemma smodify_run [svc_simps]: "smodify f s = (Inr (), f s)"
  by (simp add: smodify_def)

lemma slift_run [svc_simps]: "slift r s = (r, s)"
  by (simp add: slift_def)

lemma satt_run [svc_simps]: "satt m s = (Inr (fst (m s)), snd (m s))"
  by (simp add: satt_def split: prod.splits)

lemma sbind_run [svc_simps]:
  "sbind m f s = (case m s of (Inl e, t) \<Rightarrow> (Inl e, t) | (Inr x, t) \<Rightarrow> f x t)"
  by (simp add: sbind_def)

lemma sthen_run [svc_simps]:
  "sthen m k s = (case m s of (Inl e, t) \<Rightarrow> (Inl e, t) | (Inr x, t) \<Rightarrow> k t)"
  by (simp add: sthen_def sbind_def)

lemma sbind_Inr_iff:
  "sbind m f s = (Inr y, u) \<longleftrightarrow> (\<exists>x t. m s = (Inr x, t) \<and> f x t = (Inr y, u))"
  by (auto simp: sbind_def split: prod.splits sum.splits)

lemma sthen_Inr_iff:
  "sthen m k s = (Inr y, u) \<longleftrightarrow> (\<exists>x t. m s = (Inr x, t) \<and> k t = (Inr y, u))"
  by (auto simp: sthen_def sbind_Inr_iff)

lemma sfor_append: "sfor (xs @ ys) f s = sthen (sfor xs f) (sfor ys f) s"
  by (induction xs arbitrary: s) (auto simp: svc_simps split: prod.splits sum.splits)

lemma sbind_assoc: "sbind (sbind m f) g = sbind m (\<lambda>x. sbind (f x) g)"
  by (rule ext) (auto simp: sbind_def split: prod.splits sum.splits)

subsection \<open>Preservation and total success\<close>

definition keeps :: "('s \<Rightarrow> bool) \<Rightarrow> ('s, 'e, 'a) svc \<Rightarrow> bool" where
  "keeps P m \<longleftrightarrow> (\<forall>s. P s \<longrightarrow> P (snd (m s)))"

lemma keepsI [intro?]: "(\<And>s. P s \<Longrightarrow> P (snd (m s))) \<Longrightarrow> keeps P m"
  by (simp add: keeps_def)

lemma keepsD: "keeps P m \<Longrightarrow> P s \<Longrightarrow> P (snd (m s))"
  by (simp add: keeps_def)

lemma keeps_run: "keeps P m \<Longrightarrow> P s \<Longrightarrow> m s = (r, t) \<Longrightarrow> P t"
  by (metis keepsD snd_conv)

lemma keeps_sret [keeps_intro, intro!]: "keeps P (sret x)"
  by (simp add: keeps_def sret_def)

lemma keeps_sfail [keeps_intro, intro!]: "keeps P (sfail e)"
  by (simp add: keeps_def sfail_def)

lemma keeps_sgets [keeps_intro, intro!]: "keeps P (sgets f)"
  by (simp add: keeps_def sgets_def)

lemma keeps_slift [keeps_intro, intro!]: "keeps P (slift r)"
  by (simp add: keeps_def slift_def)

lemma keeps_smodify: "(\<And>s. P s \<Longrightarrow> P (f s)) \<Longrightarrow> keeps P (smodify f)"
  by (simp add: keeps_def smodify_def)

lemma keeps_sbind [keeps_intro]:
  "keeps P m \<Longrightarrow> (\<And>x. keeps P (f x)) \<Longrightarrow> keeps P (sbind m f)"
  by (fastforce simp: keeps_def sbind_def split: prod.splits sum.splits)

lemma keeps_sthen [keeps_intro]: "keeps P m \<Longrightarrow> keeps P k \<Longrightarrow> keeps P (sthen m k)"
  by (simp add: sthen_def keeps_sbind)

lemma keeps_satt [keeps_intro]: "keeps P m \<Longrightarrow> keeps P (satt m)"
  by (fastforce simp: keeps_def satt_def split: prod.splits)

lemma keeps_sfor [keeps_intro]: "(\<And>x. keeps P (f x)) \<Longrightarrow> keeps P (sfor xs f)"
  by (induction xs) (auto intro: keeps_sthen)

lemma keeps_smap [keeps_intro]: "(\<And>x. keeps P (f x)) \<Longrightarrow> keeps P (smap f xs)"
  by (induction xs) (auto intro!: keeps_sbind)

lemma keeps_if [keeps_intro]:
  "(b \<Longrightarrow> keeps P m) \<Longrightarrow> (\<not> b \<Longrightarrow> keeps P k) \<Longrightarrow> keeps P (if b then m else k)"
  by simp

lemma keeps_option [keeps_intro]:
  "(\<And>x. keeps P (f x)) \<Longrightarrow> keeps P n \<Longrightarrow> keeps P (case v of None \<Rightarrow> n | Some x \<Rightarrow> f x)"
  by (cases v) auto

lemma keeps_sum [keeps_intro]:
  "(\<And>x. keeps P (f x)) \<Longrightarrow> (\<And>y. keeps P (g y)) \<Longrightarrow>
   keeps P (case v of Inl x \<Rightarrow> f x | Inr y \<Rightarrow> g y)"
  by (cases v) auto


text \<open>A successful run from a state with \<open>P\<close> ends in a state with \<open>Q\<close>.\<close>

definition returns :: "('s \<Rightarrow> bool) \<Rightarrow> ('s, 'e, 'a) svc \<Rightarrow> ('a \<Rightarrow> 's \<Rightarrow> bool) \<Rightarrow> bool" where
  "returns P m Q \<longleftrightarrow> (\<forall>s x t. P s \<longrightarrow> m s = (Inr x, t) \<longrightarrow> Q x t)"

lemma returnsD: "returns P m Q \<Longrightarrow> P s \<Longrightarrow> m s = (Inr x, t) \<Longrightarrow> Q x t"
  by (auto simp: returns_def)

lemma returns_sbind:
  "returns P m R \<Longrightarrow> (\<And>x. returns (R x) (f x) Q) \<Longrightarrow> returns P (sbind m f) Q"
  by (fastforce simp: returns_def sbind_Inr_iff)

lemma returns_weaken:
  "returns P m Q \<Longrightarrow> (\<And>s. P' s \<Longrightarrow> P s) \<Longrightarrow> (\<And>x t. Q x t \<Longrightarrow> Q' x t) \<Longrightarrow> returns P' m Q'"
  by (fastforce simp: returns_def)

lemma keeps_returns: "keeps P m \<Longrightarrow> returns P m (\<lambda>_. P)"
  by (fastforce simp: keeps_def returns_def)

section \<open>Lists\<close>

lemma find_Some_iff_first:
  "find P xs = Some x \<longleftrightarrow> (\<exists>ys zs. xs = ys @ x # zs \<and> P x \<and> (\<forall>y \<in> set ys. \<not> P y))"
  by (induction xs) (auto simp: Cons_eq_append_conv, metis set_ConsD)

lemma find_SomeD [list_facts]: "find P xs = Some x \<Longrightarrow> x \<in> set xs \<and> P x"
  by (auto simp: find_Some_iff_first)

lemma find_None_iff_all [list_facts]: "find P xs = None \<longleftrightarrow> (\<forall>x \<in> set xs. \<not> P x)"
  by (induction xs) auto

lemma find_map: "find P (map f xs) = map_option f (find (P \<circ> f) xs)"
  by (induction xs) auto

lemma find_append: "find P (xs @ ys) = (case find P xs of None \<Rightarrow> find P ys | Some x \<Rightarrow> Some x)"
  by (induction xs) auto

lemma upt_add_Suc: "[k..<k + Suc n] = k # [Suc k..<Suc k + n]" "[k..<Suc (k + n)] = k # [Suc k..<Suc (k + n)]"
  by (simp_all add: upt_conv_Cons del: upt_Suc)

lemma upt_split: "i \<le> j \<Longrightarrow> j \<le> k \<Longrightarrow> [i..<k] = [i..<j] @ [j..<k]"
  by (metis upt_add_eq_append le_add_diff_inverse)

lemma find_distinct_key:
  "distinct (map key xs) \<Longrightarrow> x \<in> set xs \<Longrightarrow> find (\<lambda>y. key y = key x) xs = Some x"
  by (induction xs) auto

section \<open>Tables of rows with a key\<close>

text \<open>
  \<open>upd u t\<close> runs the update \<open>u\<close>, which addresses the row with key \<open>target u\<close> and changes
  it by \<open>eff u\<close>. The repositories of the coordinator and of the agent are interpreted below as
  such tables.
\<close>

locale keyed_table =
  fixes inv :: "'t \<Rightarrow> bool"
    and lookup :: "'t \<Rightarrow> 'k \<Rightarrow> 'r option"
    and upd :: "'u \<Rightarrow> 't \<Rightarrow> 't"
    and target :: "'u \<Rightarrow> 'k"
    and eff :: "'u \<Rightarrow> 'r \<Rightarrow> 'r"
  assumes inv_upd: "inv t \<Longrightarrow> inv (upd u t)"
    and lookup_upd: "inv t \<Longrightarrow>
      lookup (upd u t) k = (if k = target u then map_option (eff u) (lookup t k) else lookup t k)"
begin

lemma inv_fold: "inv t \<Longrightarrow> inv (fold upd us t)"
  by (induction us arbitrary: t) (auto simp: inv_upd)

text \<open>A run of updates changes a row by the updates that address it, in order.\<close>

lemma lookup_fold:
  "inv t \<Longrightarrow> lookup (fold upd us t) k = map_option (fold eff (filter (\<lambda>u. target u = k) us)) (lookup t k)"
  by (induction us arbitrary: t) (auto simp: inv_upd lookup_upd option.map_comp comp_def option.map_id)

lemma lookup_fold_other:
  "inv t \<Longrightarrow> k \<notin> target ` set us \<Longrightarrow> lookup (fold upd us t) k = lookup t k"
  by (induction us arbitrary: t) (auto simp: inv_upd lookup_upd)

lemma filter_distinct_target:
  "distinct (map target us) \<Longrightarrow> u \<in> set us \<Longrightarrow> filter (\<lambda>v. target v = target u) us = [u]"
proof (induction us)
  case (Cons v us)
  show ?case
  proof (cases "u = v")
    case True
    with Cons.prems show ?thesis by (auto simp: filter_empty_conv) (metis image_eqI)
  next
    case False
    with Cons show ?thesis by (auto simp: image_iff)
  qed
qed simp

lemma lookup_fold_distinct:
  "inv t \<Longrightarrow> distinct (map target us) \<Longrightarrow> u \<in> set us \<Longrightarrow>
   lookup (fold upd us t) (target u) = map_option (eff u) (lookup t (target u))"
  by (simp add: lookup_fold filter_distinct_target)

lemma lookup_fold_dom: "inv t \<Longrightarrow> (lookup (fold upd us t) k = None) = (lookup t k = None)"
  by (induction us arbitrary: t) (auto simp: inv_upd lookup_upd)

end

section \<open>Repositories with a queue of statements\<close>

text \<open>
  \<open>push\<close> queues a statement without touching the committed data; \<open>save\<close> applies the queue
  as one transaction: all of it, or nothing if a statement fails.
\<close>

primrec run_stmts :: "('st \<Rightarrow> 'd \<Rightarrow> 'd option) \<Rightarrow> 'st list \<Rightarrow> 'd \<Rightarrow> 'd option" where
  "run_stmts ex [] d = Some d"
| "run_stmts ex (st # sts) d = (case ex st d of None \<Rightarrow> None | Some d' \<Rightarrow> run_stmts ex sts d')"

lemma run_stmts_append:
  "run_stmts ex (xs @ ys) d =
     (case run_stmts ex xs d of None \<Rightarrow> None | Some d' \<Rightarrow> run_stmts ex ys d')"
  by (induction xs arbitrary: d) (auto split: option.splits)

lemma run_stmts_total:
  "(\<And>st d. st \<in> set sts \<Longrightarrow> ex st d = Some (f st d)) \<Longrightarrow> run_stmts ex sts d = Some (fold f sts d)"
  by (induction sts arbitrary: d) auto

locale unit_of_work =
  fixes ok :: "'s \<Rightarrow> bool"
    and committed :: "'s \<Rightarrow> 'd"
    and queued :: "'s \<Rightarrow> 'st list"
    and push :: "'st \<Rightarrow> 's \<Rightarrow> 's"
    and save :: "'s \<Rightarrow> ('e + bool) \<times> 's"
    and ex :: "'st \<Rightarrow> 'd \<Rightarrow> 'd option"
  assumes ok_push: "ok s \<Longrightarrow> ok (push st s)"
    and committed_push: "committed (push st s) = committed s"
    and queued_push: "queued (push st s) = queued s @ [st]"
    and ok_save: "ok s \<Longrightarrow> ok (snd (save s))"
    and queued_save: "ok s \<Longrightarrow> queued (snd (save s)) = []"
    and committed_save: "ok s \<Longrightarrow>
      committed (snd (save s)) =
        (case run_stmts ex (queued s) (committed s) of None \<Rightarrow> committed s | Some d \<Rightarrow> d)"
    and save_fails: "ok s \<Longrightarrow>
      (\<exists>e. fst (save s) = Inl e) = (run_stmts ex (queued s) (committed s) = None)"
begin

lemma ok_pushes: "ok s \<Longrightarrow> ok (fold push sts s)"
  by (induction sts arbitrary: s) (auto simp: ok_push)

lemma committed_pushes: "committed (fold push sts s) = committed s"
  by (induction sts arbitrary: s) (auto simp: committed_push)

lemma queued_pushes: "queued (fold push sts s) = queued s @ sts"
  by (induction sts arbitrary: s) (auto simp: queued_push)

text \<open>Statements queued on an empty queue and saved take effect together, in order.\<close>

lemma save_pushes:
  assumes "ok s" "queued s = []" "run_stmts ex sts (committed s) = Some d"
  shows "committed (snd (save (fold push sts s))) = d"
    and "\<exists>b. fst (save (fold push sts s)) = Inr b"
proof -
  let ?s = "fold push sts s"
  have run: "run_stmts ex (queued ?s) (committed ?s) = Some d"
    using assms by (simp add: queued_pushes committed_pushes)
  have ok: "ok ?s" using assms(1) by (rule ok_pushes)
  show "committed (snd (save ?s)) = d" using run by (simp add: committed_save [OF ok])
  have "\<not> (\<exists>e. fst (save ?s) = Inl e)" using run by (simp add: save_fails [OF ok])
  then show "\<exists>b. fst (save ?s) = Inr b" by (cases "fst (save ?s)") auto
qed

text \<open>A failing statement leaves no trace in the committed data.\<close>

lemma save_atomic:
  "ok s \<Longrightarrow> fst (save s) = Inl e \<Longrightarrow> committed (snd (save s)) = committed s"
  using save_fails [of s] committed_save [of s] by auto

end

end
