(* ===== verification/KC_Types.thy ===== *)
theory KC_Types
  imports KC_Prelude
begin

text \<open>
  The data of the workflow engine: \<open>kernel/src/models/workflow_engine/*.rs\<close>,
  \<open>kernel/src/models/task.rs\<close>, \<open>kernel/src/exceptions/workflow_draft.rs\<close> and the command
  types of \<open>kernel/src/service/workflow_engine\<close>. A struct is a record, an enum a datatype
  with the source's constructors (prefixed where two enums share a name). \<open>Vec\<close> is a list,
  \<open>Option\<close> an option, \<open>HashMap\<close> a map; \<open>usize\<close> and \<open>u64\<close> counts are \<open>nat\<close>, timestamps
  \<open>int\<close>. A \<open>Uuid\<close> is its 128 bits; \<open>Uuid::default()\<close> is 0.
\<close>

section \<open>Errors\<close>

text \<open>
  \<open>WorkflowDraftException\<close>, and the errors of the engine: \<open>Panic\<close> for an \<open>unwrap\<close> of
  nothing, an \<open>unreachable!\<close> or an overflow check, one constructor per \<open>anyhow\<close> error.
\<close>

datatype workflow_draft_exception =
    JSONSchema string
  | NoSuchNode uuid
  | NoSuchInputSlot uuid string
  | NoSuchOutputSlot uuid string
  | NotSingleInputWithMatchRegex uuid string
  | OriginalBatchInputsLessThanOne uuid string
  | NoSuchBatchOutputs uuid string
  | ReliedNodeIsNotBatched uuid uuid string
  | ReliedSlotIsNotBatched uuid string uuid string
  | NoneFile uuid
  | MismatchPairedSlot uuid string uuid string
  | ReliedSlotContentsNotEmpty uuid string uuid string
  | NoReliedSlotContentsEmpty uuid string
  | FileMetadataNotUploaded uuid uuid string
  | DulplicatedBatchStrategy string
  | AtLeastOneCluster
  | BatchInputNotOffer
  | UnknownDraftError

text \<open>The errors of the package library, \<open>RepoPanic\<close> for a panic.\<close>

datatype repo_err =
    RepoPanic
  | FetchError
  | NoManifest uuid
  | UnreadableEntry
  | BadManifest
  | BadMaterial
  | NotUsecasePackage uuid
  | NotSoftwarePackage uuid
  | NoArgumentMaterial string
  | NoEnvironmentMaterial string
  | NoFileMaterial string
  | NoTemplate string
  | TemplateRefNotImplemented
  | NoCollectedOut string
  | NoFilesomeOutput string
  | CollectedOutOfCollectedOut
  | FileSlotAppointsPath
  | NoTextInputSlot string
  | MismatchedCollectedOut string
  | SortNotFromZero
  | SortGap nat nat

datatype kerr =
    Panic
  | Specific workflow_draft_exception
  | OutputSlotKindNotFile string
  | OutputSlotKindNotText string
  | NoNthOutput
  | UnknownInputSlotKind
  | MismatchedInputType string
  | UnknownInputType
  | InputSlotNotFile
  | NoSuchNodeInstance uuid
  | NoSuchFlowInstance uuid
  | NoSuchDraft uuid
  | WrongNodeKindCode
  | WrongNodeStatusCode
  | WrongFlowStatusCode
  | NoUserId
  | DbErr
  | NoSuchTextKey
  | NotFullyScheduled uuid
  | UnreachableNodeKind
  | NodeWithoutCluster
  | NoSuchSubTaskService
  | NoSuchCluster uuid
  | NotASubNode
  | RemoteError
  | UrlParseError
  | TemplateError
  | JsonError
  | PackageError repo_err

section \<open>Workflow drafts and instances: \<open>models/workflow_engine/common.rs\<close>\<close>

datatype scheduling_strategy = Manual "uuid list" | Auto | Prefer "uuid list"

datatype transfer_strategy = Network | Disk

record slot_relation =
  from_slot :: string
  to_slot :: string
  transfer_strategy :: transfer_strategy

record node_relation =
  from_id :: uuid
  to_id :: uuid
  slot_relations :: "slot_relation list"

record requirements =
  cpu_cores :: "nat option"
  node_count :: "int option"
  max_wall_time :: "nat option"
  max_cpu_time :: "nat option"
  stop_time :: "nat option"

datatype filler = AutoNumber i32 i32 | Enumeration "string list"

datatype batch_strategy_kind = OriginalBatch | MatchRegex string nat filler | FromBatchOutputs

record batch_strategy =
  bs_slot :: string
  renaming_pattern :: "string option"
  bs_kind :: batch_strategy_kind

record file_input =
  file_metadata_id :: uuid
  file_metadata_name :: string
  fi_hash :: string
  fi_size :: nat

definition file_input_default :: file_input where
  "file_input_default = \<lparr>file_metadata_id = 0, file_metadata_name = '''', fi_hash = '''', fi_size = 0\<rparr>"

datatype input = TextInput uuid | FileIn file_input

datatype text_input_slot_rule = RuleJson | RuleNumber | RuleRegex string | RuleAnyString

datatype node_input_slot_kind =
    SlotText "uuid list option" text_input_slot_rule
  | SlotFile "file_input list option" "string option" bool
  | SlotUnknown

record node_input_slot =
  is_kind :: node_input_slot_kind
  is_optional :: bool
  is_descriptor :: string
  is_description :: "string option"

definition is_empty_input :: "node_input_slot \<Rightarrow> kerr + bool" where
  "is_empty_input s =
     (case is_kind s of
        SlotText contents _ \<Rightarrow> Inr (contents = None)
      | SlotFile contents _ _ \<Rightarrow> Inr (contents = None)
      | SlotUnknown \<Rightarrow> Inl Panic)"

datatype file_out_origin = CollectedOutOrigin | UsecaseOutOrigin

text \<open>The output checks of \<open>lib-co-repo/src/models/abilities/common.rs\<close>.\<close>

datatype validate_rule = VRegex string | VIsEmpty bool

datatype validated_operation = ReportSuccess | ReportFailure

record out_validator =
  validate_rules :: validate_rule
  pass_operation :: validated_operation
  failure_operation :: validated_operation
  ov_metadata :: "(string \<times> string) list"

record out_path_and_validate =
  opv_path :: string
  opv_validator :: "out_validator option"

datatype script_origin_kind = Git string | Edit string

datatype script_kind = Python

record script_info =
  si_kind :: script_kind
  si_input_path :: "(string \<times> string) list"
  si_output_path :: "(string \<times> out_path_and_validate) list"
  si_origin :: script_origin_kind

record software_usecase_computing =
  usecase_version_id :: uuid
  software_version_id :: uuid

record milestone =
  ms_name :: string
  ms_url :: string
  ms_custom_message :: string

datatype node_kind =
    SoftwareUsecaseComputing software_usecase_computing
  | NoAction
  | Script script_info
  | Milestone milestone

text \<open>\<open>serde_json::Value\<close>, which the engine only carries along.\<close>

datatype json =
  JNull | JBool bool | JNumber int | JString string | JArray "json list" | JObject "(string \<times> json) list"

section \<open>Drafts: \<open>models/workflow_engine/workflow_draft.rs\<close>\<close>

datatype node_draft_output_slot_kind = DraftFile file_out_origin bool | DraftText

record node_draft_output_slot =
  dos_kind :: node_draft_output_slot_kind
  dos_descriptor :: string
  dos_description :: "string option"
  dos_optional :: bool

record node_draft =
  nd_kind :: node_kind
  external_id :: uuid
  nd_name :: string
  nd_description :: string
  nd_batch_strategies :: "batch_strategy list option"
  nd_input_slots :: "node_input_slot list"
  nd_output_slots :: "node_draft_output_slot list"
  nd_scheduling_strategy :: scheduling_strategy
  nd_requirements :: "requirements option"
  nd_additional_datas :: "(string \<times> json) list option"

record workflow_draft_spec =
  ds_scheduling_strategy :: scheduling_strategy
  node_drafts :: "node_draft list"
  ds_node_relations :: "node_relation list"

record workflow_draft =
  wd_id :: uuid
  wd_name :: string
  wd_description :: string
  wd_logo :: "string option"
  wd_spec :: workflow_draft_spec

section \<open>Instances: \<open>workflow_instance.rs\<close> and \<open>node_instance.rs\<close>\<close>

datatype node_spec_output_slot_kind =
    OutFile file_out_origin bool "uuid list"
  | OutText "uuid list"

record node_spec_output_slot =
  os_kind :: node_spec_output_slot_kind
  os_descriptor :: string
  os_description :: "string option"
  os_optional :: bool

record node_spec =
  ns_kind :: node_kind
  ns_id :: uuid
  ns_name :: string
  ns_description :: string
  input_slots :: "node_input_slot list"
  output_slots :: "node_spec_output_slot list"
  ns_scheduling_strategy :: scheduling_strategy
  batch_strategies :: "batch_strategy list"
  ns_requirements :: "requirements option"
  ns_additional_datas :: "(string \<times> json) list option"

record workflow_instance_spec =
  ws_scheduling_strategy :: scheduling_strategy
  node_specs :: "node_spec list"
  node_relations :: "node_relation list"

datatype workflow_instance_status =
    FCreated | FPending | FRunning | FFinished | FError | FStopping | FStopped
  | FPausing | FPaused | FRecovering | FUnknown

record workflow_instance =
  wi_id :: uuid
  wi_name :: string
  wi_description :: string
  wi_logo :: "string option"
  wi_status :: workflow_instance_status
  wi_spec :: workflow_instance_spec
  wi_last_modified_time :: int
  wi_user_id :: uuid

datatype node_instance_kind =
  KSoftwareUsecaseComputing | KNoAction | KScript | KMilestone

datatype node_instance_status =
    Created | Pending | Running | Finished | Error | Stopping | Stopped | Standby
  | Pausing | Paused | Recovering

record task_used_resource =
  cpu :: nat
  avg_memory :: nat
  max_memory :: nat
  storage :: nat
  wall_time :: nat
  cpu_time :: nat
  res_node :: nat
  start_time :: int
  end_time :: int

record node_instance =
  ni_kind :: node_instance_kind
  ni_id :: uuid
  ni_name :: string
  is_parent :: bool
  batch_parent_id :: "uuid option"
  flow_instance_id :: uuid
  ni_status :: node_instance_status
  cluster_id :: "uuid option"
  ni_log :: "string option"
  resource_meter :: "task_used_resource option"

section \<open>Tasks and their results: \<open>models/task.rs\<close>\<close>

datatype task_command = CmdStart | CmdPause | CmdContinue | CmdDelete

datatype facility_kind = Spack string "string list" | Singularity string string

datatype software_spec = RepoSpack string "string list" | RepoSingularity string string

fun facility_kind_from :: "software_spec \<Rightarrow> facility_kind" where
  "facility_kind_from (RepoSpack name argument_list) = Spack name argument_list"
| "facility_kind_from (RepoSingularity img tag) = Singularity img tag"

datatype std_in_kind = StdInText string | StdInFile string | StdInNone

datatype in_file_form = FormId uuid | FormContent string

datatype file_info =
    FileInfoInput string bool in_file_form
  | FileInfoOutput uuid string bool bool

fun file_info_path :: "file_info \<Rightarrow> string" where
  "file_info_path (FileInfoInput path _ _) = path"
| "file_info_path (FileInfoOutput _ path _ _) = path"

datatype collect_from = FileOut string | Stdout | Stderr

datatype collect_to = CollectFile string uuid | CollectText uuid

datatype collect_rule = CRegex string | BottomLines nat | TopLines nat

datatype file_transmit_kind = Center uuid bool | P2P uuid bool | TransmitText string

datatype task_body =
    SoftwareDeployment facility_kind
  | UsecaseExecution string facility_kind "string list" "(string \<times> string) list" std_in_kind
      "file_info list" "requirements option"
  | CollectedOut collect_from collect_rule collect_to bool
  | ExecuteScript script_info
  | FileUpload string string bool
  | FileDownload file_transmit_kind string

record task =
  task_id :: uuid
  task_body :: "task_body list"
  task_command :: task_command

datatype task_result_status = TSuccess | TFailed | TPaused | TContinued | TDeleted

record task_result =
  tr_id :: uuid
  tr_status :: task_result_status
  tr_message :: string
  tr_used_resources :: "task_used_resource option"

section \<open>Commands of the services\<close>

record operation =
  op_task_id :: uuid
  op_command :: task_command

record operate_task =
  ot_kind :: node_instance_kind
  ot_operate :: operation

datatype schedule_mode = WorkflowInstanceId uuid | NodeInstanceId uuid

end
