(* ===== verification/KC_Slots.thy ===== *)
theory KC_Slots
  imports KC_Types
begin

text \<open>
  Slots, nodes and relations of a workflow instance: \<open>kernel/src/models/impls/common.rs\<close> and
  \<open>kernel/src/models/impls/workflow_instance.rs\<close>.

  \<open>Uuid::new_v4\<close> is the function \<open>gen\<close> of the draws made so far; a function that draws
  takes the number of draws and returns the new one. \<open>rand\<close>'s draws are read the same way.
  The lemmas give what each lookup returns, the effect of filling the slots, that batch
  expansion keeps every node but its id and slots, and the number of sub-tasks of a node,
  with the condition under which the count is reached at all.
\<close>

section \<open>Slots: \<open>impls/common.rs\<close>\<close>

definition inputs_count :: "node_input_slot \<Rightarrow> kerr + nat" where
  "inputs_count s =
     (case is_kind s of
        SlotText contents _ \<Rightarrow> rbind (ok_or Panic contents) (\<lambda>c. Inr (length c))
      | SlotFile contents _ _ \<Rightarrow> rbind (ok_or Panic contents) (\<lambda>c. Inr (length c))
      | SlotUnknown \<Rightarrow> Inl Panic)"

definition inputs :: "node_input_slot \<Rightarrow> kerr + input list" where
  "inputs s =
     (case is_kind s of
        SlotText contents _ \<Rightarrow> rbind (ok_or Panic contents) (\<lambda>c. Inr (map TextInput c))
      | SlotFile contents _ _ \<Rightarrow> rbind (ok_or Panic contents) (\<lambda>c. Inr (map FileIn c))
      | SlotUnknown \<Rightarrow> Inl Panic)"

definition file_inputs :: "node_input_slot \<Rightarrow> kerr + file_input list" where
  "file_inputs s =
     (case is_kind s of
        SlotFile contents _ _ \<Rightarrow> ok_or Panic contents
      | _ \<Rightarrow> Inl InputSlotNotFile)"

definition is_same_kind :: "node_input_slot_kind \<Rightarrow> node_draft_output_slot_kind \<Rightarrow> kerr + bool" where
  "is_same_kind k r =
     (case k of
        SlotText _ _ \<Rightarrow> Inr (case r of DraftText \<Rightarrow> True | DraftFile _ _ \<Rightarrow> False)
      | SlotFile _ _ _ \<Rightarrow> Inr (case r of DraftText \<Rightarrow> False | DraftFile _ _ \<Rightarrow> True)
      | SlotUnknown \<Rightarrow> Inl UnknownInputType)"

lemma inputs_length:
  "inputs s = Inr xs \<Longrightarrow> inputs_count s = Inr (length xs)"
  by (auto simp: inputs_def inputs_count_def rbind_Inr_iff split: node_input_slot_kind.splits)

lemma inputs_count_inputs:
  "inputs_count s = Inr n \<Longrightarrow> \<exists>xs. inputs s = Inr xs \<and> length xs = n"
  by (auto simp: inputs_def inputs_count_def rbind_Inr_iff split: node_input_slot_kind.splits)

subsection \<open>Relations\<close>

text \<open>
  \<open>update_id\<close> runs over the pairs of a \<open>HashMap\<close>, in the order the map happens to have:
  \<open>id_map\<close> is the list of the pairs in that order.
\<close>

definition update_id_step :: "uuid \<times> uuid \<Rightarrow> node_relation \<Rightarrow> node_relation" where
  "update_id_step p r =
     (let r1 = (if fst p = from_id r then r\<lparr>from_id := snd p\<rparr> else r)
      in (if fst p = to_id r1 then r1\<lparr>to_id := snd p\<rparr> else r1))"

definition update_id :: "(uuid \<times> uuid) list \<Rightarrow> node_relation \<Rightarrow> node_relation" where
  "update_id id_map r = fold update_id_step id_map r"

definition rename :: "(uuid \<times> uuid) list \<Rightarrow> uuid \<Rightarrow> uuid" where
  "rename id_map i = (case map_of id_map i of None \<Rightarrow> i | Some j \<Rightarrow> j)"

lemma update_id_step_fields:
  "from_id (update_id_step p r) = (if fst p = from_id r then snd p else from_id r)"
  "to_id (update_id_step p r) = (if fst p = to_id r then snd p else to_id r)"
  "slot_relations (update_id_step p r) = slot_relations r"
  by (auto simp: update_id_step_def Let_def)

lemma fold_rename:
  assumes "distinct (map fst m)" "fst ` set m \<inter> snd ` set m = {}"
  shows "fold (\<lambda>p i. if fst p = i then snd p else i) m i = rename m i"
  using assms
proof (induction m arbitrary: i)
  case (Cons p m)
  have same: "fold (\<lambda>p i. if fst p = i then snd p else i) m j = j" if "j \<notin> fst ` set m" for j
    using that by (induction m arbitrary: j) auto
  show ?case
  proof (cases "fst p = i")
    case True
    from Cons.prems have "snd p \<notin> fst ` set m" by auto
    with True same show ?thesis by (cases p) (simp add: rename_def)
  next
    case False
    have "fold (\<lambda>p i. if fst p = i then snd p else i) m i = rename m i"
      using Cons.prems by (intro Cons.IH) auto
    with False show ?thesis by (cases p) (auto simp: rename_def)
  qed
qed (simp add: rename_def)

lemma update_id_fields:
  "from_id (update_id m r) = fold (\<lambda>p i. if fst p = i then snd p else i) m (from_id r)"
  "to_id (update_id m r) = fold (\<lambda>p i. if fst p = i then snd p else i) m (to_id r)"
  "slot_relations (update_id m r) = slot_relations r"
  unfolding update_id_def
  by (induction m arbitrary: r) (auto simp: update_id_step_fields)

lemma update_id_rename:
  assumes "distinct (map fst m)" "fst ` set m \<inter> snd ` set m = {}"
  shows "from_id (update_id m r) = rename m (from_id r)"
    and "to_id (update_id m r) = rename m (to_id r)"
  using fold_rename [OF assms] by (simp_all add: update_id_fields)

subsection \<open>Fillers\<close>

text \<open>
  \<open>str::replace\<close> of the standard library: every non-overlapping occurrence from the left.
  The empty pattern matches before every character and at the end.
\<close>

function str_replace :: "string \<Rightarrow> string \<Rightarrow> string \<Rightarrow> string" where
  "str_replace pat rep s =
     (if pat = [] then rep @ concat (map (\<lambda>c. c # rep) s)
      else case s of
             [] \<Rightarrow> []
           | c # cs \<Rightarrow>
               if take (length pat) s = pat then rep @ str_replace pat rep (drop (length pat) s)
               else c # str_replace pat rep cs)"
  by pat_completeness auto
termination
  by (relation "measure (\<lambda>(pat, rep, s). length s)") auto

declare str_replace.simps [simp del]

text \<open>
  \<open>fill_match_regex\<close>: \<open>fill_count\<close> copies of the content, each with the occurrences of
  \<open>regex_to_match\<close> replaced. \<open>AutoNumber\<close> adds the step after every copy, the last one
  included; \<open>Enumeration\<close> draws the item, and panics on an empty list. \<open>rnd\<close> is the
  generator's source: \<open>gen_range(0..n)\<close> is a draw below \<open>n\<close>.
\<close>

fun fill_auto :: "bool \<Rightarrow> string \<Rightarrow> string \<Rightarrow> i32 \<Rightarrow> i32 \<Rightarrow> nat \<Rightarrow> kerr + string list" where
  "fill_auto oc content pat current step 0 = Inr []"
| "fill_auto oc content pat current step (Suc n) =
     (case i32_add oc current step of
        None \<Rightarrow> Inl Panic
      | Some next \<Rightarrow>
          rbind (fill_auto oc content pat next step n)
            (\<lambda>ts. Inr (str_replace pat (show_i32 current) content # ts)))"

fun fill_enum :: "(nat \<Rightarrow> nat) \<Rightarrow> nat \<Rightarrow> string \<Rightarrow> string \<Rightarrow> string list \<Rightarrow> nat \<Rightarrow> kerr + string list" where
  "fill_enum rnd k content pat items 0 = Inr []"
| "fill_enum rnd k content pat items (Suc n) =
     (if items = [] then Inl Panic
      else rbind (fill_enum rnd (Suc k) content pat items n)
             (\<lambda>ts. Inr (str_replace pat (items ! (rnd k mod length items)) content # ts)))"

definition fill_match_regex ::
  "bool \<Rightarrow> (nat \<Rightarrow> nat) \<Rightarrow> nat \<Rightarrow> filler \<Rightarrow> string \<Rightarrow> string \<Rightarrow> nat \<Rightarrow> kerr + string list" where
  "fill_match_regex oc rnd k filler content regex_to_match fill_count =
     (case filler of
        AutoNumber start step \<Rightarrow> fill_auto oc content regex_to_match start step fill_count
      | Enumeration items \<Rightarrow> fill_enum rnd k content regex_to_match items fill_count)"

lemma fill_auto_length: "fill_auto oc c p a st n = Inr ts \<Longrightarrow> length ts = n"
  by (induction n arbitrary: a ts) (auto simp: rbind_Inr_iff split: option.splits)

lemma fill_enum_length: "fill_enum rnd k c p items n = Inr ts \<Longrightarrow> length ts = n"
  by (induction n arbitrary: k ts) (auto simp: rbind_Inr_iff split: if_splits)

lemma fill_match_regex_length:
  "fill_match_regex oc rnd k f c p n = Inr ts \<Longrightarrow> length ts = n"
  by (auto simp: fill_match_regex_def fill_auto_length fill_enum_length split: filler.splits)

lemma fill_auto_nth:
  "fill_auto False c p a st n = Inr ts \<Longrightarrow> i < n \<Longrightarrow>
   ts ! i = str_replace p (show_i32 (a + of_nat i * st)) c"
proof (induction n arbitrary: a ts i)
  case (Suc n)
  from Suc.prems(1) obtain us where us: "fill_auto False c p (a + st) st n = Inr us"
    and ts: "ts = str_replace p (show_i32 a) c # us"
    by (auto simp: rbind_Inr_iff i32_add_def)
  show ?case
  proof (cases i)
    case (Suc j)
    with Suc.IH [OF us, of j] Suc.prems(2) ts show ?thesis
      by (simp add: algebra_simps)
  qed (simp add: ts)
qed simp

lemma fill_auto_wraps: "\<exists>ts. fill_auto False c p a st n = Inr ts"
  by (induction n arbitrary: a) (auto simp: i32_add_def rbind_def split: sum.splits, metis sum.distinct(1) obj_sumE)

lemma fill_enum_items:
  "fill_enum rnd k c p items n = Inr ts \<Longrightarrow> t \<in> set ts \<Longrightarrow> \<exists>x \<in> set items. t = str_replace p x c"
proof (induction n arbitrary: k ts)
  case (Suc n)
  then obtain us where items: "items \<noteq> []" and us: "fill_enum rnd (Suc k) c p items n = Inr us"
    and ts: "ts = str_replace p (items ! (rnd k mod length items)) c # us"
    by (auto simp: rbind_Inr_iff split: if_splits)
  have "items ! (rnd k mod length items) \<in> set items" using items by simp
  with Suc.IH [OF us] Suc.prems(2) ts show ?case by auto
qed simp

section \<open>Nodes and instances: \<open>impls/workflow_instance.rs\<close>\<close>

text \<open>The lookups by id and descriptor: the first match, or a panic (\<open>unwrap\<close>).\<close>

definition input_slot :: "node_spec \<Rightarrow> string \<Rightarrow> kerr + node_input_slot" where
  "input_slot ns d = ok_or Panic (find (\<lambda>el. is_descriptor el = d) (input_slots ns))"

definition output_slot :: "node_spec \<Rightarrow> string \<Rightarrow> kerr + node_spec_output_slot" where
  "output_slot ns d = ok_or Panic (find (\<lambda>el. os_descriptor el = d) (output_slots ns))"

definition spec_node :: "workflow_instance_spec \<Rightarrow> uuid \<Rightarrow> kerr + node_spec" where
  "spec_node sp i = ok_or Panic (find (\<lambda>el. ns_id el = i) (node_specs sp))"

text \<open>
  A mutable lookup (\<open>mut_input_slot\<close>, \<open>node_mut\<close>) followed by an assignment: the first match
  is replaced.
\<close>

fun update_first :: "('a \<Rightarrow> bool) \<Rightarrow> ('a \<Rightarrow> kerr + 'a) \<Rightarrow> 'a list \<Rightarrow> kerr + 'a list" where
  "update_first p f [] = Inl Panic"
| "update_first p f (x # xs) =
     (if p x then rbind (f x) (\<lambda>y. Inr (y # xs))
      else rbind (update_first p f xs) (\<lambda>ys. Inr (x # ys)))"

definition mut_input_slot ::
  "string \<Rightarrow> (node_input_slot \<Rightarrow> kerr + node_input_slot) \<Rightarrow> node_spec \<Rightarrow> kerr + node_spec" where
  "mut_input_slot d f ns =
     rbind (update_first (\<lambda>el. is_descriptor el = d) f (input_slots ns))
       (\<lambda>sl. Inr (ns\<lparr>input_slots := sl\<rparr>))"

definition node_mut ::
  "uuid \<Rightarrow> (node_spec \<Rightarrow> kerr + node_spec) \<Rightarrow> workflow_instance_spec \<Rightarrow> kerr + workflow_instance_spec" where
  "node_mut i f sp =
     rbind (update_first (\<lambda>el. ns_id el = i) f (node_specs sp))
       (\<lambda>ns. Inr (sp\<lparr>node_specs := ns\<rparr>))"

definition node_dependency_relations :: "workflow_instance \<Rightarrow> uuid \<Rightarrow> node_relation list" where
  "node_dependency_relations w i = filter (\<lambda>el. to_id el = i) (node_relations (wi_spec w))"

definition all_tasks_file_outputs :: "node_spec_output_slot \<Rightarrow> kerr + uuid list" where
  "all_tasks_file_outputs s =
     (case os_kind s of
        OutFile _ _ ids \<Rightarrow> Inr ids
      | OutText _ \<Rightarrow> Inl (OutputSlotKindNotFile (os_descriptor s)))"

definition all_tasks_text_outputs :: "node_spec_output_slot \<Rightarrow> kerr + uuid list" where
  "all_tasks_text_outputs s =
     (case os_kind s of
        OutText ids \<Rightarrow> Inr ids
      | OutFile _ _ _ \<Rightarrow> Inl (OutputSlotKindNotText (os_descriptor s)))"

text \<open>The \<open>nth\<close> element of a \<open>Vec\<close>: \<open>get(n)\<close> and the error given for a missing one.\<close>

definition nth_or :: "kerr \<Rightarrow> 'a list \<Rightarrow> nat \<Rightarrow> kerr + 'a" where
  "nth_or e xs n = (if n < length xs then Inr (xs ! n) else Inl e)"

definition fill_from_output ::
  "kerr \<Rightarrow> kerr \<Rightarrow> node_spec_output_slot \<Rightarrow> nat \<Rightarrow> node_input_slot \<Rightarrow> kerr + node_input_slot" where
  "fill_from_output missing unknown out_slot n s =
     (case is_kind s of
        SlotText _ rl \<Rightarrow>
          rbind (all_tasks_text_outputs out_slot) (\<lambda>ids.
          rbind (nth_or missing ids n) (\<lambda>i.
          Inr (s\<lparr>is_kind := SlotText (Some [i]) rl\<rparr>)))
      | SlotFile _ ex b \<Rightarrow>
          rbind (all_tasks_file_outputs out_slot) (\<lambda>ids.
          rbind (nth_or missing ids n) (\<lambda>i.
          Inr (s\<lparr>is_kind := SlotFile (Some [file_input_default\<lparr>file_metadata_id := i\<rparr>]) ex b\<rparr>)))
      | SlotUnknown \<Rightarrow> Inl unknown)"

definition produce_node_spec_by_complete_node_inputs ::
  "workflow_instance \<Rightarrow> node_spec \<Rightarrow> nat option \<Rightarrow> kerr + node_spec" where
  "produce_node_spec_by_complete_node_inputs w node at =
     (let n = (case at of None \<Rightarrow> 0 | Some k \<Rightarrow> k);
          rels = node_dependency_relations w (ns_id node)
      in rbind (rmap (\<lambda>slot.
            rfold (\<lambda>rel.
              rfold (\<lambda>sr s.
                if to_slot sr = is_descriptor s then
                  rbind (spec_node (wi_spec w) (from_id rel)) (\<lambda>from_node.
                  rbind (output_slot from_node (from_slot sr)) (\<lambda>out_slot.
                  fill_from_output NoNthOutput UnknownInputSlotKind out_slot n s))
                else Inr s) (slot_relations rel)) rels slot) (input_slots node))
         (\<lambda>sl. Inr (node\<lparr>input_slots := sl\<rparr>)))"

text \<open>\<open>update_with_inputs\<close>: every slot with the descriptor of an input takes that input.\<close>

definition set_slot_input :: "input \<Rightarrow> node_input_slot \<Rightarrow> kerr + node_input_slot" where
  "set_slot_input inp s =
     (case is_kind s of
        SlotText _ rl \<Rightarrow>
          (case inp of
             TextInput i \<Rightarrow> Inr (s\<lparr>is_kind := SlotText (Some [i]) rl\<rparr>)
           | FileIn _ \<Rightarrow> Inl (MismatchedInputType (is_descriptor s)))
      | SlotFile _ ex b \<Rightarrow>
          (case inp of
             FileIn f \<Rightarrow> Inr (s\<lparr>is_kind := SlotFile (Some [f]) ex b\<rparr>)
           | TextInput _ \<Rightarrow> Inl (MismatchedInputType (is_descriptor s)))
      | SlotUnknown \<Rightarrow> Inl UnknownInputType)"

definition update_with_inputs :: "(string \<times> input) list \<Rightarrow> node_spec \<Rightarrow> kerr + node_spec" where
  "update_with_inputs ins ns =
     rbind (rfold (\<lambda>(d, inp).
              rmap (\<lambda>s. if is_descriptor s = d then set_slot_input inp s else Inr s)) ins (input_slots ns))
       (\<lambda>sl. Inr (ns\<lparr>input_slots := sl\<rparr>))"

text \<open>\<open>update_output_slots\<close>: each output slot gets one freshly drawn id.\<close>

fun fresh_outputs ::
  "(nat \<Rightarrow> uuid) \<Rightarrow> nat \<Rightarrow> node_spec_output_slot list \<Rightarrow> node_spec_output_slot list" where
  "fresh_outputs gen k [] = []"
| "fresh_outputs gen k (s # ss) =
     s\<lparr>os_kind := (case os_kind s of
                    OutFile og b _ \<Rightarrow> OutFile og b [gen k]
                  | OutText _ \<Rightarrow> OutText [gen k])\<rparr> # fresh_outputs gen (Suc k) ss"

definition update_output_slots :: "(nat \<Rightarrow> uuid) \<Rightarrow> nat \<Rightarrow> node_spec \<Rightarrow> node_spec \<times> nat" where
  "update_output_slots gen k ns =
     (ns\<lparr>output_slots := fresh_outputs gen k (output_slots ns)\<rparr>, k + length (output_slots ns))"

text \<open>\<open>parse_sub_nodes\<close>: one copy of the node per pair of a sub-node id and its inputs.\<close>

fun parse_sub_nodes ::
  "(nat \<Rightarrow> uuid) \<Rightarrow> nat \<Rightarrow> node_spec \<Rightarrow> (uuid \<times> (string \<times> input) list) list
   \<Rightarrow> kerr + node_spec list \<times> nat" where
  "parse_sub_nodes gen k ns [] = Inr ([], k)"
| "parse_sub_nodes gen k ns ((i, ins) # ts) =
     rbind (update_with_inputs ins (ns\<lparr>ns_id := i\<rparr>)) (\<lambda>n1.
     case update_output_slots gen k n1 of
       (n2, k2) \<Rightarrow> rbind (parse_sub_nodes gen k2 ns ts) (\<lambda>(rest, k3). Inr (n2 # rest, k3)))"

definition text_keys :: "node_spec \<Rightarrow> kerr + uuid list" where
  "text_keys ns =
     rbind (rmap (\<lambda>s. case is_kind s of
                       SlotText contents _ \<Rightarrow> ok_or Panic contents
                     | _ \<Rightarrow> Inr []) (input_slots ns)) (\<lambda>xss. Inr (concat xss))"

section \<open>The number of sub-tasks\<close>

text \<open>
  \<open>sub_node_count\<close> multiplies the number of inputs of every batch slot. A
  \<open>FromBatchOutputs\<close> slot takes the count of the node it depends on, by recursion: \<open>None\<close> is
  a recursion deeper than the fuel.
\<close>

fun count_strategies ::
  "bool \<Rightarrow> (uuid \<Rightarrow> (kerr + nat) option) \<Rightarrow> workflow_instance \<Rightarrow> node_spec \<Rightarrow> batch_strategy list
   \<Rightarrow> nat \<Rightarrow> (kerr + nat) option" where
  "count_strategies oc rec w ns [] acc = Some (Inr acc)"
| "count_strategies oc rec w ns (b # bs) acc =
     (let continue = (\<lambda>c. case c of
                         Inl e \<Rightarrow> Some (Inl e)
                       | Inr cnt \<Rightarrow>
                           (case usize_mul oc acc cnt of
                              None \<Rightarrow> Some (Inl Panic)
                            | Some acc' \<Rightarrow> count_strategies oc rec w ns bs acc'))
      in case bs_kind b of
           OriginalBatch \<Rightarrow> continue (rbind (input_slot ns (bs_slot b)) inputs_count)
         | MatchRegex _ fill_count _ \<Rightarrow> continue (Inr fill_count)
         | FromBatchOutputs \<Rightarrow>
             (case find (\<lambda>el. \<exists>el2 \<in> set (slot_relations el). to_slot el2 = bs_slot b)
                     (node_dependency_relations w (ns_id ns)) of
                None \<Rightarrow> Some (Inl Panic)
              | Some el \<Rightarrow> (case rec (from_id el) of None \<Rightarrow> None | Some c \<Rightarrow> continue c)))"

primrec sub_node_count :: "nat \<Rightarrow> bool \<Rightarrow> workflow_instance \<Rightarrow> uuid \<Rightarrow> (kerr + nat) option" where
  "sub_node_count 0 oc w i = None"
| "sub_node_count (Suc fuel) oc w i =
     (case spec_node (wi_spec w) i of
        Inl e \<Rightarrow> Some (Inl e)
      | Inr ns \<Rightarrow> count_strategies oc (sub_node_count fuel oc w) w ns (batch_strategies ns) 1)"


lemmas find_lookups = input_slot_def output_slot_def spec_node_def ok_or_Inr_iff

lemma input_slotD: "input_slot ns d = Inr s \<Longrightarrow> s \<in> set (input_slots ns) \<and> is_descriptor s = d"
  by (auto simp: find_lookups dest: find_SomeD)

lemma output_slotD: "output_slot ns d = Inr s \<Longrightarrow> s \<in> set (output_slots ns) \<and> os_descriptor s = d"
  by (auto simp: find_lookups dest: find_SomeD)

lemma spec_nodeD: "spec_node sp i = Inr n \<Longrightarrow> n \<in> set (node_specs sp) \<and> ns_id n = i"
  by (auto simp: find_lookups dest: find_SomeD)

lemma update_first_map:
  "update_first p f xs = Inr ys \<Longrightarrow> (\<And>x y. f x = Inr y \<Longrightarrow> key y = key x) \<Longrightarrow> map key ys = map key xs"
  by (induction xs arbitrary: ys) (auto simp: rbind_Inr_iff split: if_splits)

lemma update_first_length: "update_first p f xs = Inr ys \<Longrightarrow> length ys = length xs"
  by (induction xs arbitrary: ys) (auto simp: rbind_Inr_iff split: if_splits)

lemma update_first_panics: "(\<forall>x \<in> set xs. \<not> p x) \<Longrightarrow> update_first p f xs = Inl Panic"
  by (induction xs) auto

lemma set_slot_input_fields:
  "set_slot_input inp s = Inr s' \<Longrightarrow>
   is_descriptor s' = is_descriptor s \<and> is_optional s' = is_optional s \<and>
   is_description s' = is_description s \<and> inputs s' = Inr [inp]"
  by (auto simp: set_slot_input_def inputs_def split: node_input_slot_kind.splits input.splits)

lemma rmap_Inr_map:
  "rmap f xs = Inr ys \<Longrightarrow> (\<And>x y. x \<in> set xs \<Longrightarrow> f x = Inr y \<Longrightarrow> g y = h x) \<Longrightarrow> map g ys = map h xs"
  by (induction xs arbitrary: ys) (auto simp: rbind_Inr_iff)

text \<open>
  Filling the slots of a node with the inputs of one task: descriptors stay, a slot named by
  no input is untouched, and a slot named by exactly one input holds that input alone.
\<close>

definition fill_slots :: "string \<Rightarrow> input \<Rightarrow> node_input_slot list \<Rightarrow> kerr + node_input_slot list" where
  "fill_slots d inp = rmap (\<lambda>s. if is_descriptor s = d then set_slot_input inp s else Inr s)"

lemma update_with_inputs_fill:
  "update_with_inputs ins ns =
     rbind (rfold (\<lambda>(d, inp). fill_slots d inp) ins (input_slots ns)) (\<lambda>sl. Inr (ns\<lparr>input_slots := sl\<rparr>))"
  by (simp add: update_with_inputs_def fill_slots_def)

lemma fill_slots_descriptors:
  "fill_slots d inp sl = Inr sl' \<Longrightarrow> map is_descriptor sl' = map is_descriptor sl"
  unfolding fill_slots_def
  by (erule rmap_Inr_map) (auto split: if_splits dest: set_slot_input_fields)

lemma fill_slots_length: "fill_slots d inp sl = Inr sl' \<Longrightarrow> length sl' = length sl"
  by (auto simp: fill_slots_def dest: rmap_length)

lemma fill_slots_nth:
  assumes "fill_slots d inp sl = Inr sl'" "i < length sl"
  shows "if is_descriptor (sl ! i) = d then inputs (sl' ! i) = Inr [inp] else sl' ! i = sl ! i"
proof -
  have "(if is_descriptor (sl ! i) = d then set_slot_input inp (sl ! i) else Inr (sl ! i)) = Inr (sl' ! i)"
    using assms by (auto simp: fill_slots_def rmap_Inr_iff list_all2_conv_all_nth)
  then show ?thesis by (auto split: if_splits dest: set_slot_input_fields)
qed

lemma fill_slots_fold:
  "rfold (\<lambda>(d, inp). fill_slots d inp) ins sl = Inr sl' \<Longrightarrow>
   map is_descriptor sl' = map is_descriptor sl \<and>
   (\<forall>i < length sl.
     (is_descriptor (sl ! i) \<notin> fst ` set ins \<longrightarrow> sl' ! i = sl ! i) \<and>
     (distinct (map fst ins) \<longrightarrow>
       (\<forall>inp. (is_descriptor (sl ! i), inp) \<in> set ins \<longrightarrow> inputs (sl' ! i) = Inr [inp])))"
proof (induction ins arbitrary: sl)
  case (Cons p ins)
  obtain d inp where p: "p = (d, inp)" by (cases p)
  from Cons.prems p obtain sl1 where step: "fill_slots d inp sl = Inr sl1"
    and rest: "rfold (\<lambda>(d, inp). fill_slots d inp) ins sl1 = Inr sl'"
    by (auto simp: rbind_Inr_iff)
  note IH = Cons.IH [OF rest]
  note len = fill_slots_length [OF step]
  have desc: "is_descriptor (sl1 ! i) = is_descriptor (sl ! i)" if "i < length sl" for i
    using fill_slots_descriptors [OF step] that len by (metis nth_map)
  have keep: "sl' ! i = sl ! i"
    if "i < length sl" "is_descriptor (sl ! i) \<notin> fst ` set (p # ins)" for i
    using that fill_slots_nth [OF step, of i] IH desc [of i] len p by auto
  have set_one: "inputs (sl' ! i) = Inr [v]"
    if d: "distinct (map fst (p # ins))" and i: "i < length sl"
      and v: "(is_descriptor (sl ! i), v) \<in> set (p # ins)" for i v
  proof (cases "is_descriptor (sl ! i) = d")
    case True
    with d v p have "v = inp" "d \<notin> fst ` set ins" by (auto simp: image_iff)
    moreover from this IH i len desc [OF i] True have "sl' ! i = sl1 ! i" by auto
    ultimately show ?thesis using fill_slots_nth [OF step i] True by simp
  next
    case False
    with v p have "(is_descriptor (sl1 ! i), v) \<in> set ins" by (simp add: desc [OF i])
    with IH d i len show ?thesis by simp
  qed
  from keep set_one IH fill_slots_descriptors [OF step] show ?case by simp
qed simp

lemma update_with_inputs_frame:
  "update_with_inputs ins ns = Inr ns' \<Longrightarrow>
   ns' = ns\<lparr>input_slots := input_slots ns'\<rparr> \<and>
   map is_descriptor (input_slots ns') = map is_descriptor (input_slots ns)"
  by (auto simp: update_with_inputs_fill rbind_Inr_iff dest!: fill_slots_fold)

section \<open>Sub-tasks\<close>

definition out_ids :: "node_spec_output_slot \<Rightarrow> uuid list" where
  "out_ids s = (case os_kind s of OutFile _ _ ids \<Rightarrow> ids | OutText ids \<Rightarrow> ids)"

lemma fresh_outputs_ids: "concat (map out_ids (fresh_outputs gen k ss)) = map gen [k..<k + length ss]"
  by (induction ss arbitrary: k)
    (auto simp: out_ids_def upt_add_Suc simp del: upt_Suc split: node_spec_output_slot_kind.splits)

lemma fresh_outputs_descriptors:
  "map os_descriptor (fresh_outputs gen k ss) = map os_descriptor ss"
  by (induction ss arbitrary: k) auto

lemma fresh_outputs_length [simp]: "length (fresh_outputs gen k ss) = length ss"
  by (induction ss arbitrary: k) auto

definition node_out_ids :: "node_spec \<Rightarrow> uuid list" where
  "node_out_ids ns = concat (map out_ids (output_slots ns))"

lemma parse_sub_nodes_shape:
  "parse_sub_nodes gen k ns ts = Inr (subs, k') \<Longrightarrow>
   map ns_id subs = map fst ts \<and>
   k' = k + length ts * length (output_slots ns) \<and>
   concat (map node_out_ids subs) = map gen [k..<k'] \<and>
   (\<forall>n \<in> set subs. ns_kind n = ns_kind ns \<and> ns_name n = ns_name ns \<and>
      batch_strategies n = batch_strategies ns \<and> ns_requirements n = ns_requirements ns \<and>
      map is_descriptor (input_slots n) = map is_descriptor (input_slots ns) \<and>
      map os_descriptor (output_slots n) = map os_descriptor (output_slots ns))"
proof (induction ts arbitrary: k k' subs)
  case (Cons t ts)
  obtain i ins where t: "t = (i, ins)" by (cases t)
  from Cons.prems t obtain n1 rest where
    n1: "update_with_inputs ins (ns\<lparr>ns_id := i\<rparr>) = Inr n1"
    and rest: "parse_sub_nodes gen (k + length (output_slots n1)) ns ts = Inr (rest, k')"
    and subs: "subs = n1\<lparr>output_slots := fresh_outputs gen k (output_slots n1)\<rparr> # rest"
    by (auto simp: rbind_Inr_iff update_output_slots_def)
  note f = update_with_inputs_frame [OF n1]
  then obtain sl where sl: "n1 = ns\<lparr>ns_id := i, input_slots := sl\<rparr>"
    "map is_descriptor sl = map is_descriptor (input_slots ns)"
    by (metis node_spec.select_convs(5) node_spec.surjective node_spec.update_convs(2,5))
  have le: "k \<le> k + length (output_slots ns)" "k + length (output_slots ns) \<le> k'"
    using Cons.IH [OF rest] sl by auto
  have "map gen [k..<k + length (output_slots ns)] @ map gen [k + length (output_slots ns)..<k']
      = map gen [k..<k']"
    using le by (metis map_append upt_add_eq_append le_add_diff_inverse)
  with Cons.IH [OF rest] sl t subs show ?case
    by (auto simp: node_out_ids_def fresh_outputs_ids fresh_outputs_descriptors)
qed simp

lemma count_strategies_cong:
  "(\<And>i. rec i \<noteq> None \<Longrightarrow> rec' i = rec i) \<Longrightarrow> count_strategies oc rec w ns bs acc = Some r \<Longrightarrow>
   count_strategies oc rec' w ns bs acc = Some r"
  by (induction bs arbitrary: acc)
    (auto simp: Let_def split: batch_strategy_kind.splits option.splits sum.splits)

lemma sub_node_count_mono:
  "sub_node_count fuel oc w i = Some r \<Longrightarrow> sub_node_count (Suc fuel) oc w i = Some r"
proof (induction fuel arbitrary: i r)
  case (Suc fuel)
  have "sub_node_count (Suc fuel) oc w j = sub_node_count fuel oc w j"
    if "sub_node_count fuel oc w j \<noteq> None" for j
    using that Suc.IH by (cases "sub_node_count fuel oc w j") auto
  with Suc.prems show ?case
    by (subst sub_node_count.simps, subst (asm) sub_node_count.simps)
      (auto split: sum.splits simp del: sub_node_count.simps intro: count_strategies_cong)
qed simp

lemma sub_node_count_mono_le:
  "sub_node_count fuel oc w i = Some r \<Longrightarrow> fuel \<le> fuel' \<Longrightarrow> sub_node_count fuel' oc w i = Some r"
  by (rotate_tac, induction rule: dec_induct) (simp_all only: sub_node_count_mono)

text \<open>On an acyclic graph the count is reached: a rank that grows along the relations bounds the fuel.\<close>

definition ranked :: "(uuid \<Rightarrow> nat) \<Rightarrow> workflow_instance \<Rightarrow> bool" where
  "ranked rank w \<longleftrightarrow> (\<forall>r \<in> set (node_relations (wi_spec w)). rank (from_id r) < rank (to_id r))"

lemma count_strategies_total:
  "(\<And>r. r \<in> set (node_dependency_relations w (ns_id ns)) \<Longrightarrow> rec (from_id r) \<noteq> None) \<Longrightarrow>
   count_strategies oc rec w ns bs acc \<noteq> None"
proof (induction bs arbitrary: acc)
  case (Cons b bs)
  have *: "\<exists>c. rec (from_id el) = Some c"
    if "find P (node_dependency_relations w (ns_id ns)) = Some el" for P el
    using Cons.prems find_SomeD [OF that] by blast
  show ?case
    using Cons.IH [OF Cons.prems]
    by (auto simp: Let_def split: batch_strategy_kind.splits option.splits sum.splits dest!: *)
qed simp

lemma sub_node_count_total:
  "ranked rank w \<Longrightarrow> rank i < fuel \<Longrightarrow> sub_node_count fuel oc w i \<noteq> None"
proof (induction fuel arbitrary: i)
  case (Suc fuel)
  have "count_strategies oc (sub_node_count fuel oc w) w ns (batch_strategies ns) 1 \<noteq> None"
    if "spec_node (wi_spec w) i = Inr ns" for ns
  proof (rule count_strategies_total)
    fix r assume "r \<in> set (node_dependency_relations w (ns_id ns))"
    with Suc.prems spec_nodeD [OF that] have "rank (from_id r) < fuel"
      by (fastforce simp: ranked_def node_dependency_relations_def)
    with Suc.IH Suc.prems show "sub_node_count fuel oc w (from_id r) \<noteq> None" by blast
  qed
  then show ?case by (auto split: sum.splits)
qed simp

end
