(* ===== verification/KC_Draft.thy ===== *)
theory KC_Draft
  imports KC_Slots
begin

text \<open>
  Workflow drafts: the lookups and the two validation passes of
  \<open>kernel/src/models/impls/workflow_draft.rs\<close>, \<open>validate_workflow_draft\<close> of
  \<open>kernel/src/services/workflow_engine/workflow.rs\<close>.

  The validation is compared with a declarative reading of the draft (\<open>related_ok\<close>,
  \<open>node_ok\<close>): a draft passes exactly when the reading holds. The file metadata repository is
  the predicate \<open>meta_exists\<close> (its \<open>get_by_id\<close> succeeds).
\<close>

section \<open>Lookups\<close>

definition get_input_slot :: "node_draft \<Rightarrow> string \<Rightarrow> node_input_slot option" where
  "get_input_slot nd d = find (\<lambda>el. is_descriptor el = d) (nd_input_slots nd)"

definition draft_input_slot :: "node_draft \<Rightarrow> string \<Rightarrow> kerr + node_input_slot" where
  "draft_input_slot nd d = ok_or Panic (find (\<lambda>el. is_descriptor el = d) (nd_input_slots nd))"

definition get_output_slot :: "node_draft \<Rightarrow> string \<Rightarrow> node_draft_output_slot option" where
  "get_output_slot nd d = find (\<lambda>el. dos_descriptor el = d) (nd_output_slots nd)"

definition draft_output_slot :: "node_draft \<Rightarrow> string \<Rightarrow> kerr + node_draft_output_slot" where
  "draft_output_slot nd d = ok_or Panic (find (\<lambda>el. dos_descriptor el = d) (nd_output_slots nd))"

definition get_node :: "workflow_draft_spec \<Rightarrow> uuid \<Rightarrow> node_draft option" where
  "get_node ds i = find (\<lambda>el. external_id el = i) (node_drafts ds)"

definition draft_node :: "workflow_draft_spec \<Rightarrow> uuid \<Rightarrow> kerr + node_draft" where
  "draft_node ds i = ok_or Panic (find (\<lambda>el. external_id el = i) (node_drafts ds))"

section \<open>Validation of the relations: \<open>validate_related_nodes\<close>\<close>

definition mismatched :: "node_draft_output_slot_kind \<Rightarrow> node_input_slot_kind \<Rightarrow> bool" where
  "mismatched out inp =
     (case out of
        DraftFile _ _ \<Rightarrow> (case inp of SlotText _ _ \<Rightarrow> True | _ \<Rightarrow> False)
      | DraftText \<Rightarrow> (case inp of SlotFile _ _ _ \<Rightarrow> True | _ \<Rightarrow> False))"

definition check_slot_relation ::
  "uuid \<Rightarrow> node_draft \<Rightarrow> uuid \<Rightarrow> node_draft \<Rightarrow> slot_relation \<Rightarrow> kerr + string" where
  "check_slot_relation from_node_id from_node to_node_id to_node sr =
     rbind (ok_or (Specific (NoSuchOutputSlot from_node_id (from_slot sr)))
              (get_output_slot from_node (from_slot sr))) (\<lambda>fs.
     rbind (ok_or (Specific (NoSuchOutputSlot to_node_id (to_slot sr)))
              (get_input_slot to_node (to_slot sr))) (\<lambda>ts.
     rbind (inputs_count ts) (\<lambda>cnt.
     if cnt \<noteq> 0 then
       Inl (Specific (ReliedSlotContentsNotEmpty from_node_id (from_slot sr) to_node_id (to_slot sr)))
     else if mismatched (dos_kind fs) (is_kind ts) then
       Inl (Specific (MismatchPairedSlot from_node_id (from_slot sr) to_node_id (to_slot sr)))
     else Inr (to_slot sr))))"

definition check_relation :: "workflow_draft_spec \<Rightarrow> node_relation \<Rightarrow> kerr + string list" where
  "check_relation ds r =
     rbind (ok_or (Specific (NoSuchNode (from_id r))) (get_node ds (from_id r))) (\<lambda>from_node.
     rbind (ok_or (Specific (NoSuchNode (to_id r))) (get_node ds (to_id r))) (\<lambda>to_node.
     rmap (check_slot_relation (from_id r) from_node (to_id r) to_node) (slot_relations r)))"

definition validate_related_nodes :: "workflow_draft_spec \<Rightarrow> kerr + string list" where
  "validate_related_nodes ds =
     rbind (rmap (check_relation ds) (ds_node_relations ds)) (\<lambda>xss. Inr (concat xss))"

subsection \<open>What it checks\<close>

definition slot_relation_ok :: "node_draft \<Rightarrow> node_draft \<Rightarrow> slot_relation \<Rightarrow> bool" where
  "slot_relation_ok from_node to_node sr \<longleftrightarrow>
     (case (get_output_slot from_node (from_slot sr), get_input_slot to_node (to_slot sr)) of
        (Some fs, Some ts) \<Rightarrow> inputs_count ts = Inr 0 \<and> \<not> mismatched (dos_kind fs) (is_kind ts)
      | _ \<Rightarrow> False)"

definition relation_ok :: "workflow_draft_spec \<Rightarrow> node_relation \<Rightarrow> bool" where
  "relation_ok ds r \<longleftrightarrow>
     (case (get_node ds (from_id r), get_node ds (to_id r)) of
        (Some a, Some b) \<Rightarrow> (\<forall>sr \<in> set (slot_relations r). slot_relation_ok a b sr)
      | _ \<Rightarrow> False)"

definition related_ok :: "workflow_draft_spec \<Rightarrow> bool" where
  "related_ok ds \<longleftrightarrow> (\<forall>r \<in> set (ds_node_relations ds). relation_ok ds r)"

definition relied_slots :: "workflow_draft_spec \<Rightarrow> string list" where
  "relied_slots ds = concat (map (\<lambda>r. map to_slot (slot_relations r)) (ds_node_relations ds))"

lemma check_slot_relation_iff:
  "check_slot_relation i a j b sr = Inr d \<longleftrightarrow> d = to_slot sr \<and> slot_relation_ok a b sr"
  by (auto simp: check_slot_relation_def slot_relation_ok_def rbind_Inr_iff ok_or_Inr_iff
      split: option.splits if_splits)

lemma rmap_iff_all:
  assumes "\<And>x y. x \<in> set xs \<Longrightarrow> f x = Inr y \<longleftrightarrow> y = g x \<and> P x"
  shows "rmap f xs = Inr ys \<longleftrightarrow> ys = map g xs \<and> (\<forall>x \<in> set xs. P x)"
  using assms by (induction xs arbitrary: ys) (auto simp: rbind_Inr_iff)

lemma check_relation_iff:
  "check_relation ds r = Inr xs \<longleftrightarrow> xs = map to_slot (slot_relations r) \<and> relation_ok ds r"
  by (auto simp: check_relation_def relation_ok_def rbind_Inr_iff ok_or_Inr_iff
      rmap_iff_all [where g = to_slot, OF check_slot_relation_iff] split: option.splits)

lemma validate_related_nodes_iff:
  "validate_related_nodes ds = Inr xs \<longleftrightarrow> xs = relied_slots ds \<and> related_ok ds"
  by (auto simp: validate_related_nodes_def relied_slots_def related_ok_def rbind_Inr_iff
      rmap_iff_all [where g = "\<lambda>r. map to_slot (slot_relations r)", OF check_relation_iff])

section \<open>Validation per node: \<open>validate_per_node\<close>\<close>

definition check_input_slot ::
  "(uuid \<Rightarrow> bool) \<Rightarrow> string list \<Rightarrow> node_draft \<Rightarrow> node_input_slot \<Rightarrow> kerr + unit" where
  "check_input_slot meta_exists relied nd s =
     rbind (if is_descriptor s \<in> set relied then Inr False
            else rbind (inputs_count s) (\<lambda>cnt. Inr (cnt < 1 \<and> \<not> is_optional s))) (\<lambda>missing.
     if missing then Inl (Specific (NoReliedSlotContentsEmpty (external_id nd) (is_descriptor s)))
     else case is_kind s of
            SlotFile contents _ _ \<Rightarrow>
              rbind (ok_or Panic contents) (\<lambda>cs.
              rfor cs (\<lambda>c. if meta_exists (file_metadata_id c) then Inr ()
                           else Inl (Specific (FileMetadataNotUploaded (file_metadata_id c)
                                      (external_id nd) (is_descriptor s)))))
          | _ \<Rightarrow> Inr ())"

definition has_cluster :: "scheduling_strategy \<Rightarrow> bool" where
  "has_cluster st =
     (case st of Manual clusters \<Rightarrow> clusters \<noteq> [] | Prefer clusters \<Rightarrow> clusters \<noteq> [] | Auto \<Rightarrow> True)"

definition relies_on :: "string \<Rightarrow> node_relation \<Rightarrow> bool" where
  "relies_on d r = (\<exists>sr \<in> set (slot_relations r). to_slot sr = d)"

definition check_batch_strategy ::
  "workflow_draft_spec \<Rightarrow> node_draft \<Rightarrow> batch_strategy \<Rightarrow> kerr + unit" where
  "check_batch_strategy ds nd b =
     rbind (draft_input_slot nd (bs_slot b)) (\<lambda>s.
     case bs_kind b of
       MatchRegex _ _ _ \<Rightarrow>
         rbind (inputs_count s) (\<lambda>cnt.
         if cnt \<noteq> 1 then Inl (Specific (NotSingleInputWithMatchRegex (external_id nd) (is_descriptor s)))
         else Inr ())
     | OriginalBatch \<Rightarrow>
         rbind (inputs_count s) (\<lambda>cnt.
         if usize_not cnt \<ge> 1
         then Inl (Specific (OriginalBatchInputsLessThanOne (external_id nd) (is_descriptor s)))
         else Inr ())
     | FromBatchOutputs \<Rightarrow>
         (case find (relies_on (is_descriptor s)) (ds_node_relations ds) of
            None \<Rightarrow> Inl (Specific (NoSuchBatchOutputs (external_id nd) (is_descriptor s)))
          | Some r \<Rightarrow>
              rbind (ok_or Panic (find (\<lambda>el. to_slot el = is_descriptor s) (slot_relations r))) (\<lambda>sr.
              rbind (draft_node ds (from_id r)) (\<lambda>from_node.
              case nd_batch_strategies from_node of
                None \<Rightarrow> Inl (Specific (ReliedNodeIsNotBatched (from_id r) (external_id nd) (is_descriptor s)))
              | Some bs \<Rightarrow>
                  if bs = [] then
                    Inl (Specific (ReliedNodeIsNotBatched (from_id r) (external_id nd) (is_descriptor s)))
                  else if \<not> (\<exists>el \<in> set bs. bs_slot el = from_slot sr) then
                    Inl (Specific (ReliedSlotIsNotBatched (from_id r) (from_slot sr) (external_id nd)
                           (is_descriptor s)))
                  else Inr ()))))"

definition check_node ::
  "(uuid \<Rightarrow> bool) \<Rightarrow> string list \<Rightarrow> workflow_draft_spec \<Rightarrow> node_draft \<Rightarrow> kerr + unit" where
  "check_node meta_exists relied ds nd =
     rbind (rfor (nd_input_slots nd) (check_input_slot meta_exists relied nd)) (\<lambda>_.
     if \<not> has_cluster (nd_scheduling_strategy nd) then Inl (Specific AtLeastOneCluster)
     else case nd_batch_strategies nd of
            None \<Rightarrow> Inr ()
          | Some bs \<Rightarrow> rfor bs (check_batch_strategy ds nd))"

definition validate_per_node ::
  "(uuid \<Rightarrow> bool) \<Rightarrow> string list \<Rightarrow> workflow_draft_spec \<Rightarrow> kerr + unit" where
  "validate_per_node meta_exists relied ds = rfor (node_drafts ds) (check_node meta_exists relied ds)"

definition validate_workflow_draft :: "(uuid \<Rightarrow> bool) \<Rightarrow> workflow_draft_spec \<Rightarrow> kerr + unit" where
  "validate_workflow_draft meta_exists ds =
     rbind (validate_related_nodes ds) (\<lambda>relied. validate_per_node meta_exists relied ds)"

subsection \<open>What it checks\<close>

definition contents_present :: "node_input_slot \<Rightarrow> bool" where
  "contents_present s = (case is_kind s of
     SlotText c _ \<Rightarrow> c \<noteq> None | SlotFile c _ _ \<Rightarrow> c \<noteq> None | SlotUnknown \<Rightarrow> False)"

definition slot_files :: "node_input_slot \<Rightarrow> file_input list" where
  "slot_files s = (case is_kind s of SlotFile (Some cs) _ _ \<Rightarrow> cs | _ \<Rightarrow> [])"

definition is_file_slot :: "node_input_slot \<Rightarrow> bool" where
  "is_file_slot s = (case is_kind s of SlotFile _ _ _ \<Rightarrow> True | _ \<Rightarrow> False)"

definition input_slot_ok :: "(uuid \<Rightarrow> bool) \<Rightarrow> string list \<Rightarrow> node_input_slot \<Rightarrow> bool" where
  "input_slot_ok meta_exists relied s \<longleftrightarrow>
     (is_descriptor s \<notin> set relied \<longrightarrow>
        contents_present s \<and> (inputs_count s = Inr 0 \<longrightarrow> is_optional s)) \<and>
     (is_file_slot s \<longrightarrow> contents_present s \<and> (\<forall>c \<in> set (slot_files s). meta_exists (file_metadata_id c)))"

definition relied_on_batch :: "workflow_draft_spec \<Rightarrow> string \<Rightarrow> bool" where
  "relied_on_batch ds d \<longleftrightarrow>
     (case find (relies_on d) (ds_node_relations ds) of
        None \<Rightarrow> False
      | Some r \<Rightarrow>
          (case (find (\<lambda>el. to_slot el = d) (slot_relations r), get_node ds (from_id r)) of
             (Some sr, Some from_node) \<Rightarrow>
               (case nd_batch_strategies from_node of
                  None \<Rightarrow> False
                | Some bs \<Rightarrow> \<exists>el \<in> set bs. bs_slot el = from_slot sr)
           | _ \<Rightarrow> False))"

definition strategy_ok :: "workflow_draft_spec \<Rightarrow> node_draft \<Rightarrow> batch_strategy \<Rightarrow> bool" where
  "strategy_ok ds nd b \<longleftrightarrow>
     (case get_input_slot nd (bs_slot b) of
        None \<Rightarrow> False
      | Some s \<Rightarrow>
          (case bs_kind b of
             MatchRegex _ _ _ \<Rightarrow> inputs_count s = Inr 1
           | OriginalBatch \<Rightarrow> (\<exists>n. inputs_count s = Inr n \<and> n \<ge> usize_max)
           | FromBatchOutputs \<Rightarrow> relied_on_batch ds (bs_slot b)))"

definition node_ok :: "(uuid \<Rightarrow> bool) \<Rightarrow> workflow_draft_spec \<Rightarrow> node_draft \<Rightarrow> bool" where
  "node_ok meta_exists ds nd \<longleftrightarrow>
     (\<forall>s \<in> set (nd_input_slots nd). input_slot_ok meta_exists (relied_slots ds) s) \<and>
     has_cluster (nd_scheduling_strategy nd) \<and>
     (\<forall>bs. nd_batch_strategies nd = Some bs \<longrightarrow> (\<forall>b \<in> set bs. strategy_ok ds nd b))"

lemma check_input_slot_iff:
  "check_input_slot me relied nd s = Inr () \<longleftrightarrow> input_slot_ok me relied s"
  by (cases "is_kind s")
    (auto simp: check_input_slot_def input_slot_ok_def inputs_count_def contents_present_def
      slot_files_def is_file_slot_def rbind_Inr_iff ok_or_Inr_iff rfor_Inr_iff
      split: if_splits)

lemma draft_input_slot_iff: "draft_input_slot nd d = Inr s \<longleftrightarrow> get_input_slot nd d = Some s"
  by (simp add: draft_input_slot_def get_input_slot_def ok_or_Inr_iff)

lemma draft_node_iff: "draft_node ds i = Inr s \<longleftrightarrow> get_node ds i = Some s"
  by (simp add: draft_node_def get_node_def ok_or_Inr_iff)

lemma get_input_slot_descriptor: "get_input_slot nd d = Some s \<Longrightarrow> is_descriptor s = d"
  by (auto simp: get_input_slot_def dest: find_SomeD)

lemma check_batch_strategy_iff:
  "check_batch_strategy ds nd b = Inr () \<longleftrightarrow> strategy_ok ds nd b"
proof (cases "get_input_slot nd (bs_slot b)")
  case None
  then show ?thesis
    by (simp add: check_batch_strategy_def strategy_ok_def rbind_Inr_iff draft_input_slot_iff)
next
  case (Some s)
  then have d: "is_descriptor s = bs_slot b" and di: "draft_input_slot nd (bs_slot b) = Inr s"
    by (simp_all add: get_input_slot_descriptor draft_input_slot_iff)
  show ?thesis
  proof (cases "bs_kind b")
    case OriginalBatch
    with Some di show ?thesis
      by (cases "inputs_count s") (auto simp: check_batch_strategy_def strategy_ok_def usize_not_def)
  next
    case (MatchRegex re n f)
    with Some di show ?thesis
      by (auto simp: check_batch_strategy_def strategy_ok_def rbind_Inr_iff split: if_splits)
  next
    case FromBatchOutputs
    with Some di d show ?thesis
      by (auto simp: check_batch_strategy_def strategy_ok_def relied_on_batch_def rbind_Inr_iff
          ok_or_Inr_iff draft_node_iff image_iff split: option.splits if_splits)
  qed
qed

lemma check_node_iff:
  "check_node me (relied_slots ds) ds nd = Inr () \<longleftrightarrow> node_ok me ds nd"
  by (auto simp: check_node_def node_ok_def rbind_Inr_iff rfor_Inr_iff check_input_slot_iff
      check_batch_strategy_iff split: option.splits if_splits)

lemma validate_iff:
  "validate_workflow_draft me ds = Inr () \<longleftrightarrow>
   related_ok ds \<and> (\<forall>nd \<in> set (node_drafts ds). node_ok me ds nd)"
  by (auto simp: validate_workflow_draft_def validate_per_node_def rbind_Inr_iff
      validate_related_nodes_iff rfor_Inr_iff check_node_iff)

end
