(* ===== verification/KC_Instantiate.thy ===== *)
theory KC_Instantiate
  imports KC_Draft
begin

text \<open>
  A draft becomes an instance: the conversions of \<open>kernel/src/models/impls/node_instance.rs\<close>
  and \<open>parse_node_instances\<close> of \<open>kernel/src/models/impls/workflow_instance.rs\<close>.

  Every conversion draws its ids from \<open>gen\<close> in the order Rust evaluates the fields. The map
  from old to new node ids is a \<open>HashMap\<close>: \<open>hash_order\<close> is the order its iteration has, any
  permutation of its keys. The lemmas show that this order does not matter when the new ids
  are fresh, that the graph of the draft is kept, and which node instances an instance gets.
\<close>

section \<open>Conversions\<close>

fun node_instance_kind_from :: "node_kind \<Rightarrow> node_instance_kind" where
  "node_instance_kind_from (SoftwareUsecaseComputing _) = KSoftwareUsecaseComputing"
| "node_instance_kind_from NoAction = KNoAction"
| "node_instance_kind_from (Script _) = KScript"
| "node_instance_kind_from (Milestone _) = KMilestone"

definition output_slot_from :: "(nat \<Rightarrow> uuid) \<Rightarrow> nat \<Rightarrow> node_draft_output_slot \<Rightarrow> node_spec_output_slot" where
  "output_slot_from gen k l =
     \<lparr>os_kind = (case dos_kind l of
                  DraftFile origin is_batch \<Rightarrow> OutFile origin is_batch [gen k]
                | DraftText \<Rightarrow> OutText [gen k]),
      os_descriptor = dos_descriptor l, os_description = dos_description l, os_optional = dos_optional l\<rparr>"

fun output_slots_from :: "(nat \<Rightarrow> uuid) \<Rightarrow> nat \<Rightarrow> node_draft_output_slot list \<Rightarrow> node_spec_output_slot list" where
  "output_slots_from gen k [] = []"
| "output_slots_from gen k (l # ls) = output_slot_from gen k l # output_slots_from gen (Suc k) ls"

definition node_spec_from :: "(nat \<Rightarrow> uuid) \<Rightarrow> nat \<Rightarrow> node_draft \<Rightarrow> node_spec \<times> nat" where
  "node_spec_from gen k l =
     (\<lparr>ns_kind = nd_kind l, ns_id = gen k, ns_name = nd_name l, ns_description = nd_description l,
       input_slots = nd_input_slots l,
       output_slots = output_slots_from gen (Suc k) (nd_output_slots l),
       ns_scheduling_strategy = nd_scheduling_strategy l,
       batch_strategies = (case nd_batch_strategies l of Some bs \<Rightarrow> bs | None \<Rightarrow> []),
       ns_requirements = nd_requirements l,
       ns_additional_datas = nd_additional_datas l\<rparr>,
      Suc k + length (nd_output_slots l))"

fun node_specs_from :: "(nat \<Rightarrow> uuid) \<Rightarrow> nat \<Rightarrow> node_draft list \<Rightarrow> node_spec list \<times> nat" where
  "node_specs_from gen k [] = ([], k)"
| "node_specs_from gen k (l # ls) =
     (let (n, k1) = node_spec_from gen k l; (ns, k2) = node_specs_from gen k1 ls in (n # ns, k2))"

text \<open>\<open>collect\<close> into a \<open>HashMap\<close>: the last pair of a key wins, each key occurs once.\<close>

definition collect_map :: "(uuid list \<Rightarrow> uuid list) \<Rightarrow> (uuid \<times> uuid) list \<Rightarrow> (uuid \<times> uuid) list" where
  "collect_map hash_order ps =
     map (\<lambda>i. (i, the (map_of (rev ps) i))) (hash_order (remdups (map fst ps)))"

definition workflow_instance_spec_from ::
  "(uuid list \<Rightarrow> uuid list) \<Rightarrow> (nat \<Rightarrow> uuid) \<Rightarrow> nat \<Rightarrow> workflow_draft_spec \<Rightarrow> workflow_instance_spec \<times> nat" where
  "workflow_instance_spec_from hash_order gen k l =
     (let old_node_ids = map external_id (node_drafts l);
          (specs, k') = node_specs_from gen k (node_drafts l);
          new_node_ids = map ns_id specs;
          old_new_id_map = collect_map hash_order (zip old_node_ids new_node_ids)
      in (\<lparr>ws_scheduling_strategy = ds_scheduling_strategy l, node_specs = specs,
           node_relations = map (update_id old_new_id_map) (ds_node_relations l)\<rparr>, k'))"

definition workflow_instance_from ::
  "(uuid list \<Rightarrow> uuid list) \<Rightarrow> (nat \<Rightarrow> uuid) \<Rightarrow> nat \<Rightarrow> workflow_draft \<Rightarrow> workflow_instance \<times> nat" where
  "workflow_instance_from hash_order gen k l =
     (case workflow_instance_spec_from hash_order gen (Suc k) (wd_spec l) of
        (sp, k') \<Rightarrow>
          (\<lparr>wi_id = gen k, wi_name = wd_name l, wi_description = wd_description l, wi_logo = wd_logo l,
            wi_status = FCreated, wi_spec = sp, wi_last_modified_time = 0, wi_user_id = 0\<rparr>, k'))"

section \<open>The node instances of an instance: \<open>parse_node_instances\<close>\<close>

text \<open>
  \<open>Default\<close> of the instance's other fields: the derived one, with the variants the source marks
  \<open>#[default]\<close>.
\<close>

definition root_instance :: "workflow_instance \<Rightarrow> node_spec \<Rightarrow> node_instance" where
  "root_instance w ns =
     \<lparr>ni_kind = node_instance_kind_from (ns_kind ns), ni_id = ns_id ns, ni_name = ns_name ns,
      is_parent = (batch_strategies ns \<noteq> []), batch_parent_id = None, flow_instance_id = wi_id w,
      ni_status = Created, cluster_id = None, ni_log = None, resource_meter = None\<rparr>"

definition sub_instance :: "node_instance \<Rightarrow> uuid \<Rightarrow> nat \<Rightarrow> node_instance" where
  "sub_instance root i n =
     root\<lparr>ni_id := i, ni_name := ni_name root @ ''_sub_task_'' @ show_nat n, is_parent := False,
          batch_parent_id := Some (ni_id root)\<rparr>"

fun sub_instances :: "(nat \<Rightarrow> uuid) \<Rightarrow> nat \<Rightarrow> node_instance \<Rightarrow> nat \<Rightarrow> nat \<Rightarrow> node_instance list" where
  "sub_instances gen k root n 0 = []"
| "sub_instances gen k root n (Suc m) =
     sub_instance root (gen k) n # sub_instances gen (Suc k) root (Suc n) m"

text \<open>\<open>None\<close>: the count of some node is not reached within the fuel.\<close>

fun parse_nodes ::
  "nat \<Rightarrow> bool \<Rightarrow> (nat \<Rightarrow> uuid) \<Rightarrow> workflow_instance \<Rightarrow> nat \<Rightarrow> node_spec list
   \<Rightarrow> (kerr + node_instance list \<times> nat) option" where
  "parse_nodes fuel oc gen w k [] = Some (Inr ([], k))"
| "parse_nodes fuel oc gen w k (ns # nss) =
     (let root = root_instance w ns
      in case (if is_parent root then sub_node_count fuel oc w (ns_id ns) else Some (Inr 0)) of
           None \<Rightarrow> None
         | Some (Inl e) \<Rightarrow> Some (Inl e)
         | Some (Inr cnt) \<Rightarrow>
             (case parse_nodes fuel oc gen w (k + cnt) nss of
                None \<Rightarrow> None
              | Some (Inl e) \<Rightarrow> Some (Inl e)
              | Some (Inr (rest, k')) \<Rightarrow>
                  Some (Inr (root # sub_instances gen k root 0 cnt @ rest, k'))))"

definition parse_node_instances ::
  "nat \<Rightarrow> bool \<Rightarrow> (nat \<Rightarrow> uuid) \<Rightarrow> nat \<Rightarrow> workflow_instance
   \<Rightarrow> (kerr + node_instance list \<times> nat) option" where
  "parse_node_instances fuel oc gen k w = parse_nodes fuel oc gen w k (node_specs (wi_spec w))"

section \<open>Ids of the new instance\<close>

definition node_ids :: "node_spec \<Rightarrow> uuid list" where
  "node_ids ns = ns_id ns # node_out_ids ns"

lemma output_slots_from_ids:
  "concat (map out_ids (output_slots_from gen k ls)) = map gen [k..<k + length ls]"
  by (induction ls arbitrary: k)
    (auto simp: output_slot_from_def out_ids_def upt_add_Suc simp del: upt_Suc
      split: node_draft_output_slot_kind.splits)

lemma output_slots_from_length [simp]: "length (output_slots_from gen k ls) = length ls"
  by (induction ls arbitrary: k) auto

lemma node_spec_from_ids:
  "node_spec_from gen k l = (n, k') \<Longrightarrow> node_ids n = map gen [k..<k'] \<and> k < k'"
  by (auto simp: node_spec_from_def node_ids_def node_out_ids_def output_slots_from_ids
      upt_conv_Cons simp del: upt_Suc)

text \<open>The ids of all nodes and of all their outputs are the draws made, in order.\<close>

lemma node_specs_from_ids:
  "node_specs_from gen k ls = (ns, k') \<Longrightarrow>
   concat (map node_ids ns) = map gen [k..<k'] \<and> k \<le> k' \<and> length ns = length ls"
proof (induction ls arbitrary: k ns)
  case (Cons l ls)
  then obtain n k1 rest where n: "node_spec_from gen k l = (n, k1)"
    and rest: "node_specs_from gen k1 ls = (rest, k')" and ns: "ns = n # rest"
    by (auto simp: Let_def split: prod.splits)
  from node_spec_from_ids [OF n] have "node_ids n = map gen [k..<k1]" "k < k1" by auto
  with Cons.IH [OF rest] ns show ?case
    using upt_split [of k k1 k'] by auto
qed simp

lemma concat_distinct_map_hd:
  "distinct (concat (map f xs)) \<Longrightarrow> (\<And>x. x \<in> set xs \<Longrightarrow> g x \<in> set (f x)) \<Longrightarrow> distinct (map g xs)"
proof (induction xs)
  case (Cons a xs)
  have "g x \<noteq> g a" if "x \<in> set xs" for x
  proof -
    have "g x \<in> (\<Union>y \<in> set xs. set (f y))" "g a \<in> set (f a)" using Cons.prems(2) that by auto
    moreover have "set (f a) \<inter> (\<Union>y \<in> set xs. set (f y)) = {}" using Cons.prems(1) by simp
    ultimately show ?thesis by (metis IntI empty_iff)
  qed
  then have "g a \<notin> g ` set xs" by (metis imageE)
  with Cons show ?case by simp
qed simp

lemma node_specs_from_distinct:
  assumes "node_specs_from gen k ls = (ns, k')" "distinct (map gen [k..<k'])"
  shows "distinct (map ns_id ns)" "distinct (concat (map node_out_ids ns))"
    and "distinct (concat (map node_ids ns))"
proof -
  show d: "distinct (concat (map node_ids ns))"
    using node_specs_from_ids [OF assms(1)] assms(2) by simp
  then show "distinct (map ns_id ns)" by (rule concat_distinct_map_hd) (simp add: node_ids_def)
  have "distinct (concat (map node_out_ids xs))" if "distinct (concat (map node_ids xs))" for xs
    using that by (induction xs) (auto simp: node_ids_def)
  with d show "distinct (concat (map node_out_ids ns))" by blast
qed

lemma node_specs_from_ns_ids:
  "node_specs_from gen k ls = (ns, k') \<Longrightarrow> set (map ns_id ns) \<subseteq> gen ` {k..<k'}"
proof
  assume run: "node_specs_from gen k ls = (ns, k')"
  show "\<And>x. x \<in> set (map ns_id ns) \<Longrightarrow> x \<in> gen ` {k..<k'}"
  proof -
    fix x assume "x \<in> set (map ns_id ns)"
    then have "x \<in> set (concat (map node_ids ns))" by (auto simp: node_ids_def)
    with node_specs_from_ids [OF run] show "x \<in> gen ` {k..<k'}" by simp
  qed
qed

section \<open>The order of the map does not matter\<close>

text \<open>What a \<open>HashMap\<close>'s iteration does: it visits every key once.\<close>

definition permutes_keys :: "(uuid list \<Rightarrow> uuid list) \<Rightarrow> bool" where
  "permutes_keys hash_order \<longleftrightarrow>
     (\<forall>ks. distinct ks \<longrightarrow> distinct (hash_order ks) \<and> set (hash_order ks) = set ks)"

lemma collect_map_keys:
  "permutes_keys ho \<Longrightarrow> distinct (map fst (collect_map ho ps)) \<and>
   set (map fst (collect_map ho ps)) = fst ` set ps"
  by (auto simp: collect_map_def permutes_keys_def comp_def)

lemma map_of_collect_map:
  assumes "permutes_keys ho"
  shows "map_of (collect_map ho ps) = map_of (rev ps)"
proof
  fix i
  show "map_of (collect_map ho ps) i = map_of (rev ps) i"
  proof (cases "i \<in> fst ` set ps")
    case True
    then obtain v where v: "map_of (rev ps) i = Some v"
      by (metis map_of_eq_None_iff not_Some_eq set_rev)
    have "i \<in> set (ho (remdups (map fst ps)))" using assms True by (auto simp: permutes_keys_def)
    then have "map_of (map (\<lambda>i. (i, the (map_of (rev ps) i))) (ho (remdups (map fst ps)))) i
        = Some (the (map_of (rev ps) i))"
      by (simp add: map_of_map_restrict restrict_map_def)
    with v show ?thesis by (simp add: collect_map_def)
  next
    case False
    then have "map_of (rev ps) i = None" by (simp add: map_of_eq_None_iff)
    moreover have "i \<notin> fst ` set (collect_map ho ps)" using collect_map_keys [OF assms] False by simp
    ultimately show ?thesis by (metis map_of_eq_None_iff)
  qed
qed

lemma collect_map_values:
  "permutes_keys ho \<Longrightarrow> snd ` set (collect_map ho ps) \<subseteq> snd ` set ps"
proof
  fix v assume ho: "permutes_keys ho" and "v \<in> snd ` set (collect_map ho ps)"
  then obtain i where "(i, v) \<in> set (collect_map ho ps)" by auto
  then have "map_of (rev ps) i = Some v"
    using collect_map_keys [OF ho] map_of_collect_map [OF ho] by (metis map_of_is_SomeI)
  then show "v \<in> snd ` set ps" by (metis map_of_SomeD rev_image_eqI set_rev snd_conv)
qed

lemma update_id_collect_map:
  assumes "permutes_keys ho" "fst ` set ps \<inter> snd ` set ps = {}"
  shows "update_id (collect_map ho ps) r =
    r\<lparr>from_id := rename (rev ps) (from_id r), to_id := rename (rev ps) (to_id r)\<rparr>"
proof -
  let ?m = "collect_map ho ps"
  have d: "distinct (map fst ?m)" using collect_map_keys [OF assms(1)] by blast
  have "fst ` set ?m \<inter> snd ` set ?m = {}"
    using collect_map_keys [OF assms(1), of ps] collect_map_values [OF assms(1), of ps] assms(2) by auto
  note u = update_id_rename [OF d this, of r]
  have "rename ?m = rename (rev ps)"
    by (rule ext) (simp add: rename_def map_of_collect_map [OF assms(1)])
  with u show ?thesis
    by (intro node_relation.equality) (simp_all add: update_id_fields(3))
qed

lemma fst_snd_set_zip:
  "length xs = length ys \<Longrightarrow> fst ` set (zip xs ys) = set xs \<and> snd ` set (zip xs ys) = set ys"
  by (metis list.set_map map_fst_zip map_snd_zip)

lemma spec_from_relations:
  assumes run: "workflow_instance_spec_from ho gen k l = (sp, k')"
    and ho: "permutes_keys ho"
    and fresh: "external_id ` set (node_drafts l) \<inter> gen ` {k..<k'} = {}"
  shows "node_relations sp =
    map (\<lambda>r. r\<lparr>from_id := rename (rev (zip (map external_id (node_drafts l)) (map ns_id (node_specs sp)))) (from_id r),
              to_id := rename (rev (zip (map external_id (node_drafts l)) (map ns_id (node_specs sp)))) (to_id r)\<rparr>)
      (ds_node_relations l)"
    and "node_specs_from gen k (node_drafts l) = (node_specs sp, k')"
proof -
  obtain specs where specs: "node_specs_from gen k (node_drafts l) = (specs, k')"
    and sp: "node_specs sp = specs" "node_relations sp = map (update_id
      (collect_map ho (zip (map external_id (node_drafts l)) (map ns_id specs)))) (ds_node_relations l)"
    using run by (auto simp: workflow_instance_spec_from_def Let_def split: prod.splits)
  let ?ps = "zip (map external_id (node_drafts l)) (map ns_id specs)"
  have "length specs = length (node_drafts l)" using node_specs_from_ids [OF specs] by simp
  then have "fst ` set ?ps \<inter> snd ` set ?ps = {}"
    using fresh node_specs_from_ns_ids [OF specs] by (simp add: fst_snd_set_zip) blast
  from update_id_collect_map [OF ho this] sp show "node_relations sp =
    map (\<lambda>r. r\<lparr>from_id := rename (rev (zip (map external_id (node_drafts l)) (map ns_id (node_specs sp)))) (from_id r),
              to_id := rename (rev (zip (map external_id (node_drafts l)) (map ns_id (node_specs sp)))) (to_id r)\<rparr>)
      (ds_node_relations l)"
    by simp
  show "node_specs_from gen k (node_drafts l) = (node_specs sp, k')" using specs sp by simp
qed

text \<open>With distinct node ids, the i-th node of the draft is renamed to the i-th node of the instance.\<close>

lemma rename_zip:
  assumes "distinct xs" "length xs = length ys" "i < length xs"
  shows "rename (rev (zip xs ys)) (xs ! i) = ys ! i"
proof -
  have "distinct (map fst (rev (zip xs ys)))" using assms by (simp flip: rev_map)
  moreover have "(xs ! i, ys ! i) \<in> set (rev (zip xs ys))" using assms by (auto simp: in_set_zip)
  ultimately show ?thesis by (simp add: rename_def)
qed

section \<open>The node instances\<close>

definition subs_of :: "uuid \<Rightarrow> node_instance list \<Rightarrow> node_instance list" where
  "subs_of i nis = filter (\<lambda>n. batch_parent_id n = Some i) nis"

definition roots_of :: "node_instance list \<Rightarrow> node_instance list" where
  "roots_of nis = filter (\<lambda>n. batch_parent_id n = None) nis"

lemma sub_instances_nth:
  "sub_instances gen k root n m = map (\<lambda>j. sub_instance root (gen (k + j)) (n + j)) [0..<m]"
  by (induction m arbitrary: k n)
    (auto simp: upt_conv_Cons map_Suc_upt [symmetric] comp_def simp del: upt_Suc)

lemma sub_instances_length [simp]: "length (sub_instances gen k root n m) = m"
  by (simp add: sub_instances_nth)

lemma sub_instances_ids: "map ni_id (sub_instances gen k root n m) = map gen [k..<k + m]"
  by (induction m arbitrary: k n) (auto simp: sub_instance_def upt_add_Suc simp del: upt_Suc)

lemma sub_instances_parent:
  "x \<in> set (sub_instances gen k root n m) \<Longrightarrow>
   batch_parent_id x = Some (ni_id root) \<and> \<not> is_parent x \<and> flow_instance_id x = flow_instance_id root
   \<and> ni_kind x = ni_kind root \<and> ni_status x = ni_status root"
  by (auto simp: sub_instances_nth sub_instance_def)

lemma filter_none: "(\<And>x. x \<in> set xs \<Longrightarrow> \<not> P x) \<Longrightarrow> filter P xs = []"
  by (simp add: filter_False)

lemma filter_all: "(\<And>x. x \<in> set xs \<Longrightarrow> P x) \<Longrightarrow> filter P xs = xs"
  by (simp add: filter_id_conv)

lemma root_instance_simps [simp]:
  "batch_parent_id (root_instance w ns) = None" "ni_id (root_instance w ns) = ns_id ns"
  "flow_instance_id (root_instance w ns) = wi_id w" "ni_status (root_instance w ns) = Created"
  "is_parent (root_instance w ns) \<longleftrightarrow> batch_strategies ns \<noteq> []"
  by (simp_all add: root_instance_def)

lemma parse_nodes_ConsD:
  assumes "parse_nodes fuel oc gen w k (ns # nss) = Some (Inr (nis, k'))"
  obtains cnt rest where
    "if batch_strategies ns = [] then cnt = 0
     else sub_node_count fuel oc w (ns_id ns) = Some (Inr cnt)"
    "parse_nodes fuel oc gen w (k + cnt) nss = Some (Inr (rest, k'))"
    "nis = root_instance w ns # sub_instances gen k (root_instance w ns) 0 cnt @ rest"
  using assms by (auto simp: Let_def split: if_splits option.splits sum.splits prod.splits)

lemma parse_nodes_roots:
  "parse_nodes fuel oc gen w k nss = Some (Inr (nis, k')) \<Longrightarrow>
   roots_of nis = map (root_instance w) nss \<and> k \<le> k' \<and>
   map ni_id (filter (\<lambda>n. batch_parent_id n \<noteq> None) nis) = map gen [k..<k'] \<and>
   (\<forall>n \<in> set nis. flow_instance_id n = wi_id w \<and> ni_status n = Created)"
proof (induction nss arbitrary: k nis)
  case (Cons ns nss)
  from Cons.prems obtain cnt rest where
    rest: "parse_nodes fuel oc gen w (k + cnt) nss = Some (Inr (rest, k'))"
    and nis: "nis = root_instance w ns # sub_instances gen k (root_instance w ns) 0 cnt @ rest"
    by (rule parse_nodes_ConsD)
  note IH = Cons.IH [OF rest]
  let ?s = "sub_instances gen k (root_instance w ns) 0 cnt"
  have 1: "filter (\<lambda>n. batch_parent_id n = None) ?s = []"
    by (rule filter_none) (simp add: sub_instances_parent)
  have 2: "filter (\<lambda>n. batch_parent_id n \<noteq> None) ?s = ?s"
    by (rule filter_all) (simp add: sub_instances_parent)
  have 3: "map gen [k..<k + cnt] @ map gen [k + cnt..<k'] = map gen [k..<k']"
    using IH upt_split [of k "k + cnt" k'] by auto
  show ?case
    using IH 1 2 3 sub_instances_parent [of _ gen k "root_instance w ns" 0 cnt]
    by (auto simp: nis roots_of_def sub_instances_ids)
qed (simp add: roots_of_def)

lemma parse_nodes_subs:
  "parse_nodes fuel oc gen w k nss = Some (Inr (nis, k')) \<Longrightarrow>
   distinct (map ns_id nss) \<Longrightarrow> ns \<in> set nss \<Longrightarrow>
   (if batch_strategies ns = [] then subs_of (ns_id ns) nis = []
    else sub_node_count fuel oc w (ns_id ns) = Some (Inr (length (subs_of (ns_id ns) nis))))"
proof (induction nss arbitrary: k nis)
  case (Cons m nss)
  from Cons.prems(1) obtain cnt rest where
    cnt: "if batch_strategies m = [] then cnt = 0
          else sub_node_count fuel oc w (ns_id m) = Some (Inr cnt)"
    and rest: "parse_nodes fuel oc gen w (k + cnt) nss = Some (Inr (rest, k'))"
    and nis: "nis = root_instance w m # sub_instances gen k (root_instance w m) 0 cnt @ rest"
    by (rule parse_nodes_ConsD)
  let ?s = "sub_instances gen k (root_instance w m) 0 cnt"
  have sub: "subs_of i (?s @ xs) = (if i = ns_id m then ?s else []) @ subs_of i xs" for i xs
  proof -
    have "subs_of i ?s = (if i = ns_id m then ?s else [])"
    proof (cases "i = ns_id m")
      case True then show ?thesis
        unfolding subs_of_def by (simp add: filter_all sub_instances_parent)
    next
      case False then show ?thesis
        unfolding subs_of_def by (simp, intro filter_none) (simp add: sub_instances_parent)
    qed
    then show ?thesis by (simp add: subs_of_def)
  qed
  have parents: "n \<in> set rest \<Longrightarrow> batch_parent_id n \<noteq> None \<Longrightarrow> the (batch_parent_id n) \<in> ns_id ` set nss" for n
    using rest
  proof (induction nss arbitrary: k cnt rest)
    case (Cons a nss)
    from Cons.prems(3) obtain c r where
      "parse_nodes fuel oc gen w (k + cnt + c) nss = Some (Inr (r, k'))"
      "rest = root_instance w a # sub_instances gen (k + cnt) (root_instance w a) 0 c @ r"
      by (rule parse_nodes_ConsD)
    with Cons.IH [of r "k + cnt" c] Cons.prems(1,2) show ?case
      by (auto simp: sub_instances_parent)
  qed simp
  show ?case
  proof (cases "ns = m")
    case True
    have "subs_of (ns_id m) rest = []"
      unfolding subs_of_def
      by (rule filter_none) (use parents Cons.prems(2) in fastforce)
    with True nis sub cnt show ?thesis by (simp add: subs_of_def split: if_splits)
  next
    case False
    with Cons.prems(2,3) have "ns \<in> set nss" "ns_id ns \<noteq> ns_id m" "distinct (map ns_id nss)"
      by (auto simp: image_iff)
    moreover have "subs_of (ns_id ns) nis = subs_of (ns_id ns) rest"
      using nis sub [of "ns_id ns" rest] \<open>ns_id ns \<noteq> ns_id m\<close> by (simp add: subs_of_def)
    ultimately show ?thesis using Cons.IH [OF rest] by simp
  qed
qed simp

lemma parse_nodes_total:
  "ranked rank w \<Longrightarrow> (\<forall>ns \<in> set nss. rank (ns_id ns) < fuel) \<Longrightarrow>
   parse_nodes fuel oc gen w k nss \<noteq> None"
proof (induction nss arbitrary: k)
  case (Cons ns nss)
  obtain c where c: "sub_node_count fuel oc w (ns_id ns) = Some c"
    using Cons.prems sub_node_count_total [of rank w "ns_id ns" fuel oc] by auto
  have "\<exists>r. parse_nodes fuel oc gen w j nss = Some r" for j
    using Cons.IH [of j] Cons.prems by auto
  then obtain f where f: "parse_nodes fuel oc gen w j nss = Some (f j)" for j by metis
  show ?case
    by (cases c) (auto simp: Let_def c f split: sum.splits)
qed simp

end
