(* ===== verification/KF_Types.thy ===== *)
theory KF_Types
  imports KC_Prelude
begin

text \<open>
  Files of the coordinator: the data of \<open>kernel/src/models/file/*.rs\<close>, the commands of
  \<open>kernel/src/models/commands.rs\<close> and \<open>kernel/src/service/file\<close>, and the exceptions of
  \<open>kernel/src/exceptions/file\<close>. Contents are lists of bytes; sizes, time stamps and row numbers
  are numbers.
\<close>

type_synonym bytes = "8 word list"

section \<open>Hashes\<close>

datatype hash_algorithm = Blake3

fun show_hash_algorithm :: "hash_algorithm \<Rightarrow> string" where
  "show_hash_algorithm Blake3 = ''blake3''"

definition hash_algorithm_from_str :: "string \<Rightarrow> hash_algorithm option" where
  "hash_algorithm_from_str s = (if s = ''blake3'' then Some Blake3 else None)"

text \<open>\<open>to_ascii_uppercase\<close>; \<open>to_uppercase\<close> does the same on the hexadecimal digits of a hash.\<close>

definition upper_char :: "char \<Rightarrow> char" where
  "upper_char c = (if of_char c \<in> {97..(122::nat)} then char_of (of_char c - (32::nat)) else c)"

definition to_ascii_uppercase :: "string \<Rightarrow> string" where
  "to_ascii_uppercase s = map upper_char s"

section \<open>Stored files\<close>

record file_meta =
  fm_id :: uuid
  fm_name :: string
  fm_hash :: string
  fm_hash_algorithm :: hash_algorithm
  fm_size :: nat

record file_storage =
  fs_storage_server_id :: uuid
  fs_meta_id :: uuid
  fs_server_url :: string

record storage_server =
  sv_id :: uuid
  sv_name :: string
  sv_bucket :: string
  sv_download_endpoint :: string

section \<open>The net disk: \<open>net_disk.rs\<close>\<close>

datatype file_type = Unkonwn | TextFile | Folder

datatype dir_kind = DirFlowDraft | DirFlowInstance | DirNodeInstance

record net_disk_meta =
  nm_flow_draft_id :: "uuid option"
  nm_flow_instance_id :: "uuid option"
  nm_node_instance_id :: "uuid option"
  nm_dir_kind :: "dir_kind option"

definition no_meta :: net_disk_meta where
  "no_meta = \<lparr>nm_flow_draft_id = None, nm_flow_instance_id = None, nm_node_instance_id = None,
     nm_dir_kind = None\<rparr>"

record net_disk =
  ne_id :: uuid
  ne_parent_id :: "uuid option"
  ne_name :: string
  ne_is_dict :: bool
  ne_kind :: file_type
  ne_file_metadata_id :: "uuid option"
  ne_meta :: "net_disk_meta option"
  ne_user_id :: "uuid option"

text \<open>
  The two roots have Chinese names ("from workflow drafts", "from workflow instances"); they are
  kept as their UTF-8 bytes.
\<close>

definition from_drafts :: string where
  "from_drafts = map char_of [0xE6, 0x9D, 0xA5, 0xE8, 0x87, 0xAA, 0xE5, 0xB7, 0xA5, 0xE4, 0xBD, 0x9C,
     0xE6, 0xB5, 0x81, 0xE8, 0x8D, 0x89, 0xE7, 0xA8, 0xBF :: nat]"

definition from_instances :: string where
  "from_instances = map char_of [0xE6, 0x9D, 0xA5, 0xE8, 0x87, 0xAA, 0xE5, 0xB7, 0xA5, 0xE4, 0xBD, 0x9C,
     0xE6, 0xB5, 0x81, 0xE5, 0xAE, 0x9E, 0xE4, 0xBE, 0x8B :: nat]"

definition flow_draft_root :: "uuid \<Rightarrow> net_disk" where
  "flow_draft_root root_id =
     \<lparr>ne_id = 0, ne_parent_id = Some root_id, ne_name = from_drafts, ne_is_dict = True, ne_kind = Folder,
      ne_file_metadata_id = None, ne_meta = Some (no_meta\<lparr>nm_dir_kind := Some DirFlowDraft\<rparr>),
      ne_user_id = None\<rparr>"

definition flow_instance_root :: "uuid \<Rightarrow> uuid option \<Rightarrow> net_disk" where
  "flow_instance_root root_id user_id =
     \<lparr>ne_id = 0, ne_parent_id = Some root_id, ne_name = from_instances, ne_is_dict = True, ne_kind = Folder,
      ne_file_metadata_id = None, ne_meta = Some (no_meta\<lparr>nm_dir_kind := Some DirFlowInstance\<rparr>),
      ne_user_id = user_id\<rparr>"

text \<open>The name of a directory ends with the first eight digits of its id.\<close>

definition dir_name :: "string \<Rightarrow> uuid \<Rightarrow> string" where
  "dir_name name i = name @ ''_'' @ takeWhile (\<lambda>c. c \<noteq> CHR ''-'') (show_uuid i)"

definition flow_draft_dir :: "uuid \<Rightarrow> uuid \<Rightarrow> string \<Rightarrow> net_disk" where
  "flow_draft_dir draft_root_id draft_id draft_name =
     \<lparr>ne_id = draft_id, ne_parent_id = Some draft_root_id, ne_name = dir_name draft_name draft_id,
      ne_is_dict = True, ne_kind = Folder, ne_file_metadata_id = None,
      ne_meta = Some (no_meta\<lparr>nm_flow_draft_id := Some draft_id, nm_dir_kind := Some DirFlowDraft\<rparr>),
      ne_user_id = None\<rparr>"

definition flow_instance_dir :: "uuid \<Rightarrow> uuid \<Rightarrow> string \<Rightarrow> uuid option \<Rightarrow> net_disk" where
  "flow_instance_dir instance_root_id instance_id instance_name user_id =
     \<lparr>ne_id = instance_id, ne_parent_id = Some instance_root_id,
      ne_name = dir_name instance_name instance_id, ne_is_dict = True, ne_kind = Folder,
      ne_file_metadata_id = None,
      ne_meta = Some (no_meta\<lparr>nm_flow_instance_id := Some instance_id,
                              nm_dir_kind := Some DirFlowInstance\<rparr>),
      ne_user_id = user_id\<rparr>"

text \<open>The directory of a node is marked as one of a flow instance.\<close>

definition node_instance_dir :: "uuid \<Rightarrow> uuid \<Rightarrow> uuid \<Rightarrow> string \<Rightarrow> uuid option \<Rightarrow> net_disk" where
  "node_instance_dir flow_instance_dir_id flow_id instance_id instance_name user_id =
     \<lparr>ne_id = instance_id, ne_parent_id = Some flow_instance_dir_id,
      ne_name = dir_name instance_name instance_id, ne_is_dict = True, ne_kind = Folder,
      ne_file_metadata_id = None,
      ne_meta = Some (no_meta\<lparr>nm_flow_instance_id := Some flow_id,
                              nm_node_instance_id := Some instance_id,
                              nm_dir_kind := Some DirFlowInstance\<rparr>),
      ne_user_id = user_id\<rparr>"

datatype record_net_disk_kind =
    NodeInstanceFile uuid
  | FlowDraftFile uuid
  | NormalFile "uuid option"

record record_net_disk =
  rn_file_type :: file_type
  rn_kind :: record_net_disk_kind

record create_net_disk_file =
  cf_meta_id :: uuid
  cf_file_name :: string
  cf_file_type :: file_type
  cf_kind :: record_net_disk_kind

section \<open>Uploads, moves, snapshots\<close>

record multipart =
  mp_meta_id :: uuid
  mp_hash :: string
  mp_hash_algorithm :: hash_algorithm
  mp_parts :: "bool list"

record part =
  pt_meta_id :: uuid
  pt_content :: bytes
  pt_nth :: nat

datatype move_destination =
    ToSnapshot uuid int uuid  \<comment> \<open>node, time stamp, file\<close>
  | ToStorageServer "record_net_disk option"

fun show_destination :: "move_destination \<Rightarrow> string" where
  "show_destination (ToSnapshot _ _ _) = ''Snapshot''"
| "show_destination (ToStorageServer _) = ''StorageServer''"

record move_registration =
  mr_id :: uuid
  mr_meta_id :: uuid
  mr_file_name :: string
  mr_hash :: string
  mr_hash_algorithm :: hash_algorithm
  mr_size :: nat
  mr_destination :: move_destination
  mr_is_upload_failed :: bool
  mr_failed_reason :: "string option"
  mr_user_id :: "uuid option"

record snapshot =
  sn_id :: uuid
  sn_meta_id :: uuid
  sn_node_id :: uuid
  sn_file_id :: uuid
  sn_timestamp :: int
  sn_file_name :: string
  sn_size :: nat
  sn_hash :: string
  sn_hash_algorithm :: hash_algorithm
  sn_user_id :: uuid

record ws_req_info =
  ws_request_id :: uuid
  ws_client_id :: uuid

record file_upload_command =
  fu_move_id :: uuid
  fu_user_id :: uuid

record request_snapshot_command =
  rs_node_id :: uuid
  rs_file_id :: uuid
  rs_timestamp :: int

record view_realtime_command =
  vr_req_id :: uuid
  vr_node_id :: uuid
  vr_meta_id :: uuid
  vr_start_row :: int
  vr_rows_per_page :: int
  vr_regex :: string

datatype ws_server_operate_command =
    CloseSession uuid
  | SendContentToSession uuid string

datatype multipart_exception =
    ConflictedId uuid
  | ConflictedHash uuid string
  | MultipartNotFound uuid
  | NoSuchPart uuid nat
  | DifferentHashs uuid string string

datatype move_exception =
    FlashUpload string string uuid uuid  \<comment> \<open>destination, hash, id asked for, id already there\<close>
  | HashNotMatch uuid string string

end
