(* ===== verification/KF_Tables.thy ===== *)
theory KF_Tables
  imports KF_Types
begin

text \<open>
  The tables of the files in the database: \<open>file_metadata\<close>, \<open>file_storage\<close>, \<open>file_system\<close> (the net
  disk) and \<open>storage_server\<close>, with the conversions of \<open>database/model/src/system/file_metadata.rs\<close>,
  \<open>file_storage.rs\<close> and \<open>net_disk.rs\<close>. A row keeps the columns that are read; the constraints are
  those of the migration: primary keys, and one copy of a file per storage server.
\<close>

record file_meta_row =
  fmr_id :: uuid
  fmr_name :: string
  fmr_hash :: string
  fmr_hash_algorithm :: string
  fmr_size :: int

record file_storage_row =
  fsr_id :: uuid
  fsr_storage_server_id :: uuid
  fsr_file_metadata_id :: uuid
  fsr_server_url :: string
  fsr_created_user_id :: uuid

record file_system_row =
  fy_id :: uuid
  fy_parent_id :: "uuid option"
  fy_name :: string
  fy_is_dict :: bool
  fy_kind :: i32
  fy_owner_id :: uuid
  fy_file_metadata_id :: "uuid option"
  fy_meta :: "net_disk_meta option"

record file_tables =
  file_metadata :: "file_meta_row list"
  file_storages :: "file_storage_row list"
  file_system :: "file_system_row list"
  storage_servers :: "storage_server list"

definition no_files :: file_tables where
  "no_files = \<lparr>file_metadata = [], file_storages = [], file_system = [], storage_servers = []\<rparr>"

text \<open>\<open>as i64\<close> and \<open>as usize\<close> keep the 64 bits.\<close>

definition usize_as_i64 :: "nat \<Rightarrow> int" where
  "usize_as_i64 n = sint (of_nat n :: 64 word)"

definition i64_as_usize :: "int \<Rightarrow> nat" where
  "i64_as_usize i = unat (of_int i :: 64 word)"

lemma size_roundtrip: "n < 2 ^ 64 \<Longrightarrow> i64_as_usize (usize_as_i64 n) = n"
  by (simp add: i64_as_usize_def usize_as_i64_def unat_of_nat take_bit_nat_eq_self)

definition file_meta_row_from :: "file_meta \<Rightarrow> file_meta_row" where
  "file_meta_row_from l =
     \<lparr>fmr_id = fm_id l, fmr_name = fm_name l, fmr_hash = fm_hash l,
      fmr_hash_algorithm = show_hash_algorithm (fm_hash_algorithm l), fmr_size = usize_as_i64 (fm_size l)\<rparr>"

definition file_meta_from_row :: "file_meta_row \<Rightarrow> file_meta option" where
  "file_meta_from_row r =
     map_option (\<lambda>a. \<lparr>fm_id = fmr_id r, fm_name = fmr_name r, fm_hash = fmr_hash r,
       fm_hash_algorithm = a, fm_size = i64_as_usize (fmr_size r)\<rparr>)
       (hash_algorithm_from_str (fmr_hash_algorithm r))"

definition file_storage_row_from :: "uuid \<Rightarrow> uuid \<Rightarrow> file_storage \<Rightarrow> file_storage_row" where
  "file_storage_row_from i created_user_id l =
     \<lparr>fsr_id = i, fsr_storage_server_id = fs_storage_server_id l, fsr_file_metadata_id = fs_meta_id l,
      fsr_server_url = fs_server_url l, fsr_created_user_id = created_user_id\<rparr>"

fun file_type_code :: "file_type \<Rightarrow> i32" where
  "file_type_code Unkonwn = 0"
| "file_type_code TextFile = 1"
| "file_type_code Folder = 2"

definition file_system_row_from :: "uuid \<Rightarrow> net_disk \<Rightarrow> file_system_row" where
  "file_system_row_from owner_id l =
     \<lparr>fy_id = ne_id l, fy_parent_id = ne_parent_id l, fy_name = ne_name l, fy_is_dict = ne_is_dict l,
      fy_kind = file_type_code (ne_kind l), fy_owner_id = owner_id,
      fy_file_metadata_id = ne_file_metadata_id l, fy_meta = ne_meta l\<rparr>"

lemma hash_algorithm_roundtrip [simp]: "hash_algorithm_from_str (show_hash_algorithm a) = Some a"
  by (cases a) (simp add: hash_algorithm_from_str_def)

lemma file_meta_roundtrip: "fm_size m < 2 ^ 64 \<Longrightarrow> file_meta_from_row (file_meta_row_from m) = Some m"
  by (simp add: file_meta_from_row_def file_meta_row_from_def size_roundtrip)

section \<open>Statements\<close>

text \<open>
  \<open>InsertNetDisk\<close> is the insert with \<open>ON CONFLICT (id) DO NOTHING\<close> (of the two conflict clauses the
  code sets, the second replaces the first), \<open>InsertRoot\<close> the plain one.
\<close>

datatype file_stmt =
    InsertFileMeta file_meta_row
  | InsertFileStorage file_storage_row
  | InsertNetDisk file_system_row
  | InsertRoot file_system_row

fun exec_file :: "file_stmt \<Rightarrow> file_tables \<Rightarrow> file_tables option" where
  "exec_file (InsertFileMeta r) t =
     (if fmr_id r \<in> fmr_id ` set (file_metadata t) then None
      else Some (t\<lparr>file_metadata := file_metadata t @ [r]\<rparr>))"
| "exec_file (InsertFileStorage r) t =
     (if fsr_id r \<in> fsr_id ` set (file_storages t) \<or>
        (fsr_file_metadata_id r, fsr_storage_server_id r) \<in>
          (\<lambda>x. (fsr_file_metadata_id x, fsr_storage_server_id x)) ` set (file_storages t)
      then None else Some (t\<lparr>file_storages := file_storages t @ [r]\<rparr>))"
| "exec_file (InsertNetDisk r) t =
     Some (if fy_id r \<in> fy_id ` set (file_system t) then t
           else t\<lparr>file_system := file_system t @ [r]\<rparr>)"
| "exec_file (InsertRoot r) t =
     (if fy_id r \<in> fy_id ` set (file_system t) then None
      else Some (t\<lparr>file_system := file_system t @ [r]\<rparr>))"

end
