(* ===== verification/KC_Orm.thy ===== *)
theory KC_Orm
  imports KC_Instantiate KF_Tables
begin

text \<open>
  The coordinator's database and its repositories:
  \<open>co/src/infrastructure/repositories/sea_orm_db_repository/{mod,node_instance,workflow_instance,
  workflow_draft,file_meta,cluster}.rs\<close> and the row conversions of
  \<open>database/model/src/system/{node_instance,flow_instance}.rs\<close>; the text storage of
  \<open>redis_repository/text.rs\<close>.

  A row keeps the columns the conversions read; enums are stored as \<open>i32\<close> codes. JSON columns
  hold the value they serialise (the round trip of serde is the library's). Updates are queued
  as statements and reach the rows on \<open>save_changed\<close>; every read sees the committed rows only.
  The two timestamps of a node row, which nothing in the engine reads, are left out.

  The section on contracts interprets \<open>keyed_table\<close> on the node rows and on the flow rows and
  \<open>unit_of_work\<close> on the repository.
\<close>

section \<open>Rows and codes\<close>

record node_row =
  nr_id :: uuid
  nr_name :: string
  nr_kind :: i32
  nr_is_parent :: bool
  nr_batch_parent_id :: "uuid option"
  nr_status :: i32
  nr_resource_meter :: "task_used_resource option"
  nr_log :: "string option"
  nr_cluster_id :: "uuid option"
  nr_flow_instance_id :: uuid

record flow_row =
  fr_id :: uuid
  fr_name :: string
  fr_description :: string
  fr_logo :: "string option"
  fr_status :: i32
  fr_spec :: workflow_instance_spec
  fr_user_id :: uuid
  fr_last_modified_time :: int

fun kind_code :: "node_instance_kind \<Rightarrow> i32" where
  "kind_code KSoftwareUsecaseComputing = 0"
| "kind_code KNoAction = 1"
| "kind_code KScript = 2"
| "kind_code KMilestone = 3"

definition kind_from_i32 :: "i32 \<Rightarrow> node_instance_kind option" where
  "kind_from_i32 c =
     (if c = 0 then Some KSoftwareUsecaseComputing else if c = 1 then Some KNoAction
      else if c = 2 then Some KScript else if c = 3 then Some KMilestone else None)"

fun status_code :: "node_instance_status \<Rightarrow> i32" where
  "status_code Created = 0"
| "status_code Pending = 1"
| "status_code Running = 2"
| "status_code Finished = 3"
| "status_code Error = 4"
| "status_code Stopping = 5"
| "status_code Stopped = 6"
| "status_code Standby = 7"
| "status_code Pausing = 8"
| "status_code Paused = 9"
| "status_code Recovering = 10"

definition all_statuses :: "node_instance_status list" where
  "all_statuses = [Created, Pending, Running, Finished, Error, Stopping, Stopped, Standby, Pausing,
     Paused, Recovering]"

definition status_from_i32 :: "i32 \<Rightarrow> node_instance_status option" where
  "status_from_i32 c = find (\<lambda>st. status_code st = c) all_statuses"

fun flow_status_code :: "workflow_instance_status \<Rightarrow> i32" where
  "flow_status_code FCreated = 0"
| "flow_status_code FPending = 1"
| "flow_status_code FRunning = 2"
| "flow_status_code FFinished = 3"
| "flow_status_code FError = 4"
| "flow_status_code FStopping = 5"
| "flow_status_code FStopped = 6"
| "flow_status_code FPausing = 7"
| "flow_status_code FPaused = 8"
| "flow_status_code FRecovering = 9"
| "flow_status_code FUnknown = 10"

definition all_flow_statuses :: "workflow_instance_status list" where
  "all_flow_statuses = [FCreated, FPending, FRunning, FFinished, FError, FStopping, FStopped, FPausing,
     FPaused, FRecovering, FUnknown]"

definition flow_status_from_i32 :: "i32 \<Rightarrow> workflow_instance_status option" where
  "flow_status_from_i32 c = find (\<lambda>st. flow_status_code st = c) all_flow_statuses"

definition node_row_from :: "node_instance \<Rightarrow> node_row" where
  "node_row_from l =
     \<lparr>nr_id = ni_id l, nr_name = ni_name l, nr_kind = kind_code (ni_kind l), nr_is_parent = is_parent l,
      nr_batch_parent_id = batch_parent_id l, nr_status = status_code (ni_status l),
      nr_resource_meter = resource_meter l, nr_log = ni_log l, nr_cluster_id = cluster_id l,
      nr_flow_instance_id = flow_instance_id l\<rparr>"

definition node_from_row :: "node_row \<Rightarrow> kerr + node_instance" where
  "node_from_row r =
     rbind (ok_or WrongNodeKindCode (kind_from_i32 (nr_kind r))) (\<lambda>k.
     rbind (ok_or WrongNodeStatusCode (status_from_i32 (nr_status r))) (\<lambda>st.
     Inr \<lparr>ni_kind = k, ni_id = nr_id r, ni_name = nr_name r, is_parent = nr_is_parent r,
          batch_parent_id = nr_batch_parent_id r, flow_instance_id = nr_flow_instance_id r,
          ni_status = st, cluster_id = nr_cluster_id r, ni_log = nr_log r,
          resource_meter = nr_resource_meter r\<rparr>))"

definition flow_row_from :: "workflow_instance \<Rightarrow> flow_row" where
  "flow_row_from l =
     \<lparr>fr_id = wi_id l, fr_name = wi_name l, fr_description = wi_description l, fr_logo = wi_logo l,
      fr_status = flow_status_code (wi_status l), fr_spec = wi_spec l, fr_user_id = wi_user_id l,
      fr_last_modified_time = wi_last_modified_time l\<rparr>"

definition flow_from_row :: "flow_row \<Rightarrow> kerr + workflow_instance" where
  "flow_from_row r =
     rbind (ok_or WrongFlowStatusCode (flow_status_from_i32 (fr_status r))) (\<lambda>st.
     Inr \<lparr>wi_id = fr_id r, wi_name = fr_name r, wi_description = fr_description r, wi_logo = fr_logo r,
          wi_status = st, wi_spec = fr_spec r, wi_last_modified_time = fr_last_modified_time r,
          wi_user_id = fr_user_id r\<rparr>)"

lemma kind_code_inverse [simp]: "kind_from_i32 (kind_code k) = Some k"
  by (cases k) (simp_all add: kind_from_i32_def)

lemma status_code_inverse [simp]: "status_from_i32 (status_code st) = Some st"
  by (cases st) (simp_all add: status_from_i32_def all_statuses_def)

lemma flow_status_code_inverse [simp]: "flow_status_from_i32 (flow_status_code st) = Some st"
  by (cases st) (simp_all add: flow_status_from_i32_def all_flow_statuses_def)

lemma status_code_inject [simp]: "status_code a = status_code b \<longleftrightarrow> a = b"
  by (metis option.inject status_code_inverse)

lemma node_row_roundtrip [simp]: "node_from_row (node_row_from n) = Inr n"
  by (simp add: node_from_row_def node_row_from_def)

lemma flow_row_roundtrip [simp]: "flow_from_row (flow_row_from w) = Inr w"
  by (simp add: flow_from_row_def flow_row_from_def)

lemma nr_id_from [simp]: "nr_id (node_row_from n) = ni_id n"
  by (simp add: node_row_from_def)

lemma node_from_rowD:
  "node_from_row r = Inr n \<Longrightarrow>
   ni_id n = nr_id r \<and> flow_instance_id n = nr_flow_instance_id r \<and>
   batch_parent_id n = nr_batch_parent_id r \<and> status_code (ni_status n) = nr_status r"
  by (auto simp: node_from_row_def rbind_Inr_iff ok_or_Inr_iff status_from_i32_def dest: find_SomeD)

lemma kind_from_i32D: "kind_from_i32 c = Some k \<Longrightarrow> kind_code k = c"
  by (auto simp: kind_from_i32_def split: if_splits)

lemma node_from_row_inverse: "node_from_row r = Inr n \<Longrightarrow> node_row_from n = r"
  by (auto simp: node_from_row_def node_row_from_def rbind_Inr_iff ok_or_Inr_iff
      status_from_i32_def kind_from_i32D dest: find_SomeD)

lemma flow_from_rowD:
  "flow_from_row r = Inr w \<Longrightarrow>
   wi_id w = fr_id r \<and> wi_spec w = fr_spec r \<and> flow_status_code (wi_status w) = fr_status r \<and>
   wi_user_id w = fr_user_id r \<and> wi_last_modified_time w = fr_last_modified_time r"
  by (auto simp: flow_from_row_def rbind_Inr_iff ok_or_Inr_iff flow_status_from_i32_def dest: find_SomeD)

section \<open>The state of a service scope\<close>

record cluster =
  cl_id :: uuid
  topic_name :: string
  enabled :: bool

text \<open>The tables the engine uses. Drafts come with the user they belong to.\<close>

record database =
  node_rows :: "node_row list"
  flow_rows :: "flow_row list"
  draft_rows :: "(uuid \<times> workflow_draft) list"
  file_tabs :: file_tables
  cluster_rows :: "cluster list"
  software_block_list :: "(string \<times> string) list"
  installed_software :: "(string \<times> json) list"

datatype stmt =
    InsertNode node_row
  | UpdateNode node_row
  | UpdateFlow uuid workflow_instance_spec i32 int
  | FileStmt file_stmt

text \<open>
  One request scope: the committed database, the statements queued in the scope's repository
  with its \<open>can_drop\<close> flag and user, the number of draws made from the random sources, the
  Redis texts, and what was sent to the message queues so far: tasks with their topic, node
  results (\<open>node_status\<close>), node ids to bill, milestone posts.
\<close>

record kstate =
  db :: database
  statements :: "stmt list"
  can_drop :: bool
  repo_user_id :: "uuid option"
  clock :: int
  drawn :: nat
  rolled :: nat
  texts :: "(uuid \<times> string) list"
  sent_tasks :: "(string \<times> task) list"
  node_status_mq :: "task_result list"
  bill_mq :: "(string \<times> uuid) list"
  posted :: "(string \<times> uuid \<times> string \<times> string) list"

type_synonym 'a ksvc = "(kstate, kerr, 'a) svc"

definition read_db :: "(database \<Rightarrow> kerr + 'a) \<Rightarrow> 'a ksvc" where
  "read_db f = (\<lambda>s. (f (db s), s))"

lemma read_db_run [svc_simps]: "read_db f s = (f (db s), s)"
  by (simp add: read_db_def)

lemma keeps_read_db [keeps_intro, intro!]: "keeps P (read_db f)"
  by (simp add: keeps_def read_db_def)

definition draw_uuid :: "(nat \<Rightarrow> uuid) \<Rightarrow> uuid ksvc" where
  "draw_uuid gen = (\<lambda>s. (Inr (gen (drawn s)), s\<lparr>drawn := Suc (drawn s)\<rparr>))"

lemma draw_uuid_run [svc_simps]:
  "draw_uuid gen s = (Inr (gen (drawn s)), s\<lparr>drawn := Suc (drawn s)\<rparr>)"
  by (simp add: draw_uuid_def)

section \<open>Statements\<close>

fun exec_stmt :: "stmt \<Rightarrow> database \<Rightarrow> database option" where
  "exec_stmt (InsertNode r) d =
     (if nr_id r \<in> nr_id ` set (node_rows d) then None
      else Some (d\<lparr>node_rows := node_rows d @ [r]\<rparr>))"
| "exec_stmt (UpdateNode r) d =
     Some (d\<lparr>node_rows := map (\<lambda>x. if nr_id x = nr_id r then r else x) (node_rows d)\<rparr>)"
| "exec_stmt (UpdateFlow i sp st lmt) d =
     Some (d\<lparr>flow_rows := map (\<lambda>x. if fr_id x = i \<and> fr_last_modified_time x = lmt
                                 then x\<lparr>fr_spec := sp, fr_status := st\<rparr> else x) (flow_rows d)\<rparr>)"
| "exec_stmt (FileStmt f) d = map_option (\<lambda>t. d\<lparr>file_tabs := t\<rparr>) (exec_file f (file_tabs d))"

definition push_stmt :: "stmt \<Rightarrow> kstate \<Rightarrow> kstate" where
  "push_stmt st s = s\<lparr>statements := statements s @ [st], can_drop := False\<rparr>"

definition save_changed :: "bool ksvc" where
  "save_changed s =
     (if \<not> can_drop s then
        (case run_stmts exec_stmt (statements s) (db s) of
           None \<Rightarrow> (Inl DbErr, s\<lparr>statements := [], can_drop := True\<rparr>)
         | Some d \<Rightarrow> (Inr True, s\<lparr>db := d, statements := [], can_drop := True\<rparr>))
      else (Inr False, s))"

definition repo_user :: "kstate \<Rightarrow> uuid option \<Rightarrow> kerr + uuid" where
  "repo_user s user_id =
     (case user_id of Some u \<Rightarrow> Inr u | None \<Rightarrow> ok_or NoUserId (repo_user_id s))"

section \<open>Node instances\<close>

definition find_node_row :: "uuid \<Rightarrow> database \<Rightarrow> node_row option" where
  "find_node_row i d = find (\<lambda>r. nr_id r = i) (node_rows d)"

definition node_by_id :: "uuid \<Rightarrow> database \<Rightarrow> kerr + node_instance" where
  "node_by_id i d = rbind (ok_or (NoSuchNodeInstance i) (find_node_row i d)) node_from_row"

definition node_get_by_id :: "uuid \<Rightarrow> node_instance ksvc" where
  "node_get_by_id i = read_db (node_by_id i)"

definition node_update :: "node_instance \<Rightarrow> unit ksvc" where
  "node_update n = smodify (push_stmt (UpdateNode (node_row_from n)))"

definition node_insert :: "node_instance \<Rightarrow> unit ksvc" where
  "node_insert n = smodify (push_stmt (InsertNode (node_row_from n)))"

text \<open>The queries: the rows a filter selects, in the order of the table.\<close>

definition nodes_where :: "(node_row \<Rightarrow> bool) \<Rightarrow> database \<Rightarrow> kerr + node_instance list" where
  "nodes_where P d = rmap node_from_row (filter P (node_rows d))"

definition get_node_sub_node_instances :: "uuid \<Rightarrow> node_instance list ksvc" where
  "get_node_sub_node_instances i = read_db (nodes_where (\<lambda>r. nr_batch_parent_id r = Some i))"

definition is_all_same_entryment_nodes_success :: "uuid \<Rightarrow> bool ksvc" where
  "is_all_same_entryment_nodes_success i =
     read_db (\<lambda>d. rbind (ok_or (NoSuchNodeInstance i) (find_node_row i d)) (\<lambda>res.
       Inr (list_all (\<lambda>el. nr_status el = status_code Finished \<or> nr_status el = status_code Standby)
             (filter (\<lambda>r. nr_flow_instance_id r = nr_flow_instance_id res \<and> nr_batch_parent_id r = None)
               (node_rows d)))))"

definition get_all_workflow_instance_stand_by_nodes :: "uuid \<Rightarrow> node_instance list ksvc" where
  "get_all_workflow_instance_stand_by_nodes i =
     read_db (nodes_where (\<lambda>r. nr_flow_instance_id r = i \<and> nr_status r = status_code Standby))"

definition get_all_workflow_instance_nodes :: "uuid \<Rightarrow> node_instance list ksvc" where
  "get_all_workflow_instance_nodes i = read_db (nodes_where (\<lambda>r. nr_flow_instance_id r = i))"

text \<open>\<open>get_nth_of_batch_tasks\<close> looks for the sub-nodes of the node itself.\<close>

definition get_nth_of_batch_tasks :: "uuid \<Rightarrow> nat ksvc" where
  "get_nth_of_batch_tasks sub_node_id =
     read_db (\<lambda>d. rbind (ok_or (NoSuchNodeInstance sub_node_id) (find_node_row sub_node_id d)) (\<lambda>res.
       let sub_nodes = filter (\<lambda>r. nr_batch_parent_id r = Some (nr_id res)) (node_rows d);
           n = fold (\<lambda>(i, r) acc. if nr_id r = sub_node_id then Some i else acc)
                 (zip [0..<length sub_nodes] sub_nodes) None
       in ok_or NotASubNode n))"

section \<open>Workflow instances, drafts, clusters\<close>

definition find_flow_row :: "uuid \<Rightarrow> database \<Rightarrow> flow_row option" where
  "find_flow_row i d = find (\<lambda>r. fr_id r = i) (flow_rows d)"

definition flow_by_id :: "uuid \<Rightarrow> database \<Rightarrow> kerr + workflow_instance" where
  "flow_by_id i d = rbind (ok_or (NoSuchFlowInstance i) (find_flow_row i d)) flow_from_row"

definition flow_get_by_id :: "uuid \<Rightarrow> workflow_instance ksvc" where
  "flow_get_by_id i = read_db (flow_by_id i)"

definition flow_stmt :: "workflow_instance \<Rightarrow> stmt" where
  "flow_stmt w = UpdateFlow (wi_id w) (wi_spec w) (flow_status_code (wi_status w)) (wi_last_modified_time w)"

definition flow_update :: "workflow_instance \<Rightarrow> unit ksvc" where
  "flow_update w = smodify (push_stmt (flow_stmt w))"

text \<open>An insert of a flow is executed at once, with the repository's user and the database's time.\<close>

definition flow_insert :: "workflow_instance \<Rightarrow> unit ksvc" where
  "flow_insert w s =
     (case repo_user s None of
        Inl e \<Rightarrow> (Inl e, s)
      | Inr u \<Rightarrow>
          if wi_id w \<in> fr_id ` set (flow_rows (db s)) then (Inl DbErr, s)
          else (Inr (), s\<lparr>db := (db s)\<lparr>flow_rows := flow_rows (db s) @
                 [(flow_row_from w)\<lparr>fr_user_id := u, fr_last_modified_time := clock s\<rparr>]\<rparr>\<rparr>))"

definition flow_get_by_node_id :: "uuid \<Rightarrow> workflow_instance ksvc" where
  "flow_get_by_node_id i = sbind (node_get_by_id i) (\<lambda>n. flow_get_by_id (flow_instance_id n))"

text \<open>The owner of a node (\<open>workflow.rs\<close>): the user of its flow.\<close>

definition get_node_user_id :: "uuid \<Rightarrow> uuid ksvc" where
  "get_node_user_id node_instance_id =
     sbind (node_get_by_id node_instance_id) (\<lambda>n.
     sbind (flow_get_by_id (flow_instance_id n)) (\<lambda>w. sret (wi_user_id w)))"

definition draft_get_by_id :: "uuid \<Rightarrow> workflow_draft ksvc" where
  "draft_get_by_id i s =
     (case repo_user s None of
        Inl e \<Rightarrow> (Inl e, s)
      | Inr u \<Rightarrow>
          (ok_or (NoSuchDraft i)
             (map_option snd (find (\<lambda>(user, l). wd_id l = i \<and> user = u) (draft_rows (db s)))), s))"

definition meta_exists :: "database \<Rightarrow> uuid \<Rightarrow> bool" where
  "meta_exists d i \<longleftrightarrow>
     Option.bind (find (\<lambda>r. fmr_id r = i) (file_metadata (file_tabs d))) file_meta_from_row \<noteq> None"

definition cluster_get_by_id :: "uuid \<Rightarrow> cluster ksvc" where
  "cluster_get_by_id i = read_db (\<lambda>d. ok_or (NoSuchCluster i) (find (\<lambda>c. cl_id c = i) (cluster_rows d)))"

text \<open>\<open>gen_range(0..count)\<close> panics when no cluster is enabled.\<close>

definition get_random_cluster :: "(nat \<Rightarrow> nat) \<Rightarrow> uuid ksvc" where
  "get_random_cluster rnd s =
     (let cs = filter enabled (cluster_rows (db s)) in
      if cs = [] then (Inl Panic, s)
      else (Inr (cl_id (cs ! (rnd (rolled s) mod length cs))), s\<lparr>rolled := Suc (rolled s)\<rparr>))"

section \<open>Texts: \<open>redis_repository/text.rs\<close>\<close>

definition text_get_by_id :: "uuid \<Rightarrow> string ksvc" where
  "text_get_by_id i = (\<lambda>s. (ok_or NoSuchTextKey (map_of (texts s) i), s))"

definition text_already_uuid :: "string \<Rightarrow> kstate \<Rightarrow> uuid option" where
  "text_already_uuid text s = map_option fst (find (\<lambda>(k, v). v = text) (texts s))"

text \<open>
  The key is the one given, or that of an equal text, or the id drawn. \<open>or\<close> evaluates its
  argument, so the id is drawn in every case.
\<close>

definition text_insert :: "(nat \<Rightarrow> uuid) \<Rightarrow> uuid option \<Rightarrow> string \<Rightarrow> uuid ksvc" where
  "text_insert gen key text s =
     (let k = (case key of Some k \<Rightarrow> k
               | None \<Rightarrow> (case text_already_uuid text s of Some k \<Rightarrow> k | None \<Rightarrow> gen (drawn s)))
      in (Inr k, s\<lparr>texts := AList.update k text (texts s), drawn := Suc (drawn s)\<rparr>))"

definition upload_text :: "(nat \<Rightarrow> uuid) \<Rightarrow> uuid option \<Rightarrow> string \<Rightarrow> uuid ksvc" where
  "upload_text gen key text = text_insert gen key text"

section \<open>Software: \<open>installed_software.rs\<close>, \<open>software_block_list.rs\<close>\<close>

definition is_software_version_blocked :: "string \<Rightarrow> string \<Rightarrow> database \<Rightarrow> kerr + bool" where
  "is_software_version_blocked name version d =
     Inr (length (filter (\<lambda>(n, v). n = name \<and> v = version) (software_block_list d)) > 0)"

text \<open>\<open>serde_json::from_value::<Vec<String>>\<close>.\<close>

definition json_string :: "json \<Rightarrow> kerr + string" where
  "json_string j = (case j of JString s \<Rightarrow> Inr s | _ \<Rightarrow> Inl JsonError)"

definition json_strings :: "json \<Rightarrow> kerr + string list" where
  "json_strings j = (case j of JArray js \<Rightarrow> rmap json_string js | _ \<Rightarrow> Inl JsonError)"

text \<open>The result starts at \<open>true\<close> and a row that misses an argument clears it.\<close>

definition is_software_satisfied :: "string \<Rightarrow> string list \<Rightarrow> database \<Rightarrow> kerr + bool" where
  "is_software_satisfied name required d =
     rfold (\<lambda>(_, j) r.
         rbind (json_strings j) (\<lambda>installed.
         Inr (if \<forall>a \<in> set required. a \<in> set installed then r else False)))
       (filter (\<lambda>(n, _). n = name) (installed_software d)) True"

section \<open>Contracts\<close>

subsection \<open>Tables of rows\<close>

text \<open>\<open>apply_update\<close> is an update statement as a total function; an insert is not one.\<close>

fun is_update :: "stmt \<Rightarrow> bool" where
  "is_update (UpdateNode _) = True"
| "is_update (UpdateFlow _ _ _ _) = True"
| "is_update _ = False"

definition apply_update :: "stmt \<Rightarrow> database \<Rightarrow> database" where
  "apply_update st d = (if is_update st then the (exec_stmt st d) else d)"

fun node_target :: "stmt \<Rightarrow> uuid option" where
  "node_target (UpdateNode r) = Some (nr_id r)"
| "node_target _ = None"

fun node_eff :: "stmt \<Rightarrow> node_row \<Rightarrow> node_row" where
  "node_eff (UpdateNode r) _ = r"
| "node_eff _ x = x"

fun flow_target :: "stmt \<Rightarrow> uuid option" where
  "flow_target (UpdateFlow i _ _ _) = Some i"
| "flow_target _ = None"

fun flow_eff :: "stmt \<Rightarrow> flow_row \<Rightarrow> flow_row" where
  "flow_eff (UpdateFlow i sp st lmt) x =
     (if fr_last_modified_time x = lmt then x\<lparr>fr_spec := sp, fr_status := st\<rparr> else x)"
| "flow_eff _ x = x"

definition node_lookup :: "database \<Rightarrow> uuid option \<Rightarrow> node_row option" where
  "node_lookup d k = Option.bind k (\<lambda>i. find_node_row i d)"

definition flow_lookup :: "database \<Rightarrow> uuid option \<Rightarrow> flow_row option" where
  "flow_lookup d k = Option.bind k (\<lambda>i. find_flow_row i d)"

text \<open>Primary keys.\<close>

definition keys_ok :: "database \<Rightarrow> bool" where
  "keys_ok d \<longleftrightarrow> distinct (map nr_id (node_rows d)) \<and> distinct (map fr_id (flow_rows d))"

lemma apply_update_simps [simp]:
  "apply_update (UpdateNode r) d = d\<lparr>node_rows := map (\<lambda>x. if nr_id x = nr_id r then r else x) (node_rows d)\<rparr>"
  "apply_update (UpdateFlow i sp st lmt) d =
     d\<lparr>flow_rows := map (\<lambda>x. if fr_id x = i \<and> fr_last_modified_time x = lmt
                          then x\<lparr>fr_spec := sp, fr_status := st\<rparr> else x) (flow_rows d)\<rparr>"
  "apply_update (InsertNode r) d = d"
  "apply_update (FileStmt f) d = d"
  by (simp_all add: apply_update_def)

lemma exec_stmt_update: "is_update st \<Longrightarrow> exec_stmt st d = Some (apply_update st d)"
  by (cases st) simp_all

lemma apply_update_ids:
  "map nr_id (node_rows (apply_update st d)) = map nr_id (node_rows d)"
  "map fr_id (flow_rows (apply_update st d)) = map fr_id (flow_rows d)"
  by (cases st; simp)+

lemma keys_ok_apply: "keys_ok d \<Longrightarrow> keys_ok (apply_update st d)"
  by (simp only: keys_ok_def apply_update_ids)

lemma node_eff_update [simp]: "node_eff (UpdateNode r) = (\<lambda>_. r)"
  by (rule ext) simp

lemma find_map_row:
  "find (\<lambda>x. key x = i) (map (\<lambda>x. if key x = key r then r else x) xs) =
   (if i = key r then map_option (\<lambda>_. r) (find (\<lambda>x. key x = i) xs) else find (\<lambda>x. key x = i) xs)"
  by (induction xs) auto

interpretation node_table: keyed_table keys_ok node_lookup apply_update node_target node_eff
proof
  fix t u k assume "keys_ok t"
  then show "keys_ok (apply_update u t)" by (rule keys_ok_apply)
  show "node_lookup (apply_update u t) k =
    (if k = node_target u then map_option (node_eff u) (node_lookup t k) else node_lookup t k)"
    by (cases u; cases k)
      (auto simp: node_lookup_def find_node_row_def find_map_row option.map_id [unfolded id_def])
qed

interpretation flow_table: keyed_table keys_ok flow_lookup apply_update flow_target flow_eff
proof
  fix t u k assume "keys_ok t"
  then show "keys_ok (apply_update u t)" by (rule keys_ok_apply)
  show "flow_lookup (apply_update u t) k =
    (if k = flow_target u then map_option (flow_eff u) (flow_lookup t k) else flow_lookup t k)"
  proof (cases u)
    case (UpdateFlow i sp st lmt)
    have "find (\<lambda>x. fr_id x = j)
        (map (\<lambda>x. if fr_id x = i \<and> fr_last_modified_time x = lmt then x\<lparr>fr_spec := sp, fr_status := st\<rparr> else x) xs)
      = (if j = i then map_option (flow_eff u) (find (\<lambda>x. fr_id x = j) xs) else find (\<lambda>x. fr_id x = j) xs)"
      for j xs
      using UpdateFlow by (induction xs) auto
    with UpdateFlow show ?thesis by (cases k) (auto simp: flow_lookup_def find_flow_row_def)
  qed (auto simp: flow_lookup_def find_flow_row_def split: option.splits)
qed

subsection \<open>The repository as a unit of work\<close>

definition repo_ok :: "kstate \<Rightarrow> bool" where
  "repo_ok s \<longleftrightarrow> (can_drop s \<longrightarrow> statements s = [])"

interpretation orm: unit_of_work repo_ok db statements push_stmt save_changed exec_stmt
  by unfold_locales (auto simp: repo_ok_def push_stmt_def save_changed_def split: option.splits)

text \<open>
  What a save of update statements does: the updates in order on the rows, and nothing else of
  the scope but its queue.
\<close>

definition updates :: "stmt list \<Rightarrow> database \<Rightarrow> database" where
  "updates sts d = fold apply_update sts d"

lemma run_updates: "(\<And>st. st \<in> set sts \<Longrightarrow> is_update st) \<Longrightarrow> run_stmts exec_stmt sts d = Some (updates sts d)"
  unfolding updates_def by (rule run_stmts_total) (simp add: exec_stmt_update)

lemma save_updates:
  assumes "repo_ok s" "\<And>st. st \<in> set (statements s) \<Longrightarrow> is_update st"
  shows "save_changed s =
    (Inr (\<not> can_drop s), s\<lparr>db := updates (statements s) (db s), statements := [], can_drop := True\<rparr>)"
  using assms by (auto simp: save_changed_def run_updates repo_ok_def updates_def)

lemma keys_ok_updates: "keys_ok d \<Longrightarrow> keys_ok (updates sts d)"
  unfolding updates_def by (rule node_table.inv_fold)

lemma find_node_row_updates:
  "keys_ok d \<Longrightarrow>
   find_node_row i (updates sts d) =
     map_option (fold node_eff (filter (\<lambda>u. node_target u = Some i) sts)) (find_node_row i d)"
  using node_table.lookup_fold [of d sts "Some i"] by (simp add: updates_def node_lookup_def)

lemma find_flow_row_updates:
  "keys_ok d \<Longrightarrow>
   find_flow_row i (updates sts d) =
     map_option (fold flow_eff (filter (\<lambda>u. flow_target u = Some i) sts)) (find_flow_row i d)"
  using flow_table.lookup_fold [of d sts "Some i"] by (simp add: updates_def flow_lookup_def)

text \<open>The rows of the tables, their ids and their order are the same before and after.\<close>

lemma updates_ids:
  "map nr_id (node_rows (updates sts d)) = map nr_id (node_rows d)"
  "map fr_id (flow_rows (updates sts d)) = map fr_id (flow_rows d)"
  unfolding updates_def by (induction sts arbitrary: d) (auto simp: apply_update_ids simp del: map_eq_conv)

end
