(* ===== verification/KP_Types.thy ===== *)
theory KP_Types
  imports KC_Types
begin

text \<open>
  The content of software and use-case packages: \<open>lib-co-repo/src/models/abilities\<close>. A
  \<^emph>\<open>software package\<close> names the software and lists the materials it offers: arguments,
  environment variables, input and output files. A \<^emph>\<open>use-case package\<close> says how one command of
  the software is run: which input slots fill which materials, which templates are rendered, and
  where the output slots come from. \<open>Metadata\<close> and the flag arguments are hash maps in the
  source; they are lists of pairs with distinct keys, in the order the map iterates.
\<close>

type_synonym metadata = "(string \<times> string) list"

section \<open>Software: \<open>software_computing/software\<close>\<close>

datatype file_kind = NormalFile string | BatchedFile string

definition file_kind_path :: "file_kind \<Rightarrow> string" where
  "file_kind_path k = (case k of NormalFile path \<Rightarrow> path | BatchedFile path \<Rightarrow> path)"

definition expected_file_name :: "file_kind \<Rightarrow> string option" where
  "expected_file_name k = (case k of NormalFile name \<Rightarrow> Some name | BatchedFile _ \<Rightarrow> None)"

definition is_batch :: "file_kind \<Rightarrow> bool" where
  "is_batch k = (case k of NormalFile _ \<Rightarrow> False | BatchedFile _ \<Rightarrow> True)"

record argument =
  ar_descriptor :: string
  ar_value_format :: string
  ar_metadata :: metadata

record environment =
  en_descriptor :: string
  en_key :: string
  en_value_format :: string
  en_metadata :: metadata

record filesome_input =
  fin_descriptor :: string
  fin_file_kind :: file_kind
  fin_optional :: bool
  fin_metadata :: metadata

record filesome_output =
  fout_descriptor :: string
  fout_file_kind :: file_kind
  fout_metadata :: metadata
  fout_optional :: bool

section \<open>Use cases: \<open>software_computing/usecase\<close>\<close>

datatype text_rule = TrJson | TrNumber | TrRegex string

text \<open>An argument reference is \<open>descriptor\<close>, \<open>placeholder_nth\<close>, \<open>sort\<close>.\<close>

datatype text_ref =
    TextArgRef string nat nat
  | TextEnvRef string nat
  | TextStdIn
  | TextTemplateRef string "string list"

datatype file_ref =
    FileArgRef string nat nat
  | FileEnvRef string nat
  | FileStdIn
  | FileInputRef string
  | FileTemplateRef string "string list"

fun ref_file_descriptor :: "file_ref \<Rightarrow> string option" where
  "ref_file_descriptor (FileArgRef _ _ _) = None"
| "ref_file_descriptor (FileEnvRef _ _) = None"
| "ref_file_descriptor FileStdIn = None"
| "ref_file_descriptor (FileInputRef descriptor) = Some descriptor"
| "ref_file_descriptor (FileTemplateRef _ _) = None"

text \<open>\<open>descriptor\<close>, \<open>text_rule\<close>, \<open>ref_materials\<close>, \<open>metadata\<close>, \<open>optional\<close>.\<close>

datatype usecase_input_slot =
    UInText string "text_rule option" "text_ref list" metadata bool
  | UInFile string "file_ref list" metadata bool

fun uin_descriptor :: "usecase_input_slot \<Rightarrow> string" where
  "uin_descriptor (UInText descriptor _ _ _ _) = descriptor"
| "uin_descriptor (UInFile descriptor _ _ _) = descriptor"

fun uin_optional :: "usecase_input_slot \<Rightarrow> bool" where
  "uin_optional (UInText _ _ _ _ opt) = opt"
| "uin_optional (UInFile _ _ _ opt) = opt"

record template_file =
  tf_descriptor :: string
  tf_path :: string
  as_content :: "text_ref list"
  as_file_name :: "file_ref list"

datatype appointed_by = ByMaterial | ByInputSlot string

record file_out_and_appointed_by =
  file_out_material_descriptor :: string
  appointed :: appointed_by

datatype usecase_file_out_origin =
  FromCollectedOut string | FromUsecaseOut file_out_and_appointed_by

text \<open>
  Text: \<open>descriptor\<close>, \<open>collected_out_descriptor\<close>, \<open>metadata\<close>, \<open>optional\<close>, \<open>validator\<close>. File:
  \<open>descriptor\<close>, \<open>origin\<close>, \<open>optional\<close>, \<open>metadata\<close>, \<open>validator\<close>.
\<close>

datatype usecase_output_slot =
    UOutText string string metadata bool "out_validator option"
  | UOutFile string usecase_file_out_origin bool metadata "out_validator option"

fun uout_descriptor :: "usecase_output_slot \<Rightarrow> string" where
  "uout_descriptor (UOutText descriptor _ _ _ _) = descriptor"
| "uout_descriptor (UOutFile descriptor _ _ _ _) = descriptor"

datatype repo_collect_from = RepoFileOut string | RepoStdout | RepoStderr

datatype collected_file = CollectedNormal string | CollectedBatched string

definition get_path :: "collected_file \<Rightarrow> string" where
  "get_path f = (case f of CollectedNormal path \<Rightarrow> path | CollectedBatched path \<Rightarrow> path)"

datatype repo_collect_to = RepoToFile collected_file | RepoToText

datatype repo_collect_rule = RepoRegex string | RepoBottomLines nat | RepoTopLines nat

record collected_out =
  co_descriptor :: string
  co_from :: repo_collect_from
  co_to :: repo_collect_to
  co_collecting :: repo_collect_rule
  co_validator :: "out_validator option"
  co_metadata :: metadata

record template_file_info =
  ti_descriptor :: string
  ti_content :: string
  ti_file_name :: string

record usecase_spec =
  command_file :: string
  merge_stdout_and_stderr :: bool
  us_input_slots :: "usecase_input_slot list"
  template_files :: "template_file list"
  us_output_slots :: "usecase_output_slot list"
  flag_arguments :: "(string \<times> nat) list"
  flag_environments :: "string list"
  std_out_validator :: "out_validator option"
  std_err_validator :: "out_validator option"
  us_requirements :: "requirements option"
  us_metadata :: metadata

section \<open>Packages: \<open>models/package.rs\<close>, \<open>models/manifest.rs\<close>\<close>

datatype software_computing_repo = SoftwareRepo | UsecaseRepo string string

record manifest =
  mf_ability :: software_computing_repo
  mf_name :: string
  mf_system_name :: string
  mf_version :: string
  maintainers :: "string list"
  mf_git :: "string option"
  home_page :: "string option"

record software_data =
  sd_spec :: software_spec
  sd_arguments :: "argument list"
  sd_environments :: "environment list"
  sd_filesome_inputs :: "filesome_input list"
  sd_filesome_outputs :: "filesome_output list"

record usecase_data =
  ud_spec :: usecase_spec
  ud_collected_outs :: "collected_out list"
  ud_template_file_infos :: "template_file_info list"

datatype package_data = SoftwarePackage software_data | UsecasePackage usecase_data

record package =
  version_id :: uuid
  pk_manifest :: manifest
  pk_data :: package_data

text \<open>What running a use case needs, \<open>models/software_computing_usecase.rs\<close>.\<close>

record software_computing_usecase =
  cu_usecase_version_id :: uuid
  cu_software_version_id :: uuid
  cu_usecase_spec :: usecase_spec
  cu_software_spec :: software_spec
  cu_arguments :: "argument list"
  cu_environments :: "environment list"
  cu_filesome_inputs :: "filesome_input list"
  cu_collected_outs :: "collected_out list"
  cu_filesome_outputs :: "filesome_output list"
  cu_template_file_infos :: "template_file_info list"

text \<open>What drafting a node needs, \<open>dtos/node_ability_kind.rs\<close>.\<close>

record usecase_node_parsing =
  np_usecase_version_id :: uuid
  np_software_version_id :: uuid
  np_usecase_spec :: usecase_spec
  np_filesome_inputs :: "filesome_input list"
  np_filesome_outputs :: "filesome_output list"
  np_collected_outs :: "collected_out list"

section \<open>Formats with placeholders\<close>

text \<open>
  \<open>FormatFill\<close> of the coordinator, with \<open>'v\<close> the text a placeholder is filled with, and
  \<open>FormatFillPreview\<close> of the validation, with \<open>'v\<close> the slot it is filled from. The hash maps
  are association lists: the code sorts their entries or reads them back as a map.
\<close>

record 'v format_fill =
  fm_format :: string
  placeholder_fill_map :: "(nat \<times> 'v) list"

text \<open>
  The local variables of both loops: formats by position of the argument, formats by key of the
  environment variable, files, standard input, and the values of the keys of each template.
\<close>

record ('v, 'f, 'i) fills =
  argument_formats_sorts :: "(nat \<times> 'v format_fill) list"
  environment_formats :: "(string \<times> 'v format_fill) list"
  fl_files :: "'f list"
  fl_std_in :: 'i
  templates_kv :: "(string \<times> (string \<times> 'v) list) list"

text \<open>\<open>map.entry(k).or_insert(ff)\<close>.\<close>

definition or_insert :: "'k \<Rightarrow> 'v \<Rightarrow> ('k \<times> 'v) list \<Rightarrow> ('k \<times> 'v) list" where
  "or_insert k v m = (case map_of m k of None \<Rightarrow> AList.update k v m | Some _ \<Rightarrow> m)"

text \<open>\<open>map.entry(k).or_insert(ff).placeholder_fill_map.insert(nth, v)\<close>.\<close>

definition entry_fill ::
  "'k \<Rightarrow> 'v format_fill \<Rightarrow> nat \<Rightarrow> 'v \<Rightarrow> ('k \<times> 'v format_fill) list \<Rightarrow> ('k \<times> 'v format_fill) list" where
  "entry_fill k ff n v m =
     (let cur = (case map_of m k of None \<Rightarrow> ff | Some x \<Rightarrow> x) in
      AList.update k (cur\<lparr>placeholder_fill_map := AList.update n v (placeholder_fill_map cur)\<rparr>) m)"

text \<open>The value \<open>v\<close> for the \<open>ref_keys\<close> of the template \<open>d\<close>.\<close>

definition fill_keys ::
  "string \<Rightarrow> string list \<Rightarrow> 'v \<Rightarrow> (string \<times> (string \<times> 'v) list) list \<Rightarrow> (string \<times> (string \<times> 'v) list) list" where
  "fill_keys d ref_keys v m =
     fold (\<lambda>k m. AList.update d
       (AList.update k v (case map_of m d of None \<Rightarrow> [] | Some kv \<Rightarrow> kv)) m) ref_keys m"

end
