(* ===== verification/KP_Package.thy ===== *)
theory KP_Package
  imports KP_Types
begin

text \<open>
  Reading a package from its archive (\<open>lib-co-repo/src/models/package.rs\<close>), the data of a use
  case taken from two packages (\<open>models/software_computing_usecase.rs\<close>,
  \<open>dtos/node_ability_kind.rs\<close>) and the client that fetches them (\<open>client/mod.rs\<close>).

  From outside come the download with the decoding of the tar format (\<open>fetch\<close>: the entries of
  the archive, with the components of their paths) and the YAML and JSON readers with serde's
  deserialisation (\<open>read_manifest\<close>, \<open>read_software\<close>, \<open>read_usecase\<close>).
\<close>

datatype software_material =
    MSoftwareSpec software_spec
  | MArgumentList "argument list"
  | MEnvironmentList "environment list"
  | MFilesomeInputList "filesome_input list"
  | MFilesomeOutputList "filesome_output list"

datatype usecase_material =
    MUsecaseSpec usecase_spec
  | MCollectedOutList "collected_out list"

record tar_entry =
  te_path :: "string list"
  te_is_file :: bool
  te_content :: "string option"

record co_repo =
  fetch :: "uuid \<Rightarrow> tar_entry list option"
  read_manifest :: "string \<Rightarrow> manifest option"
  read_software :: "string \<Rightarrow> software_material option"
  read_usecase :: "string \<Rightarrow> usecase_material option"

section \<open>Strings\<close>

text \<open>\<open>str::split\<close> by a non-empty pattern: the pieces between its occurrences from the left.\<close>

fun split_acc :: "string \<Rightarrow> string \<Rightarrow> nat \<Rightarrow> string \<Rightarrow> string list" where
  "split_acc pat acc skip [] = [rev acc]"
| "split_acc pat acc (Suc skip) (c # cs) = split_acc pat acc skip cs"
| "split_acc pat acc 0 (c # cs) =
     (if take (length pat) (c # cs) = pat then rev acc # split_acc pat [] (length pat - 1) cs
      else split_acc pat (c # acc) 0 cs)"

definition str_split :: "string \<Rightarrow> string \<Rightarrow> string list" where
  "str_split pat s = split_acc pat [] 0 s"

text \<open>\<open>str::trim_end\<close> on the white space of ASCII.\<close>

definition is_space :: "char \<Rightarrow> bool" where
  "is_space c \<longleftrightarrow> c \<in> {CHR 0x09, CHR 0x0A, CHR 0x0B, CHR 0x0C, CHR 0x0D, CHR '' ''}"

definition trim_end :: "string \<Rightarrow> string" where
  "trim_end s = rev (dropWhile is_space (rev s))"

lemma split_acc_ne: "split_acc pat acc skip s \<noteq> []"
  by (induction pat acc skip s rule: split_acc.induct) auto

lemma split_acc_plain:
  "(\<forall>i < length s. take (length pat) (drop i s) \<noteq> pat) \<Longrightarrow> split_acc pat acc 0 s = [rev acc @ s]"
proof (induction s arbitrary: acc)
  case (Cons c cs)
  from Cons.prems have "take (length pat) (c # cs) \<noteq> pat" by fastforce
  moreover have "\<forall>i < length cs. take (length pat) (drop i cs) \<noteq> pat"
    using Cons.prems by (metis Suc_mono drop_Suc_Cons length_Cons)
  ultimately show ?case using Cons.IH by simp
qed simp

text \<open>A text without the separator is one piece.\<close>

lemma str_split_plain:
  "(\<forall>i < length s. take (length pat) (drop i s) \<noteq> pat) \<Longrightarrow> str_split pat s = [s]"
  by (simp add: str_split_def split_acc_plain)

section \<open>Reading an archive\<close>

text \<open>\<open>ancestors().count()\<close> of a relative path: itself, its parents, and the empty path.\<close>

definition ancestors_count :: "string list \<Rightarrow> nat" where
  "ancestors_count path = Suc (length path)"

definition package_ancestors_count :: nat where
  "package_ancestors_count = 3"

definition read_to_string :: "tar_entry \<Rightarrow> repo_err + string" where
  "read_to_string e = ok_or UnreadableEntry (te_content e)"

definition add_software_material ::
  "software_material \<Rightarrow> software_spec option \<times> software_data \<Rightarrow> software_spec option \<times> software_data" where
  "add_software_material m acc = (case acc of (spec, d) \<Rightarrow>
     (case m of
        MSoftwareSpec el \<Rightarrow> (Some el, d)
      | MArgumentList el \<Rightarrow> (spec, d\<lparr>sd_arguments := sd_arguments d @ el\<rparr>)
      | MEnvironmentList el \<Rightarrow> (spec, d\<lparr>sd_environments := sd_environments d @ el\<rparr>)
      | MFilesomeInputList el \<Rightarrow> (spec, d\<lparr>sd_filesome_inputs := sd_filesome_inputs d @ el\<rparr>)
      | MFilesomeOutputList el \<Rightarrow> (spec, d\<lparr>sd_filesome_outputs := sd_filesome_outputs d @ el\<rparr>)))"

definition software_entry ::
  "co_repo \<Rightarrow> tar_entry \<Rightarrow> software_spec option \<times> software_data
     \<Rightarrow> repo_err + software_spec option \<times> software_data" where
  "software_entry cr e acc =
     (if ancestors_count (te_path e) > package_ancestors_count \<and> te_is_file e then
        rbind (read_to_string e) (\<lambda>content.
        rfold (\<lambda>part acc.
            rbind (ok_or BadMaterial (read_software cr (trim_end part))) (\<lambda>m.
            Inr (add_software_material m acc)))
          (str_split ''---'' content) acc)
      else Inr acc)"

definition parse_software_data :: "co_repo \<Rightarrow> tar_entry list \<Rightarrow> repo_err + package_data" where
  "parse_software_data cr entries =
     rbind (rfold (software_entry cr) entries
        (None, \<lparr>sd_spec = RepoSpack '''' [], sd_arguments = [], sd_environments = [],
                sd_filesome_inputs = [], sd_filesome_outputs = []\<rparr>)) (\<lambda>(spec, d).
     rbind (ok_or RepoPanic spec) (\<lambda>sp. Inr (SoftwarePackage (d\<lparr>sd_spec := sp\<rparr>))))"

type_synonym usecase_acc = "usecase_spec option \<times> collected_out list \<times> template_file_info list"

definition add_usecase_material :: "usecase_material \<Rightarrow> usecase_acc \<Rightarrow> usecase_acc" where
  "add_usecase_material m acc = (case acc of (spec, outs, infos) \<Rightarrow>
     (case m of
        MUsecaseSpec el \<Rightarrow> (Some el, outs, infos)
      | MCollectedOutList el \<Rightarrow> (spec, outs @ el, infos)))"

text \<open>A file in the folder \<open>templates\<close> below the root of the package is a template.\<close>

definition is_template_entry :: "tar_entry \<Rightarrow> bool" where
  "is_template_entry e \<longleftrightarrow>
     ancestors_count (te_path e) = package_ancestors_count + 2 \<and>
     te_path e ! (length (te_path e) - 2) = ''templates''"

definition usecase_entry :: "co_repo \<Rightarrow> tar_entry \<Rightarrow> usecase_acc \<Rightarrow> repo_err + usecase_acc" where
  "usecase_entry cr e acc =
     (if ancestors_count (te_path e) > package_ancestors_count \<and> te_is_file e then
        rbind (read_to_string e) (\<lambda>content.
        if is_template_entry e then
          (case acc of (spec, outs, infos) \<Rightarrow>
             Inr (spec, outs, infos @
               [\<lparr>ti_descriptor = '''', ti_content = content, ti_file_name = last (te_path e)\<rparr>]))
        else
          rfold (\<lambda>part acc.
              rbind (ok_or BadMaterial (read_usecase cr part)) (\<lambda>m.
              Inr (add_usecase_material m acc)))
            (str_split ''---'' content) acc)
      else Inr acc)"

text \<open>A template file takes the descriptor of the template whose path is its file name.\<close>

definition name_template :: "usecase_spec \<Rightarrow> template_file_info \<Rightarrow> repo_err + template_file_info" where
  "name_template spec el =
     rbind (ok_or RepoPanic (find (\<lambda>el2. tf_path el2 = ti_file_name el) (template_files spec))) (\<lambda>t.
     Inr (el\<lparr>ti_descriptor := tf_descriptor t\<rparr>))"

definition parse_usecase_data :: "co_repo \<Rightarrow> tar_entry list \<Rightarrow> repo_err + package_data" where
  "parse_usecase_data cr entries =
     rbind (rfold (usecase_entry cr) entries (None, [], [])) (\<lambda>(spec, outs, infos).
     rbind (ok_or RepoPanic spec) (\<lambda>sp.
     rbind (rmap (name_template sp) infos) (\<lambda>infos.
     Inr (UsecasePackage \<lparr>ud_spec = sp, ud_collected_outs = outs, ud_template_file_infos = infos\<rparr>))))"

definition extract_package :: "co_repo \<Rightarrow> uuid \<Rightarrow> tar_entry list \<Rightarrow> repo_err + package" where
  "extract_package cr i entries =
     rbind (ok_or (NoManifest i)
        (find (\<lambda>e. te_is_file e \<and> ancestors_count (te_path e) = package_ancestors_count) entries)) (\<lambda>e.
     rbind (read_to_string e) (\<lambda>content.
     rbind (ok_or BadManifest (read_manifest cr content)) (\<lambda>m.
     rbind (case mf_ability m of
              SoftwareRepo \<Rightarrow> parse_software_data cr entries
            | UsecaseRepo _ _ \<Rightarrow> parse_usecase_data cr entries) (\<lambda>d.
     Inr \<lparr>version_id = i, pk_manifest = m, pk_data = d\<rparr>))))"

section \<open>The data of a use case\<close>

definition software_package_data :: "package \<Rightarrow> (uuid \<times> software_data) option" where
  "software_package_data p =
     (case pk_data p of SoftwarePackage d \<Rightarrow> Some (version_id p, d) | UsecasePackage _ \<Rightarrow> None)"

definition usecase_package_data :: "package \<Rightarrow> (uuid \<times> usecase_data) option" where
  "usecase_package_data p =
     (case pk_data p of SoftwarePackage _ \<Rightarrow> None | UsecasePackage d \<Rightarrow> Some (version_id p, d))"

definition or_else :: "'a option \<Rightarrow> 'a option \<Rightarrow> 'a option" where
  "or_else a b = (case a of None \<Rightarrow> b | Some x \<Rightarrow> Some x)"

text \<open>The packages may come in either order here; drafting a node wants the use case first.\<close>

definition computing_usecase_of :: "package \<times> package \<Rightarrow> repo_err + software_computing_usecase" where
  "computing_usecase_of ps = (case ps of (p1, p2) \<Rightarrow>
     rbind (ok_or RepoPanic (or_else (usecase_package_data p1) (usecase_package_data p2))) (\<lambda>(uid, ud).
     rbind (ok_or RepoPanic (or_else (software_package_data p1) (software_package_data p2))) (\<lambda>(sid, sd).
     Inr \<lparr>cu_usecase_version_id = uid, cu_software_version_id = sid, cu_usecase_spec = ud_spec ud,
          cu_software_spec = sd_spec sd, cu_arguments = sd_arguments sd,
          cu_environments = sd_environments sd, cu_filesome_inputs = sd_filesome_inputs sd,
          cu_collected_outs = ud_collected_outs ud, cu_filesome_outputs = sd_filesome_outputs sd,
          cu_template_file_infos = ud_template_file_infos ud\<rparr>)))"

definition node_ability_of :: "package \<times> package \<Rightarrow> repo_err + usecase_node_parsing" where
  "node_ability_of ps = (case ps of (p1, p2) \<Rightarrow>
     rbind (ok_or (NotUsecasePackage (version_id p1)) (usecase_package_data p1)) (\<lambda>(uid, ud).
     rbind (ok_or (NotSoftwarePackage (version_id p2)) (software_package_data p2)) (\<lambda>(sid, sd).
     Inr \<lparr>np_usecase_version_id = uid, np_software_version_id = sid, np_usecase_spec = ud_spec ud,
          np_filesome_inputs = sd_filesome_inputs sd, np_filesome_outputs = sd_filesome_outputs sd,
          np_collected_outs = ud_collected_outs ud\<rparr>)))"

section \<open>The client\<close>

definition get_package :: "co_repo \<Rightarrow> uuid \<Rightarrow> repo_err + package" where
  "get_package cr i = rbind (ok_or FetchError (fetch cr i)) (extract_package cr i)"

definition get_computing_usecase ::
  "co_repo \<Rightarrow> uuid \<Rightarrow> uuid \<Rightarrow> repo_err + software_computing_usecase" where
  "get_computing_usecase cr software_id usecase_id =
     rbind (get_package cr software_id) (\<lambda>software.
     rbind (get_package cr usecase_id) (\<lambda>usecase.
     computing_usecase_of (software, usecase)))"

text \<open>The facts a software and a use-case package give.\<close>

lemma computing_usecase_of_packages:
  assumes "software_package_data s = Some (sid, sd)" "usecase_package_data u = Some (uid, ud)"
  shows "computing_usecase_of (s, u) = computing_usecase_of (u, s)"
    and "computing_usecase_of (s, u) =
      Inr \<lparr>cu_usecase_version_id = uid, cu_software_version_id = sid, cu_usecase_spec = ud_spec ud,
          cu_software_spec = sd_spec sd, cu_arguments = sd_arguments sd,
          cu_environments = sd_environments sd, cu_filesome_inputs = sd_filesome_inputs sd,
          cu_collected_outs = ud_collected_outs ud, cu_filesome_outputs = sd_filesome_outputs sd,
          cu_template_file_infos = ud_template_file_infos ud\<rparr>"
  using assms
  by (auto simp: computing_usecase_of_def or_else_def software_package_data_def
      usecase_package_data_def split: package_data.splits)

end
