(* ===== verification/KP_Validate.thy ===== *)
theory KP_Validate
  imports KP_Types
begin

text \<open>
  Validation of a software and a use-case package against each other:
  \<open>lib-co-repo/src/services/package_validate.rs\<close> with the result type
  \<open>models/command_preview.rs\<close>. The code walks the input slots, the templates and the output
  slots once, checks that every descriptor they name exists, and collects a preview of the
  command: which slot or template each placeholder is filled from. \<open>ord\<close> is the order in which
  the hash map of the templates is iterated. What a validated package guarantees is proved in
  \<open>KP_Match\<close> and \<open>KP_Props\<close>.
\<close>

section \<open>Previews: \<open>command_preview.rs\<close>\<close>

datatype in_descriptor = InTemplate string | InInputSlot string | InNone

datatype file_info_preview =
    DynamicInput in_descriptor
  | ConstInput in_descriptor string string
  | DynamicOutput in_descriptor string
  | ConstOutput string string

type_synonym format_fill_preview = "in_descriptor format_fill"

datatype preview_collect_from = PreviewFileOut string | PreviewStdout | PreviewStderr

datatype preview_collect_to = PreviewToFile string | PreviewToText

datatype preview_collect_rule = PreviewRegex string | PreviewBottomLines nat | PreviewTopLines nat

record collect_preview =
  cpv_from :: preview_collect_from
  cpv_rule :: preview_collect_rule
  cpv_to :: preview_collect_to
  cpv_optional :: bool

record command_preview =
  software_facility :: facility_kind
  command_name :: string
  pv_argument_formats_sorts :: "(nat \<times> format_fill_preview) list"
  pv_environment_formats :: "(string \<times> format_fill_preview) list"
  pv_templates_kv_map :: "(string \<times> (string \<times> in_descriptor) list) list"
  pv_std_in :: in_descriptor
  pv_file_infos :: "file_info_preview list"
  collect_previews :: "collect_preview list"

record validate_data =
  vd_software_data :: software_data
  vd_usecase_data :: usecase_data

type_synonym preview_fills = "(in_descriptor, file_info_preview, in_descriptor) fills"

section \<open>Lookups of materials\<close>

definition preview_argument_format :: "argument list \<Rightarrow> string \<Rightarrow> repo_err + format_fill_preview" where
  "preview_argument_format materials d =
     rbind (ok_or (NoArgumentMaterial d) (find (\<lambda>el. ar_descriptor el = d) materials)) (\<lambda>a.
     Inr \<lparr>fm_format = ar_value_format a, placeholder_fill_map = []\<rparr>)"

definition preview_environment_kv_format ::
  "environment list \<Rightarrow> string \<Rightarrow> repo_err + string \<times> format_fill_preview" where
  "preview_environment_kv_format materials d =
     rbind (ok_or (NoEnvironmentMaterial d) (find (\<lambda>el. en_descriptor el = d) materials)) (\<lambda>e.
     Inr (en_key e, \<lparr>fm_format = en_value_format e, placeholder_fill_map = []\<rparr>))"

definition find_filesome_input :: "filesome_input list \<Rightarrow> string \<Rightarrow> filesome_input option" where
  "find_filesome_input materials d = find (\<lambda>el. fin_descriptor el = d) materials"

definition find_filesome_output :: "filesome_output list \<Rightarrow> string \<Rightarrow> filesome_output option" where
  "find_filesome_output materials d = find (\<lambda>el. fout_descriptor el = d) materials"

definition find_collected_out :: "collected_out list \<Rightarrow> string \<Rightarrow> collected_out option" where
  "find_collected_out outs d = find (\<lambda>el. co_descriptor el = d) outs"

section \<open>Input slots\<close>

text \<open>\<open>who\<close> is the slot or template a reference is filled from.\<close>

definition preview_fill_argument ::
  "validate_data \<Rightarrow> in_descriptor \<Rightarrow> string \<Rightarrow> nat \<Rightarrow> nat \<Rightarrow> preview_fills \<Rightarrow> repo_err + preview_fills" where
  "preview_fill_argument vd who d placeholder_nth pos st =
     rbind (preview_argument_format (sd_arguments (vd_software_data vd)) d) (\<lambda>ff.
     Inr (st\<lparr>argument_formats_sorts := entry_fill pos ff placeholder_nth who (argument_formats_sorts st)\<rparr>))"

definition preview_fill_environment ::
  "validate_data \<Rightarrow> in_descriptor \<Rightarrow> string \<Rightarrow> nat \<Rightarrow> preview_fills \<Rightarrow> repo_err + preview_fills" where
  "preview_fill_environment vd who d placeholder_nth st =
     rbind (preview_environment_kv_format (sd_environments (vd_software_data vd)) d) (\<lambda>(key, ff).
     Inr (st\<lparr>environment_formats := entry_fill key ff placeholder_nth who (environment_formats st)\<rparr>))"

fun validate_text_ref ::
  "validate_data \<Rightarrow> string \<Rightarrow> text_ref \<Rightarrow> preview_fills \<Rightarrow> repo_err + preview_fills" where
  "validate_text_ref vd slot (TextArgRef d placeholder_nth pos) st =
     preview_fill_argument vd (InInputSlot slot) d placeholder_nth pos st"
| "validate_text_ref vd slot (TextEnvRef d placeholder_nth) st =
     preview_fill_environment vd (InInputSlot slot) d placeholder_nth st"
| "validate_text_ref vd slot TextStdIn st = Inr (st\<lparr>fl_std_in := InInputSlot slot\<rparr>)"
| "validate_text_ref vd slot (TextTemplateRef d ref_keys) st =
     Inr (st\<lparr>templates_kv := fill_keys d ref_keys (InInputSlot slot) (templates_kv st)\<rparr>)"

fun validate_file_ref ::
  "validate_data \<Rightarrow> string \<Rightarrow> file_ref \<Rightarrow> preview_fills \<Rightarrow> repo_err + preview_fills" where
  "validate_file_ref vd slot (FileArgRef d placeholder_nth pos) st =
     preview_fill_argument vd (InInputSlot slot) d placeholder_nth pos st"
| "validate_file_ref vd slot (FileEnvRef d placeholder_nth) st =
     preview_fill_environment vd (InInputSlot slot) d placeholder_nth st"
| "validate_file_ref vd slot FileStdIn st = Inr (st\<lparr>fl_std_in := InInputSlot slot\<rparr>)"
| "validate_file_ref vd slot (FileInputRef d) st =
     rbind (ok_or (NoFileMaterial d)
        (find_filesome_input (sd_filesome_inputs (vd_software_data vd)) d)) (\<lambda>m.
     Inr (st\<lparr>fl_files := fl_files st @
        [ConstInput (InInputSlot slot) d (file_kind_path (fin_file_kind m))]\<rparr>))"
| "validate_file_ref vd slot (FileTemplateRef d ref_keys) st =
     Inr (st\<lparr>templates_kv := fill_keys d ref_keys (InInputSlot slot) (templates_kv st)\<rparr>)"

fun validate_input_slot ::
  "validate_data \<Rightarrow> usecase_input_slot \<Rightarrow> preview_fills \<Rightarrow> repo_err + preview_fills" where
  "validate_input_slot vd (UInText d _ refs _ _) st = rfold (validate_text_ref vd d) refs st"
| "validate_input_slot vd (UInFile d refs _ _) st = rfold (validate_file_ref vd d) refs st"

section \<open>Templates\<close>

text \<open>The check of the file names of every template of the use case, used or not.\<close>

fun check_as_file_name :: "validate_data \<Rightarrow> file_ref \<Rightarrow> repo_err + unit" where
  "check_as_file_name vd (FileArgRef d _ _) =
     rbind (preview_argument_format (sd_arguments (vd_software_data vd)) d) (\<lambda>_. Inr ())"
| "check_as_file_name vd (FileEnvRef d _) =
     rbind (preview_environment_kv_format (sd_environments (vd_software_data vd)) d) (\<lambda>_. Inr ())"
| "check_as_file_name vd FileStdIn = Inr ()"
| "check_as_file_name vd (FileInputRef d) =
     rbind (ok_or (NoFileMaterial d)
        (find_filesome_input (sd_filesome_inputs (vd_software_data vd)) d)) (\<lambda>_. Inr ())"
| "check_as_file_name vd (FileTemplateRef _ _) = Inl TemplateRefNotImplemented"

fun validate_as_content ::
  "validate_data \<Rightarrow> string \<Rightarrow> text_ref \<Rightarrow> preview_fills \<Rightarrow> repo_err + preview_fills" where
  "validate_as_content vd t (TextArgRef d placeholder_nth pos) st =
     preview_fill_argument vd (InTemplate t) d placeholder_nth pos st"
| "validate_as_content vd t (TextEnvRef d placeholder_nth) st =
     preview_fill_environment vd (InTemplate t) d placeholder_nth st"
| "validate_as_content vd t TextStdIn st = Inr (st\<lparr>fl_std_in := InTemplate t\<rparr>)"
| "validate_as_content vd t (TextTemplateRef _ _) st = Inl TemplateRefNotImplemented"

fun validate_as_file_name ::
  "validate_data \<Rightarrow> string \<Rightarrow> file_ref \<Rightarrow> preview_fills \<Rightarrow> repo_err + preview_fills" where
  "validate_as_file_name vd t (FileArgRef d placeholder_nth pos) st =
     preview_fill_argument vd (InTemplate t) d placeholder_nth pos st"
| "validate_as_file_name vd t (FileEnvRef d placeholder_nth) st =
     preview_fill_environment vd (InTemplate t) d placeholder_nth st"
| "validate_as_file_name vd t FileStdIn st = Inr (st\<lparr>fl_std_in := InTemplate t\<rparr>)"
| "validate_as_file_name vd t (FileInputRef d) st =
     rbind (ok_or (NoFileMaterial d)
        (find_filesome_input (sd_filesome_inputs (vd_software_data vd)) d)) (\<lambda>m.
     Inr (st\<lparr>fl_files := fl_files st @
        [ConstInput (InTemplate t) d (file_kind_path (fin_file_kind m))]\<rparr>))"
| "validate_as_file_name vd t (FileTemplateRef _ _) st = Inl TemplateRefNotImplemented"

text \<open>
  The rendered template becomes a file of its own unless its name is mounted nowhere, or only
  as an input file of the software.
\<close>

definition template_as_file :: "template_file \<Rightarrow> bool" where
  "template_as_file t =
     (\<not> (as_file_name t = [] \<or>
         length (as_file_name t) = 1 \<and> (case hd (as_file_name t) of FileInputRef _ \<Rightarrow> True | _ \<Rightarrow> False)))"

definition find_template :: "usecase_spec \<Rightarrow> string \<Rightarrow> template_file option" where
  "find_template us t = find (\<lambda>el. tf_descriptor el = t) (template_files us)"

definition find_template_info :: "template_file_info list \<Rightarrow> string \<Rightarrow> template_file_info option" where
  "find_template_info infos t = find (\<lambda>el. ti_descriptor el = t) infos"

definition validate_template ::
  "validate_data \<Rightarrow> string \<Rightarrow> preview_fills \<Rightarrow> repo_err + preview_fills" where
  "validate_template vd t st =
     rbind (ok_or (NoTemplate t) (find_template (ud_spec (vd_usecase_data vd)) t)) (\<lambda>tf.
     rbind (ok_or (NoTemplate t) (find_template_info (ud_template_file_infos (vd_usecase_data vd)) t)) (\<lambda>_.
     rbind (rfold (validate_as_content vd t) (as_content tf) st) (\<lambda>st.
     rfold (validate_as_file_name vd t) (as_file_name tf)
       (if template_as_file tf
        then st\<lparr>fl_files := fl_files st @ [DynamicInput (InTemplate t)]\<rparr> else st))))"

section \<open>Output slots\<close>

text \<open>The slot that gives an output its path has to be a text slot of the use case.\<close>

fun check_appointing_slot :: "string \<Rightarrow> usecase_input_slot list \<Rightarrow> repo_err + unit" where
  "check_appointing_slot t [] = Inl (NoTextInputSlot t)"
| "check_appointing_slot t (UInText d _ _ _ _ # rest) =
     (if d = t then Inr () else check_appointing_slot t rest)"
| "check_appointing_slot t (UInFile d _ _ _ # rest) =
     (if d = t then Inl FileSlotAppointsPath else check_appointing_slot t rest)"

definition check_appointed :: "usecase_spec \<Rightarrow> file_out_and_appointed_by \<Rightarrow> repo_err + unit" where
  "check_appointed us fo =
     (case appointed fo of
        ByInputSlot t \<Rightarrow> check_appointing_slot t (us_input_slots us)
      | ByMaterial \<Rightarrow> Inr ())"

text \<open>
  Where a collector reads its file from: the first file output slot with the descriptor. The
  code repeats this search for text and for file outputs; \<open>chk\<close> is the check of the appointing
  slot, which only the search for text outputs makes.
\<close>

fun preview_file_out ::
  "(file_out_and_appointed_by \<Rightarrow> repo_err + unit) \<Rightarrow> filesome_output list \<Rightarrow> string
     \<Rightarrow> usecase_output_slot list \<Rightarrow> repo_err + filesome_output option" where
  "preview_file_out chk materials d [] = Inr None"
| "preview_file_out chk materials d (UOutText _ _ _ _ _ # rest) = preview_file_out chk materials d rest"
| "preview_file_out chk materials d (UOutFile descriptor origin _ _ _ # rest) =
     (if descriptor = d then
        (case origin of
           FromCollectedOut _ \<Rightarrow> Inl CollectedOutOfCollectedOut
         | FromUsecaseOut fo \<Rightarrow>
             rbind (ok_or (NoFilesomeOutput (file_out_material_descriptor fo))
                (find_filesome_output materials (file_out_material_descriptor fo))) (\<lambda>m.
             rbind (chk fo) (\<lambda>_. Inr (Some m))))
      else preview_file_out chk materials d rest)"

definition preview_collect_from_of ::
  "(file_out_and_appointed_by \<Rightarrow> repo_err + unit) \<Rightarrow> validate_data \<Rightarrow> collected_out
     \<Rightarrow> repo_err + preview_collect_from" where
  "preview_collect_from_of chk vd co =
     (case co_from co of
        RepoFileOut d \<Rightarrow>
          rbind (preview_file_out chk (sd_filesome_outputs (vd_software_data vd)) d
                  (us_output_slots (ud_spec (vd_usecase_data vd)))) (\<lambda>m.
          rbind (ok_or RepoPanic m) (\<lambda>m. Inr (PreviewFileOut (fout_descriptor m))))
      | RepoStdout \<Rightarrow> Inr PreviewStdout
      | RepoStderr \<Rightarrow> Inr PreviewStderr)"

fun preview_collect_rule_of :: "repo_collect_rule \<Rightarrow> preview_collect_rule" where
  "preview_collect_rule_of (RepoRegex r) = PreviewRegex r"
| "preview_collect_rule_of (RepoBottomLines n) = PreviewBottomLines n"
| "preview_collect_rule_of (RepoTopLines n) = PreviewTopLines n"

type_synonym preview_outs = "file_info_preview list \<times> collect_preview list"

fun validate_output_slot ::
  "validate_data \<Rightarrow> usecase_output_slot \<Rightarrow> preview_outs \<Rightarrow> repo_err + preview_outs" where
  "validate_output_slot vd (UOutText _ c _ opt _) (fls, outs) =
     rbind (ok_or (NoCollectedOut c) (find_collected_out (ud_collected_outs (vd_usecase_data vd)) c)) (\<lambda>co.
     rbind (preview_collect_from_of (check_appointed (ud_spec (vd_usecase_data vd))) vd co) (\<lambda>src.
     rbind (case co_to co of
              RepoToText \<Rightarrow> Inr PreviewToText
            | RepoToFile _ \<Rightarrow> Inl (MismatchedCollectedOut (co_descriptor co))) (\<lambda>dst.
     Inr (fls, outs @ [\<lparr>cpv_from = src, cpv_rule = preview_collect_rule_of (co_collecting co),
                       cpv_to = dst, cpv_optional = opt\<rparr>]))))"
| "validate_output_slot vd (UOutFile _ (FromCollectedOut c) opt _ _) (fls, outs) =
     rbind (ok_or (NoCollectedOut c) (find_collected_out (ud_collected_outs (vd_usecase_data vd)) c)) (\<lambda>co.
     rbind (preview_collect_from_of (\<lambda>_. Inr ()) vd co) (\<lambda>src.
     rbind (case co_to co of
              RepoToFile f \<Rightarrow> Inr (PreviewToFile (get_path f))
            | RepoToText \<Rightarrow> Inl (MismatchedCollectedOut (co_descriptor co))) (\<lambda>dst.
     Inr (fls, outs @ [\<lparr>cpv_from = src, cpv_rule = preview_collect_rule_of (co_collecting co),
                       cpv_to = dst, cpv_optional = opt\<rparr>]))))"
| "validate_output_slot vd (UOutFile _ (FromUsecaseOut fo) opt _ _) (fls, outs) =
     rbind (ok_or (NoFilesomeOutput (file_out_material_descriptor fo))
        (find_filesome_output (sd_filesome_outputs (vd_software_data vd))
           (file_out_material_descriptor fo))) (\<lambda>m.
     Inr (fls @ [case appointed fo of
                  ByInputSlot t \<Rightarrow> DynamicOutput (InInputSlot t) (fout_descriptor m)
                | ByMaterial \<Rightarrow> ConstOutput (fout_descriptor m) (file_kind_path (fout_file_kind m))],
          outs))"

section \<open>The whole validation\<close>

text \<open>
  Positions have to start at 0 and to grow by 1. They are sorted and distinct here, so the
  subtraction of the code does not underflow.
\<close>

fun check_sorts :: "nat \<Rightarrow> nat list \<Rightarrow> repo_err + unit" where
  "check_sorts p [] = Inr ()"
| "check_sorts p (current # rest) =
     (if current - p \<noteq> 1 then Inl (SortGap current p) else check_sorts current rest)"

definition check_argument_sorts :: "nat list \<Rightarrow> repo_err + unit" where
  "check_argument_sorts sorts =
     (case sorts of
        [] \<Rightarrow> Inr ()
      | s # rest \<Rightarrow> if s \<noteq> 0 then Inl SortNotFromZero else check_sorts 0 rest)"

definition no_preview_fills :: preview_fills where
  "no_preview_fills = \<lparr>argument_formats_sorts = [], environment_formats = [], fl_files = [],
     fl_std_in = InNone, templates_kv = []\<rparr>"

definition validate_inputs ::
  "(string list \<Rightarrow> string list) \<Rightarrow> validate_data \<Rightarrow> repo_err + preview_fills" where
  "validate_inputs ord vd =
     (let us = ud_spec (vd_usecase_data vd) in
      rbind (rfold (validate_input_slot vd) (us_input_slots us) no_preview_fills) (\<lambda>st.
      rbind (rfor (template_files us) (\<lambda>t. rfor (as_file_name t) (check_as_file_name vd))) (\<lambda>_.
      rfold (validate_template vd) (ord (map fst (templates_kv st))) st)))"

definition package_validate ::
  "(string list \<Rightarrow> string list) \<Rightarrow> validate_data \<Rightarrow> repo_err + command_preview" where
  "package_validate ord vd =
     (let us = ud_spec (vd_usecase_data vd) in
      rbind (validate_inputs ord vd) (\<lambda>st.
      rbind (rfold (validate_output_slot vd) (us_output_slots us) (fl_files st, [])) (\<lambda>(fls, outs).
      let formats = sort_key fst (argument_formats_sorts st) in
      rbind (check_argument_sorts (map fst formats)) (\<lambda>_.
      Inr \<lparr>software_facility = facility_kind_from (sd_spec (vd_software_data vd)),
           command_name = command_file us,
           pv_argument_formats_sorts = formats,
           pv_environment_formats = environment_formats st,
           pv_templates_kv_map = templates_kv st,
           pv_std_in = fl_std_in st,
           pv_file_infos = fls,
           collect_previews = outs\<rparr>))))"

end
