(* ===== verification/KP_ParseTask.thy ===== *)
theory KP_ParseTask
  imports KC_Orm KP_Package KP_Validate
begin

text \<open>
  From a software node to the task the agent runs: \<open>parse_task\<close> of
  \<open>kernel/src/services/use_cases/software_computing.rs\<close>, with its helpers. The function fetches
  the use case, fills the formats of arguments and environment variables from the contents of
  the input slots, renders the templates, lists the files and the collections of the output
  slots, and puts the installation of the software in front.

  It only reads: the texts of the slots, and the two tables on software. From outside come the
  package client's fetch and readers (\<open>repo_client\<close>), the template engine (\<open>render\<close>), and the
  order in which the hash map of the templates is iterated (\<open>template_order\<close>). An \<open>unwrap\<close>
  of nothing, \<open>unreachable!\<close> and \<open>todo!\<close> are \<open>Panic\<close>.
\<close>

record usecase_env =
  repo_client :: co_repo
  render :: "string \<Rightarrow> (string \<times> string option) list \<Rightarrow> string option"
  template_order :: "string list \<Rightarrow> string list"

record in_content =
  literal :: string
  infiles :: "file_info list"

type_synonym task_fills = "(string option, file_info, std_in_kind) fills"

text \<open>An error of the package library is passed on, a panic stays one.\<close>

definition of_repo :: "repo_err + 'a \<Rightarrow> kerr + 'a" where
  "of_repo r = (case r of Inr x \<Rightarrow> Inr x | Inl RepoPanic \<Rightarrow> Inl Panic | Inl e \<Rightarrow> Inl (PackageError e))"

section \<open>Texts\<close>

text \<open>\<open>str::replacen(pat, rep, 1)\<close>: the first occurrence.\<close>

fun replace_first :: "string \<Rightarrow> string \<Rightarrow> string \<Rightarrow> string" where
  "replace_first pat rep s =
     (if take (length pat) s = pat then rep @ drop (length pat) s
      else (case s of [] \<Rightarrow> [] | c # cs \<Rightarrow> c # replace_first pat rep cs))"

declare replace_first.simps [simp del]

definition placeholder :: string where
  "placeholder = ''{{}}''"

definition fill_format :: "string option format_fill \<Rightarrow> string" where
  "fill_format ff =
     fold (\<lambda>(_, fill) format. replace_first placeholder (case fill of Some x \<Rightarrow> x | None \<Rightarrow> '''') format)
       (sort_key fst (placeholder_fill_map ff)) (fm_format ff)"

definition read_text :: "kstate \<Rightarrow> uuid \<Rightarrow> kerr + string" where
  "read_text s i = fst (text_get_by_id i s)"

section \<open>Input slots\<close>

definition argument_format :: "argument list \<Rightarrow> string \<Rightarrow> kerr + string option format_fill" where
  "argument_format materials d =
     rbind (ok_or Panic (find (\<lambda>el. ar_descriptor el = d) materials)) (\<lambda>a.
     Inr \<lparr>fm_format = ar_value_format a, placeholder_fill_map = []\<rparr>)"

definition environment_kv_format ::
  "environment list \<Rightarrow> string \<Rightarrow> kerr + string \<times> string option format_fill" where
  "environment_kv_format materials d =
     rbind (ok_or Panic (find (\<lambda>el. en_descriptor el = d) materials)) (\<lambda>e.
     Inr (en_key e, \<lparr>fm_format = en_value_format e, placeholder_fill_map = []\<rparr>))"

definition file_content :: "string option \<Rightarrow> bool \<Rightarrow> file_input list \<Rightarrow> in_content" where
  "file_content expected batch contents =
     (let name = (\<lambda>c. case expected of Some n \<Rightarrow> n | None \<Rightarrow> file_metadata_name c) in
      \<lparr>literal = join '' '' (map name contents),
       infiles = map (\<lambda>c. FileInfoInput (name c) batch (FormId (file_metadata_id c))) contents\<rparr>)"

text \<open>\<open>None\<close> for an optional slot that was given nothing.\<close>

definition get_content :: "node_spec \<Rightarrow> kstate \<Rightarrow> string \<Rightarrow> kerr + in_content option" where
  "get_content ns s d =
     rbind (input_slot ns d) (\<lambda>slot.
     rbind (is_empty_input slot) (\<lambda>empty.
     if empty \<and> is_optional slot then Inr None
     else
       (case is_kind slot of
          SlotText contents _ \<Rightarrow>
            rbind (ok_or Panic contents) (\<lambda>contents.
            rbind (rmap (read_text s) contents) (\<lambda>texts.
            Inr (Some \<lparr>literal = join '' '' texts, infiles = []\<rparr>)))
        | SlotFile contents expected batch \<Rightarrow>
            rbind (ok_or Panic contents) (\<lambda>contents. Inr (Some (file_content expected batch contents)))
        | SlotUnknown \<Rightarrow> Inl Panic)))"

definition fill_argument ::
  "software_computing_usecase \<Rightarrow> string option \<Rightarrow> string \<Rightarrow> nat \<Rightarrow> nat \<Rightarrow> task_fills \<Rightarrow> kerr + task_fills" where
  "fill_argument cu v d placeholder_nth pos st =
     rbind (argument_format (cu_arguments cu) d) (\<lambda>ff.
     Inr (st\<lparr>argument_formats_sorts := entry_fill pos ff placeholder_nth v (argument_formats_sorts st)\<rparr>))"

definition fill_environment ::
  "software_computing_usecase \<Rightarrow> string option \<Rightarrow> string \<Rightarrow> nat \<Rightarrow> task_fills \<Rightarrow> kerr + task_fills" where
  "fill_environment cu v d placeholder_nth st =
     rbind (environment_kv_format (cu_environments cu) d) (\<lambda>(key, ff).
     Inr (st\<lparr>environment_formats := entry_fill key ff placeholder_nth v (environment_formats st)\<rparr>))"

fun parse_text_ref ::
  "software_computing_usecase \<Rightarrow> in_content option \<Rightarrow> text_ref \<Rightarrow> task_fills \<Rightarrow> kerr + task_fills" where
  "parse_text_ref cu c (TextArgRef d placeholder_nth pos) st =
     fill_argument cu (map_option literal c) d placeholder_nth pos st"
| "parse_text_ref cu c (TextEnvRef d placeholder_nth) st =
     fill_environment cu (map_option literal c) d placeholder_nth st"
| "parse_text_ref cu c TextStdIn st =
     rbind (ok_or Panic c) (\<lambda>c. Inr (st\<lparr>fl_std_in := StdInText (literal c)\<rparr>))"
| "parse_text_ref cu c (TextTemplateRef d ref_keys) st =
     Inr (st\<lparr>templates_kv := fill_keys d ref_keys (map_option literal c) (templates_kv st)\<rparr>)"

fun parse_file_ref ::
  "software_computing_usecase \<Rightarrow> in_content option \<Rightarrow> file_ref \<Rightarrow> task_fills \<Rightarrow> kerr + task_fills" where
  "parse_file_ref cu c (FileArgRef d placeholder_nth pos) st =
     fill_argument cu (map_option literal c) d placeholder_nth pos st"
| "parse_file_ref cu c (FileEnvRef d placeholder_nth) st =
     fill_environment cu (map_option literal c) d placeholder_nth st"
| "parse_file_ref cu c FileStdIn st =
     Inr (st\<lparr>fl_std_in := (case c of Some x \<Rightarrow> StdInFile (literal x) | None \<Rightarrow> StdInNone)\<rparr>)"
| "parse_file_ref cu c (FileInputRef _) st = Inr st"
| "parse_file_ref cu c (FileTemplateRef d ref_keys) st =
     Inr (st\<lparr>templates_kv := fill_keys d ref_keys (map_option literal c) (templates_kv st)\<rparr>)"

definition parse_input ::
  "software_computing_usecase \<Rightarrow> node_spec \<Rightarrow> kstate \<Rightarrow> usecase_input_slot \<Rightarrow> task_fills \<Rightarrow> kerr + task_fills" where
  "parse_input cu ns s slot st =
     rbind (get_content ns s (uin_descriptor slot)) (\<lambda>c.
     let st = (case c of Some x \<Rightarrow> st\<lparr>fl_files := fl_files st @ infiles x\<rparr> | None \<Rightarrow> st) in
     (case slot of
        UInText _ _ refs _ _ \<Rightarrow> rfold (parse_text_ref cu c) refs st
      | UInFile _ refs _ _ \<Rightarrow> rfold (parse_file_ref cu c) refs st))"

text \<open>The flag arguments and environment variables, which have no slot.\<close>

definition flag_argument ::
  "software_computing_usecase \<Rightarrow> string \<times> nat \<Rightarrow> task_fills \<Rightarrow> kerr + task_fills" where
  "flag_argument cu flag st = (case flag of (d, pos) \<Rightarrow>
     rbind (argument_format (cu_arguments cu) d) (\<lambda>ff.
     Inr (st\<lparr>argument_formats_sorts := or_insert pos ff (argument_formats_sorts st)\<rparr>)))"

definition flag_environment ::
  "software_computing_usecase \<Rightarrow> string \<Rightarrow> task_fills \<Rightarrow> kerr + task_fills" where
  "flag_environment cu d st =
     rbind (environment_kv_format (cu_environments cu) d) (\<lambda>(key, ff).
     Inr (st\<lparr>environment_formats := or_insert key ff (environment_formats st)\<rparr>))"

section \<open>Templates\<close>

fun parse_as_content ::
  "software_computing_usecase \<Rightarrow> string \<Rightarrow> text_ref \<Rightarrow> task_fills \<Rightarrow> kerr + task_fills" where
  "parse_as_content cu filled (TextArgRef d placeholder_nth pos) st =
     fill_argument cu (Some filled) d placeholder_nth pos st"
| "parse_as_content cu filled (TextEnvRef d placeholder_nth) st =
     fill_environment cu (Some filled) d placeholder_nth st"
| "parse_as_content cu filled TextStdIn st = Inr (st\<lparr>fl_std_in := StdInText filled\<rparr>)"
| "parse_as_content cu filled (TextTemplateRef _ _) st = Inl Panic"

fun parse_as_file_name ::
  "software_computing_usecase \<Rightarrow> string \<Rightarrow> string \<Rightarrow> file_ref \<Rightarrow> task_fills \<Rightarrow> kerr + task_fills" where
  "parse_as_file_name cu name filled (FileArgRef d placeholder_nth pos) st =
     fill_argument cu (Some name) d placeholder_nth pos st"
| "parse_as_file_name cu name filled (FileEnvRef d placeholder_nth) st =
     fill_environment cu (Some name) d placeholder_nth st"
| "parse_as_file_name cu name filled FileStdIn st = Inr (st\<lparr>fl_std_in := StdInFile name\<rparr>)"
| "parse_as_file_name cu name filled (FileInputRef d) st =
     rbind (ok_or Panic (find_filesome_input (cu_filesome_inputs cu) d)) (\<lambda>m.
     Inr (st\<lparr>fl_files := fl_files st @
        [case fin_file_kind m of
           NormalFile wild_card \<Rightarrow> FileInfoInput wild_card False (FormContent filled)
         | BatchedFile wild_card \<Rightarrow> FileInfoInput wild_card True (FormContent filled)]\<rparr>))"
| "parse_as_file_name cu name filled (FileTemplateRef _ _) st = Inl Panic"

definition get_template_file_result ::
  "usecase_env \<Rightarrow> string \<Rightarrow> (string \<times> string option) list \<Rightarrow> kerr + string" where
  "get_template_file_result ue content kv = ok_or TemplateError (render ue content kv)"

definition parse_template ::
  "usecase_env \<Rightarrow> software_computing_usecase \<Rightarrow> string \<Rightarrow> task_fills \<Rightarrow> kerr + task_fills" where
  "parse_template ue cu t st =
     rbind (ok_or Panic (map_of (templates_kv st) t)) (\<lambda>kv.
     rbind (ok_or Panic (find_template (cu_usecase_spec cu) t)) (\<lambda>tf.
     rbind (ok_or Panic (find_template_info (cu_template_file_infos cu) t)) (\<lambda>info.
     rbind (get_template_file_result ue (ti_content info) kv) (\<lambda>filled.
     rbind (rfold (parse_as_content cu filled) (as_content tf) st) (\<lambda>st.
     rfold (parse_as_file_name cu (ti_file_name info) filled) (as_file_name tf)
       (if template_as_file tf
        then st\<lparr>fl_files := fl_files st @ [FileInfoInput (ti_file_name info) False (FormContent filled)]\<rparr>
        else st))))))"

section \<open>Output slots\<close>

text \<open>The path a text input gives to an output, \<open>None\<close> when the material's own path holds.\<close>

definition out_path_alter :: "node_spec \<Rightarrow> kstate \<Rightarrow> appointed_by \<Rightarrow> kerr + string option" where
  "out_path_alter ns s by =
     (case by of
        ByMaterial \<Rightarrow> Inr None
      | ByInputSlot d \<Rightarrow>
          rbind (input_slot ns d) (\<lambda>slot.
          (case is_kind slot of
             SlotText contents _ \<Rightarrow>
               rbind (ok_or Panic contents) (\<lambda>contents.
               rbind (nth_or Panic contents 0) (\<lambda>i.
               rbind (read_text s i) (\<lambda>v. Inr (Some v))))
           | _ \<Rightarrow> Inl Panic)))"

definition out_path ::
  "software_computing_usecase \<Rightarrow> node_spec \<Rightarrow> kstate \<Rightarrow> file_out_and_appointed_by \<Rightarrow> kerr + string \<times> bool" where
  "out_path cu ns s fo =
     rbind (ok_or Panic (find_filesome_output (cu_filesome_outputs cu) (file_out_material_descriptor fo))) (\<lambda>m.
     rbind (out_path_alter ns s (appointed fo)) (\<lambda>alter.
     Inr (case alter of Some p \<Rightarrow> p | None \<Rightarrow> file_kind_path (fout_file_kind m),
          is_batch (fout_file_kind m))))"

text \<open>The path of the first file output slot with the descriptor, or the empty path.\<close>

fun collect_path ::
  "software_computing_usecase \<Rightarrow> node_spec \<Rightarrow> kstate \<Rightarrow> string \<Rightarrow> usecase_output_slot list \<Rightarrow> kerr + string" where
  "collect_path cu ns s d [] = Inr ''''"
| "collect_path cu ns s d (UOutText _ _ _ _ _ # rest) = collect_path cu ns s d rest"
| "collect_path cu ns s d (UOutFile descriptor origin _ _ _ # rest) =
     (if descriptor = d then
        (case origin of
           FromCollectedOut _ \<Rightarrow> Inl Panic
         | FromUsecaseOut fo \<Rightarrow> rbind (out_path cu ns s fo) (\<lambda>(path, _). Inr path))
      else collect_path cu ns s d rest)"

definition task_collect_from ::
  "software_computing_usecase \<Rightarrow> node_spec \<Rightarrow> kstate \<Rightarrow> repo_collect_from \<Rightarrow> kerr + collect_from" where
  "task_collect_from cu ns s src =
     (case src of
        RepoFileOut d \<Rightarrow>
          rbind (collect_path cu ns s d (us_output_slots (cu_usecase_spec cu))) (\<lambda>path. Inr (FileOut path))
      | RepoStdout \<Rightarrow> Inr Stdout
      | RepoStderr \<Rightarrow> Inr Stderr)"

fun collect_rule_from :: "repo_collect_rule \<Rightarrow> collect_rule" where
  "collect_rule_from (RepoRegex r) = CRegex r"
| "collect_rule_from (RepoBottomLines n) = BottomLines n"
| "collect_rule_from (RepoTopLines n) = TopLines n"

type_synonym task_outs = "file_info list \<times> task_body list"

fun parse_output ::
  "software_computing_usecase \<Rightarrow> node_spec \<Rightarrow> kstate \<Rightarrow> usecase_output_slot \<Rightarrow> task_outs \<Rightarrow> kerr + task_outs" where
  "parse_output cu ns s (UOutText d c _ opt _) (fls, body) =
     rbind (ok_or Panic (find_collected_out (cu_collected_outs cu) c)) (\<lambda>co.
     rbind (task_collect_from cu ns s (co_from co)) (\<lambda>src.
     rbind (case co_to co of
              RepoToText \<Rightarrow>
                rbind (output_slot ns d) (\<lambda>slot.
                rbind (all_tasks_text_outputs slot) (\<lambda>ids.
                rbind (nth_or Panic ids 0) (\<lambda>i. Inr (CollectText i))))
            | RepoToFile _ \<Rightarrow> Inl Panic) (\<lambda>dst.
     Inr (fls, body @ [CollectedOut src (collect_rule_from (co_collecting co)) dst opt]))))"
| "parse_output cu ns s (UOutFile d (FromCollectedOut c) opt _ _) (fls, body) =
     rbind (output_slot ns d) (\<lambda>_.
     rbind (ok_or Panic (find_collected_out (cu_collected_outs cu) c)) (\<lambda>co.
     rbind (task_collect_from cu ns s (co_from co)) (\<lambda>src.
     rbind (case co_to co of
              RepoToFile f \<Rightarrow>
                rbind (output_slot ns d) (\<lambda>slot.
                rbind (all_tasks_file_outputs slot) (\<lambda>ids.
                rbind (nth_or Panic ids 0) (\<lambda>i. Inr (CollectFile (get_path f) i))))
            | RepoToText \<Rightarrow> Inl Panic) (\<lambda>dst.
     Inr (fls, body @ [CollectedOut src (collect_rule_from (co_collecting co)) dst opt])))))"
| "parse_output cu ns s (UOutFile d (FromUsecaseOut fo) opt _ _) (fls, body) =
     rbind (output_slot ns d) (\<lambda>slot.
     rbind (out_path cu ns s fo) (\<lambda>(path, batch).
     rbind (all_tasks_file_outputs slot) (\<lambda>ids.
     rbind (nth_or Panic ids 0) (\<lambda>i.
     Inr (fls @ [FileInfoOutput i path batch opt], body)))))"

section \<open>\<open>parse_task\<close>\<close>

definition no_fills :: task_fills where
  "no_fills = \<lparr>argument_formats_sorts = [], environment_formats = [], fl_files = [],
     fl_std_in = StdInNone, templates_kv = []\<rparr>"

definition parse_inputs ::
  "usecase_env \<Rightarrow> software_computing_usecase \<Rightarrow> node_spec \<Rightarrow> kstate \<Rightarrow> kerr + task_fills" where
  "parse_inputs ue cu ns s =
     (let us = cu_usecase_spec cu in
      rbind (rfold (flag_argument cu) (flag_arguments us) no_fills) (\<lambda>st.
      rbind (rfold (flag_environment cu) (flag_environments us) st) (\<lambda>st.
      rbind (rfold (parse_input cu ns s) (us_input_slots us) st) (\<lambda>st.
      rfold (parse_template ue cu) (template_order ue (map fst (templates_kv st))) st))))"

definition execution_body ::
  "software_computing_usecase \<Rightarrow> node_spec \<Rightarrow> task_fills \<Rightarrow> file_info list \<Rightarrow> task_body" where
  "execution_body cu ns st fls =
     UsecaseExecution (command_file (cu_usecase_spec cu)) (facility_kind_from (cu_software_spec cu))
       (map (\<lambda>(_, ff). fill_format ff) (sort_key fst (argument_formats_sorts st)))
       (map (\<lambda>(key, ff). (key, fill_format ff)) (environment_formats st))
       (fl_std_in st) fls
       (or_else (ns_requirements ns) (us_requirements (cu_usecase_spec cu)))"

definition software_requirement :: "software_spec \<Rightarrow> string \<times> string \<times> string list" where
  "software_requirement sp =
     (case sp of
        RepoSpack name argument_list \<Rightarrow>
          (name,
           str_replace ''@'' '''' (case argument_list of [] \<Rightarrow> '''' | a # _ \<Rightarrow> a),
           argument_list)
      | RepoSingularity _ _ \<Rightarrow> ('''', '''', []))"

definition deployment_wanted :: "software_spec \<Rightarrow> database \<Rightarrow> kerr + bool" where
  "deployment_wanted sp d = (case software_requirement sp of (name, version, args) \<Rightarrow>
     rbind (is_software_version_blocked name version d) (\<lambda>blocked.
     if blocked then Inr False else is_software_satisfied name args d))"

definition parse_usecase ::
  "usecase_env \<Rightarrow> software_computing_usecase \<Rightarrow> node_spec \<Rightarrow> kstate \<Rightarrow> kerr + task" where
  "parse_usecase ue cu ns s =
     rbind (parse_inputs ue cu ns s) (\<lambda>st.
     rbind (rfold (parse_output cu ns s) (us_output_slots (cu_usecase_spec cu)) (fl_files st, [])) (\<lambda>(fls, outs).
     rbind (deployment_wanted (cu_software_spec cu) (db s)) (\<lambda>deploy.
     Inr \<lparr>task_id = ns_id ns,
          task_body =
            (if deploy then [SoftwareDeployment (facility_kind_from (cu_software_spec cu))] else []) @
            execution_body cu ns st fls # outs,
          task_command = CmdStart\<rparr>)))"

definition parse_task :: "usecase_env \<Rightarrow> node_spec \<Rightarrow> kstate \<Rightarrow> kerr + task" where
  "parse_task ue ns s =
     (case ns_kind ns of
        SoftwareUsecaseComputing data \<Rightarrow>
          rbind (of_repo (get_computing_usecase (repo_client ue)
             (software_version_id data) (usecase_version_id data))) (\<lambda>cu.
          parse_usecase ue cu ns s)
      | _ \<Rightarrow> Inl UnreachableNodeKind)"

end
