(* ===== verification/KC_UseCases.thy ===== *)
theory KC_UseCases
  imports KP_ParseTask
begin

text \<open>
  What a node is run by: \<open>kernel/src/services/use_cases/{no_action,script,milestone,
  software_computing}.rs\<close>, the choice among them
  (\<open>co/src/infrastructure/external_services/inner_usecase_select_service.rs\<close> with the map filled
  in \<open>service_provider.rs\<close>), \<open>kernel/src/services/task_distribution.rs\<close>, and the task lookups
  of a software computing node.

  \<open>env\<close> collects what the services take from outside: the random sources, the overflow checks
  of the build, the iteration order of hash maps, the URL parser, the HTTP client, the BLAKE3
  hash, the two services of the file subsystem the scheduler calls (download of a text file,
  registration and execution of a file move), and what the parsing of a software node takes from
  outside (\<open>usecases\<close>, theory \<open>KP_ParseTask\<close>).

  The locale \<open>task_operator\<close> is what the scheduler relies on when it pauses, continues or
  terminates a task: the command leaves the repository alone. The locale \<open>usecase_sender\<close> is what
  it relies on when it starts one: primary keys and the rows' ids stay.
\<close>

record env =
  overflow_checks :: bool
  uuid_gen :: "nat \<Rightarrow> uuid"
  rng :: "nat \<Rightarrow> nat"
  key_order :: "uuid list \<Rightarrow> uuid list"
  url_ok :: "string \<Rightarrow> bool"
  http_ok :: "string \<Rightarrow> bool"
  blake3 :: "string \<Rightarrow> string"
  download_text :: "uuid \<Rightarrow> kstate \<Rightarrow> kerr + string"
  move_file :: "uuid \<Rightarrow> uuid \<Rightarrow> string \<Rightarrow> string \<Rightarrow> nat \<Rightarrow> kstate \<Rightarrow> kerr + unit"
  usecases :: usecase_env
  bill_topic :: string

definition read_state :: "(kstate \<Rightarrow> kerr + 'a) \<Rightarrow> 'a ksvc" where
  "read_state f = (\<lambda>s. (f s, s))"

lemma read_state_run [svc_simps]: "read_state f s = (f s, s)"
  by (simp add: read_state_def)

section \<open>Task distribution\<close>

definition send_task :: "task \<Rightarrow> uuid \<Rightarrow> unit ksvc" where
  "send_task t cid =
     sbind (cluster_get_by_id cid) (\<lambda>c.
     smodify (\<lambda>s. s\<lparr>sent_tasks := sent_tasks s @ [(topic_name c, t)]\<rparr>))"

section \<open>No action\<close>

definition report_status :: "uuid \<Rightarrow> task_result_status \<Rightarrow> unit ksvc" where
  "report_status i st = smodify (\<lambda>s. s\<lparr>node_status_mq := node_status_mq s @
     [\<lparr>tr_id = i, tr_status = st, tr_message = '''', tr_used_resources = None\<rparr>]\<rparr>)"

definition no_action_handle_usecase :: "node_spec \<Rightarrow> unit ksvc" where
  "no_action_handle_usecase ns = report_status (ns_id ns) TSuccess"

definition no_action_operate_task :: "operation \<Rightarrow> unit ksvc" where
  "no_action_operate_task operate =
     report_status (op_task_id operate)
       (case op_command operate of
          CmdStart \<Rightarrow> TSuccess | CmdPause \<Rightarrow> TPaused | CmdContinue \<Rightarrow> TSuccess | CmdDelete \<Rightarrow> TDeleted)"

section \<open>Milestone\<close>

definition milestone_handle_usecase :: "env \<Rightarrow> node_spec \<Rightarrow> unit ksvc" where
  "milestone_handle_usecase ev ns =
     (case ns_kind ns of
        Milestone data \<Rightarrow>
          if \<not> url_ok ev (ms_url data) then sfail UrlParseError
          else sbind (node_get_by_id (ns_id ns)) (\<lambda>n.
               if \<not> http_ok ev (ms_url data) then sfail RemoteError
               else smodify (\<lambda>s. s\<lparr>posted := posted s @
                      [(ms_url data, flow_instance_id n, ms_name data, ms_custom_message data)]\<rparr>))
      | _ \<Rightarrow> sfail UnreachableNodeKind)"

definition milestone_operate_task :: "operation \<Rightarrow> unit ksvc" where
  "milestone_operate_task operate = sret ()"

section \<open>Script and software computing\<close>

text \<open>Both start a task on a random cluster, record the cluster on the node and send the task.\<close>

definition start_on_cluster :: "env \<Rightarrow> task \<Rightarrow> unit ksvc" where
  "start_on_cluster ev t =
     sbind (get_random_cluster (rng ev)) (\<lambda>cid.
     sbind (node_get_by_id (task_id t)) (\<lambda>n.
     sthen (node_update (n\<lparr>cluster_id := Some cid\<rparr>))
     (sthen save_changed (send_task t cid))))"

definition script_handle_usecase :: "env \<Rightarrow> node_spec \<Rightarrow> unit ksvc" where
  "script_handle_usecase ev ns =
     (case ns_kind ns of
        Script info \<Rightarrow>
          start_on_cluster ev \<lparr>task_id = ns_id ns, task_body = [ExecuteScript info], task_command = CmdStart\<rparr>
      | _ \<Rightarrow> sfail UnreachableNodeKind)"

definition software_handle_usecase :: "env \<Rightarrow> node_spec \<Rightarrow> unit ksvc" where
  "software_handle_usecase ev ns = sbind (read_state (parse_task (usecases ev) ns)) (start_on_cluster ev)"

text \<open>A command goes to the cluster the node was started on, as a task without a body.\<close>

definition operate_on_cluster :: "operation \<Rightarrow> unit ksvc" where
  "operate_on_cluster operate =
     sbind (node_get_by_id (op_task_id operate)) (\<lambda>n.
     sbind (slift (ok_or NodeWithoutCluster (cluster_id n))) (\<lambda>cid.
     send_task \<lparr>task_id = op_task_id operate, task_body = [], task_command = op_command operate\<rparr> cid))"

definition script_operate_task :: "operation \<Rightarrow> unit ksvc" where
  "script_operate_task operate = operate_on_cluster operate"

definition software_operate_task :: "operation \<Rightarrow> unit ksvc" where
  "software_operate_task operate = operate_on_cluster operate"

definition software_get_cmd :: "env \<Rightarrow> uuid \<Rightarrow> string option ksvc" where
  "software_get_cmd ev node_id =
     sbind (node_get_by_id node_id) (\<lambda>n.
     sbind (flow_get_by_id (flow_instance_id n)) (\<lambda>w.
     sbind (slift (spec_node (wi_spec w) node_id)) (\<lambda>ns.
     sbind (read_state (parse_task (usecases ev) ns)) (\<lambda>t.
     sret (case find (\<lambda>b. case b of UsecaseExecution _ _ _ _ _ _ _ \<Rightarrow> True | _ \<Rightarrow> False) (task_body t) of
             Some (UsecaseExecution name _ arguments _ _ _ _) \<Rightarrow>
               (let arg_str = join '' '' arguments in
                Some (if arg_str = [] then name else name @ '' '' @ arg_str))
           | _ \<Rightarrow> None)))))"

section \<open>Selection\<close>

text \<open>The kinds in the map: no service is registered for a milestone.\<close>

definition send_usecase :: "env \<Rightarrow> node_spec \<Rightarrow> unit ksvc" where
  "send_usecase ev ns =
     (case node_instance_kind_from (ns_kind ns) of
        KNoAction \<Rightarrow> no_action_handle_usecase ns
      | KSoftwareUsecaseComputing \<Rightarrow> software_handle_usecase ev ns
      | KScript \<Rightarrow> script_handle_usecase ev ns
      | KMilestone \<Rightarrow> sfail NoSuchSubTaskService)"

definition select_operate_task :: "operate_task \<Rightarrow> unit ksvc" where
  "select_operate_task operate =
     (case ot_kind operate of
        KNoAction \<Rightarrow> no_action_operate_task (ot_operate operate)
      | KSoftwareUsecaseComputing \<Rightarrow> software_operate_task (ot_operate operate)
      | KScript \<Rightarrow> script_operate_task (ot_operate operate)
      | KMilestone \<Rightarrow> sfail NoSuchSubTaskService)"

lemmas operate_defs = no_action_operate_task_def script_operate_task_def software_operate_task_def
  operate_on_cluster_def report_status_def send_task_def cluster_get_by_id_def node_get_by_id_def

section \<open>What the scheduler relies on\<close>

definition same_repo :: "kstate \<Rightarrow> kstate \<Rightarrow> bool" where
  "same_repo s t \<longleftrightarrow> db t = db s \<and> statements t = statements s \<and> can_drop t = can_drop s"

lemma same_repo_refl [simp]: "same_repo s s"
  by (simp add: same_repo_def)

lemma same_repo_trans: "same_repo s t \<Longrightarrow> same_repo t u \<Longrightarrow> same_repo s u"
  by (simp add: same_repo_def)

locale task_operator =
  fixes operate :: "operate_task \<Rightarrow> unit ksvc"
  assumes operate_frame: "same_repo s (snd (operate op s))"

text \<open>Nothing is pending in the repository.\<close>

definition idle :: "kstate \<Rightarrow> bool" where
  "idle s \<longleftrightarrow> statements s = [] \<and> keys_ok (db s)"

definition same_status :: "database \<Rightarrow> database \<Rightarrow> bool" where
  "same_status d d' \<longleftrightarrow>
     (\<forall>i. map_option nr_status (find_node_row i d') = map_option nr_status (find_node_row i d)) \<and>
     flow_rows d' = flow_rows d"

lemma same_status_refl [simp]: "same_status d d"
  by (simp add: same_status_def)

lemma same_status_trans: "same_status a b \<Longrightarrow> same_status b c \<Longrightarrow> same_status a c"
  by (simp add: same_status_def)

locale usecase_sender =
  fixes send :: "node_spec \<Rightarrow> unit ksvc"
  assumes send_idle: "idle s \<Longrightarrow> idle (snd (send ns s)) \<and> same_status (db s) (db (snd (send ns s)))"
begin

lemma send_all:
  "idle s \<Longrightarrow> idle (snd (sfor nss send s)) \<and> same_status (db s) (db (snd (sfor nss send s)))"
proof (induction nss arbitrary: s)
  case (Cons ns nss)
  note step = send_idle [OF Cons.prems, of ns]
  show ?case
  proof (cases "send ns s")
    case (Pair r t)
    with step have t: "idle t" "same_status (db s) (db t)" by auto
    show ?thesis
      using Pair t Cons.IH [OF t(1)] same_status_trans [OF t(2)]
      by (cases r) (auto simp: svc_simps)
  qed
qed (simp add: svc_simps)

end

lemma select_operate_frame: "same_repo s (snd (select_operate_task op s))"
  by (cases "ot_kind op")
    (auto simp: select_operate_task_def operate_defs same_repo_def svc_simps
      split: sum.splits prod.splits)

interpretation select: task_operator select_operate_task
  by unfold_locales (rule select_operate_frame)

lemma fold_node_eff_one: "fold node_eff [UpdateNode r] x = r"
  by simp

lemma updates_one:
  "keys_ok d \<Longrightarrow> find_node_row i (updates [UpdateNode r] d) =
     (if i = nr_id r then map_option (\<lambda>_. r) (find_node_row i d) else find_node_row i d)"
  by (auto simp: find_node_row_updates option.map_id)

text \<open>One update saved on an idle repository.\<close>

lemma node_update_save:
  assumes "idle s"
  shows "sthen (node_update n) save_changed s =
    (Inr True, s\<lparr>db := updates [UpdateNode (node_row_from n)] (db s), statements := [], can_drop := True\<rparr>)"
  using assms by (simp add: svc_simps node_update_def push_stmt_def save_changed_def idle_def updates_def)

lemma set_cluster_same_status:
  assumes "keys_ok d" "node_by_id i d = Inr n"
  shows "same_status d (updates [UpdateNode (node_row_from (n\<lparr>cluster_id := c\<rparr>))] d)"
proof -
  from assms(2) obtain r where r: "find_node_row i d = Some r" "node_from_row r = Inr n"
    by (auto simp: node_by_id_def rbind_Inr_iff ok_or_Inr_iff)
  have i: "nr_id r = i" using r(1) by (auto simp: find_node_row_def dest: find_SomeD)
  have "nr_status (node_row_from (n\<lparr>cluster_id := c\<rparr>)) = nr_status r" "ni_id n = i"
    using node_from_rowD [OF r(2)] i by (auto simp: node_row_from_def)
  then show ?thesis
    using r by (auto simp: same_status_def updates_one [OF assms(1)]) (simp add: updates_def)
qed

lemma start_on_cluster_idle:
  assumes "idle s"
  shows "idle (snd (start_on_cluster ev t s)) \<and> same_status (db s) (db (snd (start_on_cluster ev t s)))"
proof -
  have frame: "db (snd (send_task t c u)) = db u \<and> statements (snd (send_task t c u)) = statements u" for c u
    by (auto simp: send_task_def cluster_get_by_id_def svc_simps split: sum.splits)
  show ?thesis
  proof (cases "fst (get_random_cluster (rng ev) s)")
    case (Inl e)
    then show ?thesis using assms
      by (auto simp: start_on_cluster_def svc_simps get_random_cluster_def Let_def split: if_splits)
  next
    case (Inr c)
    then obtain u where u: "get_random_cluster (rng ev) s = (Inr c, u)" "same_repo s u"
      by (auto simp: get_random_cluster_def Let_def same_repo_def split: if_splits)
    with assms have idle: "idle u" and db: "db u = db s" by (auto simp: same_repo_def idle_def)
    show ?thesis
    proof (cases "node_by_id (task_id t) (db u)")
      case (Inl e)
      with u idle db show ?thesis by (simp add: start_on_cluster_def svc_simps node_get_by_id_def)
    next
      case (Inr n)
      let ?n = "n\<lparr>cluster_id := Some c\<rparr>"
      let ?v = "u\<lparr>db := updates [UpdateNode (node_row_from ?n)] (db u), statements := [], can_drop := True\<rparr>"
      have "start_on_cluster ev t s = send_task t c ?v"
        using u(1) Inr idle
        by (simp add: start_on_cluster_def svc_simps node_get_by_id_def node_update_def push_stmt_def
            save_changed_def idle_def updates_def)
      with frame [of c ?v] set_cluster_same_status [OF _ Inr, of "Some c"] idle db
      show ?thesis by (simp add: idle_def keys_ok_updates)
    qed
  qed
qed

lemma report_status_idle:
  "idle s \<Longrightarrow> idle (snd (report_status i st s)) \<and> same_status (db s) (db (snd (report_status i st s)))"
  by (simp add: report_status_def svc_simps idle_def)

lemma send_usecase_idle:
  "idle s \<Longrightarrow> idle (snd (send_usecase ev ns s)) \<and> same_status (db s) (db (snd (send_usecase ev ns s)))"
  by (cases "ns_kind ns")
    (auto simp: send_usecase_def no_action_handle_usecase_def report_status_idle svc_simps
      script_handle_usecase_def software_handle_usecase_def start_on_cluster_idle
      split: sum.splits)

interpretation sender: usecase_sender "send_usecase ev" for ev
  by unfold_locales (rule send_usecase_idle)

end
