(* ===== verification/KC_Schedule.thy ===== *)
theory KC_Schedule
  imports KC_UseCases
begin

text \<open>
  The scheduler, \<open>kernel/src/services/workflow_engine/schedule.rs\<close>: entry nodes, the expansion
  of a batch node into its sub-tasks, \<open>schedule_next_nodes\<close> in its two modes, and the commands
  that pause, continue and terminate a workflow.

  The first part holds the definitions in the order of the source, the second what they do:
  entry nodes are the nodes without an incoming relation, the expansion enumerates one choice of
  input per batch slot, and the commands change the committed data in one step or not at all.
\<close>

section \<open>Entry nodes: \<open>find_entry_nodes_ids\<close>\<close>

text \<open>The adjacency map as an association list; its iteration order is \<open>ho\<close> of its keys.\<close>

definition count_edge :: "bool \<Rightarrow> uuid \<times> uuid \<Rightarrow> (uuid \<times> i32) list \<Rightarrow> kerr + (uuid \<times> i32) list" where
  "count_edge oc e m =
     rbind (ok_or Panic (i32_add oc (case map_of m (snd e) of Some c \<Rightarrow> c | None \<Rightarrow> 0) 1)) (\<lambda>c.
     Inr (AList.update (snd e) c m))"

definition adjacency_map :: "bool \<Rightarrow> uuid list \<Rightarrow> (uuid \<times> uuid) list \<Rightarrow> kerr + (uuid \<times> i32) list" where
  "adjacency_map oc ids node_dependencies =
     rfold (count_edge oc) node_dependencies (fold (\<lambda>i. AList.update i 0) ids [])"

definition find_entry_nodes_ids ::
  "bool \<Rightarrow> (uuid list \<Rightarrow> uuid list) \<Rightarrow> uuid list \<Rightarrow> (uuid \<times> uuid) list \<Rightarrow> kerr + uuid list" where
  "find_entry_nodes_ids oc ho ids node_dependencies =
     rbind (adjacency_map oc ids node_dependencies) (\<lambda>m.
     Inr (filter (\<lambda>i. map_of m i = Some 0) (ho (map fst m))))"

section \<open>The inputs of a batch: \<open>get_batch_inputs\<close>\<close>

fun rename_inputs :: "(nat \<Rightarrow> uuid) \<Rightarrow> string option \<Rightarrow> input list \<Rightarrow> input list ksvc" where
  "rename_inputs gen pat [] = sret []"
| "rename_inputs gen pat (FileIn f # xs) =
     sbind (slift (ok_or Panic pat)) (\<lambda>p.
     sbind (draw_uuid gen) (\<lambda>u.
     sbind (rename_inputs gen pat xs) (\<lambda>ys.
     sret (FileIn (f\<lparr>file_metadata_name := str_replace ''{}'' (uuid_simple u) p\<rparr>) # ys))))"
| "rename_inputs gen pat (TextInput _ # xs) = sfail Panic"

definition original_batch_inputs :: "env \<Rightarrow> batch_strategy \<Rightarrow> node_input_slot \<Rightarrow> input list ksvc" where
  "original_batch_inputs ev b slot =
     sbind (slift (inputs slot)) (\<lambda>result.
     case is_kind slot of
       SlotFile _ _ _ \<Rightarrow> rename_inputs (uuid_gen ev) (renaming_pattern b) result
     | _ \<Rightarrow> sfail Panic)"

text \<open>An \<open>Enumeration\<close> draws one random number per text.\<close>

definition fill_texts :: "env \<Rightarrow> filler \<Rightarrow> string \<Rightarrow> string \<Rightarrow> nat \<Rightarrow> string list ksvc" where
  "fill_texts ev filler content regex n = (\<lambda>s.
     (fill_match_regex (overflow_checks ev) (rng ev) (rolled s) filler content regex n,
      case filler of AutoNumber _ _ \<Rightarrow> s | Enumeration _ \<Rightarrow> s\<lparr>rolled := rolled s + n\<rparr>))"

definition store_text :: "env \<Rightarrow> string \<Rightarrow> input ksvc" where
  "store_text ev text =
     sbind (draw_uuid (uuid_gen ev)) (\<lambda>key.
     sbind (text_insert (uuid_gen ev) (Some key) text) (\<lambda>_.
     sret (TextInput key)))"

definition store_file :: "env \<Rightarrow> string \<times> string \<Rightarrow> input ksvc" where
  "store_file ev = (\<lambda>(file_name, content).
     sbind (draw_uuid (uuid_gen ev)) (\<lambda>meta_id.
     sbind (draw_uuid (uuid_gen ev)) (\<lambda>reg_id.
     sbind (read_state (move_file ev reg_id meta_id file_name (blake3 ev content) (length content))) (\<lambda>_.
     sret (FileIn \<lparr>file_metadata_id = meta_id, file_metadata_name = file_name,
                   fi_hash = blake3 ev content, fi_size = length content\<rparr>)))))"

definition match_regex_inputs ::
  "env \<Rightarrow> batch_strategy \<Rightarrow> node_input_slot \<Rightarrow> string \<Rightarrow> nat \<Rightarrow> filler \<Rightarrow> input list ksvc" where
  "match_regex_inputs ev b slot regex fill_count filler =
     (case is_kind slot of
        SlotText contents _ \<Rightarrow>
          sbind (slift (rbind (ok_or Panic contents) (\<lambda>c. nth_or Panic c 0))) (\<lambda>key.
          sbind (text_get_by_id key) (\<lambda>content.
          sbind (fill_texts ev filler content regex fill_count) (\<lambda>ts.
          smap (store_text ev) ts)))
      | SlotFile contents _ _ \<Rightarrow>
          sbind (slift (rbind (ok_or Panic contents) (\<lambda>c. nth_or Panic c 0))) (\<lambda>c.
          sbind (read_state (download_text ev (file_metadata_id c))) (\<lambda>content.
          sbind (fill_texts ev filler content regex fill_count) (\<lambda>ts.
          sbind (slift (ok_or Panic (renaming_pattern b))) (\<lambda>p.
          sbind (sgets clock) (\<lambda>now.
          smap (store_file ev)
            (zip (replicate fill_count (str_replace ''{}'' (show_int now) p)) ts))))))
      | SlotUnknown \<Rightarrow> sfail Panic)"

definition relied_output :: "node_relation list \<Rightarrow> string \<Rightarrow> (uuid \<times> string) option" where
  "relied_output rels d =
     fold (\<lambda>rel acc. fold (\<lambda>sr acc. if to_slot sr = d then Some (from_id rel, from_slot sr) else acc)
             (slot_relations rel) acc) rels None"

definition from_batch_inputs :: "node_relation list \<Rightarrow> batch_strategy \<Rightarrow> input list ksvc" where
  "from_batch_inputs rels b =
     sbind (slift (ok_or Panic (relied_output rels (bs_slot b)))) (\<lambda>(in_node_id, from_slot_descriptor).
     sbind (flow_get_by_node_id in_node_id) (\<lambda>w.
     sbind (slift (spec_node (wi_spec w) in_node_id)) (\<lambda>in_node.
     sbind (slift (output_slot in_node from_slot_descriptor)) (\<lambda>os.
     sret (case os_kind os of
             OutFile _ _ ids \<Rightarrow> map (\<lambda>i. FileIn (file_input_default\<lparr>file_metadata_id := i\<rparr>)) ids
           | OutText ids \<Rightarrow> map TextInput ids)))))"

definition get_batch_inputs ::
  "env \<Rightarrow> node_relation list \<Rightarrow> batch_strategy \<Rightarrow> node_input_slot \<Rightarrow> input list ksvc" where
  "get_batch_inputs ev rels b slot =
     (case bs_kind b of
        OriginalBatch \<Rightarrow> original_batch_inputs ev b slot
      | MatchRegex regex fill_count filler \<Rightarrow> match_regex_inputs ev b slot regex fill_count filler
      | FromBatchOutputs \<Rightarrow> from_batch_inputs rels b)"

section \<open>Sub-nodes: \<open>sub_nodes\<close> and \<open>debatch\<close>\<close>

definition expand_step ::
  "string \<times> input list \<Rightarrow> (string \<times> input) list list \<Rightarrow> (string \<times> input) list list" where
  "expand_step = (\<lambda>(d, is) acc.
     if acc = [] then map (\<lambda>j. [(d, j)]) is
     else concat (map (\<lambda>j. map (\<lambda>k. k @ [(d, j)]) acc) is))"

definition expand :: "(string \<times> input list) list \<Rightarrow> (string \<times> input) list list" where
  "expand slots = fold expand_step slots []"

definition sub_nodes :: "env \<Rightarrow> node_spec \<Rightarrow> (string \<times> input list) list \<Rightarrow> node_spec list ksvc" where
  "sub_nodes ev ns slots =
     sbind (get_node_sub_node_instances (ns_id ns)) (\<lambda>x.
     (\<lambda>s. case parse_sub_nodes (uuid_gen ev) (drawn s) ns (zip (map ni_id x) (expand slots)) of
             Inl e \<Rightarrow> (Inl e, s)
           | Inr (subs, k) \<Rightarrow> (Inr subs, s\<lparr>drawn := k\<rparr>)))"

definition batch_inputs_of ::
  "env \<Rightarrow> node_relation list \<Rightarrow> node_spec \<Rightarrow> batch_strategy \<Rightarrow> (string \<times> input list) ksvc" where
  "batch_inputs_of ev rels ns b =
     sbind (slift (input_slot ns (bs_slot b))) (\<lambda>slot.
     sbind (get_batch_inputs ev rels b slot) (\<lambda>is. sret (bs_slot b, is)))"

definition debatch :: "env \<Rightarrow> node_relation list \<Rightarrow> node_spec \<Rightarrow> node_spec list ksvc" where
  "debatch ev rels ns =
     sbind (smap (batch_inputs_of ev rels ns) (batch_strategies ns)) (sub_nodes ev ns)"

section \<open>The tasks of an entry node\<close>

definition fill_relied_inputs :: "workflow_instance \<Rightarrow> node_relation list \<Rightarrow> node_spec \<Rightarrow> kerr + node_spec" where
  "fill_relied_inputs w rels ns =
     rfold (\<lambda>rel.
       rfold (\<lambda>sr n.
         rbind (spec_node (wi_spec w) (from_id rel)) (\<lambda>from_node.
         rbind (output_slot from_node (from_slot sr)) (\<lambda>os.
         mut_input_slot (to_slot sr) (fill_from_output Panic Panic os 0) n)))
         (slot_relations rel)) rels ns"

definition push_task_output :: "nat \<Rightarrow> node_spec \<Rightarrow> node_spec_output_slot \<Rightarrow> kerr + node_spec_output_slot" where
  "push_task_output i task_node os =
     rbind (output_slot task_node (os_descriptor os)) (\<lambda>ts.
     case os_kind os of
       OutFile origin b ids \<Rightarrow>
         rbind (all_tasks_file_outputs ts) (\<lambda>xs.
         rbind (nth_or Panic xs 0) (\<lambda>x.
         Inr (os\<lparr>os_kind := OutFile origin b ((if i = 0 then [] else ids) @ [x])\<rparr>)))
     | OutText ids \<Rightarrow>
         rbind (all_tasks_text_outputs ts) (\<lambda>xs.
         rbind (nth_or Panic xs 0) (\<lambda>x.
         Inr (os\<lparr>os_kind := OutText ((if i = 0 then [] else ids) @ [x])\<rparr>))))"

fun collect_outputs ::
  "nat \<Rightarrow> node_spec list \<Rightarrow> node_spec_output_slot list \<Rightarrow> kerr + node_spec_output_slot list" where
  "collect_outputs i [] oss = Inr oss"
| "collect_outputs i (t # ts) oss =
     rbind (rmap (push_task_output i t) oss) (collect_outputs (Suc i) ts)"

text \<open>The entry node as it is put back into the instance, and the nodes to start for it.\<close>

definition entry_tasks ::
  "env \<Rightarrow> workflow_instance \<Rightarrow> node_spec \<Rightarrow> (node_spec \<times> node_spec list) ksvc" where
  "entry_tasks ev w ns =
     (let rels = node_dependency_relations w (ns_id ns) in
      if batch_strategies ns = [] then
        (if rels = [] then sret (ns, [ns])
         else sbind (slift (fill_relied_inputs w rels ns)) (\<lambda>n. sret (n, [n])))
      else
        sbind (debatch ev rels ns) (\<lambda>subs.
        sbind (slift (collect_outputs 0 subs (output_slots ns))) (\<lambda>oss.
        sret (ns\<lparr>output_slots := oss\<rparr>, ns # subs))))"

definition expand_entries ::
  "env \<Rightarrow> workflow_instance \<Rightarrow> uuid list \<Rightarrow> (node_spec \<times> node_spec list) list ksvc" where
  "expand_entries ev w entry_ids =
     smap (\<lambda>ns. if ns_id ns \<in> set entry_ids then entry_tasks ev w ns else sret (ns, []))
       (node_specs (wi_spec w))"

section \<open>\<open>schedule_next_nodes\<close>\<close>

definition dependencies :: "node_relation list \<Rightarrow> (uuid \<times> uuid) list" where
  "dependencies rels = map (\<lambda>el. (from_id el, to_id el)) rels"

definition set_standby :: "node_spec \<Rightarrow> unit ksvc" where
  "set_standby ns =
     sbind (node_get_by_id (ns_id ns)) (\<lambda>n.
     sthen (node_update (n\<lparr>ni_status := Standby\<rparr>))
     (if batch_strategies ns \<noteq> [] then
        sbind (get_node_sub_node_instances (ns_id ns)) (\<lambda>subs.
        sfor subs (\<lambda>el. node_update (el\<lparr>ni_status := Standby\<rparr>)))
      else sret ()))"

definition first_entries :: "env \<Rightarrow> uuid \<Rightarrow> (workflow_instance \<times> uuid list) ksvc" where
  "first_entries ev i =
     sbind (flow_get_by_id i) (\<lambda>w0.
     let w = w0\<lparr>wi_status := FRunning\<rparr> in
     sthen (flow_update w) (sthen save_changed
     (sbind (slift (find_entry_nodes_ids (overflow_checks ev) (key_order ev) (map ns_id (node_specs (wi_spec w)))
               (dependencies (node_relations (wi_spec w))))) (\<lambda>entry_ids.
      sthen (sfor (filter (\<lambda>ns. ns_id ns \<notin> set entry_ids) (node_specs (wi_spec w))) set_standby)
      (sret (w, entry_ids))))))"

definition next_entries :: "env \<Rightarrow> uuid \<Rightarrow> (workflow_instance \<times> uuid list) ksvc" where
  "next_entries ev node_id =
     sbind (is_all_same_entryment_nodes_success node_id) (\<lambda>ok.
     if ok then
       sbind (flow_get_by_node_id node_id) (\<lambda>w.
       sbind (get_all_workflow_instance_stand_by_nodes (wi_id w)) (\<lambda>stand_by.
       sbind (slift (find_entry_nodes_ids (overflow_checks ev) (key_order ev) (map ni_id stand_by)
                (dependencies (filter (\<lambda>el. from_id el \<noteq> node_id \<and> to_id el \<noteq> node_id)
                  (node_relations (wi_spec w)))))) (\<lambda>entry_ids.
       sret (w, entry_ids))))
     else sfail (NotFullyScheduled node_id))"

definition set_running :: "node_spec \<Rightarrow> unit ksvc" where
  "set_running ns =
     sbind (node_get_by_id (ns_id ns)) (\<lambda>n. node_update (n\<lparr>ni_status := Running\<rparr>))"

definition start_entries ::
  "env \<Rightarrow> (node_spec \<Rightarrow> unit ksvc) \<Rightarrow> workflow_instance \<Rightarrow> uuid list \<Rightarrow> unit ksvc" where
  "start_entries ev send w entry_ids =
     sbind (expand_entries ev w entry_ids) (\<lambda>rs.
     let task_node_specs = concat (map snd rs);
         w' = w\<lparr>wi_spec := (wi_spec w)\<lparr>node_specs := map fst rs\<rparr>\<rparr>
     in sthen (sfor task_node_specs set_running)
        (sthen save_changed
        (sthen (sfor task_node_specs send)
        (sthen (flow_update w')
        (sthen save_changed (sret ()))))))"

definition finish_flow :: "workflow_instance \<Rightarrow> unit ksvc" where
  "finish_flow w =
     sthen (flow_update (w\<lparr>wi_status := FFinished\<rparr>)) (sthen save_changed (sret ()))"

definition schedule_next_nodes ::
  "env \<Rightarrow> (node_spec \<Rightarrow> unit ksvc) \<Rightarrow> schedule_mode \<Rightarrow> unit ksvc" where
  "schedule_next_nodes ev send mode =
     sbind (case mode of
              WorkflowInstanceId i \<Rightarrow> first_entries ev i
            | NodeInstanceId i \<Rightarrow> next_entries ev i) (\<lambda>(w, entry_ids).
     if entry_ids = [] then finish_flow w else start_entries ev send w entry_ids)"

section \<open>Pause, continue, terminate\<close>

definition change_and_operate ::
  "(operate_task \<Rightarrow> unit ksvc) \<Rightarrow> node_instance_status \<Rightarrow> task_command \<Rightarrow> node_instance \<Rightarrow> unit ksvc" where
  "change_and_operate operate st cmd n =
     sthen (node_update (n\<lparr>ni_status := st\<rparr>))
       (operate \<lparr>ot_kind = ni_kind n, ot_operate = \<lparr>op_task_id = ni_id n, op_command = cmd\<rparr>\<rparr>)"

definition command_workflow ::
  "(operate_task \<Rightarrow> unit ksvc) \<Rightarrow> workflow_instance_status \<Rightarrow> (node_instance_status \<Rightarrow> bool)
   \<Rightarrow> node_instance_status \<Rightarrow> task_command \<Rightarrow> uuid \<Rightarrow> unit ksvc" where
  "command_workflow operate flow_st sel st cmd i =
     sbind (flow_get_by_id i) (\<lambda>w.
     sbind (get_all_workflow_instance_nodes (wi_id w)) (\<lambda>nodes.
     sthen (sfor (filter (\<lambda>el. sel (ni_status el)) nodes) (change_and_operate operate st cmd))
     (sthen (flow_update (w\<lparr>wi_status := flow_st\<rparr>))
     (sthen save_changed (sret ())))))"

definition pause_workflow :: "(operate_task \<Rightarrow> unit ksvc) \<Rightarrow> uuid \<Rightarrow> unit ksvc" where
  "pause_workflow operate i =
     command_workflow operate FPaused (\<lambda>st. st = Running) Paused CmdPause i"

definition continue_workflow :: "(operate_task \<Rightarrow> unit ksvc) \<Rightarrow> uuid \<Rightarrow> unit ksvc" where
  "continue_workflow operate i =
     command_workflow operate FRunning (\<lambda>st. st = Paused) Running CmdContinue i"

definition terminate_workflow :: "(operate_task \<Rightarrow> unit ksvc) \<Rightarrow> uuid \<Rightarrow> unit ksvc" where
  "terminate_workflow operate i =
     command_workflow operate FStopped (\<lambda>st. st = Running \<or> st = Paused) Stopped CmdDelete i"

section \<open>Which nodes are entries\<close>

lemma sint_Suc:
  fixes c :: i32
  assumes "0 \<le> sint c" "sint c + 1 < 2 ^ 31"
  shows "sint (c + 1) = sint c + 1"
proof -
  have "sint (c + 1) = signed_take_bit 31 (sint c + 1)"
    by (simp add: sint_word_ariths)
  also have "\<dots> = sint c + 1"
    using assms by (intro signed_take_bit_int_eq_self) auto
  finally show ?thesis .
qed

lemma update_fst: "fst ` set (AList.update k v m) = insert k (fst ` set m)"
  using dom_update [of k v m] by (simp add: dom_map_of_conv_image_fst)

lemma adjacency_fold:
  assumes "\<forall>i c. map_of m i = Some c \<longrightarrow> 0 \<le> sint c \<and> sint c + int (length es) < 2 ^ 31"
    and "int (length es) < 2 ^ 31" "distinct (map fst m)"
  shows "\<exists>m'. rfold (count_edge oc) es m = Inr m' \<and> distinct (map fst m') \<and>
    fst ` set m' = fst ` set m \<union> snd ` set es \<and>
    (\<forall>i. map_of m' i = Some 0 \<longleftrightarrow> map_of m i = Some 0 \<and> i \<notin> snd ` set es)"
  using assms
proof (induction es arbitrary: m)
  case (Cons e es)
  let ?c = "case map_of m (snd e) of Some c \<Rightarrow> c | None \<Rightarrow> (0 :: i32)"
  have c: "0 \<le> sint ?c" "sint ?c + int (length (e # es)) < 2 ^ 31"
    using Cons.prems(1) [rule_format, of "snd e"] Cons.prems(2) by (auto split: option.splits)
  then have s1: "sint (?c + 1) = sint ?c + 1" by (intro sint_Suc) auto
  then have nz: "?c + 1 \<noteq> 0" using c(1) by (metis add.commute add_nonneg_pos less_irrefl sint_0 zero_less_one)
  have add: "i32_add oc ?c 1 = Some (?c + 1)"
    using c by (auto simp: i32_add_def)
  define m1 where "m1 = AList.update (snd e) (?c + 1) m"
  have m1: "map_of m1 = (map_of m)(snd e \<mapsto> ?c + 1)" by (simp add: update_conv' m1_def)
  have run: "rfold (count_edge oc) (e # es) m = rfold (count_edge oc) es m1"
    by (simp add: count_edge_def add m1_def)
  have bound: "0 \<le> sint d \<and> sint d + int (length es) < 2 ^ 31" if d: "map_of m1 i = Some d" for i d
  proof (cases "i = snd e")
    case True
    with d m1 have "d = ?c + 1" by simp
    with s1 c show ?thesis by auto
  next
    case False
    with d m1 have "map_of m i = Some d" by simp
    with Cons.prems(1) show ?thesis by fastforce
  qed
  have "int (length es) < 2 ^ 31" "distinct (map fst m1)"
    using Cons.prems(2,3) by (simp_all add: distinct_update m1_def)
  with bound Cons.IH [of m1] obtain m' where m':
    "rfold (count_edge oc) es m1 = Inr m'" "distinct (map fst m')"
    "fst ` set m' = fst ` set m1 \<union> snd ` set es"
    "\<forall>i. map_of m' i = Some 0 \<longleftrightarrow> map_of m1 i = Some 0 \<and> i \<notin> snd ` set es"
    by metis
  have keys: "fst ` set m1 = insert (snd e) (fst ` set m)" by (simp add: m1_def update_fst)
  have zero: "map_of m' i = Some 0 \<longleftrightarrow> map_of m i = Some 0 \<and> i \<notin> snd ` set (e # es)" for i
    using m'(4) nz by (simp add: m1)
  show ?case
    by (intro exI [of _ m'] conjI) (use m' keys zero run in simp_all)
qed simp

lemma initial_map:
  "distinct (map fst m) \<Longrightarrow> distinct (map fst (fold (\<lambda>i. AList.update i (0::i32)) is m)) \<and>
   fst ` set (fold (\<lambda>i. AList.update i (0::i32)) is m) = fst ` set m \<union> set is \<and>
   (\<forall>i. map_of (fold (\<lambda>i. AList.update i (0::i32)) is m) i = (if i \<in> set is then Some 0 else map_of m i))"
  by (induction "is" arbitrary: m) (auto simp: update_conv' distinct_update update_fst)

theorem find_entry_nodes:
  assumes "permutes_keys ho" "int (length deps) < 2 ^ 31"
  shows "\<exists>es. find_entry_nodes_ids oc ho ids deps = Inr es \<and> distinct es \<and>
    set es = set ids - snd ` set deps"
proof -
  let ?m = "fold (\<lambda>i. AList.update i (0::i32)) ids []"
  note init = initial_map [of "[]" ids, simplified]
  have "0 \<le> sint c \<and> sint c + int (length deps) < 2 ^ 31" if "map_of ?m i = Some c" for i c
    using that init assms(2) by (auto split: if_splits)
  then have "\<forall>i c. map_of ?m i = Some c \<longrightarrow> 0 \<le> sint c \<and> sint c + int (length deps) < 2 ^ 31" by blast
  from adjacency_fold [OF this assms(2), of oc] init obtain m' where
    m': "rfold (count_edge oc) deps ?m = Inr m'" "distinct (map fst m')"
    "fst ` set m' = set ids \<union> snd ` set deps"
    "\<forall>i. map_of m' i = Some 0 \<longleftrightarrow> map_of ?m i = Some 0 \<and> i \<notin> snd ` set deps"
    by metis
  let ?es = "filter (\<lambda>i. map_of m' i = Some 0) (ho (map fst m'))"
  have "distinct (ho (map fst m'))" "set (ho (map fst m')) = set ids \<union> snd ` set deps"
    using assms(1) m'(2,3) by (auto simp: permutes_keys_def)
  with m' init have "distinct ?es" "set ?es = set ids - snd ` set deps" by auto
  with m'(1) show ?thesis
    by (auto simp: find_entry_nodes_ids_def adjacency_map_def)
qed

text \<open>A node of least rank has no predecessor.\<close>

lemma acyclic_has_entry:
  assumes "\<And>r. r \<in> set rels \<Longrightarrow> from_id r \<in> set ids \<and> rank (from_id r) < (rank (to_id r) :: nat)"
    and "ids \<noteq> []"
  shows "set ids - snd ` set (dependencies rels) \<noteq> {}"
proof -
  obtain i where i: "i \<in> set ids" "\<And>j. j \<in> set ids \<Longrightarrow> rank i \<le> rank j"
    using assms(2) ex_min_if_finite [of "rank ` set ids"]
    by (metis (no_types, lifting) arg_min_if_finite(1) arg_min_least finite_set set_empty)
  have "i \<notin> snd ` set (dependencies rels)"
    using assms(1) i(2) by (fastforce simp: dependencies_def)
  with i(1) show ?thesis by blast
qed

section \<open>What the expansion enumerates\<close>

definition picks :: "(string \<times> input list) list \<Rightarrow> (string \<times> input) list set" where
  "picks slots = {ks. list_all2 (\<lambda>k (d, is). fst k = d \<and> snd k \<in> set is) ks slots}"

lemma list_all2_snoc:
  "list_all2 P ks (xs @ [x]) \<longleftrightarrow> (\<exists>k p. ks = k @ [p] \<and> list_all2 P k xs \<and> P p x)"
proof
  assume l: "list_all2 P ks (xs @ [x])"
  then have "ks \<noteq> []" by auto
  then obtain k p where ks: "ks = k @ [p]" by (metis append_butlast_last_id)
  with l have "length k = length xs" by (auto dest: list_all2_lengthD)
  with l ks show "\<exists>k p. ks = k @ [p] \<and> list_all2 P k xs \<and> P p x" by (auto simp: list_all2_append)
qed (auto intro: list_all2_appendI)

lemma picks_snoc: "picks (slots @ [(d, is)]) = {k @ [(d, j)] | k j. k \<in> picks slots \<and> j \<in> set is}"
  by (auto simp: picks_def list_all2_snoc) 

lemma expand_snoc: "expand (slots @ [x]) = expand_step x (expand slots)"
  by (simp add: expand_def)

lemma expand_full:
  "slots \<noteq> [] \<Longrightarrow> (\<forall>x \<in> set slots. snd x \<noteq> []) \<Longrightarrow>
   set (expand slots) = picks slots \<and> length (expand slots) = prod_list (map (\<lambda>x. length (snd x)) slots) \<and>
   expand slots \<noteq> []"
proof (induction slots rule: rev_induct)
  case (snoc x slots)
  obtain d "is" where x: "x = (d, is)" by (cases x)
  with snoc.prems have ne: "is \<noteq> []" by simp
  show ?case
  proof (cases "slots = []")
    case True
    with x ne show ?thesis
      by (auto simp: expand_def expand_step_def picks_def list_all2_Cons2)
  next
    case False
    with snoc have IH: "set (expand slots) = picks slots" "expand slots \<noteq> []"
      "length (expand slots) = prod_list (map (\<lambda>x. length (snd x)) slots)" by auto
    have "length (expand (slots @ [x])) = length (expand slots) * length is"
      using IH(2) x by (simp add: expand_snoc expand_step_def length_concat comp_def sum_list_triv)
    moreover have "set (expand (slots @ [x])) = picks (slots @ [x])"
      using IH x by (auto simp: expand_snoc expand_step_def picks_snoc)
    moreover have "expand (slots @ [x]) \<noteq> []"
      using calculation(1) IH(2) ne by (metis length_0_conv mult_is_0)
    ultimately show ?thesis using IH x by simp
  qed
qed simp

lemma expand_distinct:
  "(\<forall>x \<in> set slots. distinct (snd x)) \<Longrightarrow> distinct (expand slots)"
proof (induction slots rule: rev_induct)
  case (snoc x slots)
  obtain d "is" where x: "x = (d, is)" by (cases x)
  with snoc have IH: "distinct (expand slots)" "distinct is" by auto
  have "distinct (concat (map (\<lambda>j. map (\<lambda>k. k @ [(d, j)]) acc) is))" if "distinct acc" for acc :: "(string \<times> input) list list"
    using IH(2) that by (induction "is") (auto simp: distinct_map inj_on_def)
  with IH show ?case
    by (auto simp: x expand_snoc expand_step_def distinct_map inj_on_def)
qed (simp add: expand_def)

section \<open>The expansion leaves the repository alone\<close>

definition repo_is :: "database \<Rightarrow> stmt list \<Rightarrow> bool \<Rightarrow> kstate \<Rightarrow> bool" where
  "repo_is d q c s \<longleftrightarrow> db s = d \<and> statements s = q \<and> can_drop s = c"

lemma keeps_read_state [keeps_intro, intro!]: "keeps P (read_state f)"
  by (simp add: keeps_def read_state_def)

lemma repo_is_draw [keeps_intro]: "keeps (repo_is d q c) (draw_uuid g)"
  by (simp add: keeps_def draw_uuid_def repo_is_def)

lemma repo_is_texts [keeps_intro]:
  "keeps (repo_is d q c) (text_insert g k t)" "keeps (repo_is d q c) (text_get_by_id i)"
  "keeps (repo_is d q c) (fill_texts ev f ct re n)"
  by (auto simp: keeps_def text_insert_def text_get_by_id_def fill_texts_def repo_is_def Let_def
      split: filler.splits)

lemma repo_is_rename [keeps_intro]: "keeps (repo_is d q c) (rename_inputs g pat xs)"
  by (induction g pat xs rule: rename_inputs.induct) (auto intro!: keeps_intro)

lemma repo_is_store [keeps_intro]:
  "keeps (repo_is d q c) (store_text ev t)" "keeps (repo_is d q c) (store_file ev p)"
  by (auto simp: store_text_def store_file_def split: prod.splits intro!: keeps_intro)

lemma repo_is_get_batch_inputs [keeps_intro]: "keeps (repo_is d q c) (get_batch_inputs ev rels b slot)"
  by (auto simp: get_batch_inputs_def original_batch_inputs_def match_regex_inputs_def
      from_batch_inputs_def flow_get_by_node_id_def flow_get_by_id_def node_get_by_id_def
      split: batch_strategy_kind.splits node_input_slot_kind.splits prod.splits intro!: keeps_intro)

lemma repo_is_sub_nodes [keeps_intro]: "keeps (repo_is d q c) (sub_nodes ev ns slots)"
  unfolding sub_nodes_def get_node_sub_node_instances_def
  by (rule keeps_sbind, blast) (auto simp: keeps_def repo_is_def split: sum.splits prod.splits)

lemma repo_is_debatch [keeps_intro]: "keeps (repo_is d q c) (debatch ev rels ns)"
  by (auto simp: debatch_def batch_inputs_of_def intro!: keeps_intro)

lemma repo_is_entry_tasks [keeps_intro]: "keeps (repo_is d q c) (entry_tasks ev w ns)"
  by (auto simp: entry_tasks_def Let_def intro!: keeps_intro)

lemma repo_is_expand_entries [keeps_intro]: "keeps (repo_is d q c) (expand_entries ev w es)"
  by (auto simp: expand_entries_def intro!: keeps_intro)

lemma expand_entries_repo: "same_repo s (snd (expand_entries ev w es s))"
  using repo_is_expand_entries [of "db s" "statements s" "can_drop s" ev w es]
  by (auto simp: keeps_def repo_is_def same_repo_def)

lemma debatch_repo: "same_repo s (snd (debatch ev rels ns s))"
  using repo_is_debatch [of "db s" "statements s" "can_drop s" ev rels ns]
  by (auto simp: keeps_def repo_is_def same_repo_def)

section \<open>The number of inputs of a batch\<close>

lemma smap_length: "smap f xs s = (Inr ys, t) \<Longrightarrow> length ys = length xs"
  by (induction xs arbitrary: s ys) (auto simp: svc_simps split: prod.splits sum.splits)

lemma rename_inputs_length: "rename_inputs g pat xs s = (Inr ys, t) \<Longrightarrow> length ys = length xs"
  by (induction g pat xs arbitrary: s ys rule: rename_inputs.induct)
    (auto simp: svc_simps split: prod.splits sum.splits)

definition batch_size :: "batch_strategy \<Rightarrow> node_input_slot \<Rightarrow> kerr + nat" where
  "batch_size b slot =
     (case bs_kind b of MatchRegex _ n _ \<Rightarrow> Inr n | _ \<Rightarrow> inputs_count slot)"

lemmas run_simps = sret_run sfail_run sgets_run smodify_run slift_run read_db_run read_state_run

lemma original_length:
  "original_batch_inputs ev b slot s = (Inr is, t) \<Longrightarrow> inputs_count slot = Inr (length is)"
  by (cases "is_kind slot")
    (auto simp: original_batch_inputs_def sbind_Inr_iff run_simps
      dest!: rename_inputs_length inputs_length)

lemma match_regex_length:
  "match_regex_inputs ev b slot re n f s = (Inr is, t) \<Longrightarrow> length is = n"
  by (auto simp: match_regex_inputs_def sbind_Inr_iff run_simps fill_texts_def
      dest!: smap_length fill_match_regex_length split: node_input_slot_kind.splits)

lemma get_batch_inputs_length:
  "get_batch_inputs ev rels b slot s = (Inr is, t) \<Longrightarrow> bs_kind b \<noteq> FromBatchOutputs \<Longrightarrow>
   batch_size b slot = Inr (length is)"
  by (auto simp: get_batch_inputs_def batch_size_def original_length match_regex_length
      split: batch_strategy_kind.splits)

text \<open>The counting of sub-tasks agrees with the expansion, when nothing comes from another batch.\<close>

lemma count_strategies_prod:
  assumes "count_strategies oc rec w ns bs acc = Some (Inr c)"
    and "\<forall>b \<in> set bs. bs_kind b \<noteq> FromBatchOutputs"
    and "list_all2 (\<lambda>b x. \<exists>slot. input_slot ns (bs_slot b) = Inr slot \<and> batch_size b slot = Inr (length (snd x))) bs slots"
    and "acc * prod_list (map (\<lambda>x. length (snd x)) slots) \<le> usize_max"
    and "\<forall>x \<in> set slots. snd x \<noteq> []"
  shows "c = acc * prod_list (map (\<lambda>x. length (snd x)) slots)"
  using assms
proof (induction bs arbitrary: acc slots)
  case (Cons b bs)
  from Cons.prems(3) obtain x xs slot where slots: "slots = x # xs"
    and b: "input_slot ns (bs_slot b) = Inr slot" "batch_size b slot = Inr (length (snd x))"
    and rest: "list_all2 (\<lambda>b x. \<exists>slot. input_slot ns (bs_slot b) = Inr slot \<and> batch_size b slot = Inr (length (snd x))) bs xs"
    by (auto simp: list_all2_Cons1)
  let ?p = "prod_list (map (\<lambda>x. length (snd x)) xs)"
  have "?p \<noteq> 0" using Cons.prems(5) slots by (auto simp: prod_list_zero_iff)
  then have "acc * length (snd x) \<le> acc * length (snd x) * ?p" by (cases ?p) simp_all
  also have "\<dots> = acc * prod_list (map (\<lambda>x. length (snd x)) slots)" by (simp add: slots mult.assoc)
  also note Cons.prems(4)
  finally have le: "acc * length (snd x) \<le> usize_max" .
  have "count_strategies oc rec w ns bs (acc * length (snd x)) = Some (Inr c)"
    using Cons.prems(1,2) b usize_mul_small [OF le, of oc]
    by (auto simp: Let_def batch_size_def split: batch_strategy_kind.splits)
  from Cons.IH [OF this _ rest] Cons.prems(2,4,5) slots show ?case
    by (simp add: algebra_simps)
qed simp

lemma smap_batch_inputs:
  "smap (batch_inputs_of ev rels ns) bs s = (Inr slots, t) \<Longrightarrow>
   (\<forall>b \<in> set bs. bs_kind b \<noteq> FromBatchOutputs) \<Longrightarrow>
   list_all2 (\<lambda>b x. \<exists>slot. input_slot ns (bs_slot b) = Inr slot \<and> batch_size b slot = Inr (length (snd x))) bs slots"
proof (induction bs arbitrary: s slots)
  case (Cons b bs)
  from Cons.prems(1) obtain x u xs where b: "batch_inputs_of ev rels ns b s = (Inr x, u)"
    and rest: "smap (batch_inputs_of ev rels ns) bs u = (Inr xs, t)" and slots: "slots = x # xs"
    by (auto simp: sbind_Inr_iff run_simps)
  from b obtain slot "is" v where "input_slot ns (bs_slot b) = Inr slot"
    "get_batch_inputs ev rels b slot v = (Inr is, u)" "x = (bs_slot b, is)"
    by (auto simp: batch_inputs_of_def sbind_Inr_iff run_simps)
  with get_batch_inputs_length Cons.prems(2) Cons.IH [OF rest] slots show ?case by fastforce
qed (simp add: run_simps)

lemma nodes_where_length: "nodes_where P d = Inr ns \<Longrightarrow> length ns = length (filter P (node_rows d))"
  by (auto simp: nodes_where_def dest: rmap_length)

lemma debatchD:
  assumes "debatch ev rels ns s = (Inr subs, t)"
  obtains slots u x where
    "smap (batch_inputs_of ev rels ns) (batch_strategies ns) s = (Inr slots, u)"
    "nodes_where (\<lambda>r. nr_batch_parent_id r = Some (ns_id ns)) (db u) = Inr x"
    "parse_sub_nodes (uuid_gen ev) (drawn u) ns (zip (map ni_id x) (expand slots)) = Inr (subs, drawn t)"
    "db u = db s"
proof -
  from assms obtain slots u where
    1: "smap (batch_inputs_of ev rels ns) (batch_strategies ns) s = (Inr slots, u)"
    and 2: "sub_nodes ev ns slots u = (Inr subs, t)"
    by (auto simp: debatch_def sbind_Inr_iff)
  have "keeps (repo_is (db s) (statements s) (can_drop s)) (smap (batch_inputs_of ev rels ns) (batch_strategies ns))"
    by (auto simp: batch_inputs_of_def intro!: keeps_intro)
  from keeps_run [OF this _ 1] have "db u = db s" by (simp add: repo_is_def)
  from 2 obtain x where x: "nodes_where (\<lambda>r. nr_batch_parent_id r = Some (ns_id ns)) (db u) = Inr x"
    and y: "(case parse_sub_nodes (uuid_gen ev) (drawn u) ns (zip (map ni_id x) (expand slots)) of
        Inl e \<Rightarrow> (Inl e, u) | Inr (subs, k) \<Rightarrow> (Inr subs, u\<lparr>drawn := k\<rparr>)) = (Inr subs, t)"
    by (auto simp: sub_nodes_def sbind_Inr_iff get_node_sub_node_instances_def run_simps)
  from y have "parse_sub_nodes (uuid_gen ev) (drawn u) ns (zip (map ni_id x) (expand slots)) = Inr (subs, drawn t)"
    by (cases "parse_sub_nodes (uuid_gen ev) (drawn u) ns (zip (map ni_id x) (expand slots))") auto
  with 1 x \<open>db u = db s\<close> that show thesis by blast
qed

section \<open>Commands\<close>

lemma chg_run:
  "change_and_operate operate st cmd n s =
     operate \<lparr>ot_kind = ni_kind n, ot_operate = \<lparr>op_task_id = ni_id n, op_command = cmd\<rparr>\<rparr>
       (push_stmt (UpdateNode (node_row_from (n\<lparr>ni_status := st\<rparr>))) s)"
  by (simp add: change_and_operate_def node_update_def svc_simps)

lemma list_all2_ex2: "list_all2 P xs ys \<Longrightarrow> y \<in> set ys \<Longrightarrow> \<exists>x \<in> set xs. P x y"
  by (induction rule: list_all2_induct) auto

lemma list_all2_ex1: "list_all2 P xs ys \<Longrightarrow> x \<in> set xs \<Longrightarrow> \<exists>y \<in> set ys. P x y"
  by (induction rule: list_all2_induct) auto

lemma nodes_where_Inr:
  "nodes_where P d = Inr ns \<Longrightarrow> n \<in> set ns \<Longrightarrow> \<exists>r \<in> set (node_rows d). P r \<and> node_from_row r = Inr n"
  using list_all2_ex2 by (fastforce simp: nodes_where_def rmap_Inr_iff)

lemma nodes_where_complete:
  "nodes_where P d = Inr ns \<Longrightarrow> r \<in> set (node_rows d) \<Longrightarrow> P r \<Longrightarrow> \<exists>n \<in> set ns. node_from_row r = Inr n"
  using list_all2_ex1 by (fastforce simp: nodes_where_def rmap_Inr_iff)

lemma find_node_row_mem: "keys_ok d \<Longrightarrow> r \<in> set (node_rows d) \<Longrightarrow> find_node_row (nr_id r) d = Some r"
  by (auto simp: keys_ok_def find_node_row_def find_distinct_key)

lemma find_node_rowD: "find_node_row i d = Some r \<Longrightarrow> r \<in> set (node_rows d) \<and> nr_id r = i"
  by (auto simp: find_node_row_def dest: find_SomeD)

lemma find_flow_rowD: "find_flow_row i d = Some r \<Longrightarrow> r \<in> set (flow_rows d) \<and> fr_id r = i"
  by (auto simp: find_flow_row_def dest: find_SomeD)

context task_operator
begin

lemma change_step:
  "same_repo (push_stmt (UpdateNode (node_row_from (n\<lparr>ni_status := st\<rparr>))) s)
     (snd (change_and_operate operate st cmd n s))"
  by (simp add: chg_run operate_frame)

lemma change_all:
  "db (snd (sfor ns (change_and_operate operate st cmd) s)) = db s \<and>
   (fst (sfor ns (change_and_operate operate st cmd) s) = Inr () \<longrightarrow>
     statements (snd (sfor ns (change_and_operate operate st cmd) s)) =
       statements s @ map (\<lambda>n. UpdateNode (node_row_from (n\<lparr>ni_status := st\<rparr>))) ns)"
proof (induction ns arbitrary: s)
  case (Cons n ns)
  obtain r t where t: "change_and_operate operate st cmd n s = (r, t)" by fastforce
  with change_step [where n = n and st = st and s = s and cmd = cmd] have "db t = db s"
    "statements t = statements s @ [UpdateNode (node_row_from (n\<lparr>ni_status := st\<rparr>))]"
    by (auto simp: same_repo_def push_stmt_def)
  with t Cons.IH [of t] show ?case by (cases r) (auto simp: svc_simps)
qed (simp add: svc_simps)

text \<open>A command takes effect as a whole or not at all.\<close>

lemma command_cases:
  assumes "idle s"
  obtains (fails) e t where "command_workflow operate fst' sel st cmd i s = (Inl e, t)" "db t = db s"
  | (works) w nodes t where
      "flow_by_id i (db s) = Inr w" "nodes_where (\<lambda>r. nr_flow_instance_id r = wi_id w) (db s) = Inr nodes"
      "command_workflow operate fst' sel st cmd i s = (Inr (), t)" "statements t = []"
      "db t = updates (map (\<lambda>n. UpdateNode (node_row_from (n\<lparr>ni_status := st\<rparr>))) (filter (\<lambda>el. sel (ni_status el)) nodes)
              @ [flow_stmt (w\<lparr>wi_status := fst'\<rparr>)]) (db s)"
proof (cases "flow_by_id i (db s)")
  case (Inl x)
  then show ?thesis using fails [of x s] by (simp add: command_workflow_def svc_simps flow_get_by_id_def)
next
  case w: (Inr w)
  show ?thesis
  proof (cases "nodes_where (\<lambda>r. nr_flow_instance_id r = wi_id w) (db s)")
    case (Inl x)
    with w show ?thesis using fails [of x s]
      by (simp add: command_workflow_def svc_simps flow_get_by_id_def get_all_workflow_instance_nodes_def)
  next
    case nodes: (Inr nodes)
    let ?ns = "filter (\<lambda>el. sel (ni_status el)) nodes"
    obtain r t where run: "sfor ?ns (change_and_operate operate st cmd) s = (r, t)" by fastforce
    note all = change_all [of ?ns st cmd s, unfolded run fst_conv snd_conv]
    note defs = command_workflow_def svc_simps flow_get_by_id_def get_all_workflow_instance_nodes_def w nodes run
    show ?thesis
    proof (cases r)
      case (Inl x)
      with all show ?thesis using fails [of x t] by (simp add: defs)
    next
      case (Inr u)
      let ?v = "push_stmt (flow_stmt (w\<lparr>wi_status := fst'\<rparr>)) t"
      have st: "statements ?v = map (\<lambda>n. UpdateNode (node_row_from (n\<lparr>ni_status := st\<rparr>))) ?ns
          @ [flow_stmt (w\<lparr>wi_status := fst'\<rparr>)]"
        using all Inr assms by (simp add: push_stmt_def idle_def)
      then have upd: "\<And>x. x \<in> set (statements ?v) \<Longrightarrow> is_update x" by (auto simp: flow_stmt_def)
      have "run_stmts exec_stmt (statements ?v) (db ?v) = Some (updates (statements ?v) (db ?v))"
        by (rule run_updates) (rule upd)
      then have save: "save_changed ?v =
          (Inr True, ?v\<lparr>db := updates (statements ?v) (db ?v), statements := [], can_drop := True\<rparr>)"
        by (simp add: save_changed_def push_stmt_def)
      have db: "db ?v = db s" using all by (simp add: push_stmt_def)
      have "command_workflow operate fst' sel st cmd i s =
          (Inr (), ?v\<lparr>db := updates (statements ?v) (db s), statements := [], can_drop := True\<rparr>)"
        using Inr save db by (simp add: defs flow_update_def)
      from works [OF w nodes this] st show ?thesis by simp
    qed
  qed
qed

end

lemma fold_node_eff_const:
  "(\<forall>u \<in> set us. u = UpdateNode r) \<Longrightarrow> fold node_eff us x = (if us = [] then x else r)"
  by (induction us arbitrary: x) auto

lemma node_by_id_iff:
  "node_by_id i d = Inr n \<longleftrightarrow> (\<exists>r. find_node_row i d = Some r \<and> node_from_row r = Inr n)"
  by (auto simp: node_by_id_def rbind_Inr_iff ok_or_Inr_iff)

text \<open>The rows after a list of node updates that are functions of the committed rows.\<close>

lemma node_by_id_updates:
  assumes "keys_ok d" "\<And>u. u \<in> set us \<Longrightarrow> node_target u \<noteq> None \<Longrightarrow>
      \<exists>n. n \<in> set ns \<and> node_by_id (ni_id n) d = Inr n \<and> u = UpdateNode (node_row_from (f n))"
    and "\<And>n. n \<in> set ns \<Longrightarrow> ni_id (f n) = ni_id n \<and> UpdateNode (node_row_from (f n)) \<in> set us"
    and "node_by_id i d = Inr n"
  shows "node_by_id i (updates us d) = Inr (if n \<in> set ns then f n else n)"
proof -
  from assms(4) obtain r where r: "find_node_row i d = Some r" "node_from_row r = Inr n"
    by (auto simp: node_by_id_iff)
  have i: "ni_id n = i" using r find_node_rowD node_from_rowD by metis
  let ?us = "filter (\<lambda>u. node_target u = Some i) us"
  have all: "\<forall>u \<in> set ?us. u = UpdateNode (node_row_from (f n)) \<and> n \<in> set ns"
  proof
    fix u assume u: "u \<in> set ?us"
    with assms(2) [of u] obtain m where m: "m \<in> set ns" "node_by_id (ni_id m) d = Inr m"
      "u = UpdateNode (node_row_from (f m))" by auto
    with u assms(3) [of m] have "ni_id m = i" by simp
    with m assms(4) show "u = UpdateNode (node_row_from (f n)) \<and> n \<in> set ns" by simp
  qed
  have ne: "?us = [] \<longleftrightarrow> n \<notin> set ns"
  proof
    assume e: "?us = []"
    show "n \<notin> set ns"
    proof
      assume "n \<in> set ns"
      with assms(3) [of n] i have "UpdateNode (node_row_from (f n)) \<in> set ?us" by simp
      with e show False by (metis empty_iff list.set(1))
    qed
  next
    assume "n \<notin> set ns"
    with all show "?us = []" by (cases ?us) auto
  qed
  have "fold node_eff ?us r = (if ?us = [] then r else node_row_from (f n))"
    using all by (intro fold_node_eff_const) blast
  with r ne show ?thesis by (simp add: node_by_id_def find_node_row_updates [OF assms(1)])
qed

lemma flow_by_id_iff:
  "flow_by_id i d = Inr n \<longleftrightarrow> (\<exists>r. find_flow_row i d = Some r \<and> flow_from_row r = Inr n)"
  by (auto simp: flow_by_id_def rbind_Inr_iff ok_or_Inr_iff)

lemma flow_by_id_updates:
  assumes "keys_ok d" "filter (\<lambda>u. flow_target u = Some j) us = (if j = wi_id w then [flow_stmt (w\<lparr>wi_status := st, wi_spec := sp\<rparr>)] else [])"
    and "flow_by_id (wi_id w) d = Inr w" "flow_by_id j d = Inr v"
  shows "flow_by_id j (updates us d) = Inr (if j = wi_id w then v\<lparr>wi_status := st, wi_spec := sp\<rparr> else v)"
proof (cases "j = wi_id w")
  case True
  with assms obtain r where r: "find_flow_row j d = Some r" "flow_from_row r = Inr w" "v = w"
    by (auto simp: flow_by_id_iff)
  have "fold flow_eff [flow_stmt (w\<lparr>wi_status := st, wi_spec := sp\<rparr>)] r = r\<lparr>fr_spec := sp, fr_status := flow_status_code st\<rparr>"
    using flow_from_rowD [OF r(2)] by (simp add: flow_stmt_def)
  with True r assms(2) show ?thesis
    by (auto simp: flow_by_id_def find_flow_row_updates [OF assms(1)] flow_from_row_def rbind_Inr_iff ok_or_Inr_iff)
next
  case False
  with assms show ?thesis by (simp add: flow_by_id_def find_flow_row_updates [OF assms(1)] option.map_id)
qed

section \<open>The effect of a command\<close>

context task_operator
begin

lemma command_effect:
  assumes "idle s" "command_workflow operate flow_st sel st cmd i s = (r, t)"
  shows "(\<exists>e. r = Inl e \<and> db t = db s) \<or>
    (r = Inr () \<and> idle t \<and> (\<exists>w. flow_by_id i (db s) = Inr w) \<and>
     (\<forall>j n. node_by_id j (db s) = Inr n \<longrightarrow>
        node_by_id j (db t) = Inr (if flow_instance_id n = i \<and> sel (ni_status n) then n\<lparr>ni_status := st\<rparr> else n)) \<and>
     (\<forall>j v. flow_by_id j (db s) = Inr v \<longrightarrow>
        flow_by_id j (db t) = Inr (if j = i then v\<lparr>wi_status := flow_st\<rparr> else v)))"
  using assms(1)
proof (cases rule: command_cases [where fst' = flow_st and sel = sel and st = st and cmd = cmd and i = i])
  case (fails e u)
  from fails(1) assms(2) have "r = Inl e" "u = t" by simp_all
  with fails(2) show ?thesis by blast
next
  case (works w nodes u)
  have keys: "keys_ok (db s)" using assms(1) by (simp add: idle_def)
  have w: "wi_id w = i" using works(1) by (auto simp: flow_by_id_iff dest!: find_flow_rowD flow_from_rowD)
  let ?ns = "filter (\<lambda>el. sel (ni_status el)) nodes"
  let ?f = "\<lambda>n. n\<lparr>ni_status := st\<rparr>"
  let ?us = "map (\<lambda>n. UpdateNode (node_row_from (?f n))) ?ns @ [flow_stmt (w\<lparr>wi_status := flow_st\<rparr>)]"
  have mem: "n \<in> set nodes \<longleftrightarrow> flow_instance_id n = i" if "node_by_id j (db s) = Inr n" for j n
  proof -
    from that obtain r where r: "find_node_row j (db s) = Some r" "node_from_row r = Inr n"
      by (auto simp: node_by_id_iff)
    note rr = find_node_rowD [OF r(1)] node_from_rowD [OF r(2)]
    show ?thesis
    proof
      assume "n \<in> set nodes"
      from nodes_where_Inr [OF works(2) this] w show "flow_instance_id n = i"
        by (auto dest: node_from_rowD)
    next
      assume "flow_instance_id n = i"
      with rr w nodes_where_complete [OF works(2), of r] r(2) show "n \<in> set nodes" by auto
    qed
  qed
  have at: "node_by_id (ni_id n) (db s) = Inr n" if "n \<in> set nodes" for n
  proof -
    from nodes_where_Inr [OF works(2) that] obtain r where "r \<in> set (node_rows (db s))" "node_from_row r = Inr n" by auto
    with find_node_row_mem [OF keys] show ?thesis by (metis node_by_id_iff node_from_rowD)
  qed
  have nodes': "node_by_id j (db u) = Inr (if flow_instance_id n = i \<and> sel (ni_status n) then ?f n else n)"
    if n: "node_by_id j (db s) = Inr n" for j n
  proof -
    have from_nodes: "\<exists>m. m \<in> set ?ns \<and> node_by_id (ni_id m) (db s) = Inr m \<and> x = UpdateNode (node_row_from (?f m))"
      if x: "x \<in> set ?us" "node_target x \<noteq> None" for x
    proof -
      from x obtain m where "m \<in> set ?ns" "x = UpdateNode (node_row_from (?f m))" by (auto simp: flow_stmt_def)
      with at show ?thesis by auto
    qed
    have "node_by_id j (updates ?us (db s)) = Inr (if n \<in> set ?ns then ?f n else n)"
      using keys from_nodes _ n by (rule node_by_id_updates) auto
    with works(5) mem [OF n] show ?thesis by simp
  qed
  have flows: "flow_by_id j (db u) = Inr (if j = i then v\<lparr>wi_status := flow_st\<rparr> else v)"
    if v: "flow_by_id j (db s) = Inr v" for j v
  proof -
    have "filter (\<lambda>u. flow_target u = Some j) (map (\<lambda>n. UpdateNode (node_row_from (?f n))) ?ns) = []"
      by (simp add: filter_empty_conv)
    then have "filter (\<lambda>u. flow_target u = Some j) ?us =
        (if j = wi_id w then [flow_stmt (w\<lparr>wi_status := flow_st, wi_spec := wi_spec w\<rparr>)] else [])"
      by (simp add: flow_stmt_def)
    from flow_by_id_updates [OF keys this] works(1,5) w v show ?thesis
      by (cases "j = i") auto
  qed
  have "idle u" using works(4,5) keys by (simp add: idle_def keys_ok_updates)
  with nodes' flows works(1,3) assms(2) show ?thesis by simp
qed

end

section \<open>The status of nodes while scheduling\<close>

definition status_at :: "uuid \<Rightarrow> database \<Rightarrow> i32 option" where
  "status_at j d = map_option nr_status (find_node_row j d)"

definition running_row :: "node_instance \<Rightarrow> node_row" where
  "running_row n = node_row_from (n\<lparr>ni_status := Running\<rparr>)"

lemma updates_append: "updates (xs @ ys) d = updates ys (updates xs d)"
  by (simp add: updates_def)

lemma status_at_updates:
  assumes "keys_ok d" "\<forall>u \<in> set us. \<forall>r. u = UpdateNode r \<longrightarrow> nr_status r = c"
  shows "status_at j (updates us d) =
    (if Some j \<in> node_target ` set us then map_option (\<lambda>_. c) (status_at j d) else status_at j d)"
proof -
  let ?us = "filter (\<lambda>u. node_target u = Some j) us"
  have "nr_status (fold node_eff vs x) = (if vs = [] then nr_status x else c)"
    if "\<forall>u \<in> set vs. \<exists>r. u = UpdateNode r \<and> nr_status r = c" for vs x
    using that by (induction vs arbitrary: x) auto
  moreover have "\<forall>u \<in> set ?us. \<exists>r. u = UpdateNode r \<and> nr_status r = c"
  proof
    fix u assume "u \<in> set ?us"
    with assms(2) show "\<exists>r. u = UpdateNode r \<and> nr_status r = c" by (cases u) auto
  qed
  ultimately have "nr_status (fold node_eff ?us x) = (if ?us = [] then nr_status x else c)" for x by blast
  moreover have "?us = [] \<longleftrightarrow> Some j \<notin> node_target ` set us" by (auto simp: filter_empty_conv image_iff)
  ultimately show ?thesis
    by (simp add: status_at_def find_node_row_updates [OF assms(1)] option.map_comp comp_def)
qed

text \<open>A loop that reads rows of the committed data and queues one update for each.\<close>

lemma set_running_loop:
  "db (snd (sfor tss set_running s)) = db s \<and>
   (fst (sfor tss set_running s) = Inr () \<longrightarrow>
     (\<exists>ns. list_all2 (\<lambda>ts n. node_by_id (ns_id ts) (db s) = Inr n) tss ns \<and>
       statements (snd (sfor tss set_running s)) = statements s @ map (UpdateNode \<circ> running_row) ns \<and>
       (tss \<noteq> [] \<longrightarrow> \<not> can_drop (snd (sfor tss set_running s)))))"
proof (induction tss arbitrary: s)
  case (Cons ts tss)
  show ?case
  proof (cases "node_by_id (ns_id ts) (db s)")
    case (Inl e)
    then show ?thesis by (simp add: svc_simps set_running_def node_get_by_id_def)
  next
    case (Inr n)
    let ?t = "push_stmt (UpdateNode (running_row n)) s"
    have run: "sfor (ts # tss) set_running s = sfor tss set_running ?t"
      using Inr by (simp add: svc_simps set_running_def node_get_by_id_def node_update_def running_row_def)
    have t: "db ?t = db s" "statements ?t = statements s @ [UpdateNode (running_row n)]" "\<not> can_drop ?t"
      by (simp_all add: push_stmt_def)
    have nodrop: "\<not> can_drop (snd (sfor tss set_running ?t))" if "tss = []"
      using that t by (simp add: svc_simps)
    show ?thesis unfolding run using Cons.IH [of ?t, unfolded t] Inr nodrop
      by (auto simp: list_all2_Cons1)
  qed
qed (simp add: svc_simps)

lemma rfold_inv:
  "rfold f xs b = Inr b' \<Longrightarrow> P b \<Longrightarrow> (\<And>x b b'. f x b = Inr b' \<Longrightarrow> P b \<Longrightarrow> P b') \<Longrightarrow> P b'"
  by (induction xs arbitrary: b) (auto simp: rbind_Inr_iff)

lemma mut_input_slot_id: "mut_input_slot d f n = Inr n' \<Longrightarrow> ns_id n' = ns_id n"
  by (auto simp: mut_input_slot_def rbind_Inr_iff)

lemma fill_relied_inputs_id:
  assumes "fill_relied_inputs w rels n = Inr n'"
  shows "ns_id n' = ns_id n"
proof -
  have inner: "ns_id b' = ns_id n"
    if "rfold (\<lambda>sr n. rbind (spec_node (wi_spec w) (from_id rel)) (\<lambda>from_node.
         rbind (output_slot from_node (from_slot sr)) (\<lambda>os.
         mut_input_slot (to_slot sr) (fill_from_output Panic Panic os 0) n))) (slot_relations rel) b = Inr b'"
      "ns_id b = ns_id n" for rel b b'
    using that(1) by (rule rfold_inv [where P = "\<lambda>m. ns_id m = ns_id n"])
      (use that(2) in \<open>auto simp: rbind_Inr_iff dest: mut_input_slot_id\<close>)
  show ?thesis
    using assms unfolding fill_relied_inputs_def
    by (rule rfold_inv [where P = "\<lambda>m. ns_id m = ns_id n"]) (use inner in auto)
qed

lemma debatch_ids:
  assumes "debatch ev rels ns s = (Inr subs, t)" "x \<in> set subs"
  shows "\<exists>r \<in> set (node_rows (db s)). nr_batch_parent_id r = Some (ns_id ns) \<and> nr_id r = ns_id x"
proof -
  obtain slots ys and u :: kstate where
    ys: "nodes_where (\<lambda>r. nr_batch_parent_id r = Some (ns_id ns)) (db u) = Inr ys"
    and subs: "parse_sub_nodes (uuid_gen ev) (drawn u) ns (zip (map ni_id ys) (expand slots)) = Inr (subs, drawn t)"
    and db: "db u = db s"
    by (rule debatchD [OF assms(1)]) (rule that; assumption)
  from parse_sub_nodes_shape [OF subs] have "map ns_id subs = map fst (zip (map ni_id ys) (expand slots))" by blast
  then have "ns_id x \<in> fst ` set (zip (map ni_id ys) (expand slots))"
    using assms(2) by (metis image_eqI list.set_map)
  then obtain y where y: "y \<in> set ys" "ni_id y = ns_id x" by (auto dest!: set_zip_leftD)
  from nodes_where_Inr [OF ys y(1)] y(2) db show ?thesis
    by (metis node_from_rowD)
qed

lemma entry_tasks_ids:
  assumes "entry_tasks ev w ns s = (Inr (n, ts), t)"
  shows "ns_id n = ns_id ns" "ns_id ns \<in> ns_id ` set ts"
    and "\<And>x. x \<in> set ts \<Longrightarrow> ns_id x = ns_id ns \<or>
      (\<exists>r \<in> set (node_rows (db s)). nr_batch_parent_id r = Some (ns_id ns) \<and> nr_id r = ns_id x)"
  using assms
  by (auto simp: entry_tasks_def Let_def sbind_Inr_iff run_simps fill_relied_inputs_id
      dest: debatch_ids split: if_splits)

lemma smap_list_all2:
  "smap f xs s = (Inr ys, t) \<Longrightarrow> (\<And>x u. keeps (repo_is (db s) q c) (f x)) \<Longrightarrow> repo_is (db s) q c s \<Longrightarrow>
   list_all2 (\<lambda>x y. \<exists>u v. db u = db s \<and> f x u = (Inr y, v)) xs ys"
proof (induction xs arbitrary: ys)
  case (Cons x xs)
  have gen: "repo_is d q c u \<Longrightarrow> smap f zs u = (Inr ws, v) \<Longrightarrow> (\<And>x. keeps (repo_is d q c) (f x)) \<Longrightarrow>
    list_all2 (\<lambda>x y. \<exists>u v. db u = d \<and> f x u = (Inr y, v)) zs ws" for d u zs ws v
  proof (induction zs arbitrary: u ws)
    case (Cons z zs)
    from Cons.prems(2) obtain y u' ys where "f z u = (Inr y, u')" "smap f zs u' = (Inr ys, v)" "ws = y # ys"
      by (auto simp: sbind_Inr_iff run_simps)
    with Cons.IH [of u' ys] Cons.prems(1,3) keeps_run [OF Cons.prems(3) Cons.prems(1)] show ?case
      by (auto simp: repo_is_def)
  qed (simp add: run_simps)
  from gen [OF Cons.prems(3) Cons.prems(1) Cons.prems(2)] show ?case .
qed (simp add: run_simps)

lemma expand_entries_list:
  "expand_entries ev w es s = (Inr rs, t) \<Longrightarrow>
   list_all2 (\<lambda>ns r. if ns_id ns \<in> set es then \<exists>u v. db u = db s \<and> entry_tasks ev w ns u = (Inr r, v)
                      else r = (ns, [])) (node_specs (wi_spec w)) rs"
  unfolding expand_entries_def
  by (drule smap_list_all2 [where q = "statements s" and c = "can_drop s"])
    (auto simp: repo_is_def [of _ _ _ s] run_simps elim!: list_all2_mono intro!: keeps_intro split: if_splits)

lemma expand_entries_ids:
  assumes "expand_entries ev w es s = (Inr rs, t)"
  shows "map (ns_id \<circ> fst) rs = map ns_id (node_specs (wi_spec w))"
    and "\<And>ns. ns \<in> set (node_specs (wi_spec w)) \<Longrightarrow> ns_id ns \<in> set es \<Longrightarrow>
      ns_id ns \<in> ns_id ` set (concat (map snd rs))"
    and "\<And>x. x \<in> set (concat (map snd rs)) \<Longrightarrow> \<exists>ns \<in> set (node_specs (wi_spec w)). ns_id ns \<in> set es \<and>
      (ns_id x = ns_id ns \<or>
       (\<exists>r \<in> set (node_rows (db s)). nr_batch_parent_id r = Some (ns_id ns) \<and> nr_id r = ns_id x))"
proof -
  note l = expand_entries_list [OF assms]
  then have "list_all2 (\<lambda>ns r. ns_id (fst r) = ns_id ns) (node_specs (wi_spec w)) rs"
    by (rule list_all2_mono) (auto split: if_splits dest: entry_tasks_ids(1))
  then show "map (ns_id \<circ> fst) rs = map ns_id (node_specs (wi_spec w))"
    by (induction rule: list_all2_induct) auto
  show "ns_id ns \<in> ns_id ` set (concat (map snd rs))"
    if ns: "ns \<in> set (node_specs (wi_spec w))" "ns_id ns \<in> set es" for ns
  proof -
    from list_all2_ex1 [OF l ns(1)] ns(2) obtain r u v where
      r: "r \<in> set rs" "entry_tasks ev w ns u = (Inr r, v)" by auto
    from entry_tasks_ids(2) [of ev w ns u "fst r" "snd r" v] r(2) have "ns_id ns \<in> ns_id ` set (snd r)" by simp
    with r(1) show ?thesis by auto
  qed
  show "\<exists>ns \<in> set (node_specs (wi_spec w)). ns_id ns \<in> set es \<and>
      (ns_id x = ns_id ns \<or>
       (\<exists>r \<in> set (node_rows (db s)). nr_batch_parent_id r = Some (ns_id ns) \<and> nr_id r = ns_id x))"
    if x: "x \<in> set (concat (map snd rs))" for x
  proof -
    from x obtain r where r: "r \<in> set rs" "x \<in> set (snd r)" by auto
    from list_all2_ex2 [OF l r(1)] obtain ns where ns: "ns \<in> set (node_specs (wi_spec w))"
      and c: "if ns_id ns \<in> set es then \<exists>u v. db u = db s \<and> entry_tasks ev w ns u = (Inr r, v) else r = (ns, [])"
      by blast
    with r(2) obtain u v where e: "ns_id ns \<in> set es" "db u = db s" "entry_tasks ev w ns u = (Inr (fst r, snd r), v)"
      by (auto split: if_splits)
    with ns entry_tasks_ids(3) [OF e(3) r(2)] show ?thesis by auto
  qed
qed

section \<open>Starting the entries\<close>

context usecase_sender
begin

lemma start_entries_effect:
  assumes "start_entries ev send w es s = (Inr (), t)"
    and "repo_ok s" "keys_ok (db s)" "\<forall>u \<in> set (statements s). is_update u"
  obtains rs where
    "fst (expand_entries ev w es s) = Inr rs" "idle t"
    "\<And>j. status_at j (db t) =
       (if j \<in> ns_id ` set (concat (map snd rs)) then Some (status_code Running)
        else status_at j (updates (statements s) (db s)))"
    "\<And>j. find_flow_row j (db t) = map_option
        (if j = wi_id w then flow_eff (flow_stmt (w\<lparr>wi_spec := (wi_spec w)\<lparr>node_specs := map fst rs\<rparr>\<rparr>)) else (\<lambda>x. x))
        (find_flow_row j (updates (statements s) (db s)))"
    "\<And>x. x \<in> set (concat (map snd rs)) \<Longrightarrow> find_node_row (ns_id x) (db s) \<noteq> None"
proof -
  obtain r s1 where e: "expand_entries ev w es s = (r, s1)" by fastforce
  then obtain rs where rs: "r = Inr rs" using assms(1)
    by (cases r) (auto simp: start_entries_def svc_simps)
  have s1: "db s1 = db s" "statements s1 = statements s" "can_drop s1 = can_drop s"
    using expand_entries_repo [of s ev w es] e by (auto simp: same_repo_def)
  let ?ts = "concat (map snd rs)"
  let ?w = "w\<lparr>wi_spec := (wi_spec w)\<lparr>node_specs := map fst rs\<rparr>\<rparr>"
  obtain q s2 where l: "sfor ?ts set_running s1 = (q, s2)" by fastforce
  have run: "start_entries ev send w es s = (case q of Inl e \<Rightarrow> (Inl e, s2) | Inr _ \<Rightarrow>
      sthen save_changed (sthen (sfor ?ts send) (sthen (flow_update ?w) (sthen save_changed (sret ())))) s2)"
    using e rs l by (simp add: start_entries_def sbind_run sthen_run Let_def)
  with assms(1) have q: "q = Inr ()" by (cases q) auto
  from set_running_loop [of ?ts s1] l q s1 obtain ns where ns:
    "list_all2 (\<lambda>ts n. node_by_id (ns_id ts) (db s) = Inr n) ?ts ns"
    and s2: "statements s2 = statements s @ map (UpdateNode \<circ> running_row) ns" "db s2 = db s"
      "?ts \<noteq> [] \<longrightarrow> \<not> can_drop s2"
    by auto
  have "repo_ok s2"
  proof (cases "?ts = []")
    case True
    with l q have "s2 = s1" by (simp add: svc_simps)
    with s1 assms(2) show ?thesis by (simp add: repo_ok_def)
  next
    case False
    with s2(3) show ?thesis by (simp add: repo_ok_def)
  qed
  then have save1: "save_changed s2 =
      (Inr (\<not> can_drop s2), s2\<lparr>db := updates (statements s2) (db s2), statements := [], can_drop := True\<rparr>)"
    by (rule save_updates) (use assms(4) s2 in auto)
  let ?s3 = "s2\<lparr>db := updates (statements s2) (db s2), statements := [], can_drop := True\<rparr>"
  have s3: "idle ?s3" using assms(3) s2(2) by (simp add: idle_def keys_ok_updates)
  obtain p s4 where p: "sfor ?ts send ?s3 = (p, s4)" by fastforce
  note sent = send_all [OF s3, of ?ts, unfolded p snd_conv]
  have pok: "p = Inr ()" using assms(1) run q save1 p by (cases p) (auto simp: svc_simps)
  let ?s5 = "push_stmt (flow_stmt ?w) s4"
  have "run_stmts exec_stmt (statements ?s5) (db ?s5) = Some (updates [flow_stmt ?w] (db s4))"
    using sent run_updates [of "[flow_stmt ?w]" "db s4"] by (simp add: push_stmt_def idle_def flow_stmt_def)
  then have "t = ?s5\<lparr>db := updates [flow_stmt ?w] (db s4), statements := [], can_drop := True\<rparr>"
    using assms(1) run q save1 p pok
    by (simp add: svc_simps flow_update_def save_changed_def push_stmt_def)
  then have t: "db t = updates [flow_stmt ?w] (db s4)" "statements t = []" by simp_all
  have k4: "keys_ok (db s4)" using sent by (simp add: idle_def)
  have st3: "status_at j (db ?s3) =
      (if j \<in> ns_id ` set ?ts then Some (status_code Running) else status_at j (updates (statements s) (db s)))" for j
  proof -
    let ?d = "updates (statements s) (db s)"
    have kd: "keys_ok ?d" using assms(3) by (rule keys_ok_updates)
    have "status_at j (updates (map (UpdateNode \<circ> running_row) ns) ?d) =
      (if Some j \<in> node_target ` set (map (UpdateNode \<circ> running_row) ns)
       then map_option (\<lambda>_. status_code Running) (status_at j ?d) else status_at j ?d)"
      by (rule status_at_updates [OF kd]) (auto simp: running_row_def node_row_from_def)
    moreover have "Some j \<in> node_target ` set (map (UpdateNode \<circ> running_row) ns) \<longleftrightarrow> j \<in> ns_id ` set ?ts"
    proof -
      have "map ni_id ns = map ns_id ?ts" using ns
        by (induction rule: list_all2_induct)
          (auto simp: node_by_id_iff dest!: find_node_rowD node_from_rowD)
      then have "ni_id ` set ns = ns_id ` set ?ts" by (metis list.set_map)
      moreover have "node_target ` set (map (UpdateNode \<circ> running_row) ns) = Some ` (ni_id ` set ns)"
        by (simp add: running_row_def image_image)
      ultimately show ?thesis by auto
    qed
    moreover have "status_at j ?d \<noteq> None" if "j \<in> ns_id ` set ?ts"
    proof -
      from that obtain x where x: "x \<in> set ?ts" "ns_id x = j" by (metis imageE)
      from list_all2_ex1 [OF ns x(1)] x(2) have "find_node_row j (db s) \<noteq> None" by (auto simp: node_by_id_iff)
      then show ?thesis by (simp add: status_at_def find_node_row_updates [OF assms(3)])
    qed
    ultimately show ?thesis using s2 by (auto simp: updates_append)
  qed
  have "status_at j (db t) = status_at j (db s4)" for j
    unfolding t(1) by (subst status_at_updates [OF k4]) (auto simp: flow_stmt_def)
  moreover have "status_at j (db s4) = status_at j (db ?s3)" for j
    using sent by (simp add: same_status_def status_at_def)
  ultimately have status: "status_at j (db t) =
      (if j \<in> ns_id ` set ?ts then Some (status_code Running) else status_at j (updates (statements s) (db s)))" for j
    using st3 by simp
  have ft: "filter (\<lambda>u. flow_target u = Some j) (map (UpdateNode \<circ> running_row) ns) = []" for j
    by (simp add: filter_empty_conv)
  have "flow_rows (db s4) = flow_rows (updates (statements s2) (db s))"
    using sent s2(2) by (simp add: same_status_def)
  then have "find_flow_row j (db s4) = find_flow_row j (updates (statements s) (db s))" for j
    using find_flow_row_updates [OF keys_ok_updates [OF assms(3)], of j "map (UpdateNode \<circ> running_row) ns" "statements s"]
    by (simp add: find_flow_row_def s2(1) updates_append ft option.map_id)
  then have flow: "find_flow_row j (db t) = map_option
        (if j = wi_id w then flow_eff (flow_stmt ?w) else (\<lambda>x. x))
        (find_flow_row j (updates (statements s) (db s)))" for j
    unfolding t(1) by (auto simp: find_flow_row_updates [OF k4] flow_stmt_def option.map_ident option.map_id)
  have "find_node_row (ns_id x) (db s) \<noteq> None" if "x \<in> set ?ts" for x
    using list_all2_ex1 [OF ns that] by (auto simp: node_by_id_iff)
  moreover have "idle t" using t k4 by (simp add: idle_def keys_ok_updates)
  ultimately show thesis using that [of rs] e rs status flow by simp
qed

end

end
