(* ===== verification/KC_Engine.thy ===== *)
theory KC_Engine
  imports KC_Schedule
begin

text \<open>
  The workflow service and the status receiver:
  \<open>kernel/src/services/workflow_engine/{workflow,status_receiver}.rs\<close>, with the services they
  call filled in as \<open>service_provider.rs\<close> does. The lemmas give the rows a submission creates,
  the statuses the first scheduling gives the nodes, and what each kind of task result changes.
\<close>

section \<open>The workflow service: \<open>workflow.rs\<close>\<close>

definition validate :: "uuid \<Rightarrow> unit ksvc" where
  "validate i =
     sbind (draft_get_by_id i) (\<lambda>l.
     read_db (\<lambda>d. validate_workflow_draft (meta_exists d) (wd_spec l)))"

text \<open>Storing the instance and its nodes: the flow row at once, the node rows in one transaction.\<close>

definition store_instance :: "workflow_instance \<Rightarrow> node_instance list \<Rightarrow> uuid ksvc" where
  "store_instance w nis =
     sthen (flow_insert w) (sthen (sfor nis node_insert) (sthen save_changed (sret (wi_id w))))"

text \<open>\<open>None\<close>: counting the sub-tasks of some node does not end within the fuel.\<close>

definition submit_workflow :: "nat \<Rightarrow> env \<Rightarrow> uuid \<Rightarrow> kstate \<Rightarrow> ((kerr + uuid) \<times> kstate) option" where
  "submit_workflow fuel ev i s =
     (case draft_get_by_id i s of
        (Inl e, t) \<Rightarrow> Some (Inl e, t)
      | (Inr l, t) \<Rightarrow>
          (case validate_workflow_draft (meta_exists (db t)) (wd_spec l) of
             Inl e \<Rightarrow> Some (Inl e, t)
           | Inr _ \<Rightarrow>
               (case workflow_instance_from (key_order ev) (uuid_gen ev) (drawn t) l of
                  (w, k) \<Rightarrow>
                    (case parse_node_instances fuel (overflow_checks ev) (uuid_gen ev) k w of
                       None \<Rightarrow> None
                     | Some (Inl e) \<Rightarrow> Some (Inl e, t\<lparr>drawn := k\<rparr>)
                     | Some (Inr (nis, k')) \<Rightarrow> Some (store_instance w nis (t\<lparr>drawn := k'\<rparr>))))))"

definition start_workflow :: "env \<Rightarrow> (node_spec \<Rightarrow> unit ksvc) \<Rightarrow> uuid \<Rightarrow> unit ksvc" where
  "start_workflow ev send i =
     sbind (flow_get_by_id i) (\<lambda>w.
     sbind (get_all_workflow_instance_nodes (wi_id w)) (\<lambda>nodes.
     sthen (flow_update (w\<lparr>wi_status := FPending\<rparr>))
     (sthen (sfor nodes (\<lambda>n. node_update (n\<lparr>ni_status := Pending\<rparr>)))
     (sthen save_changed
     (schedule_next_nodes ev send (WorkflowInstanceId i))))))"

section \<open>The status receiver: \<open>status_receiver.rs\<close>\<close>

fun status_from_result :: "task_result_status \<Rightarrow> node_instance_status" where
  "status_from_result TSuccess = Finished"
| "status_from_result TContinued = Running"
| "status_from_result TPaused = Paused"
| "status_from_result TFailed = Error"
| "status_from_result TDeleted = Stopped"

definition record_result :: "task_result \<Rightarrow> node_instance \<Rightarrow> node_instance" where
  "record_result result n =
     n\<lparr>ni_log := Some (tr_message result), resource_meter := tr_used_resources result,
       ni_status := status_from_result (tr_status result)\<rparr>"

text \<open>The flow gets the status when no node of it is in the transient status any more.\<close>

definition settle_flow ::
  "node_instance \<Rightarrow> node_instance_status \<Rightarrow> workflow_instance_status \<Rightarrow> unit ksvc" where
  "settle_flow n transient st =
     sbind (flow_get_by_id (flow_instance_id n)) (\<lambda>w.
     sbind (get_all_workflow_instance_nodes (wi_id w)) (\<lambda>nodes.
     if length (filter (\<lambda>el. ni_status el = transient) nodes) = 0
     then flow_update (w\<lparr>wi_status := st\<rparr>) else sret ()))"

definition after_result ::
  "env \<Rightarrow> (node_spec \<Rightarrow> unit ksvc) \<Rightarrow> task_result \<Rightarrow> node_instance \<Rightarrow> unit ksvc" where
  "after_result ev send result n =
     (case tr_status result of
        TSuccess \<Rightarrow>
          sthen (schedule_next_nodes ev send (NodeInstanceId (tr_id result)))
            (smodify (\<lambda>s. s\<lparr>bill_mq := bill_mq s @ [(bill_topic ev, tr_id result)]\<rparr>))
      | TFailed \<Rightarrow>
          sbind (flow_get_by_id (flow_instance_id n)) (\<lambda>w. flow_update (w\<lparr>wi_status := FError\<rparr>))
      | TPaused \<Rightarrow> settle_flow n Pausing FPaused
      | TDeleted \<Rightarrow> settle_flow n Stopping FStopped
      | TContinued \<Rightarrow> sret ())"

definition receive_node_status ::
  "env \<Rightarrow> (node_spec \<Rightarrow> unit ksvc) \<Rightarrow> task_result \<Rightarrow> unit ksvc" where
  "receive_node_status ev send result =
     sbind (node_get_by_id (tr_id result)) (\<lambda>n0.
     let n = record_result result n0 in
     sthen (node_update n) (sthen save_changed
     (sthen (after_result ev send result n)
     (sthen save_changed (sret ())))))"

section \<open>Storing an instance\<close>

definition append_nodes :: "node_instance list \<Rightarrow> database \<Rightarrow> database" where
  "append_nodes nis d = d\<lparr>node_rows := node_rows d @ map node_row_from nis\<rparr>"

lemma run_inserts:
  "distinct (map ni_id nis) \<Longrightarrow> ni_id ` set nis \<inter> nr_id ` set (node_rows d) = {} \<Longrightarrow>
   run_stmts exec_stmt (map (InsertNode \<circ> node_row_from) nis) d = Some (append_nodes nis d)"
proof (induction nis arbitrary: d)
  case (Cons n nis)
  let ?d = "d\<lparr>node_rows := node_rows d @ [node_row_from n]\<rparr>"
  have "ni_id ` set nis \<inter> nr_id ` set (node_rows ?d) = {}" using Cons.prems by auto
  from Cons.IH [OF _ this] Cons.prems show ?case by (auto simp: append_nodes_def)
qed (simp add: append_nodes_def)

lemma node_insert_loop:
  "sfor nis node_insert s = (Inr (), fold push_stmt (map (InsertNode \<circ> node_row_from) nis) s)"
  by (induction nis arbitrary: s) (auto simp: svc_simps node_insert_def)

text \<open>The flow row a submission adds.\<close>

definition stored_flow :: "kstate \<Rightarrow> uuid \<Rightarrow> workflow_instance \<Rightarrow> flow_row" where
  "stored_flow s u w = (flow_row_from w)\<lparr>fr_user_id := u, fr_last_modified_time := clock s\<rparr>"

lemma store_instance_ok:
  assumes "idle s" "repo_user_id s = Some u" "wi_id w \<notin> fr_id ` set (flow_rows (db s))"
    and "distinct (map ni_id nis)" "ni_id ` set nis \<inter> nr_id ` set (node_rows (db s)) = {}"
  shows "fst (store_instance w nis s) = Inr (wi_id w)"
    and "db (snd (store_instance w nis s)) =
      append_nodes nis ((db s)\<lparr>flow_rows := flow_rows (db s) @ [stored_flow s u w]\<rparr>)"
    and "idle (snd (store_instance w nis s))"
proof -
  let ?d = "(db s)\<lparr>flow_rows := flow_rows (db s) @ [stored_flow s u w]\<rparr>"
  let ?s = "s\<lparr>db := ?d\<rparr>"
  have ins: "flow_insert w s = (Inr (), ?s)"
    using assms(2,3) by (simp add: flow_insert_def repo_user_def stored_flow_def)
  let ?q = "map (InsertNode \<circ> node_row_from) nis"
  have run: "run_stmts exec_stmt ?q ?d = Some (append_nodes nis ?d)"
    using assms(4,5) by (intro run_inserts) auto
  have q: "statements (fold push_stmt ?q ?s) = ?q" "db (fold push_stmt ?q ?s) = ?d"
    using assms(1) by (simp_all add: orm.queued_pushes orm.committed_pushes idle_def)
  have ok: "repo_ok (fold push_stmt ?q ?s)" by (rule orm.ok_pushes) (use assms(1) in \<open>simp add: repo_ok_def idle_def\<close>)
  have save: "db (snd (save_changed (fold push_stmt ?q ?s))) = append_nodes nis ?d"
    "statements (snd (save_changed (fold push_stmt ?q ?s))) = []"
    "\<exists>b. fst (save_changed (fold push_stmt ?q ?s)) = Inr b"
    using orm.committed_save [OF ok] orm.queued_save [OF ok] orm.save_fails [OF ok] run q
    by (auto, metis obj_sumE)
  obtain b v where v: "save_changed (fold push_stmt ?q ?s) = (Inr b, v)" using save(3) by (metis prod.collapse)
  have r: "store_instance w nis s = (Inr (wi_id w), v)"
    by (simp add: store_instance_def svc_simps ins node_insert_loop v)
  show "fst (store_instance w nis s) = Inr (wi_id w)" using r by simp
  show d: "db (snd (store_instance w nis s)) = append_nodes nis ?d" using r v save by simp
  have "distinct (map nr_id (node_rows (append_nodes nis ?d)))"
    using assms(1,4,5) by (auto simp: append_nodes_def idle_def keys_ok_def comp_def)
  moreover have "distinct (map fr_id (flow_rows (append_nodes nis ?d)))"
    using assms(1,3) by (auto simp: append_nodes_def idle_def keys_ok_def stored_flow_def flow_row_from_def)
  ultimately show "idle (snd (store_instance w nis s))"
    using r v save d by (simp add: idle_def keys_ok_def)
qed

section \<open>A submission\<close>

text \<open>The ids drawn from one state to another are distinct, and no id of the database.\<close>

definition fresh_draws :: "env \<Rightarrow> kstate \<Rightarrow> kstate \<Rightarrow> bool" where
  "fresh_draws ev s t \<longleftrightarrow> distinct (map (uuid_gen ev) [drawn s..<drawn t]) \<and>
     (\<forall>k \<in> set [drawn s..<drawn t].
        uuid_gen ev k \<notin> fr_id ` set (flow_rows (db s)) \<union> nr_id ` set (node_rows (db s)))"

lemma draft_get_by_id_state: "snd (draft_get_by_id i s) = s"
  by (auto simp: draft_get_by_id_def split: sum.splits)

lemma workflow_instance_fromD:
  assumes "workflow_instance_from ho gen d l = (w, k)"
  shows "wi_id w = gen d" "wi_status w = FCreated" "d < k"
    and "workflow_instance_spec_from ho gen (Suc d) (wd_spec l) = (wi_spec w, k)"
    and "node_specs_from gen (Suc d) (node_drafts (wd_spec l)) = (node_specs (wi_spec w), k)"
proof -
  obtain sp k' where sp: "workflow_instance_spec_from ho gen (Suc d) (wd_spec l) = (sp, k')" by fastforce
  then have ns: "node_specs_from gen (Suc d) (node_drafts (wd_spec l)) = (node_specs sp, k')"
    by (auto simp: workflow_instance_spec_from_def Let_def split: prod.splits)
  with node_specs_from_ids [OF ns] sp assms show "wi_id w = gen d" "wi_status w = FCreated" "d < k"
    "workflow_instance_spec_from ho gen (Suc d) (wd_spec l) = (wi_spec w, k)"
    "node_specs_from gen (Suc d) (node_drafts (wd_spec l)) = (node_specs (wi_spec w), k)"
    by (auto simp: workflow_instance_from_def)
qed

lemma distinct_partition:
  "distinct (map f (filter P xs)) \<Longrightarrow> distinct (map f (filter (\<lambda>x. \<not> P x) xs)) \<Longrightarrow>
   f ` set (filter P xs) \<inter> f ` set (filter (\<lambda>x. \<not> P x) xs) = {} \<Longrightarrow> distinct (map f xs)"
  by (induction xs) (auto split: if_splits)

lemma parsed_ids:
  assumes w: "workflow_instance_from ho gen d l = (w, k)" and inj: "distinct (map gen [d..<k'])"
    and p: "parse_node_instances fuel oc gen k w = Some (Inr (nis, k'))"
  shows "distinct (map ni_id nis)" "ni_id ` set nis \<subseteq> gen ` {Suc d..<k'}"
proof -
  note wf = workflow_instance_fromD [OF w]
  note pn = parse_nodes_roots [OF p [unfolded parse_node_instances_def]]
  have split: "[d..<k'] = d # [Suc d..<k] @ [k..<k']"
    using pn wf(3) upt_split [of "Suc d" k k'] by (simp add: upt_conv_Cons)
  let ?P = "\<lambda>n. batch_parent_id n = None"
  have roots: "map ni_id (filter ?P nis) = map ns_id (node_specs (wi_spec w))"
    using pn by (simp add: roots_of_def comp_def)
  have subs: "map ni_id (filter (\<lambda>n. \<not> ?P n) nis) = map gen [k..<k']" using pn by simp
  have rset: "set (map ns_id (node_specs (wi_spec w))) \<subseteq> gen ` {Suc d..<k}"
    by (rule node_specs_from_ns_ids [OF wf(5)])
  have r1: "ni_id ` set (filter ?P nis) \<subseteq> gen ` {Suc d..<k}"
    using roots rset by (metis list.set_map)
  have r2: "ni_id ` set (filter (\<lambda>n. \<not> ?P n) nis) = gen ` {k..<k'}"
    using subs by (metis list.set_map set_upt)
  show "distinct (map ni_id nis)"
  proof (rule distinct_partition [of _ ?P])
    show "distinct (map ni_id (filter ?P nis))"
      using roots node_specs_from_distinct(1) [OF wf(5)] inj unfolding split by simp
    show "distinct (map ni_id (filter (\<lambda>n. \<not> ?P n) nis))"
      using subs inj unfolding split by simp
    show "ni_id ` set (filter ?P nis) \<inter> ni_id ` set (filter (\<lambda>n. \<not> ?P n) nis) = {}"
    proof -
      have "gen ` {Suc d..<k} \<inter> gen ` {k..<k'} = {}" using inj unfolding split by simp
      with r1 r2 show ?thesis by blast
    qed
  qed
  have "set nis = set (filter ?P nis) \<union> set (filter (\<lambda>n. \<not> ?P n) nis)" by auto
  then have "ni_id ` set nis = ni_id ` set (filter ?P nis) \<union> ni_id ` set (filter (\<lambda>n. \<not> ?P n) nis)"
    by (metis image_Un)
  moreover have "ni_id ` set (filter ?P nis) \<subseteq> gen ` {Suc d..<k'}"
  proof (rule subset_trans [OF r1])
    have "k \<le> k'" using pn by blast
    then show "gen ` {Suc d..<k} \<subseteq> gen ` {Suc d..<k'}" by (intro image_mono) simp
  qed
  moreover have "ni_id ` set (filter (\<lambda>n. \<not> ?P n) nis) \<subseteq> gen ` {Suc d..<k'}"
    unfolding r2 using wf(3) by (intro image_mono) simp
  ultimately show "ni_id ` set nis \<subseteq> gen ` {Suc d..<k'}" by simp
qed

lemma disjoint_sub: "A \<subseteq> B \<Longrightarrow> B \<inter> C = {} \<Longrightarrow> A \<inter> C = {}"
  by blast

lemma store_instance_drawn: "drawn (snd (store_instance w nis s)) = drawn s"
proof -
  have "keeps (\<lambda>u. drawn u = drawn s) (store_instance w nis)"
    unfolding store_instance_def
    by (intro keeps_sthen keeps_sfor keeps_sret)
      (auto simp: keeps_def flow_insert_def node_insert_def smodify_def push_stmt_def save_changed_def
        split: sum.splits option.splits)
  then show ?thesis by (simp add: keeps_def)
qed

lemma submit_workflow_cases:
  assumes "idle s" "fresh_draws ev s t" "submit_workflow fuel ev i s = Some (r, t)"
  obtains (refused) e where "r = Inl e" "db t = db s"
  | (stored) l u w k nis k' where
      "draft_get_by_id i s = (Inr l, s)" "repo_user_id s = Some u"
      "validate_workflow_draft (meta_exists (db s)) (wd_spec l) = Inr ()"
      "workflow_instance_from (key_order ev) (uuid_gen ev) (drawn s) l = (w, k)"
      "parse_node_instances fuel (overflow_checks ev) (uuid_gen ev) k w = Some (Inr (nis, k'))"
      "r = Inr (wi_id w)" "idle t"
      "db t = append_nodes nis ((db s)\<lparr>flow_rows := flow_rows (db s) @ [stored_flow s u w]\<rparr>)"
proof (cases "fst (draft_get_by_id i s)")
  case (Inl e)
  then have "draft_get_by_id i s = (Inl e, s)" using draft_get_by_id_state [of i s] by (metis prod.collapse)
  with assms(3) refused [of e] show ?thesis by (auto simp: submit_workflow_def)
next
  case (Inr l)
  then have l: "draft_get_by_id i s = (Inr l, s)" using draft_get_by_id_state [of i s] by (metis prod.collapse)
  then obtain u where u: "repo_user_id s = Some u"
    by (auto simp: draft_get_by_id_def repo_user_def ok_or_def split: sum.splits option.splits)
  show ?thesis
  proof (cases "validate_workflow_draft (meta_exists (db s)) (wd_spec l)")
    case (Inl e)
    with assms(3) l refused [of e] show ?thesis by (auto simp: submit_workflow_def)
  next
    case v: (Inr x)
    obtain w k where w: "workflow_instance_from (key_order ev) (uuid_gen ev) (drawn s) l = (w, k)" by fastforce
    show ?thesis
    proof (cases "parse_node_instances fuel (overflow_checks ev) (uuid_gen ev) k w")
      case None
      with assms(3) l v w show ?thesis by (simp add: submit_workflow_def)
    next
      case (Some p)
      show ?thesis
      proof (cases p)
        case (Inl e)
        with assms(3) l v w Some refused [of e] show ?thesis by (auto simp: submit_workflow_def)
      next
        case (Inr q)
        obtain nis k' where q: "q = (nis, k')" by (cases q)
        let ?s = "s\<lparr>drawn := k'\<rparr>"
        have p: "parse_node_instances fuel (overflow_checks ev) (uuid_gen ev) k w = Some (Inr (nis, k'))"
          using Some Inr q by simp
        have rt: "store_instance w nis ?s = (r, t)"
          using assms(3) l v w Some Inr q by (simp add: submit_workflow_def)
        have k': "drawn t = k'" using store_instance_drawn [of w nis ?s] rt by simp
        have inj: "distinct (map (uuid_gen ev) [drawn s..<k'])"
          using assms(2) k' by (simp add: fresh_draws_def)
        have new: "uuid_gen ev j \<notin> fr_id ` set (flow_rows (db s))" "uuid_gen ev j \<notin> nr_id ` set (node_rows (db s))"
          if "drawn s \<le> j" "j < k'" for j
        proof -
          have "j \<in> set [drawn s..<drawn t]" using that k' by simp
          with assms(2) have "uuid_gen ev j \<notin> fr_id ` set (flow_rows (db s)) \<union> nr_id ` set (node_rows (db s))"
            unfolding fresh_draws_def by blast
          then show "uuid_gen ev j \<notin> fr_id ` set (flow_rows (db s))" "uuid_gen ev j \<notin> nr_id ` set (node_rows (db s))"
            by blast+
        qed
        note ids = parsed_ids [OF w inj p]
        have "drawn s < k'"
          using workflow_instance_fromD(3) [OF w] parse_nodes_roots [OF p [unfolded parse_node_instances_def]] by linarith
        then have 1: "wi_id w \<notin> fr_id ` set (flow_rows (db ?s))"
          using new(1) workflow_instance_fromD(1) [OF w] by simp
        have D: "uuid_gen ev ` {Suc (drawn s)..<k'} \<inter> nr_id ` set (node_rows (db s)) = {}"
        proof (rule equals0I)
          fix x assume x: "x \<in> uuid_gen ev ` {Suc (drawn s)..<k'} \<inter> nr_id ` set (node_rows (db s))"
          from IntD1 [OF x] obtain j where j: "j \<in> {Suc (drawn s)..<k'}" "x = uuid_gen ev j" by blast
          have "drawn s \<le> j" "j < k'" using j(1) by simp_all
          from new(2) [OF this] IntD2 [OF x] show False unfolding j(2) by (rule notE)
        qed
        have "ni_id ` set nis \<inter> nr_id ` set (node_rows (db s)) = {}" by (rule disjoint_sub [OF ids(2) D])
        then have 2: "ni_id ` set nis \<inter> nr_id ` set (node_rows (db ?s)) = {}" by simp
        have 3: "idle ?s" "repo_user_id ?s = Some u" using assms(1) u by (simp_all add: idle_def)
        note st = store_instance_ok [OF 3 1 ids(1) 2]
        have "stored_flow ?s u w = stored_flow s u w" by (simp add: stored_flow_def)
        with st rt have "r = Inr (wi_id w)" "idle t"
          "db t = append_nodes nis ((db s)\<lparr>flow_rows := flow_rows (db s) @ [stored_flow s u w]\<rparr>)"
          by simp_all
        with stored [OF l u _ w p] v show ?thesis by simp
      qed
    qed
  qed
qed

text \<open>An acyclic draft gives an acyclic instance, so counting its sub-tasks ends.\<close>

definition draft_ranked :: "(uuid \<Rightarrow> nat) \<Rightarrow> workflow_draft_spec \<Rightarrow> bool" where
  "draft_ranked rank ds \<longleftrightarrow> distinct (map external_id (node_drafts ds)) \<and>
     (\<forall>r \<in> set (ds_node_relations ds). rank (from_id r) < rank (to_id r))"

definition instance_rank ::
  "(uuid \<Rightarrow> nat) \<Rightarrow> workflow_draft_spec \<Rightarrow> workflow_instance_spec \<Rightarrow> uuid \<Rightarrow> nat" where
  "instance_rank rank ds sp j =
     (case find (\<lambda>p. snd p = j) (zip (map external_id (node_drafts ds)) (map ns_id (node_specs sp))) of
        Some p \<Rightarrow> rank (fst p) | None \<Rightarrow> 0)"

lemma draft_relation_ends:
  assumes "related_ok ds" "r \<in> set (ds_node_relations ds)"
  shows "from_id r \<in> external_id ` set (node_drafts ds)" "to_id r \<in> external_id ` set (node_drafts ds)"
proof -
  from assms have "relation_ok ds r" by (simp add: related_ok_def)
  then obtain a b where "get_node ds (from_id r) = Some a" "get_node ds (to_id r) = Some b"
    by (auto simp: relation_ok_def split: option.splits)
  then have "a \<in> set (node_drafts ds) \<and> external_id a = from_id r" "b \<in> set (node_drafts ds) \<and> external_id b = to_id r"
    by (auto simp: get_node_def dest: find_SomeD)
  then show "from_id r \<in> external_id ` set (node_drafts ds)" "to_id r \<in> external_id ` set (node_drafts ds)"
    by (metis imageI)+
qed

lemma instance_rank_nth:
  assumes "distinct (map ns_id (node_specs sp))" "length (node_specs sp) = length (node_drafts ds)"
    and "i < length (node_drafts ds)"
  shows "instance_rank rank ds sp (ns_id (node_specs sp ! i)) = rank (external_id (node_drafts ds ! i))"
proof -
  let ?z = "zip (map external_id (node_drafts ds)) (map ns_id (node_specs sp))"
  have "map snd ?z = map ns_id (node_specs sp)" using assms(2) by simp
  moreover have "(external_id (node_drafts ds ! i), ns_id (node_specs sp ! i)) \<in> set ?z"
    using assms(2,3) by (auto simp: in_set_zip intro!: exI [of _ i])
  ultimately have "find (\<lambda>p. snd p = ns_id (node_specs sp ! i)) ?z =
      Some (external_id (node_drafts ds ! i), ns_id (node_specs sp ! i))"
    using find_distinct_key [of snd ?z "(external_id (node_drafts ds ! i), ns_id (node_specs sp ! i))"] assms(1)
    by simp
  then show ?thesis by (simp add: instance_rank_def)
qed

lemma spec_from_relation_nth:
  assumes run: "workflow_instance_spec_from ho gen k ds = (sp, k')" and ho: "permutes_keys ho" and inj: "distinct (map gen [k..<k'])"
    and fresh: "external_id ` set (node_drafts ds) \<inter> gen ` {k..<k'} = {}"
    and dist: "distinct (map external_id (node_drafts ds))"
    and j: "j < length (ds_node_relations ds)" and a: "a < length (node_drafts ds)" and b: "b < length (node_drafts ds)"
    and ends: "from_id (ds_node_relations ds ! j) = external_id (node_drafts ds ! a)"
      "to_id (ds_node_relations ds ! j) = external_id (node_drafts ds ! b)"
  shows "node_relations sp ! j = (ds_node_relations ds ! j)
      \<lparr>from_id := ns_id (node_specs sp ! a), to_id := ns_id (node_specs sp ! b)\<rparr>"
proof -
  note sf = spec_from_relations [OF run ho fresh]
  have len: "length (node_specs sp) = length (node_drafts ds)" using node_specs_from_ids [OF sf(2)] by simp
  let ?z = "zip (map external_id (node_drafts ds)) (map ns_id (node_specs sp))"
  have "rename (rev ?z) (map external_id (node_drafts ds) ! i) = map ns_id (node_specs sp) ! i"
    if "i < length (node_drafts ds)" for i
    by (rule rename_zip) (use that len dist in auto)
  then show ?thesis using j a b ends len by (simp add: sf(1))
qed

lemma instance_ranked:
  assumes run: "workflow_instance_spec_from ho gen k ds = (sp, k')" and ho: "permutes_keys ho" and inj: "distinct (map gen [k..<k'])"
    and fresh: "external_id ` set (node_drafts ds) \<inter> gen ` {k..<k'} = {}"
    and rank: "draft_ranked rank ds" and rel: "related_ok ds" and sp: "wi_spec w = sp"
  shows "ranked (instance_rank rank ds sp) w"
    and "ns \<in> set (node_specs sp) \<Longrightarrow> \<exists>nd \<in> set (node_drafts ds). instance_rank rank ds sp (ns_id ns) = rank (external_id nd)"
proof -
  note sf = spec_from_relations [OF run ho fresh]
  have len: "length (node_specs sp) = length (node_drafts ds)" using node_specs_from_ids [OF sf(2)] by simp
  have d: "distinct (map ns_id (node_specs sp))" by (rule node_specs_from_distinct(1) [OF sf(2) inj])
  have dist: "distinct (map external_id (node_drafts ds))" using rank by (simp add: draft_ranked_def)
  have lenr: "length (node_relations sp) = length (ds_node_relations ds)" by (simp add: sf(1))
  show "ranked (instance_rank rank ds sp) w"
    unfolding ranked_def sp
  proof
    fix r assume "r \<in> set (node_relations sp)"
    then obtain j where j: "j < length (ds_node_relations ds)" "r = node_relations sp ! j"
      by (metis in_set_conv_nth lenr)
    have rj: "ds_node_relations ds ! j \<in> set (ds_node_relations ds)" using j by simp
    note ends = draft_relation_ends [OF rel rj]
    from ends(1) obtain a where
      a: "a < length (node_drafts ds)" "from_id (ds_node_relations ds ! j) = external_id (node_drafts ds ! a)"
      by (auto simp: in_set_conv_nth)
    from ends(2) obtain b where
      b: "b < length (node_drafts ds)" "to_id (ds_node_relations ds ! j) = external_id (node_drafts ds ! b)"
      by (auto simp: in_set_conv_nth)
    have "rank (external_id (node_drafts ds ! a)) < rank (external_id (node_drafts ds ! b))"
      using rank rj a b by (auto simp: draft_ranked_def)
    then show "instance_rank rank ds sp (from_id r) < instance_rank rank ds sp (to_id r)"
      using spec_from_relation_nth [OF run ho inj fresh dist j(1) a(1) b(1) a(2) b(2)] j(2)
        instance_rank_nth [OF d len a(1)] instance_rank_nth [OF d len b(1)] by simp
  qed
  show "\<exists>nd \<in> set (node_drafts ds). instance_rank rank ds sp (ns_id ns) = rank (external_id nd)"
    if "ns \<in> set (node_specs sp)"
  proof -
    from that obtain a where "a < length (node_drafts ds)" "ns = node_specs sp ! a"
      by (metis in_set_conv_nth len)
    with instance_rank_nth [OF d len this(1)] show ?thesis by (metis nth_mem)
  qed
qed

section \<open>The first scheduling\<close>

definition standby_row :: "node_instance \<Rightarrow> node_row" where
  "standby_row n = node_row_from (n\<lparr>ni_status := Standby\<rparr>)"

lemma standby_updates_loop:
  "sfor ns (\<lambda>el. node_update (el\<lparr>ni_status := Standby\<rparr>)) s =
     (Inr (), fold push_stmt (map (UpdateNode \<circ> standby_row) ns) s)"
  by (induction ns arbitrary: s) (auto simp: svc_simps node_update_def standby_row_def)

lemma fold_push_db: "db (fold push_stmt us s) = db s"
  by (rule orm.committed_pushes)

lemma fold_push_statements: "statements (fold push_stmt us s) = statements s @ us"
  by (rule orm.queued_pushes)

lemma fold_push_repo_ok: "repo_ok s \<Longrightarrow> repo_ok (fold push_stmt us s)"
  by (rule orm.ok_pushes)

definition standby_stmt :: "stmt \<Rightarrow> bool" where
  "standby_stmt u \<longleftrightarrow> (\<exists>n. u = UpdateNode (standby_row n))"

lemma set_standby_run:
  "(\<exists>e. set_standby ns s = (Inl e, snd (set_standby ns s))) \<or>
   (\<exists>us. set_standby ns s = (Inr (), fold push_stmt us s) \<and> (\<forall>u \<in> set us. standby_stmt u) \<and>
      Some (ns_id ns) \<in> node_target ` set us)"
proof (cases "node_by_id (ns_id ns) (db s)")
  case (Inl e)
  then show ?thesis by (simp add: set_standby_def svc_simps node_get_by_id_def)
next
  case (Inr n)
  then have id: "ni_id n = ns_id ns" by (auto simp: node_by_id_iff dest!: find_node_rowD node_from_rowD)
  let ?u = "UpdateNode (standby_row n)"
  have upd: "node_update (n\<lparr>ni_status := Standby\<rparr>) s = (Inr (), push_stmt ?u s)"
    by (simp add: node_update_def svc_simps standby_row_def)
  have db: "db (push_stmt ?u s) = db s" by (simp add: push_stmt_def)
  have u: "standby_stmt ?u" "node_target ?u = Some (ns_id ns)"
    using id by (auto simp: standby_stmt_def standby_row_def)
  show ?thesis
  proof (cases "batch_strategies ns = []")
    case True
    then have "set_standby ns s = (Inr (), fold push_stmt [?u] s)"
      using Inr upd by (simp add: set_standby_def svc_simps node_get_by_id_def)
    with u show ?thesis by (intro disjI2 exI [of _ "[?u]"]) auto
  next
    case False
    show ?thesis
    proof (cases "nodes_where (\<lambda>r. nr_batch_parent_id r = Some (ns_id ns)) (db s)")
      case (Inl e)
      then have "set_standby ns s = (Inl e, push_stmt ?u s)"
        using \<open>node_by_id (ns_id ns) (db s) = Inr n\<close> False upd db
        by (simp add: set_standby_def svc_simps node_get_by_id_def get_node_sub_node_instances_def)
      then show ?thesis by simp
    next
      case subs: (Inr subs)
      let ?us = "?u # map (UpdateNode \<circ> standby_row) subs"
      have "set_standby ns s = (Inr (), fold push_stmt ?us s)"
        using Inr False upd db subs
        by (simp add: set_standby_def svc_simps node_get_by_id_def get_node_sub_node_instances_def
            standby_updates_loop)
      moreover have "\<forall>x \<in> set ?us. standby_stmt x" using u by (auto simp: standby_stmt_def)
      ultimately show ?thesis using u by (intro disjI2 exI [of _ ?us]) auto
    qed
  qed
qed

lemma set_standby_loop:
  "sfor nss set_standby s = (Inr (), t) \<Longrightarrow>
   \<exists>us. t = fold push_stmt us s \<and> (\<forall>u \<in> set us. standby_stmt u) \<and>
     (\<forall>ns \<in> set nss. Some (ns_id ns) \<in> node_target ` set us)"
proof (induction nss arbitrary: s)
  case (Cons ns nss)
  from Cons.prems obtain v where v: "set_standby ns s = (Inr (), v)" "sfor nss set_standby v = (Inr (), t)"
    by (auto simp: sthen_Inr_iff)
  from set_standby_run [of ns s] v(1) obtain us where us: "v = fold push_stmt us s"
    "\<forall>u \<in> set us. standby_stmt u" "Some (ns_id ns) \<in> node_target ` set us"
    by auto
  from Cons.IH [OF v(2)] obtain vs where "t = fold push_stmt vs v" "\<forall>u \<in> set vs. standby_stmt u"
    "\<forall>ns \<in> set nss. Some (ns_id ns) \<in> node_target ` set vs" by blast
  with us show ?case by (intro exI [of _ "us @ vs"]) auto
qed (auto simp: svc_simps intro: exI [of _ "[]"])

lemma status_at_standby:
  assumes "keys_ok d" "\<forall>u \<in> set us. standby_stmt u"
  shows "status_at j (updates us d) = (if Some j \<in> node_target ` set us
    then map_option (\<lambda>_. status_code Standby) (status_at j d) else status_at j d)"
  by (rule status_at_updates [OF assms(1)])
    (use assms(2) in \<open>auto simp: standby_stmt_def standby_row_def node_row_from_def\<close>)

lemma flow_rows_standby:
  assumes "\<forall>u \<in> set us. standby_stmt u"
  shows "flow_rows (updates us d) = flow_rows d"
  using assms unfolding updates_def
  by (induction us arbitrary: d) (auto simp: standby_stmt_def)

lemma flow_save:
  assumes "idle s"
  shows "sthen (flow_update w) save_changed s =
    (Inr True, s\<lparr>db := updates [flow_stmt w] (db s), statements := [], can_drop := True\<rparr>)"
  using assms
  by (simp add: svc_simps flow_update_def push_stmt_def save_changed_def idle_def flow_stmt_def updates_def)

lemma lift_then_retD:
  fixes m :: "'a \<Rightarrow> ('s, 'e, unit) svc"
  shows "sbind (slift r) (\<lambda>x. sthen (m x) (sret (g x))) s = (Inr y, t) \<Longrightarrow>
    \<exists>x. r = Inr x \<and> y = g x \<and> m x s = (Inr (), t)"
  by (auto simp: sbind_Inr_iff sthen_Inr_iff run_simps)

text \<open>The run of \<open>first_entries\<close>: the flow is saved as running, the standby nodes are queued.\<close>

lemma first_entriesD:
  assumes "first_entries ev i s = (Inr (w, es), t)" "idle s"
  obtains w0 us where "flow_by_id i (db s) = Inr w0" "w = w0\<lparr>wi_status := FRunning\<rparr>"
    "find_entry_nodes_ids (overflow_checks ev) (key_order ev) (map ns_id (node_specs (wi_spec w0)))
       (dependencies (node_relations (wi_spec w0))) = Inr es"
    "db t = updates [flow_stmt w] (db s)" "statements t = us" "repo_ok t" "\<forall>u \<in> set us. standby_stmt u"
    "\<forall>ns \<in> set (node_specs (wi_spec w0)). ns_id ns \<notin> set es \<longrightarrow> Some (ns_id ns) \<in> node_target ` set us"
proof (cases "flow_by_id i (db s)")
  case (Inl e)
  with assms(1) show ?thesis by (simp add: first_entries_def svc_simps flow_get_by_id_def)
next
  case (Inr w0)
  let ?w = "w0\<lparr>wi_status := FRunning\<rparr>"
  let ?s = "s\<lparr>db := updates [flow_stmt ?w] (db s), statements := [], can_drop := True\<rparr>"
  let ?f = "find_entry_nodes_ids (overflow_checks ev) (key_order ev) (map ns_id (node_specs (wi_spec w0)))
       (dependencies (node_relations (wi_spec w0)))"
  let ?k = "sbind (slift ?f) (\<lambda>entry_ids.
      sthen (sfor (filter (\<lambda>ns. ns_id ns \<notin> set entry_ids) (node_specs (wi_spec w0))) set_standby)
      (sret (?w, entry_ids)))"
  have "first_entries ev i s = sthen (flow_update ?w) (sthen save_changed ?k) s"
    using Inr by (simp add: first_entries_def sbind_run flow_get_by_id_def read_db_run Let_def)
  also have "\<dots> = sthen (sthen (flow_update ?w) save_changed) ?k s"
    by (simp add: sthen_def sbind_assoc)
  also have "\<dots> = ?k ?s"
    by (subst sthen_run) (simp only: flow_save [OF assms(2)] prod.case sum.case)
  finally have run: "?k ?s = (Inr (w, es), t)" using assms(1) by simp
  from lift_then_retD [OF run] obtain es' where es': "?f = Inr es'" "(w, es) = (?w, es')"
    and loop': "sfor (filter (\<lambda>ns. ns_id ns \<notin> set es') (node_specs (wi_spec w0))) set_standby ?s = (Inr (), t)"
    by blast
  have e: "es' = es" and w: "w = ?w" using es'(2) by (simp_all only: prod.inject)
  note f = es'(1) [unfolded e] and loop = loop' [unfolded e]
  from set_standby_loop [OF loop] obtain us where us: "t = fold push_stmt us ?s" "\<forall>u \<in> set us. standby_stmt u"
    "\<forall>ns \<in> set (filter (\<lambda>ns. ns_id ns \<notin> set es) (node_specs (wi_spec w0))). Some (ns_id ns) \<in> node_target ` set us"
    by blast
  have ok: "repo_ok t" unfolding us(1) by (rule fold_push_repo_ok) (simp add: repo_ok_def)
  have db: "db t = updates [flow_stmt w] (db s)" "statements t = us"
    unfolding us(1) w by (simp_all add: fold_push_db fold_push_statements)
  show thesis
    by (rule that [OF Inr w f db ok us(2)]) (use us(3) in auto)
qed

section \<open>What the first scheduling does\<close>

text \<open>The nodes that have a predecessor, by the relations of the instance.\<close>

definition has_pred :: "workflow_instance_spec \<Rightarrow> uuid \<Rightarrow> bool" where
  "has_pred sp i \<longleftrightarrow> (\<exists>r \<in> set (node_relations sp). to_id r = i)"

definition roots_only :: "database \<Rightarrow> workflow_instance_spec \<Rightarrow> bool" where
  "roots_only d sp \<longleftrightarrow>
     (\<forall>ns \<in> set (node_specs sp). \<forall>r. find_node_row (ns_id ns) d = Some r \<longrightarrow> nr_batch_parent_id r = None)"

definition few_relations :: "workflow_instance_spec \<Rightarrow> bool" where
  "few_relations sp \<longleftrightarrow> int (length (node_relations sp)) < 2 ^ 31"

lemma first_entry_ids:
  assumes "permutes_keys (key_order ev)" "few_relations sp"
    and "find_entry_nodes_ids (overflow_checks ev) (key_order ev) (map ns_id (node_specs sp))
       (dependencies (node_relations sp)) = Inr es"
  shows "set es = {i \<in> ns_id ` set (node_specs sp). \<not> has_pred sp i}"
proof -
  have "int (length (dependencies (node_relations sp))) < 2 ^ 31"
    using assms(2) by (simp add: dependencies_def few_relations_def)
  from find_entry_nodes [OF assms(1) this] assms(3) have
    "set es = set (map ns_id (node_specs sp)) - snd ` set (dependencies (node_relations sp))"
    by (metis sum.inject(2))
  moreover have "snd ` set (dependencies (node_relations sp)) = to_id ` set (node_relations sp)"
    by (simp add: dependencies_def image_image)
  moreover have "has_pred sp j \<longleftrightarrow> j \<in> to_id ` set (node_relations sp)" for j
    by (auto simp: has_pred_def)
  ultimately show ?thesis by auto
qed

lemma flow_by_id_one:
  assumes "keys_ok d" "flow_by_id i d = Inr w"
  shows "flow_by_id i (updates [flow_stmt (w\<lparr>wi_status := st\<rparr>)] d) = Inr (w\<lparr>wi_status := st\<rparr>)"
proof -
  have w: "wi_id w = i" using assms(2) by (auto simp: flow_by_id_iff dest!: find_flow_rowD flow_from_rowD)
  have "flow_by_id i (updates [flow_stmt (w\<lparr>wi_status := st, wi_spec := wi_spec w\<rparr>)] d) =
      Inr (if i = wi_id w then w\<lparr>wi_status := st, wi_spec := wi_spec w\<rparr> else w)"
    by (rule flow_by_id_updates [OF assms(1)]) (use assms w in \<open>auto simp: flow_stmt_def\<close>)
  with w show ?thesis by simp
qed

lemma finish_flow_run:
  assumes "repo_ok s" "\<forall>u \<in> set (statements s). is_update u"
  shows "finish_flow w s = (Inr (), s\<lparr>db := updates (statements s @ [flow_stmt (w\<lparr>wi_status := FFinished\<rparr>)]) (db s),
    statements := [], can_drop := True\<rparr>)"
proof -
  let ?s = "push_stmt (flow_stmt (w\<lparr>wi_status := FFinished\<rparr>)) s"
  have "run_stmts exec_stmt (statements ?s) (db ?s) = Some (updates (statements ?s) (db ?s))"
    by (rule run_updates) (use assms(2) in \<open>auto simp: push_stmt_def flow_stmt_def\<close>)
  then show ?thesis
    by (simp add: finish_flow_def svc_simps flow_update_def save_changed_def push_stmt_def)
qed

lemma standby_is_update: "\<forall>u \<in> set us. standby_stmt u \<Longrightarrow> \<forall>u \<in> set us. is_update u"
  by (auto simp: standby_stmt_def)

lemma status_at_flow: "keys_ok d \<Longrightarrow> status_at j (updates [flow_stmt w] d) = status_at j d"
  by (subst status_at_updates) (auto simp: flow_stmt_def)

lemma flow_by_id_rows: "flow_rows d = flow_rows d' \<Longrightarrow> flow_by_id i d = flow_by_id i d'"
  by (simp add: flow_by_id_def find_flow_row_def)

lemma flow_from_row_update:
  "flow_from_row r = Inr w \<Longrightarrow>
   flow_from_row (r\<lparr>fr_spec := sp, fr_status := flow_status_code st\<rparr>) = Inr (w\<lparr>wi_spec := sp, wi_status := st\<rparr>)"
  by (auto simp: flow_from_row_def rbind_Inr_iff ok_or_Inr_iff)

lemma flow_eff_self:
  assumes "flow_from_row r = Inr w"
  shows "flow_from_row (flow_eff (flow_stmt (w\<lparr>wi_spec := sp\<rparr>)) r) = Inr (w\<lparr>wi_spec := sp\<rparr>)"
  using flow_from_row_update [OF assms, where sp = sp and st = "wi_status w"] flow_from_rowD [OF assms]
  by (simp add: flow_stmt_def)

context usecase_sender
begin

lemma first_schedule_effect:
  assumes run: "schedule_next_nodes ev send (WorkflowInstanceId i) s = (Inr (), t)"
    and "idle s" "permutes_keys (key_order ev)" "flow_by_id i (db s) = Inr w"
    and "few_relations (wi_spec w)" "roots_only (db s) (wi_spec w)"
  shows "\<And>ns. ns \<in> set (node_specs (wi_spec w)) \<Longrightarrow> status_at (ns_id ns) (db s) \<noteq> None \<Longrightarrow>
      status_at (ns_id ns) (db t) =
        Some (status_code (if has_pred (wi_spec w) (ns_id ns) then Standby else Running))"
    and "(\<exists>v. flow_by_id i (db t) = Inr v \<and>
      wi_status v = (if \<exists>ns \<in> set (node_specs (wi_spec w)). \<not> has_pred (wi_spec w) (ns_id ns)
                     then FRunning else FFinished) \<and>
      map ns_id (node_specs (wi_spec v)) = map ns_id (node_specs (wi_spec w)) \<and>
      node_relations (wi_spec v) = node_relations (wi_spec w))"
    and "idle t"
proof -
  have keys: "keys_ok (db s)" using assms(2) by (simp add: idle_def)
  have wid: "wi_id w = i" using assms(4) by (auto simp: flow_by_id_iff dest!: find_flow_rowD flow_from_rowD)
  from run obtain w1 es u where e: "first_entries ev i s = (Inr (w1, es), u)"
    and cont: "(if es = [] then finish_flow w1 else start_entries ev send w1 es) u = (Inr (), t)"
    by (auto simp: schedule_next_nodes_def sbind_Inr_iff)
  obtain w0 us where w0: "flow_by_id i (db s) = Inr w0" "w1 = w0\<lparr>wi_status := FRunning\<rparr>"
    and f0: "find_entry_nodes_ids (overflow_checks ev) (key_order ev) (map ns_id (node_specs (wi_spec w0)))
       (dependencies (node_relations (wi_spec w0))) = Inr es"
    and u: "db u = updates [flow_stmt w1] (db s)" "statements u = us" "repo_ok u" "\<forall>x \<in> set us. standby_stmt x"
    and tgt0: "\<forall>ns \<in> set (node_specs (wi_spec w0)). ns_id ns \<notin> set es \<longrightarrow> Some (ns_id ns) \<in> node_target ` set us"
    by (rule first_entriesD [OF e assms(2)]) (rule that; assumption)
  have ww: "w0 = w" using w0(1) assms(4) by simp
  note w1 = w0(2) [unfolded ww] and f = f0 [unfolded ww] and tgt = tgt0 [unfolded ww]
  have es: "set es = {i \<in> ns_id ` set (node_specs (wi_spec w)). \<not> has_pred (wi_spec w) i}"
    by (rule first_entry_ids [OF assms(3,5) f])
  have ku: "keys_ok (db u)" using keys u(1) by (simp add: keys_ok_updates)
  have su: "status_at j (db u) = status_at j (db s)" for j
    using u(1) keys by (simp add: status_at_flow)
  have stand: "status_at j (updates us (db u)) = (if Some j \<in> node_target ` set us
      then map_option (\<lambda>_. status_code Standby) (status_at j (db s)) else status_at j (db s))" for j
    using status_at_standby [OF ku u(4), of j] su by simp
  have flow_us: "flow_rows (updates us (db u)) = flow_rows (db u)" by (rule flow_rows_standby [OF u(4)])
  have fu: "flow_by_id i (updates us (db u)) = Inr w1"
    using flow_by_id_rows [OF flow_us, of i] flow_by_id_one [OF keys assms(4), of FRunning] u(1) w1 by simp
  have kus: "keys_ok (updates us (db u))" by (rule keys_ok_updates [OF ku])
  have "(\<forall>ns \<in> set (node_specs (wi_spec w)). status_at (ns_id ns) (db s) \<noteq> None \<longrightarrow>
      status_at (ns_id ns) (db t) = Some (status_code (if has_pred (wi_spec w) (ns_id ns) then Standby else Running))) \<and>
    (\<exists>v. flow_by_id i (db t) = Inr v \<and>
      wi_status v = (if es \<noteq> [] then FRunning else FFinished) \<and>
      map ns_id (node_specs (wi_spec v)) = map ns_id (node_specs (wi_spec w)) \<and>
      node_relations (wi_spec v) = node_relations (wi_spec w)) \<and> idle t"
  proof (cases "es = []")
    case True
    let ?v = "w1\<lparr>wi_status := FFinished\<rparr>"
    have t: "t = u\<lparr>db := updates (us @ [flow_stmt ?v]) (db u), statements := [], can_drop := True\<rparr>"
      using cont True finish_flow_run [OF u(3), of w1] u(2) standby_is_update [OF u(4)] by simp
    have "status_at j (db t) = status_at j (updates us (db u))" for j
      using t kus by (simp add: updates_append status_at_flow)
    with stand tgt True es have "\<forall>ns \<in> set (node_specs (wi_spec w)). status_at (ns_id ns) (db s) \<noteq> None \<longrightarrow>
      status_at (ns_id ns) (db t) = Some (status_code (if has_pred (wi_spec w) (ns_id ns) then Standby else Running))"
      by fastforce
    moreover have "flow_by_id i (db t) = Inr ?v"
      using t flow_by_id_one [OF kus fu, of FFinished] by (simp add: updates_append)
    moreover have "idle t" using t ku by (simp add: idle_def keys_ok_updates)
    ultimately show ?thesis using True w1 by simp
  next
    case False
    have start: "start_entries ev send w1 es u = (Inr (), t)" using cont False by simp
    have upd: "\<forall>x \<in> set (statements u). is_update x" using standby_is_update [OF u(4)] u(2) by simp
    from start_entries_effect [OF start u(3) ku upd] obtain rs where
      rs: "fst (expand_entries ev w1 es u) = Inr rs" and it: "idle t"
      and st: "\<And>j. status_at j (db t) = (if j \<in> ns_id ` set (concat (map snd rs)) then Some (status_code Running)
        else status_at j (updates us (db u)))"
      and fl: "\<And>j. find_flow_row j (db t) = map_option
        (if j = wi_id w1 then flow_eff (flow_stmt (w1\<lparr>wi_spec := (wi_spec w1)\<lparr>node_specs := map fst rs\<rparr>\<rparr>)) else (\<lambda>x. x))
        (find_flow_row j (updates us (db u)))"
      unfolding u(2) by metis
    obtain u' where eu: "expand_entries ev w1 es u = (Inr rs, u')" using rs by (metis prod.collapse)
    note ids = expand_entries_ids [OF eu]
    have task: "ns_id ns \<in> ns_id ` set (concat (map snd rs)) \<longleftrightarrow> \<not> has_pred (wi_spec w) (ns_id ns)"
      if ns: "ns \<in> set (node_specs (wi_spec w))" for ns
    proof
      assume "ns_id ns \<in> ns_id ` set (concat (map snd rs))"
      then obtain x where x: "x \<in> set (concat (map snd rs))" "ns_id x = ns_id ns" by (metis imageE)
      from ids(3) [OF x(1)] w1 obtain m where m: "m \<in> set (node_specs (wi_spec w))" "ns_id m \<in> set es"
        "ns_id x = ns_id m \<or> (\<exists>r \<in> set (node_rows (db u)). nr_batch_parent_id r = Some (ns_id m) \<and> nr_id r = ns_id x)"
        by auto
      have "node_rows (db u) = node_rows (db s)" using u(1) by (simp add: updates_def flow_stmt_def)
      moreover have False if r: "r \<in> set (node_rows (db s))" "nr_batch_parent_id r = Some (ns_id m)"
        "nr_id r = ns_id ns" for r
        using assms(6) ns r find_node_row_mem [OF keys r(1)] by (simp add: roots_only_def)
      ultimately have "ns_id ns = ns_id m" using m(3) x(2) by auto
      with m(2) es show "\<not> has_pred (wi_spec w) (ns_id ns)" by simp
    next
      assume "\<not> has_pred (wi_spec w) (ns_id ns)"
      with ns es have "ns_id ns \<in> set es" by auto
      with ids(2) [of ns] ns w1 show "ns_id ns \<in> ns_id ` set (concat (map snd rs))" by simp
    qed
    have "\<forall>ns \<in> set (node_specs (wi_spec w)). status_at (ns_id ns) (db s) \<noteq> None \<longrightarrow>
      status_at (ns_id ns) (db t) = Some (status_code (if has_pred (wi_spec w) (ns_id ns) then Standby else Running))"
    proof (intro ballI impI)
      fix ns assume ns: "ns \<in> set (node_specs (wi_spec w))" and some: "status_at (ns_id ns) (db s) \<noteq> None"
      show "status_at (ns_id ns) (db t) = Some (status_code (if has_pred (wi_spec w) (ns_id ns) then Standby else Running))"
      proof (cases "has_pred (wi_spec w) (ns_id ns)")
        case True
        with es have "ns_id ns \<notin> set es" by simp
        with tgt ns have "Some (ns_id ns) \<in> node_target ` set us" by blast
        with st [of "ns_id ns"] task [OF ns] True stand [of "ns_id ns"] some show ?thesis by auto
      next
        case False
        with st [of "ns_id ns"] task [OF ns] show ?thesis by simp
      qed
    qed
    moreover
    let ?sp = "(wi_spec w)\<lparr>node_specs := map fst rs\<rparr>"
    obtain r where r: "find_flow_row i (updates us (db u)) = Some r" "flow_from_row r = Inr w1"
      using fu by (auto simp: flow_by_id_iff)
    have "flow_by_id i (db t) = Inr (w1\<lparr>wi_spec := ?sp\<rparr>)"
    proof -
      have "wi_id w1 = i" using wid w1 by simp
      with fl [of i] r(1) have "find_flow_row i (db t) =
          Some (flow_eff (flow_stmt (w1\<lparr>wi_spec := (wi_spec w1)\<lparr>node_specs := map fst rs\<rparr>\<rparr>)) r)" by simp
      with flow_eff_self [OF r(2)] w1 show ?thesis by (simp add: flow_by_id_def)
    qed
    moreover have "map ns_id (map fst rs) = map ns_id (node_specs (wi_spec w))"
      using ids(1) w1 by (simp add: comp_def)
    ultimately show ?thesis using it w1 False
      by (intro conjI exI [of _ "w1\<lparr>wi_spec := ?sp\<rparr>"]) simp_all
  qed
  moreover have "es \<noteq> [] \<longleftrightarrow> (\<exists>ns \<in> set (node_specs (wi_spec w)). \<not> has_pred (wi_spec w) (ns_id ns))"
  proof
    assume "es \<noteq> []"
    then have "hd es \<in> set es" by simp
    then show "\<exists>ns \<in> set (node_specs (wi_spec w)). \<not> has_pred (wi_spec w) (ns_id ns)"
      unfolding es by auto
  next
    assume "\<exists>ns \<in> set (node_specs (wi_spec w)). \<not> has_pred (wi_spec w) (ns_id ns)"
    then have "set es \<noteq> {}" unfolding es by auto
    then show "es \<noteq> []" by auto
  qed
  ultimately show "\<And>ns. ns \<in> set (node_specs (wi_spec w)) \<Longrightarrow> status_at (ns_id ns) (db s) \<noteq> None \<Longrightarrow>
      status_at (ns_id ns) (db t) =
        Some (status_code (if has_pred (wi_spec w) (ns_id ns) then Standby else Running))"
    and "(\<exists>v. flow_by_id i (db t) = Inr v \<and>
      wi_status v = (if \<exists>ns \<in> set (node_specs (wi_spec w)). \<not> has_pred (wi_spec w) (ns_id ns)
                     then FRunning else FFinished) \<and>
      map ns_id (node_specs (wi_spec v)) = map ns_id (node_specs (wi_spec w)) \<and>
      node_relations (wi_spec v) = node_relations (wi_spec w))"
    and "idle t" by simp_all
qed

end

section \<open>Scheduling after a node\<close>

lemma next_entries_state: "snd (next_entries ev i s) = s"
proof -
  have "keeps (\<lambda>t. t = s) (next_entries ev i)"
    by (auto simp: next_entries_def is_all_same_entryment_nodes_success_def flow_get_by_node_id_def
        node_get_by_id_def flow_get_by_id_def get_all_workflow_instance_stand_by_nodes_def
        intro!: keeps_intro)
  then show ?thesis by (simp add: keeps_def)
qed

text \<open>A relation that neither starts nor ends at the finished node holds its target back.\<close>

definition held_back :: "workflow_instance_spec \<Rightarrow> uuid \<Rightarrow> uuid \<Rightarrow> bool" where
  "held_back sp i j \<longleftrightarrow> (\<exists>r \<in> set (node_relations sp). from_id r \<noteq> i \<and> to_id r \<noteq> i \<and> to_id r = j)"

lemma next_entriesD:
  assumes "next_entries ev i s = (Inr (w, es), t)" "permutes_keys (key_order ev)"
    "few_relations (wi_spec w)"
  shows "t = s" "\<exists>n. node_by_id i (db s) = Inr n \<and> flow_by_id (flow_instance_id n) (db s) = Inr w"
    and "set es = {nr_id r | r. r \<in> set (node_rows (db s)) \<and> nr_flow_instance_id r = wi_id w \<and>
      nr_status r = status_code Standby \<and> \<not> held_back (wi_spec w) i (nr_id r)}"
    and "fst (is_all_same_entryment_nodes_success i s) = Inr True"
proof -
  show "t = s" using next_entries_state [of ev i s] assms(1) by simp
  let ?rels = "filter (\<lambda>el. from_id el \<noteq> i \<and> to_id el \<noteq> i) (node_relations (wi_spec w))"
  from assms(1) obtain n nodes where
    n: "node_by_id i (db s) = Inr n" "flow_by_id (flow_instance_id n) (db s) = Inr w"
    and nodes: "nodes_where (\<lambda>r. nr_flow_instance_id r = wi_id w \<and> nr_status r = status_code Standby) (db s) = Inr nodes"
    and f: "find_entry_nodes_ids (overflow_checks ev) (key_order ev) (map ni_id nodes) (dependencies ?rels) = Inr es"
    and all: "fst (is_all_same_entryment_nodes_success i s) = Inr True"
    by (auto simp: next_entries_def sbind_Inr_iff run_simps flow_get_by_node_id_def node_get_by_id_def
        flow_get_by_id_def get_all_workflow_instance_stand_by_nodes_def
        is_all_same_entryment_nodes_success_def split: if_splits)
  show "\<exists>n. node_by_id i (db s) = Inr n \<and> flow_by_id (flow_instance_id n) (db s) = Inr w" using n by blast
  show "fst (is_all_same_entryment_nodes_success i s) = Inr True" by (rule all)
  have "length (dependencies ?rels) \<le> length (node_relations (wi_spec w))"
    by (simp add: dependencies_def)
  with assms(3) have "int (length (dependencies ?rels)) < 2 ^ 31" by (simp add: few_relations_def)
  from find_entry_nodes [OF assms(2) this, of "overflow_checks ev" "map ni_id nodes"] f
  have es: "set es = ni_id ` set nodes - snd ` set (dependencies ?rels)" by auto
  have "snd ` set (dependencies ?rels) = {j. held_back (wi_spec w) i j}"
    by (force simp: dependencies_def held_back_def)
  moreover have "ni_id ` set nodes = nr_id ` {r \<in> set (node_rows (db s)).
      nr_flow_instance_id r = wi_id w \<and> nr_status r = status_code Standby}"
  proof
    show "ni_id ` set nodes \<subseteq> nr_id ` {r \<in> set (node_rows (db s)).
      nr_flow_instance_id r = wi_id w \<and> nr_status r = status_code Standby}"
      using nodes_where_Inr [OF nodes] by (fastforce dest: node_from_rowD)
    show "nr_id ` {r \<in> set (node_rows (db s)). nr_flow_instance_id r = wi_id w \<and>
      nr_status r = status_code Standby} \<subseteq> ni_id ` set nodes"
    proof
      fix j assume "j \<in> nr_id ` {r \<in> set (node_rows (db s)). nr_flow_instance_id r = wi_id w \<and>
        nr_status r = status_code Standby}"
      then obtain r where r: "r \<in> set (node_rows (db s))" "nr_flow_instance_id r = wi_id w"
        "nr_status r = status_code Standby" "j = nr_id r" by blast
      with nodes_where_complete [OF nodes r(1)] obtain m where "m \<in> set nodes" "node_from_row r = Inr m" by auto
      with node_from_rowD r(4) show "j \<in> ni_id ` set nodes" by (metis imageI)
    qed
  qed
  ultimately show "set es = {nr_id r | r. r \<in> set (node_rows (db s)) \<and> nr_flow_instance_id r = wi_id w \<and>
      nr_status r = status_code Standby \<and> \<not> held_back (wi_spec w) i (nr_id r)}"
    unfolding es by auto
qed

context usecase_sender
begin

lemma next_schedule_effect:
  assumes run: "schedule_next_nodes ev send (NodeInstanceId i) s = (Inr (), t)"
    and "idle s" "permutes_keys (key_order ev)"
    and n: "node_by_id i (db s) = Inr n" and w: "flow_by_id (flow_instance_id n) (db s) = Inr w"
    and few: "few_relations (wi_spec w)" and roots: "roots_only (db s) (wi_spec w)"
    and ns: "ns \<in> set (node_specs (wi_spec w))"
    and r: "find_node_row (ns_id ns) (db s) = Some r" "nr_flow_instance_id r = wi_id w"
      "nr_status r = status_code Standby"
  shows "status_at (ns_id ns) (db t) =
      Some (status_code (if held_back (wi_spec w) i (ns_id ns) then Standby else Running))"
proof -
  have keys: "keys_ok (db s)" using assms(2) by (simp add: idle_def)
  from run obtain w1 es u where e: "next_entries ev i s = (Inr (w1, es), u)"
    and cont: "(if es = [] then finish_flow w1 else start_entries ev send w1 es) u = (Inr (), t)"
    by (auto simp: schedule_next_nodes_def sbind_Inr_iff)
  have u: "u = s" using next_entries_state [of ev i s] e by simp
  have "w1 = w"
  proof -
    from e n w show ?thesis
      by (auto simp: next_entries_def sbind_Inr_iff run_simps flow_get_by_node_id_def node_get_by_id_def
          flow_get_by_id_def is_all_same_entryment_nodes_success_def split: if_splits)
  qed
  note ne = next_entriesD [OF e [unfolded this] assms(3) few]
  have rid: "nr_id r = ns_id ns" "r \<in> set (node_rows (db s))" using find_node_rowD [OF r(1)] by auto
  have mem: "ns_id ns \<in> set es \<longleftrightarrow> \<not> held_back (wi_spec w) i (ns_id ns)"
  proof -
    show ?thesis
    proof
      assume "ns_id ns \<in> set es"
      then obtain x where "x \<in> set (node_rows (db s))" "ns_id ns = nr_id x"
        "\<not> held_back (wi_spec w) i (nr_id x)" unfolding ne(3) by blast
      then show "\<not> held_back (wi_spec w) i (ns_id ns)" by simp
    next
      assume "\<not> held_back (wi_spec w) i (ns_id ns)"
      then have "nr_id r \<in> set es" unfolding ne(3) mem_Collect_eq
        by (intro exI [of _ r]) (use rid r in simp)
      then show "ns_id ns \<in> set es" using rid by simp
    qed
  qed
  have st0: "status_at (ns_id ns) (db s) = Some (status_code Standby)" using r by (simp add: status_at_def)
  have ok: "repo_ok s" "\<forall>x \<in> set (statements s). is_update x" "statements s = []"
    using assms(2) by (simp_all add: idle_def repo_ok_def)
  show ?thesis
  proof (cases "es = []")
    case True
    have "db t = updates [flow_stmt (w1\<lparr>wi_status := FFinished\<rparr>)] (db s)"
      using cont True u finish_flow_run [OF ok(1,2), of w1] ok(3) by auto
    then have "status_at (ns_id ns) (db t) = status_at (ns_id ns) (db s)" by (simp add: status_at_flow keys)
    with st0 mem True show ?thesis by simp
  next
    case False
    have start: "start_entries ev send w es s = (Inr (), t)" using cont False u \<open>w1 = w\<close> by simp
    from start_entries_effect [OF start ok(1) keys ok(2)] obtain rs where
      rs: "fst (expand_entries ev w es s) = Inr rs"
      and st: "\<And>j. status_at j (db t) = (if j \<in> ns_id ` set (concat (map snd rs)) then Some (status_code Running)
        else status_at j (updates (statements s) (db s)))"
      by metis
    obtain u' where eu: "expand_entries ev w es s = (Inr rs, u')" using rs by (metis prod.collapse)
    note ids = expand_entries_ids [OF eu]
    have "ns_id ns \<in> ns_id ` set (concat (map snd rs)) \<longleftrightarrow> ns_id ns \<in> set es"
    proof
      assume "ns_id ns \<in> ns_id ` set (concat (map snd rs))"
      then obtain x where x: "x \<in> set (concat (map snd rs))" "ns_id x = ns_id ns" by (metis imageE)
      from ids(3) [OF x(1)] obtain m :: node_spec where m: "ns_id m \<in> set es"
        "ns_id x = ns_id m \<or> (\<exists>r \<in> set (node_rows (db s)). nr_batch_parent_id r = Some (ns_id m) \<and> nr_id r = ns_id x)"
        by auto
      moreover have False if q: "q \<in> set (node_rows (db s))" "nr_batch_parent_id q = Some (ns_id m)"
        "nr_id q = ns_id ns" for q
        using roots ns q find_node_row_mem [OF keys q(1)] by (simp add: roots_only_def)
      ultimately have "ns_id ns = ns_id m" using x(2) by auto
      with m(1) show "ns_id ns \<in> set es" by simp
    next
      assume "ns_id ns \<in> set es"
      with ids(2) [OF ns] show "ns_id ns \<in> ns_id ` set (concat (map snd rs))" by simp
    qed
    with st [of "ns_id ns"] mem st0 ok(3) show ?thesis by (simp add: updates_def)
  qed
qed

text \<open>Nothing left to start: the flow is finished, whatever is still standing by.\<close>

lemma next_schedule_finishes:
  assumes "idle s" "permutes_keys (key_order ev)"
    and n: "node_by_id i (db s) = Inr n" and w: "flow_by_id (flow_instance_id n) (db s) = Inr w"
    and few: "few_relations (wi_spec w)"
    and all: "fst (is_all_same_entryment_nodes_success i s) = Inr True"
    and rows: "\<forall>r \<in> set (node_rows (db s)). nr_flow_instance_id r = wi_id w \<longrightarrow> \<not> isl (node_from_row r)"
    and held: "\<forall>r \<in> set (node_rows (db s)). nr_flow_instance_id r = wi_id w \<and> nr_status r = status_code Standby
      \<longrightarrow> held_back (wi_spec w) i (nr_id r)"
  shows "\<exists>t. schedule_next_nodes ev send (NodeInstanceId i) s = (Inr (), t) \<and>
    node_rows (db t) = node_rows (db s) \<and>
    flow_by_id (wi_id w) (db t) = Inr (w\<lparr>wi_status := FFinished\<rparr>)"
proof -
  have keys: "keys_ok (db s)" using assms(1) by (simp add: idle_def)
  let ?P = "\<lambda>r. nr_flow_instance_id r = wi_id w \<and> nr_status r = status_code Standby"
  have "\<exists>nodes. nodes_where ?P (db s) = Inr nodes"
  proof -
    have "rmap node_from_row (filter ?P (node_rows (db s))) =
        Inr (map (\<lambda>r. projr (node_from_row r)) (filter ?P (node_rows (db s))))"
      by (rule rmap_total) (use rows in auto)
    then show ?thesis by (auto simp: nodes_where_def)
  qed
  then obtain nodes where nodes: "nodes_where ?P (db s) = Inr nodes" by blast
  let ?rels = "filter (\<lambda>el. from_id el \<noteq> i \<and> to_id el \<noteq> i) (node_relations (wi_spec w))"
  have "length (dependencies ?rels) \<le> length (node_relations (wi_spec w))"
    by (simp add: dependencies_def)
  with few have "int (length (dependencies ?rels)) < 2 ^ 31" by (simp add: few_relations_def)
  from find_entry_nodes [OF assms(2) this, of "overflow_checks ev" "map ni_id nodes"] obtain es where
    es: "find_entry_nodes_ids (overflow_checks ev) (key_order ev) (map ni_id nodes) (dependencies ?rels) = Inr es" by blast
  have allrun: "is_all_same_entryment_nodes_success i s = (Inr True, s)"
    using all by (simp add: is_all_same_entryment_nodes_success_def read_db_def)
  have run: "next_entries ev i s = (Inr (w, es), s)"
    by (simp add: next_entries_def sbind_run allrun flow_get_by_node_id_def node_get_by_id_def
        flow_get_by_id_def get_all_workflow_instance_stand_by_nodes_def read_db_run n w nodes slift_run sret_run es del: status_code.simps)
  have "es = []"
  proof -
    have "set es = {}" unfolding next_entriesD(3) [OF run assms(2) few] using held by blast
    then show ?thesis by simp
  qed
  then have t: "schedule_next_nodes ev send (NodeInstanceId i) s = finish_flow w s"
    by (simp add: schedule_next_nodes_def sbind_run run)
  have ok: "repo_ok s" "\<forall>x \<in> set (statements s). is_update x" "statements s = []"
    using assms(1) by (simp_all add: idle_def repo_ok_def)
  have wid: "flow_by_id (wi_id w) (db s) = Inr w"
    using w by (metis flow_by_id_iff find_flow_rowD flow_from_rowD)
  show ?thesis
    using t finish_flow_run [OF ok(1,2), of w] ok(3) flow_by_id_one [OF keys wid, of FFinished]
    by (auto simp: updates_def flow_stmt_def)
qed

end

section \<open>Receiving a result\<close>

lemma record_result_id [simp]: "ni_id (record_result result n) = ni_id n"
  by (simp add: record_result_def)

lemma record_result_flow [simp]: "flow_instance_id (record_result result n) = flow_instance_id n"
  by (simp add: record_result_def)

definition recorded :: "task_result \<Rightarrow> node_instance \<Rightarrow> kstate \<Rightarrow> kstate" where
  "recorded result n s =
     s\<lparr>db := updates [UpdateNode (node_row_from (record_result result n))] (db s), statements := [], can_drop := True\<rparr>"

lemma recorded_idle: "idle s \<Longrightarrow> idle (recorded result n s)"
  by (simp add: idle_def recorded_def keys_ok_updates)

lemma recorded_flows: "flow_rows (db (recorded result n s)) = flow_rows (db s)"
  by (simp add: recorded_def updates_def)

lemma recorded_bills: "bill_mq (recorded result n s) = bill_mq s"
  by (simp add: recorded_def)

lemma receive_run:
  assumes "idle s" "node_by_id (tr_id result) (db s) = Inr n"
  shows "receive_node_status ev send result s =
    sthen (after_result ev send result (record_result result n)) (sthen save_changed (sret ())) (recorded result n s)"
proof -
  have "sthen (node_update m) (sthen save_changed k) s = k (s\<lparr>db := updates [UpdateNode (node_row_from m)] (db s),
      statements := [], can_drop := True\<rparr>)" for m and k :: "unit ksvc"
  proof -
    have "sthen (node_update m) (sthen save_changed k) s = sthen (sthen (node_update m) save_changed) k s"
      by (simp add: sthen_def sbind_assoc)
    then show ?thesis by (simp add: sthen_run [of _ k] node_update_save [OF assms(1)])
  qed
  then show ?thesis
    by (simp add: receive_node_status_def sbind_run node_get_by_id_def read_db_run assms(2) Let_def recorded_def)
qed

lemma node_id_of: "node_by_id i d = Inr n \<Longrightarrow> ni_id n = i"
  by (auto simp: node_by_id_iff dest!: find_node_rowD node_from_rowD)

lemma recorded_nodes:
  assumes "idle s" "node_by_id (tr_id result) (db s) = Inr n" "node_by_id j (db s) = Inr m"
  shows "node_by_id j (db (recorded result n s)) =
    Inr (if j = tr_id result then record_result result m else m)"
proof -
  have k: "keys_ok (db s)" using assms(1) by (simp add: idle_def)
  have "node_by_id j (updates [UpdateNode (node_row_from (record_result result n))] (db s)) =
    Inr (if m \<in> set [n] then record_result result m else m)"
    by (rule node_by_id_updates [where ns = "[n]" and f = "record_result result"])
      (use k assms node_id_of [OF assms(2)] in auto)
  moreover have "m \<in> set [n] \<longleftrightarrow> j = tr_id result"
    using assms(2,3) node_id_of [OF assms(2)] node_id_of [OF assms(3)] by auto
  ultimately show ?thesis by (simp add: recorded_def)
qed

text \<open>Some other node of the flow is still in the status.\<close>

definition busy :: "database \<Rightarrow> uuid \<Rightarrow> uuid \<Rightarrow> node_instance_status \<Rightarrow> bool" where
  "busy d w i st \<longleftrightarrow>
     (\<exists>r \<in> set (node_rows d). nr_flow_instance_id r = w \<and> nr_status r = status_code st \<and> nr_id r \<noteq> i)"

definition rows_decode :: "database \<Rightarrow> uuid \<Rightarrow> bool" where
  "rows_decode d w \<longleftrightarrow>
     (\<forall>r \<in> set (node_rows d). nr_flow_instance_id r = w \<longrightarrow> (\<exists>n. node_from_row r = Inr n))"

definition flow_status_after ::
  "database \<Rightarrow> workflow_instance \<Rightarrow> task_result \<Rightarrow> workflow_instance_status" where
  "flow_status_after d w result =
     (case tr_status result of
        TFailed \<Rightarrow> FError
      | TPaused \<Rightarrow> if busy d (wi_id w) (tr_id result) Pausing then wi_status w else FPaused
      | TDeleted \<Rightarrow> if busy d (wi_id w) (tr_id result) Stopping then wi_status w else FStopped
      | _ \<Rightarrow> wi_status w)"

lemma recorded_rows:
  "node_rows (db (recorded result n s)) =
     map (\<lambda>x. if nr_id x = ni_id n then node_row_from (record_result result n) else x) (node_rows (db s))"
  by (simp add: recorded_def updates_def)

lemma recorded_count:
  assumes "idle s" "node_by_id (tr_id result) (db s) = Inr n" "rows_decode (db s) w"
    and "st \<noteq> status_from_result (tr_status result)"
  shows "\<exists>nodes. nodes_where (\<lambda>r. nr_flow_instance_id r = w) (db (recorded result n s)) = Inr nodes \<and>
    (length (filter (\<lambda>el. ni_status el = st) nodes) = 0 \<longleftrightarrow> \<not> busy (db s) w (tr_id result) st)"
proof -
  let ?d = "db (recorded result n s)"
  have id: "ni_id n = tr_id result" by (rule node_id_of [OF assms(2)])
  let ?rs = "filter (\<lambda>r. nr_flow_instance_id r = w) (node_rows ?d)"
  have dec: "\<exists>m. node_from_row r = Inr m" if "r \<in> set ?rs" for r
    using that assms(3) by (auto simp: recorded_rows rows_decode_def split: if_splits)
  then have "rmap node_from_row ?rs = Inr (map (\<lambda>r. projr (node_from_row r)) ?rs)"
    by (intro rmap_total) (metis sum.sel(2))
  then have nodes: "nodes_where (\<lambda>r. nr_flow_instance_id r = w) ?d = Inr (map (\<lambda>r. projr (node_from_row r)) ?rs)"
    by (simp add: nodes_where_def)
  have st: "ni_status (projr (node_from_row r)) = st \<longleftrightarrow> nr_status r = status_code st" if r: "r \<in> set ?rs" for r
  proof -
    from dec [OF r] obtain m where "node_from_row r = Inr m" by blast
    with node_from_rowD [OF this] show ?thesis by (metis status_code_inject sum.sel(2))
  qed
  have "(\<exists>r \<in> set ?rs. nr_status r = status_code st) \<longleftrightarrow> busy (db s) w (tr_id result) st"
  proof
    assume "\<exists>r \<in> set ?rs. nr_status r = status_code st"
    then obtain x where x: "x \<in> set (node_rows (db s))" and
      y: "nr_flow_instance_id (if nr_id x = ni_id n then node_row_from (record_result result n) else x) = w"
        "nr_status (if nr_id x = ni_id n then node_row_from (record_result result n) else x) = status_code st"
      by (auto simp: recorded_rows)
    have "nr_id x \<noteq> ni_id n"
      using y(2) assms(4) by (auto simp: node_row_from_def record_result_def)
    with x y id show "busy (db s) w (tr_id result) st" by (auto simp: busy_def)
  next
    assume "busy (db s) w (tr_id result) st"
    then show "\<exists>r \<in> set ?rs. nr_status r = status_code st"
      using id by (force simp: busy_def recorded_rows)
  qed
  with nodes st show ?thesis by (auto simp: filter_empty_conv)
qed

lemma keep_flow: "w\<lparr>wi_status := wi_status w\<rparr> = (w :: workflow_instance)"
  by simp

lemma receive_effect:
  assumes "idle s" "tr_status result \<noteq> TSuccess"
    and n: "node_by_id (tr_id result) (db s) = Inr n" and w: "flow_by_id (flow_instance_id n) (db s) = Inr w"
    and dec: "rows_decode (db s) (wi_id w)"
  shows "\<exists>t. receive_node_status ev send result s = (Inr (), t) \<and> idle t \<and>
    node_rows (db t) = node_rows (db (recorded result n s)) \<and>
    flow_by_id (wi_id w) (db t) = Inr (w\<lparr>wi_status := flow_status_after (db s) w result\<rparr>)"
proof -
  let ?s = "recorded result n s"
  have isq: "idle ?s" by (rule recorded_idle [OF assms(1)])
  have k: "keys_ok (db ?s)" using isq by (simp add: idle_def)
  have w': "flow_by_id j (db ?s) = flow_by_id j (db s)" for j
    by (rule flow_by_id_rows) (rule recorded_flows)
  have wid: "wi_id w = flow_instance_id n"
    using w by (auto simp: flow_by_id_iff dest!: find_flow_rowD flow_from_rowD)
  then have wi: "flow_by_id (wi_id w) (db ?s) = Inr w" using w w' by simp
  have upd: "\<exists>t. sthen (flow_update (w\<lparr>wi_status := st\<rparr>)) (sthen save_changed (sret ())) ?s = (Inr (), t) \<and> idle t \<and>
      node_rows (db t) = node_rows (db ?s) \<and> flow_by_id (wi_id w) (db t) = Inr (w\<lparr>wi_status := st\<rparr>)" for st
  proof -
    have "sthen (flow_update (w\<lparr>wi_status := st\<rparr>)) (sthen save_changed (sret ())) ?s =
        sthen (sthen (flow_update (w\<lparr>wi_status := st\<rparr>)) save_changed) (sret ()) ?s"
      by (simp add: sthen_def sbind_assoc)
    also have "\<dots> = (Inr (), ?s\<lparr>db := updates [flow_stmt (w\<lparr>wi_status := st\<rparr>)] (db ?s), statements := [], can_drop := True\<rparr>)"
      by (subst sthen_run) (simp add: flow_save [OF isq] sret_run)
    finally show ?thesis
      using flow_by_id_one [OF k wi, of st] k by (auto simp: idle_def keys_ok_updates) (simp add: updates_def flow_stmt_def)
  qed
  have none: "\<exists>t. sthen (sret ()) (sthen save_changed (sret ())) ?s = (Inr (), t) \<and> idle t \<and>
      node_rows (db t) = node_rows (db ?s) \<and> flow_by_id (wi_id w) (db t) = Inr w"
    using isq wi by (simp add: svc_simps save_changed_def recorded_def)
  have flow: "sbind (flow_get_by_id (flow_instance_id n)) f ?s = f w ?s" for f :: "workflow_instance \<Rightarrow> unit ksvc"
    using w w' by (simp add: sbind_run flow_get_by_id_def read_db_run)
  have flow_seq: "sthen (sbind (flow_get_by_id (flow_instance_id n)) f) k ?s = sthen (f w) k ?s"
    for f :: "workflow_instance \<Rightarrow> unit ksvc" and k :: "unit ksvc"
    by (simp add: sthen_run [of _ k] flow)
  have settle: "\<exists>t. sthen (settle_flow (record_result result n) tr st) (sthen save_changed (sret ())) ?s = (Inr (), t) \<and>
      idle t \<and> node_rows (db t) = node_rows (db ?s) \<and> flow_by_id (wi_id w) (db t) =
        Inr (w\<lparr>wi_status := (if busy (db s) (wi_id w) (tr_id result) tr then wi_status w else st)\<rparr>)"
    if tr: "tr \<noteq> status_from_result (tr_status result)" for tr st
  proof -
    from recorded_count [OF assms(1) n dec tr] obtain nodes where
      nodes: "nodes_where (\<lambda>r. nr_flow_instance_id r = wi_id w) (db ?s) = Inr nodes"
      and c: "length (filter (\<lambda>el. ni_status el = tr) nodes) = 0 \<longleftrightarrow> \<not> busy (db s) (wi_id w) (tr_id result) tr"
      by blast
    have "sthen (settle_flow (record_result result n) tr st) k ?s =
      sthen (if busy (db s) (wi_id w) (tr_id result) tr then sret () else flow_update (w\<lparr>wi_status := st\<rparr>)) k ?s"
      for k :: "unit ksvc"
      unfolding settle_flow_def record_result_flow flow_seq
      by (simp only: sthen_run sbind_run get_all_workflow_instance_nodes_def read_db_run nodes sum.case prod.case c) simp
    with upd none show ?thesis by (cases "busy (db s) (wi_id w) (tr_id result) tr") auto
  qed
  show ?thesis
    unfolding receive_run [OF assms(1) n]
  proof (cases "tr_status result")
    case TFailed
    with upd [of FError] show "\<exists>t. sthen (after_result ev send result (record_result result n))
        (sthen save_changed (sret ())) ?s = (Inr (), t) \<and> idle t \<and> node_rows (db t) = node_rows (db ?s) \<and>
        flow_by_id (wi_id w) (db t) = Inr (w\<lparr>wi_status := flow_status_after (db s) w result\<rparr>)"
      by (simp add: after_result_def flow_seq flow_status_after_def)
  next
    case TPaused
    with settle [of Pausing FPaused] show "\<exists>t. sthen (after_result ev send result (record_result result n))
        (sthen save_changed (sret ())) ?s = (Inr (), t) \<and> idle t \<and> node_rows (db t) = node_rows (db ?s) \<and>
        flow_by_id (wi_id w) (db t) = Inr (w\<lparr>wi_status := flow_status_after (db s) w result\<rparr>)"
      by (simp add: after_result_def flow_status_after_def)
  next
    case TDeleted
    with settle [of Stopping FStopped] show "\<exists>t. sthen (after_result ev send result (record_result result n))
        (sthen save_changed (sret ())) ?s = (Inr (), t) \<and> idle t \<and> node_rows (db t) = node_rows (db ?s) \<and>
        flow_by_id (wi_id w) (db t) = Inr (w\<lparr>wi_status := flow_status_after (db s) w result\<rparr>)"
      by (simp add: after_result_def flow_status_after_def)
  next
    case TContinued
    with none show "\<exists>t. sthen (after_result ev send result (record_result result n))
        (sthen save_changed (sret ())) ?s = (Inr (), t) \<and> idle t \<and> node_rows (db t) = node_rows (db ?s) \<and>
        flow_by_id (wi_id w) (db t) = Inr (w\<lparr>wi_status := flow_status_after (db s) w result\<rparr>)"
      by (simp add: after_result_def flow_status_after_def)
  qed (use assms(2) in simp)
qed

text \<open>A success while another root node of the flow is neither finished nor standing by.\<close>

definition sibling_active :: "database \<Rightarrow> uuid \<Rightarrow> uuid \<Rightarrow> bool" where
  "sibling_active d w i \<longleftrightarrow> (\<exists>r \<in> set (node_rows d). nr_flow_instance_id r = w \<and> nr_batch_parent_id r = None \<and>
     nr_id r \<noteq> i \<and> nr_status r \<noteq> status_code Finished \<and> nr_status r \<noteq> status_code Standby)"

lemma receive_success_blocked:
  assumes "idle s" "tr_status result = TSuccess" and n: "node_by_id (tr_id result) (db s) = Inr n"
    and act: "sibling_active (db s) (flow_instance_id n) (tr_id result)"
  shows "receive_node_status ev send result s = (Inl (NotFullyScheduled (tr_id result)), recorded result n s)"
proof -
  let ?s = "recorded result n s"
  have k: "keys_ok (db s)" using assms(1) by (simp add: idle_def)
  have id: "ni_id n = tr_id result" by (rule node_id_of [OF n])
  let ?row = "node_row_from (record_result result n)"
  have row: "find_node_row (tr_id result) (db ?s) = Some ?row"
    using n id by (auto simp: recorded_def updates_one [OF k] node_by_id_iff)
  from act obtain r where r: "r \<in> set (node_rows (db s))" "nr_flow_instance_id r = flow_instance_id n"
    "nr_batch_parent_id r = None" "nr_id r \<noteq> tr_id result"
    "nr_status r \<noteq> status_code Finished" "nr_status r \<noteq> status_code Standby"
    by (auto simp: sibling_active_def simp del: status_code.simps)
  then have "r \<in> set (node_rows (db ?s))" using id by (force simp: recorded_rows)
  moreover have "nr_flow_instance_id ?row = flow_instance_id n" by (simp add: node_row_from_def)
  ultimately have "is_all_same_entryment_nodes_success (tr_id result) ?s = (Inr False, ?s)"
    using row r by (auto simp: is_all_same_entryment_nodes_success_def read_db_run list_all_iff simp del: status_code.simps)
  then show ?thesis
    by (simp add: receive_run [OF assms(1) n] after_result_def assms(2) svc_simps schedule_next_nodes_def next_entries_def)
qed

end
