(* ===== verification/KP_NodeDraft.thy ===== *)
theory KP_NodeDraft
  imports KP_Package KP_Validate
begin

text \<open>
  The node draft a use case offers to the workflow editor:
  \<open>lib-co-repo/src/services/parse_node.rs\<close>, \<open>dtos/node_draft.rs\<close> and \<open>get_node_draft\<close> of the
  client. A lookup the code unwraps is a \<open>RepoPanic\<close> when it fails.
  \<open>validated_usecase_drafted\<close> in \<open>KP_Props\<close> says that it does not fail on a validated use case.
\<close>

section \<open>The draft: \<open>dtos/node_draft.rs\<close>\<close>

datatype drafted_output_kind = DraftedFile file_out_origin string bool | DraftedText

record drafted_output_slot =
  dro_kind :: drafted_output_kind
  dro_descriptor :: string
  dro_description :: "string option"
  dro_optional :: bool

record drafted_node =
  dr_external_id :: uuid
  dr_name :: string
  dr_description :: string
  dr_batch_strategies :: "batch_strategy list option"
  dr_input_slots :: "node_input_slot list"
  dr_output_slots :: "drafted_output_slot list"
  dr_scheduling_strategy :: scheduling_strategy
  dr_kind :: software_usecase_computing
  dr_additional_datas :: "requirements option"

fun rule_from :: "text_rule \<Rightarrow> text_input_slot_rule" where
  "rule_from TrJson = RuleJson"
| "rule_from TrNumber = RuleNumber"
| "rule_from (TrRegex r) = RuleRegex r"

fun origin_from :: "usecase_file_out_origin \<Rightarrow> file_out_origin" where
  "origin_from (FromCollectedOut _) = CollectedOutOrigin"
| "origin_from (FromUsecaseOut _) = UsecaseOutOrigin"

text \<open>The first reference to an input file of the software.\<close>

fun first_file_ref :: "file_ref list \<Rightarrow> string option" where
  "first_file_ref [] = None"
| "first_file_ref (r # rs) = (case ref_file_descriptor r of None \<Rightarrow> first_file_ref rs | Some d \<Rightarrow> Some d)"

fun parse_input_slot ::
  "filesome_input list \<Rightarrow> usecase_input_slot \<Rightarrow> repo_err + node_input_slot" where
  "parse_input_slot materials (UInText d rule _ meta opt) =
     Inr \<lparr>is_kind = SlotText None (case rule of None \<Rightarrow> RuleAnyString | Some r \<Rightarrow> rule_from r),
          is_optional = opt, is_descriptor = d, is_description = map_of meta ''description''\<rparr>"
| "parse_input_slot materials (UInFile d refs meta opt) =
     rbind (case first_file_ref refs of
              None \<Rightarrow> Inr (None, False)
            | Some r \<Rightarrow>
                rbind (ok_or RepoPanic (find_filesome_input materials r)) (\<lambda>m.
                Inr (expected_file_name (fin_file_kind m), is_batch (fin_file_kind m)))) (\<lambda>(name, batch).
     Inr \<lparr>is_kind = SlotFile None name batch,
          is_optional = opt, is_descriptor = d, is_description = map_of meta ''description''\<rparr>)"

fun file_name_of_origin ::
  "filesome_output list \<Rightarrow> collected_out list \<Rightarrow> usecase_file_out_origin \<Rightarrow> repo_err + string \<times> bool" where
  "file_name_of_origin materials outs (FromCollectedOut c) =
     rbind (ok_or RepoPanic (find_collected_out outs c)) (\<lambda>co.
     (case co_to co of
        RepoToFile (CollectedNormal name) \<Rightarrow> Inr (name, False)
      | RepoToFile (CollectedBatched name) \<Rightarrow> Inr (name, True)
      | RepoToText \<Rightarrow> Inl RepoPanic))"
| "file_name_of_origin materials outs (FromUsecaseOut fo) =
     rbind (ok_or RepoPanic (find_filesome_output materials (file_out_material_descriptor fo))) (\<lambda>m.
     (case fout_file_kind m of
        NormalFile name \<Rightarrow> Inr (name, False)
      | BatchedFile name \<Rightarrow> Inr (name, True)))"

fun parse_output_slot ::
  "filesome_output list \<Rightarrow> collected_out list \<Rightarrow> usecase_output_slot \<Rightarrow> repo_err + drafted_output_slot" where
  "parse_output_slot materials outs (UOutText d _ meta opt _) =
     Inr \<lparr>dro_kind = DraftedText, dro_descriptor = d,
          dro_description = map_of meta ''description'', dro_optional = opt\<rparr>"
| "parse_output_slot materials outs (UOutFile d origin opt meta _) =
     rbind (file_name_of_origin materials outs origin) (\<lambda>(name, batch).
     Inr \<lparr>dro_kind = DraftedFile (origin_from origin) name batch, dro_descriptor = d,
          dro_description = map_of meta ''description'', dro_optional = opt\<rparr>)"

section \<open>\<open>parse_node\<close> and the client\<close>

definition parse_node :: "uuid \<Rightarrow> usecase_node_parsing \<Rightarrow> repo_err + drafted_node" where
  "parse_node fresh np =
     (let us = np_usecase_spec np in
      rbind (ok_or RepoPanic (map_of (us_metadata us) ''name'')) (\<lambda>name.
      rbind (ok_or RepoPanic (map_of (us_metadata us) ''description'')) (\<lambda>description.
      rbind (rmap (parse_input_slot (np_filesome_inputs np)) (us_input_slots us)) (\<lambda>ins.
      rbind (rmap (parse_output_slot (np_filesome_outputs np) (np_collected_outs np))
              (us_output_slots us)) (\<lambda>outs.
      Inr \<lparr>dr_external_id = fresh, dr_name = name, dr_description = description,
           dr_batch_strategies = None, dr_input_slots = ins, dr_output_slots = outs,
           dr_scheduling_strategy = Auto,
           dr_kind = \<lparr>usecase_version_id = np_usecase_version_id np,
                      software_version_id = np_software_version_id np\<rparr>,
           dr_additional_datas = us_requirements us\<rparr>)))))"

definition get_node_draft :: "co_repo \<Rightarrow> uuid \<Rightarrow> uuid \<Rightarrow> uuid \<Rightarrow> repo_err + drafted_node" where
  "get_node_draft cr fresh usecase_id software_id =
     rbind (get_package cr software_id) (\<lambda>software.
     rbind (get_package cr usecase_id) (\<lambda>usecase.
     rbind (node_ability_of (usecase, software)) (parse_node fresh)))"

end
