(* ===== verification/KP_Samples.thy ===== *)
theory KP_Samples
  imports KP_NodeDraft KP_ParseTask
begin

text \<open>
  A concrete use case for the witnesses: a solver that takes a number of cores, a mesh and a
  rendered configuration, writes a result file and a log, with the archives its two packages
  are read from and a node that runs it.
\<close>

definition solver_data :: software_data where
  "solver_data = \<lparr>sd_spec = RepoSpack ''solver'' [''@1.2'', ''+mpi''],
     sd_arguments = [\<lparr>ar_descriptor = ''cores'', ar_value_format = ''-n {{}}'', ar_metadata = []\<rparr>,
       \<lparr>ar_descriptor = ''path'', ar_value_format = ''{{}}'', ar_metadata = []\<rparr>],
     sd_environments = [\<lparr>en_descriptor = ''threads'', en_key = ''OMP'', en_value_format = ''{{}}'',
       en_metadata = []\<rparr>],
     sd_filesome_inputs = [\<lparr>fin_descriptor = ''mesh'', fin_file_kind = file_kind.NormalFile ''m.dat'',
       fin_optional = False, fin_metadata = []\<rparr>],
     sd_filesome_outputs = [\<lparr>fout_descriptor = ''result'', fout_file_kind = file_kind.NormalFile ''r.dat'',
       fout_metadata = [], fout_optional = False\<rparr>]\<rparr>"

definition solve_spec :: usecase_spec where
  "solve_spec = \<lparr>command_file = ''solve'', merge_stdout_and_stderr = False,
     us_input_slots = [UInText ''n'' (Some TrNumber) [TextArgRef ''cores'' 0 0, TextEnvRef ''threads'' 0] [] False,
       UInFile ''mesh'' [FileInputRef ''mesh'', FileArgRef ''path'' 0 1] [] False,
       UInText ''eps'' None [TextTemplateRef ''cfg'' [''eps'']] [] True],
     template_files = [\<lparr>tf_descriptor = ''cfg'', tf_path = ''cfg.txt'', as_content = [],
       as_file_name = [FileArgRef ''path'' 0 2]\<rparr>],
     us_output_slots = [UOutText ''log'' ''tail'' [] True None,
       UOutFile ''out'' (FromUsecaseOut \<lparr>file_out_material_descriptor = ''result'', appointed = ByMaterial\<rparr>)
         False [] None],
     flag_arguments = [], flag_environments = [], std_out_validator = None, std_err_validator = None,
     us_requirements = None, us_metadata = [(''name'', ''Solve''), (''description'', ''A solver'')]\<rparr>"

definition solve_data :: usecase_data where
  "solve_data = \<lparr>ud_spec = solve_spec,
     ud_collected_outs = [\<lparr>co_descriptor = ''tail'', co_from = RepoStdout, co_to = RepoToText,
       co_collecting = RepoBottomLines 5, co_validator = None, co_metadata = []\<rparr>],
     ud_template_file_infos = [\<lparr>ti_descriptor = ''cfg'', ti_content = ''eps='', ti_file_name = ''cfg.txt''\<rparr>]\<rparr>"

definition solve_packages :: validate_data where
  "solve_packages = \<lparr>vd_software_data = solver_data, vd_usecase_data = solve_data\<rparr>"

text \<open>The preview the validation gives for them.\<close>

definition solve_preview :: command_preview where
  "solve_preview = \<lparr>software_facility = Spack ''solver'' [''@1.2'', ''+mpi''], command_name = ''solve'',
     pv_argument_formats_sorts =
       [(0, \<lparr>fm_format = ''-n {{}}'', placeholder_fill_map = [(0, InInputSlot ''n'')]\<rparr>),
        (1, \<lparr>fm_format = ''{{}}'', placeholder_fill_map = [(0, InInputSlot ''mesh'')]\<rparr>),
        (2, \<lparr>fm_format = ''{{}}'', placeholder_fill_map = [(0, InTemplate ''cfg'')]\<rparr>)],
     pv_environment_formats =
       [(''OMP'', \<lparr>fm_format = ''{{}}'', placeholder_fill_map = [(0, InInputSlot ''n'')]\<rparr>)],
     pv_templates_kv_map = [(''cfg'', [(''eps'', InInputSlot ''eps'')])],
     pv_std_in = InNone,
     pv_file_infos = [ConstInput (InInputSlot ''mesh'') ''mesh'' ''m.dat'', DynamicInput (InTemplate ''cfg''),
        ConstOutput ''result'' ''r.dat''],
     collect_previews = [\<lparr>cpv_from = PreviewStdout, cpv_rule = PreviewBottomLines 5,
        cpv_to = PreviewToText, cpv_optional = True\<rparr>]\<rparr>"

text \<open>The archives: package 1 is the software, in two files, package 2 the use case.\<close>

definition package_file :: "string list \<Rightarrow> string \<Rightarrow> tar_entry" where
  "package_file path content = \<lparr>te_path = path, te_is_file = True, te_content = Some content\<rparr>"

definition sample_manifest :: "software_computing_repo \<Rightarrow> manifest" where
  "sample_manifest r = \<lparr>mf_ability = r, mf_name = ''n'', mf_system_name = ''s'', mf_version = ''1'',
     maintainers = [], mf_git = None, home_page = None\<rparr>"

definition software_archive :: "tar_entry list" where
  "software_archive = [package_file [''p'', ''manifest''] ''sw'',
     package_file [''p'', ''content'', ''a''] ''spec---args'',
     package_file [''p'', ''content'', ''b''] ''envs---ins---outs'']"

definition usecase_archive :: "tar_entry list" where
  "usecase_archive = [package_file [''p'', ''manifest''] ''uc'',
     package_file [''p'', ''content'', ''a''] ''spec---outs'',
     package_file [''p'', ''content'', ''templates'', ''cfg.txt''] ''eps='']"

definition sample_repo :: co_repo where
  "sample_repo = \<lparr>fetch = (\<lambda>i. if i = 1 then Some software_archive else if i = 2 then Some usecase_archive else None),
     read_manifest = (\<lambda>c. Some (sample_manifest (if c = ''sw'' then SoftwareRepo else UsecaseRepo ''s'' ''1''))),
     read_software = (\<lambda>c.
       if c = ''spec'' then Some (MSoftwareSpec (sd_spec solver_data))
       else if c = ''args'' then Some (MArgumentList (sd_arguments solver_data))
       else if c = ''envs'' then Some (MEnvironmentList (sd_environments solver_data))
       else if c = ''ins'' then Some (MFilesomeInputList (sd_filesome_inputs solver_data))
       else if c = ''outs'' then Some (MFilesomeOutputList (sd_filesome_outputs solver_data)) else None),
     read_usecase = (\<lambda>c.
       if c = ''spec'' then Some (MUsecaseSpec solve_spec)
       else if c = ''outs'' then Some (MCollectedOutList (ud_collected_outs solve_data)) else None)\<rparr>"

text \<open>A template engine that appends the values of the keys.\<close>

definition sample_usecases :: usecase_env where
  "sample_usecases = \<lparr>repo_client = sample_repo,
     render = (\<lambda>content kv. Some (content @ concat (map (\<lambda>(_, v). case v of Some x \<Rightarrow> x | None \<Rightarrow> '''') kv))),
     template_order = (\<lambda>ks. ks)\<rparr>"

definition solver_node :: node_spec where
  "solver_node = \<lparr>
     ns_kind = SoftwareUsecaseComputing \<lparr>usecase_version_id = 2, software_version_id = 1\<rparr>,
     ns_id = 30, ns_name = ''Solve'', ns_description = ''A solver'',
     input_slots = [\<lparr>is_kind = SlotText (Some [21]) RuleNumber, is_optional = False, is_descriptor = ''n'',
         is_description = None\<rparr>,
       \<lparr>is_kind = SlotFile (Some [\<lparr>file_metadata_id = 41, file_metadata_name = ''a.dat'', fi_hash = '''',
           fi_size = 3\<rparr>]) (Some ''m.dat'') False, is_optional = False, is_descriptor = ''mesh'',
         is_description = None\<rparr>,
       \<lparr>is_kind = SlotText None RuleAnyString, is_optional = True, is_descriptor = ''eps'',
         is_description = None\<rparr>],
     output_slots = [\<lparr>os_kind = OutText [51], os_descriptor = ''log'', os_description = None,
         os_optional = True\<rparr>,
       \<lparr>os_kind = OutFile UsecaseOutOrigin False [52], os_descriptor = ''out'', os_description = None,
         os_optional = False\<rparr>],
     ns_scheduling_strategy = Auto, batch_strategies = [], ns_requirements = None,
     ns_additional_datas = None\<rparr>"

definition solver_state :: kstate where
  "solver_state = \<lparr>db = \<lparr>node_rows = [], flow_rows = [], draft_rows = [], file_tabs = no_files,
       cluster_rows = [], software_block_list = [], installed_software = []\<rparr>,
     statements = [], can_drop = True, repo_user_id = None, clock = 0, drawn = 0, rolled = 0,
     texts = [(21, ''8'')], sent_tasks = [], node_status_mq = [], bill_mq = [], posted = []\<rparr>"

text \<open>The body of the task of the node.\<close>

definition solver_execution :: task_body where
  "solver_execution = UsecaseExecution ''solve'' (Spack ''solver'' [''@1.2'', ''+mpi''])
     [''-n 8'', ''m.dat'', ''cfg.txt''] [(''OMP'', ''8'')] StdInNone
     [FileInfoInput ''m.dat'' False (FormId 41), FileInfoInput ''cfg.txt'' False (FormContent ''eps=''),
      FileInfoOutput 52 ''r.dat'' False False] None"

lemmas package_sample_defs = solver_data_def solve_spec_def solve_data_def solve_packages_def
  package_file_def sample_manifest_def software_archive_def usecase_archive_def sample_repo_def
  sample_usecases_def solver_node_def solver_state_def

lemma sample_order [simp]: "template_order sample_usecases = (\<lambda>ks. ks)"
  by (simp add: sample_usecases_def)

lemma solve_packages_valid: "package_validate (\<lambda>ks. ks) solve_packages = Inr solve_preview"
  by code_simp

end
