(* ===== verification/KC_Samples.thy ===== *)
theory KC_Samples
  imports KC_Engine KP_Samples
begin

text \<open>
  Concrete inputs: one value for each parameter of the engine's environment, three small drafts
  (a chain, a join, a batched node) and the states they run from. The witnesses of the properties
  evaluate the model on them.
\<close>

definition sample_env :: env where
  "sample_env = \<lparr>overflow_checks = True, uuid_gen = (\<lambda>k. of_nat k + 1000), rng = (\<lambda>k. k),
     key_order = (\<lambda>ks. ks), url_ok = (\<lambda>_. True), http_ok = (\<lambda>_. True), blake3 = (\<lambda>c. c),
     download_text = (\<lambda>_ _. Inr ''file''), move_file = (\<lambda>_ _ _ _ _ _. Inr ()),
     usecases = sample_usecases,
     bill_topic = ''bill''\<rparr>"

definition sample_input :: "string \<Rightarrow> uuid list \<Rightarrow> node_input_slot" where
  "sample_input d cs = \<lparr>is_kind = SlotText (Some cs) RuleAnyString, is_optional = False,
     is_descriptor = d, is_description = None\<rparr>"

definition sample_output :: "string \<Rightarrow> node_draft_output_slot" where
  "sample_output d = \<lparr>dos_kind = DraftText, dos_descriptor = d, dos_description = None, dos_optional = False\<rparr>"

definition sample_node ::
  "uuid \<Rightarrow> batch_strategy list \<Rightarrow> node_input_slot list \<Rightarrow> string list \<Rightarrow> node_draft" where
  "sample_node i bs ins outs = \<lparr>nd_kind = NoAction, external_id = i, nd_name = ''node'',
     nd_description = '''', nd_batch_strategies = Some bs, nd_input_slots = ins,
     nd_output_slots = map sample_output outs, nd_scheduling_strategy = Auto,
     nd_requirements = None, nd_additional_datas = None\<rparr>"

definition sample_relation :: "uuid \<Rightarrow> string \<Rightarrow> uuid \<Rightarrow> string \<Rightarrow> node_relation" where
  "sample_relation a x b y = \<lparr>from_id = a, to_id = b,
     slot_relations = [\<lparr>from_slot = x, to_slot = y, transfer_strategy = Network\<rparr>]\<rparr>"

definition sample_draft :: "node_draft list \<Rightarrow> node_relation list \<Rightarrow> workflow_draft" where
  "sample_draft nds rels = \<lparr>wd_id = 50, wd_name = ''flow'', wd_description = '''', wd_logo = None,
     wd_spec = \<lparr>ds_scheduling_strategy = Auto, node_drafts = nds, ds_node_relations = rels\<rparr>\<rparr>"

text \<open>1 feeds 2.\<close>

definition chain_draft :: workflow_draft where
  "chain_draft = sample_draft
     [sample_node 1 [] [] [''o''], sample_node 2 [] [sample_input ''i'' []] []]
     [sample_relation 1 ''o'' 2 ''i'']"

text \<open>1 and 2 feed 3.\<close>

definition join_draft :: workflow_draft where
  "join_draft = sample_draft
     [sample_node 1 [] [] [''o''], sample_node 2 [] [] [''o''],
      sample_node 3 [] [sample_input ''i'' [], sample_input ''j'' []] []]
     [sample_relation 1 ''o'' 3 ''i'', sample_relation 2 ''o'' 3 ''j'']"

text \<open>One node, its text filled three times by two times with numbers.\<close>

definition batch_draft :: workflow_draft where
  "batch_draft = sample_draft
     [sample_node 1 [\<lparr>bs_slot = ''i'', renaming_pattern = None, bs_kind = MatchRegex ''x'' 3 (AutoNumber 0 1)\<rparr>,
        \<lparr>bs_slot = ''j'', renaming_pattern = None, bs_kind = MatchRegex ''x'' 2 (AutoNumber 5 5)\<rparr>]
        [sample_input ''i'' [11], sample_input ''j'' [12]] [''o'']] []"

text \<open>A node whose batch relies on its own outputs.\<close>

definition loop_draft :: workflow_draft where
  "loop_draft = sample_draft
     [sample_node 1 [\<lparr>bs_slot = ''i'', renaming_pattern = None, bs_kind = FromBatchOutputs\<rparr>]
        [sample_input ''i'' []] [''i'']]
     [sample_relation 1 ''i'' 1 ''i'']"

definition sample_state :: "workflow_draft \<Rightarrow> kstate" where
  "sample_state l = \<lparr>db = \<lparr>node_rows = [], flow_rows = [], draft_rows = [(7, l)], file_tabs = no_files,
       cluster_rows = [\<lparr>cl_id = 90, topic_name = ''c'', enabled = True\<rparr>],
       software_block_list = [], installed_software = []\<rparr>,
     statements = [], can_drop = True, repo_user_id = Some 7, clock = 0, drawn = 0, rolled = 0,
     texts = [(11, ''ax''), (12, ''x'')], sent_tasks = [], node_status_mq = [], bill_mq = [], posted = []\<rparr>"

text \<open>The states of the chain and of the join after the submission, after the first scheduling and
  paused, and the join with its first two nodes reported successful.\<close>

definition sample_row :: "uuid \<Rightarrow> node_instance_status \<Rightarrow> node_row" where
  "sample_row i st = \<lparr>nr_id = i, nr_name = ''node'', nr_kind = kind_code KNoAction, nr_is_parent = False,
     nr_batch_parent_id = None, nr_status = status_code st, nr_resource_meter = None, nr_log = None,
     nr_cluster_id = None, nr_flow_instance_id = 1000\<rparr>"

definition sample_result :: "uuid \<Rightarrow> task_result_status \<Rightarrow> task_result" where
  "sample_result i st = \<lparr>tr_id = i, tr_status = st, tr_message = '''', tr_used_resources = None\<rparr>"

definition sample_spec :: "uuid \<Rightarrow> node_input_slot list \<Rightarrow> uuid list \<Rightarrow> node_spec" where
  "sample_spec i ins outs = \<lparr>ns_kind = NoAction, ns_id = i, ns_name = ''node'', ns_description = '''',
     input_slots = ins, output_slots = map (\<lambda>x. \<lparr>os_kind = OutText [x], os_descriptor = ''o'',
       os_description = None, os_optional = False\<rparr>) outs, ns_scheduling_strategy = Auto,
     batch_strategies = [], ns_requirements = None, ns_additional_datas = None\<rparr>"

definition sample_run :: "workflow_draft \<Rightarrow> node_row list \<Rightarrow> workflow_instance_status \<Rightarrow> node_spec list \<Rightarrow>
    node_relation list \<Rightarrow> nat \<Rightarrow> task_result list \<Rightarrow> kstate" where
  "sample_run l rows st specs rels k mq = (sample_state l)
     \<lparr>db := (db (sample_state l))\<lparr>node_rows := rows, flow_rows := [\<lparr>fr_id = 1000, fr_name = ''flow'',
        fr_description = '''', fr_logo = None, fr_status = flow_status_code st,
        fr_spec = \<lparr>ws_scheduling_strategy = Auto, node_specs = specs, node_relations = rels\<rparr>,
        fr_user_id = 7, fr_last_modified_time = 0\<rparr>]\<rparr>, drawn := k, node_status_mq := mq\<rparr>"

definition chain_run :: "node_row list \<Rightarrow> workflow_instance_status \<Rightarrow> task_result list \<Rightarrow> kstate" where
  "chain_run rows st mq = sample_run chain_draft rows st
     [sample_spec 1001 [] [1002], sample_spec 1003 [sample_input ''i'' []] []]
     [sample_relation 1001 ''o'' 1003 ''i''] 4 mq"

definition join_run :: "node_row list \<Rightarrow> workflow_instance_status \<Rightarrow> task_result list \<Rightarrow> kstate" where
  "join_run rows st mq = sample_run join_draft rows st
     [sample_spec 1001 [] [1002], sample_spec 1003 [] [1004],
      sample_spec 1005 [sample_input ''i'' [], sample_input ''j'' []] []]
     [sample_relation 1001 ''o'' 1005 ''i'', sample_relation 1003 ''o'' 1005 ''j''] 6 mq"

definition chain_submitted :: kstate where
  "chain_submitted = chain_run [sample_row 1001 Created, sample_row 1003 Created] FCreated []"

definition chain_scheduled :: kstate where
  "chain_scheduled = chain_run [sample_row 1001 Running, sample_row 1003 Standby] FRunning
     [sample_result 1001 TSuccess]"

definition chain_paused :: kstate where
  "chain_paused = chain_run [sample_row 1001 Paused, sample_row 1003 Standby] FPaused
     [sample_result 1001 TSuccess, sample_result 1001 TPaused]"

definition join_submitted :: kstate where
  "join_submitted = join_run [sample_row 1001 Created, sample_row 1003 Created, sample_row 1005 Created]
     FCreated []"

definition join_scheduled :: kstate where
  "join_scheduled = join_run [sample_row 1001 Running, sample_row 1003 Running, sample_row 1005 Standby]
     FRunning [sample_result 1001 TSuccess, sample_result 1003 TSuccess]"

definition chain_ready :: kstate where
  "chain_ready = chain_scheduled\<lparr>db := (db chain_scheduled)\<lparr>node_rows :=
     [(sample_row 1001 Finished)\<lparr>nr_log := Some ''''\<rparr>, sample_row 1003 Standby]\<rparr>\<rparr>"

definition join_ready :: kstate where
  "join_ready = join_scheduled\<lparr>db := (db join_scheduled)\<lparr>node_rows :=
     [(sample_row 1001 Finished)\<lparr>nr_log := Some ''''\<rparr>, (sample_row 1003 Finished)\<lparr>nr_log := Some ''''\<rparr>,
      sample_row 1005 Standby]\<rparr>\<rparr>"

definition batch_submitted :: kstate where
  "batch_submitted = snd (the (submit_workflow 5 sample_env 50 (sample_state batch_draft)))"

section \<open>Evaluation\<close>

lemma sub_node_count_numeral [simp]:
  "sub_node_count (numeral v) oc w i =
     (case spec_node (wi_spec w) i of
        Inl e \<Rightarrow> Some (Inl e)
      | Inr ns \<Rightarrow>
          count_strategies oc (sub_node_count (pred_numeral v) oc w) w ns (batch_strategies ns) 1)"
  by (simp add: numeral_eq_Suc)

lemma sub_instances_numeral [simp]:
  "sub_instances gen k root n (numeral v) =
     sub_instance root (gen k) n # sub_instances gen (Suc k) root (Suc n) (pred_numeral v)"
  by (simp add: numeral_eq_Suc)

lemma fill_auto_numeral [simp]:
  "fill_auto oc content pat current step (numeral v) =
     (case i32_add oc current step of
        None \<Rightarrow> Inl Panic
      | Some next \<Rightarrow>
          rbind (fill_auto oc content pat next step (pred_numeral v))
            (\<lambda>ts. Inr (str_replace pat (show_i32 current) content # ts)))"
  by (simp add: numeral_eq_Suc)

lemma range_list: "f ` {a..<b :: nat} = set (map f [a..<b])"
  by simp

lemmas sample_defs = sample_env_def sample_input_def sample_output_def sample_node_def
  sample_relation_def sample_draft_def chain_draft_def join_draft_def batch_draft_def loop_draft_def
  sample_state_def sample_row_def sample_result_def sample_spec_def sample_run_def chain_run_def
  join_run_def chain_submitted_def chain_scheduled_def chain_paused_def chain_ready_def
  join_submitted_def join_scheduled_def join_ready_def batch_submitted_def

lemmas validate_defs = validate_workflow_draft_def validate_related_nodes_def check_relation_def
  check_slot_relation_def get_node_def draft_node_def get_input_slot_def get_output_slot_def
  mismatched_def validate_per_node_def check_node_def check_input_slot_def inputs_count_def
  has_cluster_def check_batch_strategy_def draft_input_slot_def relies_on_def

lemmas submit_defs = submit_workflow_def draft_get_by_id_def repo_user_def workflow_instance_from_def
  workflow_instance_spec_from_def Let_def node_spec_from_def output_slot_from_def collect_map_def
  update_id_def update_id_step_def parse_node_instances_def root_instance_def sub_instance_def
  spec_node_def usize_mul_def usize_max_def store_instance_def flow_insert_def node_insert_def
  push_stmt_def save_changed_def run_stmts_def svc_simps flow_row_from_def node_row_from_def

lemmas read_defs = read_db_def flow_get_by_id_def flow_by_id_def find_flow_row_def node_get_by_id_def
  node_by_id_def find_node_row_def nodes_where_def get_all_workflow_instance_nodes_def
  get_node_sub_node_instances_def is_all_same_entryment_nodes_success_def
  get_all_workflow_instance_stand_by_nodes_def flow_get_by_node_id_def node_from_row_def
  flow_from_row_def flow_update_def node_update_def flow_stmt_def status_from_i32_def
  all_statuses_def flow_status_from_i32_def all_flow_statuses_def kind_from_i32_def

lemmas schedule_defs = schedule_next_nodes_def first_entries_def next_entries_def
  find_entry_nodes_ids_def adjacency_map_def count_edge_def i32_add_def dependencies_def
  set_standby_def start_entries_def expand_entries_def entry_tasks_def node_dependency_relations_def
  set_running_def finish_flow_def fill_relied_inputs_def mut_input_slot_def output_slot_def
  input_slot_def fill_from_output_def all_tasks_text_outputs_def all_tasks_file_outputs_def
  nth_or_def send_usecase_def no_action_handle_usecase_def report_status_def start_workflow_def

lemmas command_defs = command_workflow_def pause_workflow_def continue_workflow_def
  terminate_workflow_def change_and_operate_def select_operate_task_def no_action_operate_task_def

lemmas sample_eval = sample_defs validate_defs submit_defs read_defs schedule_defs

lemma permutes_sample [simp]: "permutes_keys (key_order sample_env)"
  by (simp add: permutes_keys_def sample_env_def)

text \<open>These states are the ones the operations reach.\<close>

lemma submit_chain:
  "submit_workflow 5 sample_env 50 (sample_state chain_draft) = Some (Inr 1000, chain_submitted)"
  by (simp add: sample_eval)

lemma submit_join:
  "submit_workflow 5 sample_env 50 (sample_state join_draft) = Some (Inr 1000, join_submitted)"
  by (simp add: sample_eval)

lemma schedule_chain:
  "schedule_next_nodes sample_env (send_usecase sample_env) (WorkflowInstanceId 1000) chain_submitted
     = (Inr (), chain_scheduled)"
  by (simp add: sample_eval)

lemma schedule_join:
  "schedule_next_nodes sample_env (send_usecase sample_env) (WorkflowInstanceId 1000) join_submitted
     = (Inr (), join_scheduled)"
  by (simp add: sample_eval)

lemma pause_chain:
  "pause_workflow select_operate_task 1000 chain_scheduled = (Inr (), chain_paused)"
  by (simp add: sample_eval command_defs)

lemma chain_first_success:
  "recorded (sample_result 1001 TSuccess) (projr (node_by_id 1001 (db chain_scheduled))) chain_scheduled = chain_ready"
  by (simp add: sample_eval recorded_def record_result_def updates_def)

lemma join_both_successes:
  "\<exists>s. recorded (sample_result 1001 TSuccess) (projr (node_by_id 1001 (db join_scheduled))) join_scheduled = s \<and>
     recorded (sample_result 1003 TSuccess) (projr (node_by_id 1003 (db s))) s = join_ready"
  by (simp add: sample_eval recorded_def record_result_def updates_def)

end
