(* ===== verification/KC_DraftProps.thy ===== *)
theory KC_DraftProps
  imports KC_Samples
begin

text \<open>
  The properties of drafts and their submission: what the validation accepts, what a submission
  stores, when it returns, and how the graph and the batches of the draft appear in the instance.
\<close>

section \<open>Validation\<close>

text \<open>C7 A draft is accepted exactly when every relation joins an existing output slot to an existing,
  empty input slot of the same kind, and every node has the inputs, the files, the clusters and the
  batch sources it needs; the specification does not follow the order of the checks.\<close>

theorem draft_accepted_iff:
  "validate_workflow_draft meta ds = Inr () \<longleftrightarrow>
     related_ok ds \<and> (\<forall>nd \<in> set (node_drafts ds). node_ok meta ds nd)"
  by (rule validate_iff)

theorem draft_accepted_iff_witness:
  "related_ok (wd_spec join_draft) \<and>
   list_all (node_ok (\<lambda>_. True) (wd_spec join_draft)) (node_drafts (wd_spec join_draft))"
proof -
  have "validate_workflow_draft (\<lambda>_. True) (wd_spec join_draft) = Inr ()" by (simp add: sample_eval)
  then show ?thesis unfolding list_all_iff by (rule draft_accepted_iff [THEN iffD1])
qed

text \<open>A node with an \<open>OriginalBatch\<close> strategy is never accepted, however many inputs its slot
  has: \<open>!inputs_count() >= 1\<close> complements the bits of the count, so the test that should refuse
  an empty slot refuses every count below the largest \<open>usize\<close>.\<close>

theorem original_batch_refused:
  assumes "nd \<in> set (node_drafts ds)" "nd_batch_strategies nd = Some bs" "b \<in> set bs"
    and "bs_kind b = OriginalBatch" "get_input_slot nd (bs_slot b) = Some slot"
    and "inputs_count slot = Inr n" "n < usize_max"
  shows "validate_workflow_draft meta ds \<noteq> Inr ()"
proof
  assume "validate_workflow_draft meta ds = Inr ()"
  with assms(1-3) have "strategy_ok ds nd b" by (auto simp: validate_iff node_ok_def)
  with assms(4-7) show False by (simp add: strategy_ok_def)
qed

definition original_draft :: workflow_draft where
  "original_draft = sample_draft
     [sample_node 1 [\<lparr>bs_slot = ''i'', renaming_pattern = None, bs_kind = OriginalBatch\<rparr>]
        [sample_input ''i'' [11, 12]] []] []"

theorem original_batch_refused_witness:
  "validate_workflow_draft (\<lambda>_. True) (wd_spec original_draft) \<noteq> Inr ()"
  using original_batch_refused [of "sample_node 1 [\<lparr>bs_slot = ''i'', renaming_pattern = None, bs_kind = OriginalBatch\<rparr>]
      [sample_input ''i'' [11, 12]] []" "wd_spec original_draft"
      "[\<lparr>bs_slot = ''i'', renaming_pattern = None, bs_kind = OriginalBatch\<rparr>]"
      "\<lparr>bs_slot = ''i'', renaming_pattern = None, bs_kind = OriginalBatch\<rparr>" "sample_input ''i'' [11, 12]" 2]
  by (simp add: original_draft_def sample_eval)

section \<open>Submission\<close>



section \<open>When a submission returns\<close>

text \<open>The ids an instance of the draft draws before its sub-tasks: one for the flow, one for each
  node and each of its output slots.\<close>

definition spec_draws :: "workflow_draft_spec \<Rightarrow> nat" where
  "spec_draws ds = Suc (sum_list (map (\<lambda>nd. Suc (length (nd_output_slots nd))) (node_drafts ds)))"

lemma node_specs_from_draws:
  "node_specs_from gen k ls = (ns, k') \<Longrightarrow> k' = k + sum_list (map (\<lambda>nd. Suc (length (nd_output_slots nd))) ls)"
  by (induction ls arbitrary: k ns k') (fastforce simp: node_spec_from_def Let_def split: prod.splits)+

lemma workflow_instance_from_draws:
  "workflow_instance_from ho gen d l = (w, k) \<Longrightarrow> k = d + spec_draws (wd_spec l)"
  using node_specs_from_draws [OF workflow_instance_fromD(5)] by (fastforce simp: spec_draws_def)

text \<open>C21 Submitting an acyclic draft returns: fuel above the longest chain of relations is enough,
  so the recursion that counts the sub-tasks ends, whatever the draft's batches are.\<close>

theorem submit_returns:
  assumes "\<And>l. draft_get_by_id i s = (Inr l, s) \<Longrightarrow>
      draft_ranked rank (wd_spec l) \<and> (\<forall>nd \<in> set (node_drafts (wd_spec l)). rank (external_id nd) < fuel) \<and>
      distinct (map (uuid_gen ev) [drawn s..<drawn s + spec_draws (wd_spec l)]) \<and>
      set (map external_id (node_drafts (wd_spec l))) \<inter>
        set (map (uuid_gen ev) [drawn s..<drawn s + spec_draws (wd_spec l)]) = {}"
    and ho: "permutes_keys (key_order ev)"
  shows "\<exists>r t. submit_workflow fuel ev i s = Some (r, t)"
proof (cases "fst (draft_get_by_id i s)")
  case (Inl e)
  then show ?thesis by (cases "draft_get_by_id i s") (simp add: submit_workflow_def)
next
  case (Inr l)
  then have l: "draft_get_by_id i s = (Inr l, s)"
    using draft_get_by_id_state [of i s] by (cases "draft_get_by_id i s") simp
  show ?thesis
  proof (cases "validate_workflow_draft (meta_exists (db s)) (wd_spec l)")
    case (Inl e)
    with l show ?thesis by (simp add: submit_workflow_def)
  next
    case valid: (Inr u)
    obtain w k where w: "workflow_instance_from (key_order ev) (uuid_gen ev) (drawn s) l = (w, k)"
      by fastforce
    note wf = workflow_instance_fromD [OF w]
    have k: "k = drawn s + spec_draws (wd_spec l)" by (rule workflow_instance_from_draws [OF w])
    have "[drawn s..<k] = drawn s # [Suc (drawn s)..<k]" using wf(3) by (simp add: upt_conv_Cons)
    then have inj: "distinct (map (uuid_gen ev) [Suc (drawn s)..<k])" using assms(1) [OF l] k by simp
    have fresh: "external_id ` set (node_drafts (wd_spec l)) \<inter> uuid_gen ev ` {Suc (drawn s)..<k} = {}"
      using assms(1) [OF l] k by fastforce
    have rel: "related_ok (wd_spec l)" using valid by (cases u) (simp add: validate_iff)
    have dr: "draft_ranked rank (wd_spec l)" using assms(1) [OF l] by blast
    note rk = instance_ranked [OF wf(4) ho inj fresh dr rel refl [of "wi_spec w"]]
    have "\<forall>ns \<in> set (node_specs (wi_spec w)).
        instance_rank rank (wd_spec l) (wi_spec w) (ns_id ns) < fuel"
      using rk(2) assms(1) [OF l] by fastforce
    then have "parse_node_instances fuel (overflow_checks ev) (uuid_gen ev) k w \<noteq> None"
      unfolding parse_node_instances_def by (rule parse_nodes_total [OF rk(1)])
    then show ?thesis
      using l valid w by (auto simp: submit_workflow_def split: sum.splits)
  qed
qed

theorem submit_returns_witness:
  "\<exists>r t. submit_workflow 5 sample_env 50 (sample_state join_draft) = Some (r, t)"
  by (rule submit_returns [where rank = unat])
    (auto simp: sample_eval draft_ranked_def spec_draws_def permutes_keys_def simp del: set_upt set_map)




section \<open>The instance and the draft\<close>

text \<open>C23 The relations of the instance are those of the draft, the ids at both ends replaced by the
  ids given to the nodes at the same positions, whatever the order the id map is iterated in.\<close>

theorem instance_keeps_graph:
  assumes "workflow_instance_spec_from (key_order ev) (uuid_gen ev) k ds = (sp, k')"
    and "permutes_keys (key_order ev)" "distinct (map (uuid_gen ev) [k..<k'])"
    and "external_id ` set (node_drafts ds) \<inter> uuid_gen ev ` {k..<k'} = {}"
    and "distinct (map external_id (node_drafts ds))"
  shows "length (node_specs sp) = length (node_drafts ds) \<and>
    distinct (map ns_id (node_specs sp)) \<and>
    length (node_relations sp) = length (ds_node_relations ds) \<and>
    (\<forall>j < length (ds_node_relations ds). \<forall>a < length (node_drafts ds). \<forall>b < length (node_drafts ds).
      from_id (ds_node_relations ds ! j) = external_id (node_drafts ds ! a) \<and>
      to_id (ds_node_relations ds ! j) = external_id (node_drafts ds ! b) \<longrightarrow>
      node_relations sp ! j = (ds_node_relations ds ! j)
        \<lparr>from_id := ns_id (node_specs sp ! a), to_id := ns_id (node_specs sp ! b)\<rparr>)"
proof -
  note sf = spec_from_relations [OF assms(1,2,4)]
  have "length (node_specs sp) = length (node_drafts ds)" using node_specs_from_ids [OF sf(2)] by simp
  moreover have "distinct (map ns_id (node_specs sp))"
    by (rule node_specs_from_distinct(1) [OF sf(2) assms(3)])
  moreover have "length (node_relations sp) = length (ds_node_relations ds)" by (simp add: sf(1))
  ultimately show ?thesis using spec_from_relation_nth [OF assms] by blast
qed

definition join_spec :: "workflow_instance_spec \<times> nat" where
  "join_spec = workflow_instance_spec_from (key_order sample_env) (uuid_gen sample_env) 1 (wd_spec join_draft)"

theorem instance_keeps_graph_witness:
  "node_relations (fst join_spec) ! 1 =
     (ds_node_relations (wd_spec join_draft) ! 1)\<lparr>from_id := 1003, to_id := 1005\<rparr>"
proof -
  have "ns_id (node_specs (fst join_spec) ! 1) = 1003" "ns_id (node_specs (fst join_spec) ! 2) = 1005"
    by (simp_all add: sample_eval join_spec_def)
  moreover have "node_relations (fst join_spec) ! 1 = (ds_node_relations (wd_spec join_draft) ! 1)
      \<lparr>from_id := ns_id (node_specs (fst join_spec) ! 1), to_id := ns_id (node_specs (fst join_spec) ! 2)\<rparr>"
    using instance_keeps_graph [of sample_env 1 "wd_spec join_draft" "fst join_spec" 6]
    by (auto simp: sample_eval join_spec_def range_list simp del: set_upt set_map)
  ultimately show ?thesis by simp
qed

text \<open>Two iteration orders of the id map give the same instance.\<close>

theorem instance_hash_independent:
  assumes "permutes_keys ho" "permutes_keys ho'"
    and "workflow_instance_spec_from ho gen k ds = (sp, k')"
    and "external_id ` set (node_drafts ds) \<inter> gen ` {k..<k'} = {}"
  shows "workflow_instance_spec_from ho' gen k ds = (sp, k')"
proof -
  obtain sp' k'' where sp': "workflow_instance_spec_from ho' gen k ds = (sp', k'')" by fastforce
  have ns: "node_specs_from gen k (node_drafts ds) = (node_specs sp', k'')"
    using sp' by (auto simp: workflow_instance_spec_from_def Let_def split: prod.splits)
  note a = spec_from_relations [OF assms(3,1,4)]
  from a(2) ns have e: "node_specs sp' = node_specs sp" "k'' = k'" by simp_all
  note b = spec_from_relations [OF sp' assms(2)]
  have "node_relations sp' = node_relations sp" using a(1) b(1) assms(4) e by simp
  moreover have "ws_scheduling_strategy sp' = ws_scheduling_strategy sp"
    using sp' assms(3) by (auto simp: workflow_instance_spec_from_def Let_def split: prod.splits)
  ultimately have "sp' = sp" using e by simp
  with sp' e show ?thesis by simp
qed

theorem instance_hash_independent_witness:
  "workflow_instance_spec_from rev (uuid_gen sample_env) 1 (wd_spec join_draft) = join_spec"
proof -
  have "workflow_instance_spec_from rev (uuid_gen sample_env) 1 (wd_spec join_draft) = (fst join_spec, snd join_spec)"
    by (rule instance_hash_independent [where ho = "key_order sample_env"])
      (auto simp: sample_eval join_spec_def permutes_keys_def range_list simp del: set_upt set_map)
  then show ?thesis by simp
qed

section \<open>Batches\<close>

text \<open>The node instances stored for an instance: a batched node has exactly as many sub-instances
  as its strategies count, a node without strategies has none.\<close>

theorem sub_instances_counted:
  assumes "parse_node_instances fuel oc gen k w = Some (Inr (nis, k'))"
    and "distinct (map ns_id (node_specs (wi_spec w)))" "ns \<in> set (node_specs (wi_spec w))"
  shows "if batch_strategies ns = [] then subs_of (ns_id ns) nis = []
    else sub_node_count fuel oc w (ns_id ns) = Some (Inr (length (subs_of (ns_id ns) nis)))"
  using parse_nodes_subs [OF assms(1) [unfolded parse_node_instances_def] assms(2,3)] .

definition batch_instance :: workflow_instance where
  "batch_instance = fst (workflow_instance_from (\<lambda>ks. ks) (uuid_gen sample_env) 0 batch_draft)"

definition batch_nodes :: "node_instance list" where
  "batch_nodes = (case parse_node_instances 5 True (uuid_gen sample_env) 3 batch_instance of
     Some (Inr (nis, k)) \<Rightarrow> nis | _ \<Rightarrow> [])"

theorem sub_instances_counted_witness:
  "sub_node_count 5 True batch_instance 1001 = Some (Inr (length (subs_of 1001 batch_nodes))) \<and>
   length (subs_of 1001 batch_nodes) = 6"
proof -
  have "if batch_strategies (node_specs (wi_spec batch_instance) ! 0) = [] then subs_of 1001 batch_nodes = []
      else sub_node_count 5 True batch_instance 1001 = Some (Inr (length (subs_of 1001 batch_nodes)))"
    using sub_instances_counted [of 5 True "uuid_gen sample_env" 3 batch_instance batch_nodes 9
        "node_specs (wi_spec batch_instance) ! 0"]
    by (simp add: sample_eval batch_instance_def batch_nodes_def)
  then show ?thesis by (simp add: sample_eval batch_instance_def batch_nodes_def subs_of_def)
qed








section \<open>Fillers\<close>

lemma i32_add_Some: "i32_add oc a b = Some x \<Longrightarrow> x = a + b"
  by (auto simp: i32_add_def split: if_splits)

lemma fill_auto_values:
  "fill_auto oc c p a st n = Inr ts \<Longrightarrow> i < n \<Longrightarrow> ts ! i = str_replace p (show_i32 (a + of_nat i * st)) c"
proof (induction n arbitrary: a ts i)
  case (Suc n)
  from Suc.prems(1) obtain us where us: "fill_auto oc c p (a + st) st n = Inr us"
    and ts: "ts = str_replace p (show_i32 a) c # us"
    by (auto simp: rbind_Inr_iff dest: i32_add_Some split: option.splits)
  show ?case
    using Suc.IH [OF us] Suc.prems(2) ts by (cases i) (simp_all add: algebra_simps)
qed simp

text \<open>Filling with an \<open>AutoNumber\<close> gives as many texts as asked, the i-th with the value
  \<open>start + i * step\<close> of the \<open>i32\<close> (wrapped around in a release build) in place of the pattern.\<close>

theorem auto_number_values:
  assumes "fill_match_regex oc rnd k (AutoNumber start step) content regex n = Inr ts"
  shows "length ts = n \<and>
    (\<forall>i < n. ts ! i = str_replace regex (show_i32 (start + of_nat i * step)) content)"
  using assms fill_match_regex_length [OF assms] by (simp add: fill_match_regex_def fill_auto_values)

theorem auto_number_values_witness:
  "\<exists>ts. fill_match_regex False (\<lambda>k. k) 0 (AutoNumber 2147483647 1) ''x'' ''x'' 2 = Inr ts \<and>
     ts ! 1 = str_replace ''x'' (show_i32 (- 2147483648)) ''x''"
proof -
  obtain ts where ts: "fill_match_regex False (\<lambda>k. k) 0 (AutoNumber 2147483647 1) ''x'' ''x'' 2 = Inr ts"
    by (simp add: fill_match_regex_def i32_add_def)
  have "ts ! 1 = str_replace ''x'' (show_i32 (2147483647 + of_nat 1 * 1)) ''x''"
    by (rule auto_number_values [OF ts, THEN conjunct2, rule_format]) simp
  moreover have "(2147483647 :: i32) + of_nat 1 * 1 = - 2147483648" by simp
  ultimately have "ts ! 1 = str_replace ''x'' (show_i32 (- 2147483648)) ''x''" by (simp only:)
  with ts show ?thesis by blast
qed

lemma sint_add_in_range:
  fixes a b :: i32
  assumes "sint a + sint b \<in> {- (2 ^ 31)..2 ^ 31 - 1}"
  shows "sint (a + b) = sint a + sint b"
  using assms by (simp add: sint_word_ariths signed_take_bit_int_eq_self)

text \<open>With overflow checks an \<open>AutoNumber\<close> fills all texts, or panics exactly when one of the
  values after the first, the one past the last text included, leaves the range of \<open>i32\<close>.\<close>

theorem auto_number_overflow:
  "fill_auto True content regex start step n = Inl Panic \<longleftrightarrow>
     (\<exists>j. 0 < j \<and> j \<le> n \<and> sint start + int j * sint step \<notin> {- (2 ^ 31)..2 ^ 31 - 1})"
proof (induction n arbitrary: start)
  case (Suc n)
  show ?case
  proof (cases "sint start + sint step \<in> {- (2 ^ 31)..2 ^ 31 - 1}")
    case False
    then have "fill_auto True content regex start step (Suc n) = Inl Panic" by (simp add: i32_add_def)
    moreover have "\<exists>j. 0 < j \<and> j \<le> Suc n \<and> sint start + int j * sint step \<notin> {- (2 ^ 31)..2 ^ 31 - 1}"
      using False by (intro exI [of _ 1]) simp
    ultimately show ?thesis by blast
  next
    case True
    then have "fill_auto True content regex start step (Suc n) = Inl Panic \<longleftrightarrow>
        fill_auto True content regex (start + step) step n = Inl Panic"
      by (cases "fill_auto True content regex (start + step) step n") (simp_all add: i32_add_def)
    also have "\<dots> \<longleftrightarrow> (\<exists>j. 0 < j \<and> j \<le> n \<and>
        sint start + int (Suc j) * sint step \<notin> {- (2 ^ 31)..2 ^ 31 - 1})"
      unfolding Suc.IH sint_add_in_range [OF True] by (simp add: algebra_simps)
    also have "\<dots> \<longleftrightarrow> (\<exists>j. 0 < j \<and> j \<le> Suc n \<and>
        sint start + int j * sint step \<notin> {- (2 ^ 31)..2 ^ 31 - 1})" (is "?L \<longleftrightarrow> ?R")
    proof
      assume ?L
      then obtain j where "0 < j" "j \<le> n" "sint start + int (Suc j) * sint step \<notin> {- (2 ^ 31)..2 ^ 31 - 1}"
        by blast
      then show ?R by (intro exI [of _ "Suc j"]) simp
    next
      assume ?R
      then obtain j where j: "0 < j" "j \<le> Suc n" "sint start + int j * sint step \<notin> {- (2 ^ 31)..2 ^ 31 - 1}"
        by blast
      with True have "j \<noteq> 1" by auto
      with j obtain i where "j = Suc i" "0 < i" by (cases j) auto
      with j show ?L by auto
    qed
    finally show ?thesis .
  qed
qed auto

end
