(* ===== verification/KC_FlowProps.thy ===== *)
theory KC_FlowProps
  imports KC_Samples
begin

text \<open>
  The properties of a running instance: which nodes a scheduling starts, holds back or leaves, what
  pausing, continuing and terminating change, what a task result changes, and what the repository
  guarantees about statements and rows.
\<close>

section \<open>Scheduling\<close>

text \<open>The entry nodes are the given ids that no dependency ends at, each once, whatever the
  iteration order of the adjacency map; the counts do not overflow below \<open>2 ^ 31\<close> dependencies.\<close>

theorem entry_nodes_exact:
  assumes "permutes_keys ho" "int (length deps) < 2 ^ 31"
  shows "\<exists>es. find_entry_nodes_ids oc ho ids deps = Inr es \<and> distinct es \<and>
    set es = set ids - snd ` set deps"
  by (rule find_entry_nodes [OF assms])

theorem entry_nodes_exact_witness:
  "\<exists>es. find_entry_nodes_ids True rev [4, 5, 6] [(4, 6), (5, 6)] = Inr es \<and> distinct es \<and> set es = {4, 5}"
proof -
  have "{4, 5, 6} - {6 :: uuid} = {4, 5}" by auto
  then show ?thesis
    using entry_nodes_exact [of rev "[(4, 6), (5, 6)]" True "[4, 5, 6]"] by (simp add: permutes_keys_def)
qed

text \<open>C2 A first scheduling that succeeds puts every node of the instance that a relation ends at into
  standby and starts every other one; the flow runs, or is finished when no node can start, and the
  nodes and relations it stores are those it read.\<close>

theorem first_scheduling:
  assumes "schedule_next_nodes ev (send_usecase ev) (WorkflowInstanceId i) s = (Inr (), t)"
    and "idle s" "permutes_keys (key_order ev)" "flow_by_id i (db s) = Inr w"
    and "few_relations (wi_spec w)" "roots_only (db s) (wi_spec w)"
  shows "(\<forall>ns \<in> set (node_specs (wi_spec w)). status_at (ns_id ns) (db s) \<noteq> None \<longrightarrow>
      status_at (ns_id ns) (db t) =
        Some (status_code (if has_pred (wi_spec w) (ns_id ns) then Standby else Running))) \<and>
    (\<exists>v. flow_by_id i (db t) = Inr v \<and>
      wi_status v = (if \<exists>ns \<in> set (node_specs (wi_spec w)). \<not> has_pred (wi_spec w) (ns_id ns)
                     then FRunning else FFinished) \<and>
      map ns_id (node_specs (wi_spec v)) = map ns_id (node_specs (wi_spec w)) \<and>
      node_relations (wi_spec v) = node_relations (wi_spec w)) \<and>
    idle t"
  using sender.first_schedule_effect [OF assms] by blast

lemmas schedule_facts = idle_def keys_ok_def few_relations_def roots_only_def status_at_def
  has_pred_def held_back_def

theorem first_scheduling_witness:
  "map (\<lambda>i. status_at i (db join_scheduled)) [1001, 1003, 1005] =
     [Some (status_code Running), Some (status_code Running), Some (status_code Standby)]"
proof -
  obtain w where w: "flow_by_id 1000 (db join_submitted) = Inr w"
    "map ns_id (node_specs (wi_spec w)) = [1001, 1003, 1005]"
    "map (has_pred (wi_spec w)) [1001, 1003, 1005] = [False, False, True]"
    by (simp add: sample_eval schedule_facts)
  have side: "few_relations (wi_spec w)" "roots_only (db join_submitted) (wi_spec w)"
    "idle join_submitted" "\<forall>i \<in> {1001, 1003, 1005}. status_at i (db join_submitted) \<noteq> None"
    using w(1) by (auto simp: sample_eval schedule_facts)
  have "\<forall>ns \<in> set (node_specs (wi_spec w)). status_at (ns_id ns) (db join_submitted) \<noteq> None \<longrightarrow>
      status_at (ns_id ns) (db join_scheduled) =
        Some (status_code (if has_pred (wi_spec w) (ns_id ns) then Standby else Running))"
    using first_scheduling [OF schedule_join side(3) permutes_sample w(1) side(1,2)] by blast
  then have "\<forall>i \<in> ns_id ` set (node_specs (wi_spec w)). status_at i (db join_submitted) \<noteq> None \<longrightarrow>
      status_at i (db join_scheduled) = Some (status_code (if has_pred (wi_spec w) i then Standby else Running))"
    by blast
  moreover have "ns_id ` set (node_specs (wi_spec w)) = {1001, 1003, 1005}"
    using arg_cong [OF w(2), of set] by simp
  ultimately show ?thesis using side(4) w(3) by (simp del: status_code.simps)
qed

section \<open>Progress\<close>

text \<open>C24 An instance with nodes and an acyclic graph is running after its first scheduling: some node
  is started, and the flow is not finished.\<close>

theorem acyclic_instance_runs:
  assumes "schedule_next_nodes ev (send_usecase ev) (WorkflowInstanceId i) s = (Inr (), t)"
    and "idle s" "permutes_keys (key_order ev)" "flow_by_id i (db s) = Inr w"
    and "few_relations (wi_spec w)" "roots_only (db s) (wi_spec w)"
    and "ranked rank w" "node_specs (wi_spec w) \<noteq> []"
    and "\<forall>r \<in> set (node_relations (wi_spec w)). from_id r \<in> ns_id ` set (node_specs (wi_spec w))"
    and "\<forall>ns \<in> set (node_specs (wi_spec w)). status_at (ns_id ns) (db s) \<noteq> None"
  shows "(\<exists>v. flow_by_id i (db t) = Inr v \<and> wi_status v = FRunning) \<and>
    (\<exists>ns \<in> set (node_specs (wi_spec w)). status_at (ns_id ns) (db t) = Some (status_code Running))"
proof -
  have "set (map ns_id (node_specs (wi_spec w))) - snd ` set (dependencies (node_relations (wi_spec w))) \<noteq> {}"
    by (rule acyclic_has_entry [where rank = rank]) (use assms(7-9) in \<open>auto simp: ranked_def\<close>)
  then obtain j where "j \<in> set (map ns_id (node_specs (wi_spec w)))"
    "j \<notin> snd ` set (dependencies (node_relations (wi_spec w)))" by blast
  then have "j \<in> ns_id ` set (node_specs (wi_spec w)) \<and> \<not> has_pred (wi_spec w) j"
    by (auto simp: dependencies_def has_pred_def image_iff)
  then obtain ns where ns: "ns \<in> set (node_specs (wi_spec w))" "\<not> has_pred (wi_spec w) (ns_id ns)"
    by blast
  note eff = sender.first_schedule_effect [OF assms(1-6)]
  from eff(2) ns have "\<exists>v. flow_by_id i (db t) = Inr v \<and> wi_status v = FRunning" by auto
  moreover have "status_at (ns_id ns) (db t) = Some (status_code Running)"
    using eff(1) [OF ns(1)] assms(10) ns by (simp del: status_code.simps)
  ultimately show ?thesis using ns(1) by blast
qed

theorem acyclic_instance_runs_witness:
  "\<exists>v. flow_by_id 1000 (db join_scheduled) = Inr v \<and> wi_status v = FRunning"
proof -
  obtain w where w: "flow_by_id 1000 (db join_submitted) = Inr w"
    "map ns_id (node_specs (wi_spec w)) = [1001, 1003, 1005]" "ranked unat w"
    "\<forall>r \<in> set (node_relations (wi_spec w)). from_id r \<in> {1001, 1003, 1005}"
    by (simp add: sample_eval schedule_facts ranked_def)
  have ids: "ns_id ` set (node_specs (wi_spec w)) = {1001, 1003, 1005}"
    using arg_cong [OF w(2), of set] by simp
  have side: "few_relations (wi_spec w)" "roots_only (db join_submitted) (wi_spec w)"
    "idle join_submitted"
    using w(1) by (auto simp: sample_eval schedule_facts)
  have "\<forall>i \<in> {1001, 1003, 1005}. status_at i (db join_submitted) \<noteq> None"
    by (simp add: sample_eval schedule_facts)
  then have rows: "\<forall>ns \<in> set (node_specs (wi_spec w)). status_at (ns_id ns) (db join_submitted) \<noteq> None"
    using ids by blast
  have "node_specs (wi_spec w) \<noteq> []" using w(2) by auto
  from acyclic_instance_runs [OF schedule_join side(3) permutes_sample w(1) side(1,2) w(3) this _ rows]
  show ?thesis using w(4) ids by simp
qed

section \<open>Scheduling after a node\<close>

text \<open>C9 After a node succeeded, a standing-by node of the flow is started exactly when no relation
  that avoids the finished node ends at it: the relations of nodes finished earlier still hold their
  targets back.\<close>

theorem next_scheduling:
  assumes "schedule_next_nodes ev (send_usecase ev) (NodeInstanceId i) s = (Inr (), t)"
    and "idle s" "permutes_keys (key_order ev)" "node_by_id i (db s) = Inr n"
    and "flow_by_id (flow_instance_id n) (db s) = Inr w" "few_relations (wi_spec w)"
    and "roots_only (db s) (wi_spec w)" "ns \<in> set (node_specs (wi_spec w))"
    and "find_node_row (ns_id ns) (db s) = Some r" "nr_flow_instance_id r = wi_id w"
    and "nr_status r = status_code Standby"
  shows "status_at (ns_id ns) (db t) =
      Some (status_code (if held_back (wi_spec w) i (ns_id ns) then Standby else Running))"
  by (rule sender.next_schedule_effect [OF assms])

theorem next_scheduling_witness:
  "\<exists>t. schedule_next_nodes sample_env (send_usecase sample_env) (NodeInstanceId 1001) chain_ready = (Inr (), t) \<and>
     status_at 1003 (db t) = Some (status_code Running)"
proof -
  obtain t where t: "schedule_next_nodes sample_env (send_usecase sample_env) (NodeInstanceId 1001) chain_ready = (Inr (), t)"
    by (simp add: sample_eval schedule_facts)
  obtain n w where n: "node_by_id 1001 (db chain_ready) = Inr n" "flow_by_id (flow_instance_id n) (db chain_ready) = Inr w"
    "wi_id w = 1000" "map ns_id (node_specs (wi_spec w)) = [1001, 1003]" "\<not> held_back (wi_spec w) 1001 1003"
    by (simp add: sample_eval schedule_facts)
  obtain r where r: "find_node_row 1003 (db chain_ready) = Some r" "nr_flow_instance_id r = 1000"
    "nr_status r = status_code Standby"
    by (simp add: sample_eval schedule_facts)
  have side: "few_relations (wi_spec w)" "roots_only (db chain_ready) (wi_spec w)" "idle chain_ready"
    using n(1,2) by (auto simp: sample_eval schedule_facts)
  have "1003 \<in> ns_id ` set (node_specs (wi_spec w))" using arg_cong [OF n(4), of set] by simp
  then obtain ns where ns: "ns \<in> set (node_specs (wi_spec w))" "ns_id ns = 1003" by (metis imageE)
  have "status_at 1003 (db t) = Some (status_code Running)"
    using next_scheduling [OF t side(3) permutes_sample n(1,2) side(1,2) ns(1)] r n(3,5) ns(2)
    by (simp del: status_code.simps)
  with t show ?thesis by blast
qed

section \<open>A join is finished early\<close>

text \<open>C33 When every standing-by node has a relation that avoids the node that just succeeded, the
  scheduling starts nothing and marks the flow finished: the node rows stay as they are, so a node
  fed by two others stands by for ever in a finished flow.\<close>

theorem held_back_flow_finishes:
  assumes "idle s" "permutes_keys (key_order ev)" "node_by_id i (db s) = Inr n"
    and "flow_by_id (flow_instance_id n) (db s) = Inr w" "few_relations (wi_spec w)"
    and "fst (is_all_same_entryment_nodes_success i s) = Inr True"
    and "\<forall>r \<in> set (node_rows (db s)). nr_flow_instance_id r = wi_id w \<longrightarrow> \<not> isl (node_from_row r)"
    and "\<forall>r \<in> set (node_rows (db s)). nr_flow_instance_id r = wi_id w \<and> nr_status r = status_code Standby
      \<longrightarrow> held_back (wi_spec w) i (nr_id r)"
  shows "\<exists>t. schedule_next_nodes ev (send_usecase ev) (NodeInstanceId i) s = (Inr (), t) \<and>
    node_rows (db t) = node_rows (db s) \<and>
    flow_by_id (wi_id w) (db t) = Inr (w\<lparr>wi_status := FFinished\<rparr>)"
  by (rule sender.next_schedule_finishes [OF assms])

theorem held_back_flow_finishes_witness:
  "\<exists>t w. schedule_next_nodes sample_env (send_usecase sample_env) (NodeInstanceId 1003) join_ready = (Inr (), t) \<and>
     flow_by_id 1000 (db t) = Inr w \<and> wi_status w = FFinished \<and>
     node_rows (db t) = node_rows (db join_ready)"
proof -
  obtain n w where n: "node_by_id 1003 (db join_ready) = Inr n"
    "flow_by_id (flow_instance_id n) (db join_ready) = Inr w" "wi_id w = 1000"
    by (simp add: sample_eval schedule_facts)
  have "few_relations (wi_spec w)" "idle join_ready"
    "fst (is_all_same_entryment_nodes_success 1003 join_ready) = Inr True"
    "\<forall>r \<in> set (node_rows (db join_ready)). nr_flow_instance_id r = wi_id w \<longrightarrow> \<not> isl (node_from_row r)"
    "\<forall>r \<in> set (node_rows (db join_ready)). nr_flow_instance_id r = wi_id w \<and> nr_status r = status_code Standby
      \<longrightarrow> held_back (wi_spec w) 1003 (nr_id r)"
    using n by (auto simp: sample_eval schedule_facts)
  from held_back_flow_finishes [OF this(2) permutes_sample n(1,2) this(1,3-5)] n(3)
  show ?thesis by auto
qed

section \<open>Pause, continue, terminate\<close>

text \<open>C13 Pausing either fails and changes no row, or makes the flow paused and exactly its running
  nodes paused; every other node and flow keeps all its fields.\<close>

theorem pause_exact:
  assumes "idle s" "pause_workflow select_operate_task i s = (r, t)"
  shows "(\<exists>e. r = Inl e \<and> db t = db s) \<or>
    (r = Inr () \<and> idle t \<and> (\<exists>w. flow_by_id i (db s) = Inr w) \<and>
     (\<forall>j n. node_by_id j (db s) = Inr n \<longrightarrow> node_by_id j (db t) =
        Inr (if flow_instance_id n = i \<and> ni_status n = Running then n\<lparr>ni_status := Paused\<rparr> else n)) \<and>
     (\<forall>j v. flow_by_id j (db s) = Inr v \<longrightarrow>
        flow_by_id j (db t) = Inr (if j = i then v\<lparr>wi_status := FPaused\<rparr> else v)))"
  using select.command_effect [OF assms(1) assms(2) [unfolded pause_workflow_def]] .

lemma chain_scheduled_idle: "idle chain_scheduled"
  by (simp add: sample_eval schedule_facts)

theorem pause_exact_witness:
  "\<exists>n. node_by_id 1001 (db chain_scheduled) = Inr n \<and> ni_status n = Running \<and>
     node_by_id 1001 (db chain_paused) = Inr (n\<lparr>ni_status := Paused\<rparr>)"
proof -
  obtain n where n: "node_by_id 1001 (db chain_scheduled) = Inr n" "flow_instance_id n = 1000"
    "ni_status n = Running"
    by (simp add: sample_eval schedule_facts)
  from pause_exact [OF chain_scheduled_idle pause_chain] n show ?thesis by auto
qed

text \<open>Terminating either fails and changes no row, or makes the flow stopped and exactly its running
  and paused nodes stopped.\<close>

theorem terminate_exact:
  assumes "idle s" "terminate_workflow select_operate_task i s = (r, t)"
  shows "(\<exists>e. r = Inl e \<and> db t = db s) \<or>
    (r = Inr () \<and> idle t \<and> (\<exists>w. flow_by_id i (db s) = Inr w) \<and>
     (\<forall>j n. node_by_id j (db s) = Inr n \<longrightarrow> node_by_id j (db t) =
        Inr (if flow_instance_id n = i \<and> (ni_status n = Running \<or> ni_status n = Paused)
             then n\<lparr>ni_status := Stopped\<rparr> else n)) \<and>
     (\<forall>j v. flow_by_id j (db s) = Inr v \<longrightarrow>
        flow_by_id j (db t) = Inr (if j = i then v\<lparr>wi_status := FStopped\<rparr> else v)))"
  using select.command_effect [OF assms(1) assms(2) [unfolded terminate_workflow_def]] .

theorem terminate_exact_witness:
  "\<exists>n. node_by_id 1001 (db chain_paused) = Inr n \<and> ni_status n = Paused \<and>
     node_by_id 1001 (db (snd (terminate_workflow select_operate_task 1000 chain_paused))) = Inr (n\<lparr>ni_status := Stopped\<rparr>)"
proof -
  have i: "idle chain_paused" by (simp add: sample_eval schedule_facts command_defs)
  have r: "terminate_workflow select_operate_task 1000 chain_paused =
      (Inr (), snd (terminate_workflow select_operate_task 1000 chain_paused))"
    by (simp add: sample_eval schedule_facts command_defs)
  obtain n where n: "node_by_id 1001 (db chain_paused) = Inr n" "flow_instance_id n = 1000" "ni_status n = Paused"
    by (simp add: sample_eval schedule_facts command_defs)
  from terminate_exact [OF i r] n show ?thesis by auto
qed

text \<open>C26 Pausing a running flow and continuing it brings back every node and flow, when no node of it
  was paused before.\<close>

theorem pause_continue_restores:
  assumes "idle s" "pause_workflow select_operate_task i s = (Inr (), t)"
    and "continue_workflow select_operate_task i t = (Inr (), u)"
    and "flow_by_id i (db s) = Inr w" "wi_status w = FRunning"
    and "\<forall>j n. node_by_id j (db s) = Inr n \<and> flow_instance_id n = i \<longrightarrow> ni_status n \<noteq> Paused"
  shows "(\<forall>j n. node_by_id j (db s) = Inr n \<longrightarrow> node_by_id j (db u) = Inr n) \<and>
    (\<forall>j v. flow_by_id j (db s) = Inr v \<longrightarrow> flow_by_id j (db u) = Inr v)"
proof -
  note p = select.command_effect [OF assms(1) assms(2) [unfolded pause_workflow_def]]
  then have idle: "idle t"
    and pn: "\<And>j n. node_by_id j (db s) = Inr n \<Longrightarrow> node_by_id j (db t) =
        Inr (if flow_instance_id n = i \<and> ni_status n = Running then n\<lparr>ni_status := Paused\<rparr> else n)"
    and pf: "\<And>j v. flow_by_id j (db s) = Inr v \<Longrightarrow>
        flow_by_id j (db t) = Inr (if j = i then v\<lparr>wi_status := FPaused\<rparr> else v)" by auto
  from select.command_effect [OF idle assms(3) [unfolded continue_workflow_def]]
  have cn: "\<And>j n. node_by_id j (db t) = Inr n \<Longrightarrow> node_by_id j (db u) =
        Inr (if flow_instance_id n = i \<and> ni_status n = Paused then n\<lparr>ni_status := Running\<rparr> else n)"
    and cf: "\<And>j v. flow_by_id j (db t) = Inr v \<Longrightarrow>
        flow_by_id j (db u) = Inr (if j = i then v\<lparr>wi_status := FRunning\<rparr> else v)" by auto
  have "node_by_id j (db u) = Inr n" if n: "node_by_id j (db s) = Inr n" for j n
    using cn [OF pn [OF n]] assms(6) n by (auto split: if_splits)
  moreover have "flow_by_id j (db u) = Inr v" if v: "flow_by_id j (db s) = Inr v" for j v
    using cf [OF pf [OF v]] assms(4,5) v by (auto split: if_splits)
  ultimately show ?thesis by blast
qed

theorem pause_continue_restores_witness:
  "\<exists>n. node_by_id 1001 (db chain_scheduled) = Inr n \<and> ni_status n = Running \<and>
     node_by_id 1001 (db (snd (continue_workflow select_operate_task 1000 chain_paused))) = Inr n"
proof -
  have c: "continue_workflow select_operate_task 1000 chain_paused =
      (Inr (), snd (continue_workflow select_operate_task 1000 chain_paused))"
    by (simp add: sample_eval schedule_facts command_defs)
  obtain n where n: "node_by_id 1001 (db chain_scheduled) = Inr n" "ni_status n = Running"
    by (simp add: sample_eval schedule_facts)
  obtain w where w: "flow_by_id 1000 (db chain_scheduled) = Inr w" "wi_status w = FRunning"
    by (simp add: sample_eval schedule_facts)
  have "\<forall>j n. node_by_id j (db chain_scheduled) = Inr n \<and> flow_instance_id n = 1000 \<longrightarrow> ni_status n \<noteq> Paused"
    by (auto simp: sample_eval schedule_facts split: if_splits)
  from pause_continue_restores [OF chain_scheduled_idle pause_chain c w this] n show ?thesis by blast
qed

section \<open>Task results\<close>

text \<open>C12 A result other than a success is recorded on its node alone and settles the flow: a failure
  makes it an error, a pause or a deletion makes it paused or stopped unless another node is still
  pausing or stopping, a continuation leaves it.\<close>

theorem result_recorded:
  assumes "idle s" "tr_status result \<noteq> TSuccess" "node_by_id (tr_id result) (db s) = Inr n"
    and "flow_by_id (flow_instance_id n) (db s) = Inr w" "rows_decode (db s) (wi_id w)"
  shows "\<exists>t. receive_node_status ev (send_usecase ev) result s = (Inr (), t) \<and> idle t \<and>
    (\<forall>j m. node_by_id j (db s) = Inr m \<longrightarrow> node_by_id j (db t) =
       Inr (if j = tr_id result then record_result result m else m)) \<and>
    flow_by_id (wi_id w) (db t) = Inr (w\<lparr>wi_status := flow_status_after (db s) w result\<rparr>)"
proof -
  obtain t where t: "receive_node_status ev (send_usecase ev) result s = (Inr (), t)" "idle t"
    "node_rows (db t) = node_rows (db (recorded result n s))"
    "flow_by_id (wi_id w) (db t) = Inr (w\<lparr>wi_status := flow_status_after (db s) w result\<rparr>)"
    using receive_effect [OF assms] by blast
  have "node_by_id j (db t) = Inr (if j = tr_id result then record_result result m else m)"
    if "node_by_id j (db s) = Inr m" for j m
    using recorded_nodes [OF assms(1,3) that] t(3) by (simp add: node_by_id_def find_node_row_def)
  with t show ?thesis by blast
qed

definition failure :: task_result where
  "failure = \<lparr>tr_id = 1001, tr_status = TFailed, tr_message = ''boom'', tr_used_resources = None\<rparr>"

theorem result_recorded_witness:
  "\<exists>t w. receive_node_status sample_env (send_usecase sample_env) failure chain_scheduled = (Inr (), t) \<and>
     flow_by_id 1000 (db t) = Inr w \<and> wi_status w = FError"
proof -
  obtain n w where n: "node_by_id 1001 (db chain_scheduled) = Inr n"
    "flow_by_id (flow_instance_id n) (db chain_scheduled) = Inr w" "wi_id w = 1000"
    by (simp add: sample_eval schedule_facts)
  have "idle chain_scheduled" "rows_decode (db chain_scheduled) (wi_id w)"
    by (auto simp: sample_eval schedule_facts rows_decode_def)
  with result_recorded [of "chain_scheduled" failure n w sample_env] n
  show ?thesis by (auto simp: failure_def flow_status_after_def)
qed

text \<open>A success reported while another root node of the flow is still active is refused after
  it was recorded: no node is started and nothing is sent to the billing queue.\<close>

theorem early_success_not_billed:
  assumes "idle s" "tr_status result = TSuccess" "node_by_id (tr_id result) (db s) = Inr n"
    and "sibling_active (db s) (flow_instance_id n) (tr_id result)"
  shows "\<exists>t. receive_node_status ev (send_usecase ev) result s = (Inl (NotFullyScheduled (tr_id result)), t) \<and>
    bill_mq t = bill_mq s \<and> sent_tasks t = sent_tasks s \<and> flow_rows (db t) = flow_rows (db s) \<and>
    node_by_id (tr_id result) (db t) = Inr (record_result result n)"
proof -
  have "node_by_id (tr_id result) (db (recorded result n s)) = Inr (record_result result n)"
    using recorded_nodes [OF assms(1,3,3)] by simp
  then show ?thesis
    using receive_success_blocked [OF assms]
    by (simp add: recorded_bills recorded_flows) (simp add: recorded_def)
qed

theorem early_success_not_billed_witness:
  "\<exists>t. receive_node_status sample_env (send_usecase sample_env)
      (sample_result 1001 TSuccess) join_scheduled
      = (Inl (NotFullyScheduled 1001), t) \<and> bill_mq t = []"
proof -
  obtain n where n: "node_by_id 1001 (db join_scheduled) = Inr n" "flow_instance_id n = 1000"
    by (simp add: sample_eval schedule_facts)
  have side: "idle join_scheduled" "sibling_active (db join_scheduled) 1000 1001"
    "bill_mq join_scheduled = []"
    by (simp_all add: sample_eval schedule_facts sibling_active_def)
  show ?thesis
    using early_success_not_billed [OF side(1), of "sample_result 1001 TSuccess" n sample_env]
      n side(2,3) by (auto simp: sample_result_def)
qed

section \<open>Billing\<close>

definition bills_are :: "(string \<times> uuid) list \<Rightarrow> kstate \<Rightarrow> bool" where
  "bills_are b s \<longleftrightarrow> bill_mq s = b"

lemma bills_draw [keeps_intro]: "keeps (bills_are b) (draw_uuid g)"
  by (simp add: keeps_def draw_uuid_def bills_are_def)

lemma bills_save [keeps_intro]: "keeps (bills_are b) save_changed"
  by (auto simp: keeps_def save_changed_def bills_are_def split: option.splits)

lemma bills_smodify [keeps_intro]: "(\<And>s. bill_mq (f s) = bill_mq s) \<Longrightarrow> keeps (bills_are b) (smodify f)"
  by (simp add: keeps_def svc_simps bills_are_def)

lemma bills_node_update [keeps_intro]: "keeps (bills_are b) (node_update n)"
  by (auto simp: keeps_def node_update_def bills_are_def push_stmt_def svc_simps)

lemma bills_flow_update [keeps_intro]: "keeps (bills_are b) (flow_update w)"
  by (auto simp: keeps_def flow_update_def bills_are_def push_stmt_def svc_simps)

lemma bills_read_state [keeps_intro]: "keeps (bills_are b) (read_state f)"
  by (auto simp: keeps_def svc_simps)

lemma bills_texts [keeps_intro]:
  "keeps (bills_are b) (fill_texts ev f c r n)" "keeps (bills_are b) (text_insert g k t)" "keeps (bills_are b) (text_get_by_id i)"
  by (auto simp: keeps_def fill_texts_def text_insert_def text_get_by_id_def bills_are_def Let_def split: filler.splits)

lemma bills_rename [keeps_intro]: "keeps (bills_are b) (rename_inputs g pat xs)"
  by (induction g pat xs rule: rename_inputs.induct) (auto intro!: keeps_intro)

lemma bills_store [keeps_intro]: "keeps (bills_are b) (store_text ev t)" "keeps (bills_are b) (store_file ev p)"
  by (auto simp: store_text_def store_file_def split: prod.splits intro!: keeps_intro)

lemma bills_random [keeps_intro]: "keeps (bills_are b) (get_random_cluster r)"
  by (auto simp: keeps_def get_random_cluster_def bills_are_def Let_def)

lemmas bills_queries = node_get_by_id_def flow_get_by_id_def flow_get_by_node_id_def cluster_get_by_id_def
  get_node_sub_node_instances_def is_all_same_entryment_nodes_success_def
  get_all_workflow_instance_stand_by_nodes_def get_all_workflow_instance_nodes_def

lemma bills_batch_inputs [keeps_intro]: "keeps (bills_are b) (get_batch_inputs ev rels bs slot)"
  by (auto simp: get_batch_inputs_def original_batch_inputs_def match_regex_inputs_def from_batch_inputs_def
      bills_queries intro!: keeps_intro split: batch_strategy_kind.splits node_input_slot_kind.splits prod.splits)

lemma bills_sub_nodes [keeps_intro]: "keeps (bills_are b) (sub_nodes ev ns slots)"
  unfolding sub_nodes_def
  by (intro keeps_sbind) (auto simp: bills_queries keeps_def bills_are_def svc_simps split: sum.splits)

lemma bills_entry_tasks [keeps_intro]: "keeps (bills_are b) (entry_tasks ev w ns)"
  by (auto simp: entry_tasks_def debatch_def batch_inputs_of_def Let_def intro!: keeps_intro)

lemma bills_send [keeps_intro]: "keeps (bills_are b) (send_usecase ev ns)"
  by (auto simp: send_usecase_def no_action_handle_usecase_def report_status_def script_handle_usecase_def
      software_handle_usecase_def start_on_cluster_def send_task_def bills_queries bills_are_def
      intro!: keeps_intro split: node_instance_kind.splits node_kind.splits)

lemma bills_schedule: "keeps (bills_are b) (schedule_next_nodes ev (send_usecase ev) mode)"
  by (auto simp: schedule_next_nodes_def first_entries_def next_entries_def start_entries_def
      expand_entries_def set_standby_def set_running_def finish_flow_def bills_queries Let_def
      intro!: keeps_intro split: schedule_mode.splits prod.splits)

lemma bills_keep: "keeps (bills_are b) m \<Longrightarrow> m s = (r, t) \<Longrightarrow> bill_mq s = b \<Longrightarrow> bill_mq t = b"
  by (drule keeps_run) (auto simp: bills_are_def)

text \<open>C25 Receiving a result bills nothing unless it is a success, bills the node at most once, and
  bills it whenever a success was processed without an error.\<close>

theorem success_billed_once:
  assumes "receive_node_status ev (send_usecase ev) result s = (r, t)"
  shows "(tr_status result \<noteq> TSuccess \<longrightarrow> bill_mq t = bill_mq s) \<and>
    (bill_mq t = bill_mq s \<or> bill_mq t = bill_mq s @ [(bill_topic ev, tr_id result)]) \<and>
    (tr_status result = TSuccess \<and> r = Inr () \<longrightarrow> bill_mq t = bill_mq s @ [(bill_topic ev, tr_id result)])"
proof (cases "tr_status result = TSuccess")
  case False
  have "keeps (bills_are b) (after_result ev (send_usecase ev) result n)" for b n
    using False by (auto simp: after_result_def settle_flow_def bills_queries
        intro!: keeps_intro split: task_result_status.splits)
  then have "keeps (bills_are b) (receive_node_status ev (send_usecase ev) result)" for b
    by (auto simp: receive_node_status_def bills_queries Let_def intro!: keeps_intro)
  from bills_keep [OF this assms refl] False show ?thesis by blast
next
  case True
  let ?sched = "schedule_next_nodes ev (send_usecase ev) (NodeInstanceId (tr_id result))"
  let ?bill = "\<lambda>s. s\<lparr>bill_mq := bill_mq s @ [(bill_topic ev, tr_id result)]\<rparr>"
  have saved: "bill_mq (snd (save_changed u)) = bill_mq u" for u
    using keepsD [OF bills_save, of "bill_mq u" u] by (simp add: bills_are_def)
  have sched: "bill_mq (snd (?sched u)) = bill_mq u" for u
    using keepsD [OF bills_schedule, of "bill_mq u" u ev] by (simp add: bills_are_def)
  show ?thesis
  proof (cases "node_by_id (tr_id result) (db s)")
    case (Inl e)
    with assms show ?thesis by (auto simp: receive_node_status_def node_get_by_id_def svc_simps)
  next
    case (Inr n)
    obtain u where u: "node_update (record_result result n) s = (Inr (), u)" "bill_mq u = bill_mq s"
      by (simp add: node_update_def svc_simps push_stmt_def)
    obtain r1 v where v: "save_changed u = (r1, v)" by fastforce
    then have v': "bill_mq v = bill_mq s" using saved [of u] u by simp
    obtain r2 x where x: "?sched v = (r2, x)" by fastforce
    then have x': "bill_mq x = bill_mq s" using sched [of v] v' by simp
    obtain r3 y where y: "save_changed (?bill x) = (r3, y)" by fastforce
    then have y': "bill_mq y = bill_mq s @ [(bill_topic ev, tr_id result)]"
      using saved [of "?bill x"] x' by simp
    from assms True Inr u(1) v x y v' x' y' show ?thesis
      by (auto simp: receive_node_status_def node_get_by_id_def svc_simps Let_def after_result_def split: sum.splits)
  qed
qed

theorem success_billed_once_witness:
  "\<exists>t. receive_node_status sample_env (send_usecase sample_env) (sample_result 1001 TSuccess) chain_scheduled = (Inr (), t) \<and>
     bill_mq t = [(''bill'', 1001)]"
proof -
  obtain t where t: "receive_node_status sample_env (send_usecase sample_env) (sample_result 1001 TSuccess) chain_scheduled = (Inr (), t)"
    by (simp add: sample_eval schedule_facts receive_node_status_def record_result_def after_result_def)
  have "bill_mq chain_scheduled = []" "bill_topic sample_env = ''bill''" by (simp_all add: sample_eval)
  with success_billed_once [OF t] t show ?thesis by (auto simp: sample_result_def)
qed

section \<open>Commands reach the cluster of the task\<close>

text \<open>A pause, continuation or deletion of a software or script node goes, as a task without a
  body, to the topic of the cluster the node was started on; it fails when the node has none or the
  cluster is unknown, and then nothing is sent.\<close>

theorem command_to_node_cluster:
  assumes "k = KSoftwareUsecaseComputing \<or> k = KScript" "node_by_id i (db s) = Inr n"
  shows "sent_tasks (snd (select_operate_task \<lparr>ot_kind = k, ot_operate = \<lparr>op_task_id = i, op_command = c\<rparr>\<rparr> s)) =
      sent_tasks s @
      (case cluster_id n of
         None \<Rightarrow> []
       | Some cid \<Rightarrow>
           (case find (\<lambda>x. cl_id x = cid) (cluster_rows (db s)) of
              None \<Rightarrow> []
            | Some cl \<Rightarrow> [(topic_name cl, \<lparr>task_id = i, task_body = [], task_command = c\<rparr>)])) \<and>
    (isl (fst (select_operate_task \<lparr>ot_kind = k, ot_operate = \<lparr>op_task_id = i, op_command = c\<rparr>\<rparr> s)) \<longleftrightarrow>
      (\<forall>cid. cluster_id n = Some cid \<longrightarrow> find (\<lambda>x. cl_id x = cid) (cluster_rows (db s)) = None))"
  using assms
  by (auto simp: select_operate_task_def operate_defs svc_simps split: option.splits)

theorem command_to_node_cluster_witness:
  "sent_tasks (snd (select_operate_task \<lparr>ot_kind = KScript, ot_operate = \<lparr>op_task_id = 1001, op_command = CmdPause\<rparr>\<rparr>
     (chain_run [(sample_row 1001 Running)\<lparr>nr_cluster_id := Some 90\<rparr>] FRunning []))) =
     [(''c'', \<lparr>task_id = 1001, task_body = [], task_command = CmdPause\<rparr>)]"
proof -
  let ?s = "chain_run [(sample_row 1001 Running)\<lparr>nr_cluster_id := Some 90\<rparr>] FRunning []"
  obtain n where n: "node_by_id 1001 (db ?s) = Inr n" "cluster_id n = Some 90"
    by (simp add: sample_eval)
  have "sent_tasks ?s = []" "cluster_rows (db ?s) = [\<lparr>cl_id = 90, topic_name = ''c'', enabled = True\<rparr>]"
    by (simp_all add: sample_eval)
  with command_to_node_cluster [of KScript 1001 ?s n CmdPause] n show ?thesis by simp
qed

section \<open>The repository\<close>

text \<open>Saving is atomic: when a queued statement fails, the database is as before and the queue is
  empty.\<close>

theorem save_is_atomic:
  assumes "repo_ok s" "fst (save_changed s) = Inl e"
  shows "db (snd (save_changed s)) = db s \<and> statements (snd (save_changed s)) = []"
  using orm.save_atomic [OF assms] orm.queued_save [OF assms(1)] by simp

theorem save_is_atomic_witness:
  "db (snd (save_changed (push_stmt (InsertNode (sample_row 1001 Created))
     (push_stmt (UpdateNode (sample_row 1003 Finished)) chain_scheduled)))) = db chain_scheduled"
proof -
  let ?s = "push_stmt (InsertNode (sample_row 1001 Created)) (push_stmt (UpdateNode (sample_row 1003 Finished)) chain_scheduled)"
  have "repo_ok ?s" "fst (save_changed ?s) = Inl DbErr"
    by (simp_all add: repo_ok_def sample_eval)
  from save_is_atomic [OF this] show ?thesis by (simp add: push_stmt_def)
qed

text \<open>Writing a node or a flow instance to its row and reading it back gives the same instance, and
  a row that is read as a node is the row of that node: the integer codes of the enums are injective.\<close>

theorem rows_roundtrip:
  "node_from_row (node_row_from n) = Inr n \<and> flow_from_row (flow_row_from w) = Inr w \<and>
   (node_from_row r = Inr m \<longrightarrow> node_row_from m = r)"
  by (simp add: node_from_row_inverse)

theorem rows_roundtrip_witness:
  "\<exists>m. node_from_row (sample_row 1 Stopping) = Inr m \<and> node_row_from m = sample_row 1 Stopping"
proof -
  obtain m where "node_from_row (sample_row 1 Stopping) = Inr m" by (simp add: sample_eval)
  then show ?thesis using rows_roundtrip [of undefined undefined "sample_row 1 Stopping" m] by blast
qed

text \<open>The position of a sub-task in its batch is never found: the query takes the sub-task's own id
  for that of its parent, so it fails for every node that is not its own parent.\<close>

theorem sub_task_position_fails:
  assumes "\<forall>r \<in> set (node_rows (db s)). nr_batch_parent_id r \<noteq> Some (nr_id r)"
  shows "\<exists>e. get_nth_of_batch_tasks i s = (Inl e, s)"
proof (cases "find_node_row i (db s)")
  case (Some res)
  then have i: "nr_id res = i" using find_node_rowD by blast
  let ?rs = "filter (\<lambda>r. nr_batch_parent_id r = Some i) (node_rows (db s))"
  have "fold (\<lambda>(k, r) acc. if nr_id r = i then Some k else acc) (zip ks rs) acc = acc"
    if "\<forall>r \<in> set rs. nr_id r \<noteq> i" for ks rs and acc :: "nat option"
    using that by (induction ks arbitrary: rs acc) (auto simp: zip_Cons1 split: list.splits)
  from this [of ?rs "[0..<length ?rs]" None] assms
  have "fold (\<lambda>(k, r) acc. if nr_id r = i then Some k else acc) (zip [0..<length ?rs] ?rs) None = None"
    by auto
  with Some i show ?thesis by (simp add: get_nth_of_batch_tasks_def svc_simps Let_def)
qed (simp add: get_nth_of_batch_tasks_def svc_simps)

theorem sub_task_position_fails_witness:
  "\<exists>e. fst (get_nth_of_batch_tasks 7 (chain_run [(sample_row 7 Created)\<lparr>nr_batch_parent_id := Some 1001\<rparr>] FRunning []))
     = Inl e"
proof -
  let ?s = "chain_run [(sample_row 7 Created)\<lparr>nr_batch_parent_id := Some 1001\<rparr>] FRunning []"
  have "\<forall>r \<in> set (node_rows (db ?s)). nr_batch_parent_id r \<noteq> Some (nr_id r)" by (simp add: sample_eval)
  from sub_task_position_fails [OF this, of 7] show ?thesis by auto
qed

end
