(* ===== verification/KA_Types.thy ===== *)
theory KA_Types
  imports KC_Types
begin

text \<open>
  The data of the agent: \<open>agent/domain/src/model/entity/*.rs\<close>, \<open>agent/domain/src/model/vo/*.rs\<close>,
  \<open>agent/domain/src/command.rs\<close>, and the state its services share. The agent runs on the
  cluster of a node: it receives tasks from the coordinator's message queue, keeps them with
  their sub-tasks and files in a JSON repository, and reports back over HTTP.

  Everything outside the agent (the batch system, the package managers, the file system, the
  coordinator's HTTP interface) answers through the environment \<open>aenv\<close>. A call is appended to
  \<open>calls\<close>, and its answer may depend on every call made before, so that asking twice can give
  two answers. The bounded counter \<open>tasks_count\<close> is an \<open>AtomicU32\<close>: a 32-bit word.
\<close>

section \<open>Tasks: \<open>entity/task.rs\<close>\<close>

datatype agent_task_status =
    StQueuing | StRunning | StSuspended | StCompleting | StCompleted | StFailed | StReported | StUnknown

datatype software_deployment_status = Install | Uninstall

datatype agent_collect_from = AFileOut string | AStdout | AStderr

datatype agent_collect_to = AToFile uuid string | AToText uuid

datatype agent_collect_rule = ARegex string | ABottomLines nat | ATopLines nat

datatype agent_std_in = AStdInText string | AStdInFile string | AStdInUnknown

datatype agent_file_type = IN | OUT

record agent_file_info =
  afi_id :: uuid
  afi_metadata_id :: uuid
  afi_path :: string
  afi_is_package :: bool
  afi_optional :: bool
  afi_file_type :: agent_file_type
  afi_text :: string
  afi_is_generated :: bool

datatype agent_facility = ASpack string "string list" | ASingularity string string | AFacilityUnknown

datatype agent_task_type =
    ASoftwareDeployment software_deployment_status
  | AUsecaseExecution string "string list" "(string \<times> string) list" agent_std_in "agent_file_info list"
  | ACollectedOut agent_collect_from agent_collect_rule agent_collect_to bool
  | ATypeUnknown

datatype deployer_type = DSpack | DApptainer | DUnknown

record sub_task =
  st_id :: uuid
  st_parent_id :: uuid
  st_status :: agent_task_status
  st_facility_kind :: agent_facility
  st_task_type :: agent_task_type
  st_job_id :: string
  st_failed_reason :: string
  st_resource_used :: "task_used_resource option"
  st_requirements :: "requirements option"

record agent_task =
  at_id :: uuid
  at_status :: agent_task_status
  at_body :: "sub_task list"
  at_update_time :: int

section \<open>Files and commands: \<open>entity/file.rs\<close>, \<open>vo/*.rs\<close>, \<open>command.rs\<close>\<close>

datatype agent_file_status =
    RemoteOnly | LocalOnly | Both | Downloading | Uploading | WaittingCreate | NotExist | FileUnknown

record agent_file =
  af_id :: uuid
  af_metadata_id :: uuid
  af_file_name :: string
  af_related_task_body :: uuid
  af_file_type :: agent_file_type
  af_status :: agent_file_status
  af_is_optional :: bool
  af_is_packaged :: bool
  af_text :: string
  af_is_generated :: bool

datatype file_transfer_status = FtStart | FtStop | FtPause | FtContinue | FtUnknown

record file_transfer_command =
  ft_id :: uuid
  ft_parent_id :: uuid
  ft_status :: file_transfer_status
  ft_task_file :: "agent_file option"

record software_deployment_command =
  sd_id :: uuid
  sd_task_status :: agent_task_status

datatype task_display_type = DispSoftwareDeployment | DispUsecaseExecution | DispCollectedOut | DispUnknown

fun task_display_type_from :: "agent_task_type \<Rightarrow> task_display_type" where
  "task_display_type_from (ASoftwareDeployment _) = DispSoftwareDeployment"
| "task_display_type_from (AUsecaseExecution _ _ _ _ _) = DispUsecaseExecution"
| "task_display_type_from (ACollectedOut _ _ _ _) = DispCollectedOut"
| "task_display_type_from ATypeUnknown = DispUnknown"

datatype job_state = JQueuing | JRunning | JSuspended | JCompleting | JCompleted | JFailed | JUnknown

record job =
  job_id :: string
  job_name :: string
  job_owner :: string
  job_state :: job_state
  exit_status_code :: i32
  error_output :: string
  job_resource_used :: task_used_resource

record job_script =
  js_id :: string
  js_is_mpi_before_loader :: bool
  js_parent_id :: string
  js_name :: string
  js_load_software :: string
  js_path :: string
  js_arguments :: "string list"
  js_environments :: "(string \<times> string) list"
  js_std_in :: agent_std_in
  js_requirements :: "requirements option"

datatype sub_task_status = SubCompleted | SubFailed

record sub_task_report =
  sr_id :: uuid
  sr_status :: sub_task_status

text \<open>What the agent posts to \<open>workflow-engine/ReceiveNodeStatus\<close>: \<open>app/src/dto/reply.rs\<close> and
  \<open>dto/mod.rs\<close>. Its statuses are those of the coordinator, and \<open>RStart\<close>.\<close>

datatype agent_result_status = RSuccess | RFailed | RPaused | RContinued | RDeleted | RStart

record agent_task_result =
  ar_id :: string
  ar_status :: agent_result_status
  ar_message :: string
  ar_used_resources :: "task_used_resource option"

text \<open>
  The variants of an enum that derives \<open>Ord\<close> are ordered as they are declared.
\<close>

fun task_display_rank :: "task_display_type \<Rightarrow> nat" where
  "task_display_rank DispSoftwareDeployment = 0"
| "task_display_rank DispUsecaseExecution = 1"
| "task_display_rank DispCollectedOut = 2"
| "task_display_rank DispUnknown = 3"

lemma task_display_rank_inj: "task_display_rank x = task_display_rank y \<longleftrightarrow> x = y"
  by (cases x; cases y) auto

instantiation task_display_type :: linorder
begin

definition less_eq_task_display_type :: "task_display_type \<Rightarrow> task_display_type \<Rightarrow> bool" where
  "less_eq_task_display_type x y = (task_display_rank x \<le> task_display_rank y)"

definition less_task_display_type :: "task_display_type \<Rightarrow> task_display_type \<Rightarrow> bool" where
  "less_task_display_type x y = (task_display_rank x < task_display_rank y)"

instance
  by standard
    (auto simp: less_eq_task_display_type_def less_task_display_type_def task_display_rank_inj)

end

fun job_state_rank :: "job_state \<Rightarrow> nat" where
  "job_state_rank JQueuing = 0"
| "job_state_rank JRunning = 1"
| "job_state_rank JSuspended = 2"
| "job_state_rank JCompleting = 3"
| "job_state_rank JCompleted = 4"
| "job_state_rank JFailed = 5"
| "job_state_rank JUnknown = 6"

lemma job_state_rank_inj: "job_state_rank x = job_state_rank y \<longleftrightarrow> x = y"
  by (cases x; cases y) auto

instantiation job_state :: linorder
begin

definition less_eq_job_state :: "job_state \<Rightarrow> job_state \<Rightarrow> bool" where
  "less_eq_job_state x y = (job_state_rank x \<le> job_state_rank y)"

definition less_job_state :: "job_state \<Rightarrow> job_state \<Rightarrow> bool" where
  "less_job_state x y = (job_state_rank x < job_state_rank y)"

instance
  by standard (auto simp: less_eq_job_state_def less_job_state_def job_state_rank_inj)

end

section \<open>The outside: calls, answers and errors\<close>

datatype acall =
    SubmitJob job_script
  | DeleteJob string
  | PauseJob string
  | ContinueJob string
  | GetJob string
  | FindInstalledHash deployer_type string "string list"
  | InstallSoftware deployer_type string "string list"
  | LoadFile uuid agent_collect_from
  | SaveFile uuid string agent_collect_to
  | WriteTasks "agent_task list"
  | WriteSubTasks "sub_task list"
  | WriteFiles "agent_file list"
  | PostResult agent_task_result

datatype aerr =
    APanic
  | NoSuchTaskId
  | NoSuchJobId
  | NoSuchId
  | External string
  | NotInQueue uuid
  | NoQueuedBody uuid
  | NoSuchSubTaskServiceCalled task_display_type
  | UnableToPause uuid
  | UnableToBuildScript
  | UnableToCollect uuid string
  | MismatchTaskType uuid
  | NeverReturns

text \<open>The text an \<open>anyhow\<close> error prints, for the errors the agent stores in a failed sub-task.\<close>

fun aerr_text :: "aerr \<Rightarrow> string" where
  "aerr_text (External e) = e"
| "aerr_text (UnableToCollect i e) = ''Unable to collect '' @ show_uuid i @ '', file not found. '' @ e"
| "aerr_text (MismatchTaskType i) = ''Unable to run '' @ show_uuid i @ '', mismatch task type.''"
| "aerr_text NoSuchTaskId = ''No such task id.''"
| "aerr_text NoSuchJobId = ''No Such job id.''"
| "aerr_text NoSuchId = ''No Such id''"
| "aerr_text _ = ''''"

text \<open>
  An answer function is given all calls so far, the one to answer last. \<open>has_deployer\<close> is the
  domain of the map \<open>deployers\<close>, \<open>captures exp input\<close> the text of every match of
  a regular expression (\<open>Inl\<close> when it does not compile).
\<close>

record aenv =
  a_overflow_checks :: bool
  max_tasks_count :: u32
  has_deployer :: "deployer_type \<Rightarrow> bool"
  gen_load_script :: "deployer_type \<Rightarrow> string \<Rightarrow> string"
  captures :: "string \<Rightarrow> string \<Rightarrow> string + string list"
  ans_unit :: "acall list \<Rightarrow> string + unit"
  ans_string :: "acall list \<Rightarrow> string + string"
  ans_hash :: "acall list \<Rightarrow> string + string option"
  ans_job :: "acall list \<Rightarrow> string + job"
  a_uuid_gen :: "nat \<Rightarrow> uuid"

record astate =
  tasks :: "agent_task list"
  sub_tasks :: "sub_task list"
  task_files :: "agent_file list"
  tasks_count :: u32
  anow :: int
  calls :: "acall list"
  sub_task_reports :: "sub_task_report list"
  deployments :: "software_deployment_command list"
  downloads :: "file_transfer_command list"
  uploads :: "file_transfer_command list"
  spawns :: "uuid list"
  adrawn :: nat

type_synonym 'a asvc = "(astate, aerr, 'a) svc"

definition ext :: "(acall list \<Rightarrow> string + 'r) \<Rightarrow> acall \<Rightarrow> 'r asvc" where
  "ext ans c = (\<lambda>s. let cs = calls s @ [c] in
     (case ans cs of Inl e \<Rightarrow> Inl (External e) | Inr r \<Rightarrow> Inr r, s\<lparr>calls := cs\<rparr>))"

lemma ext_run [svc_simps]:
  "ext ans c s = (case ans (calls s @ [c]) of Inl e \<Rightarrow> Inl (External e) | Inr r \<Rightarrow> Inr r,
     s\<lparr>calls := calls s @ [c]\<rparr>)"
  by (simp add: ext_def Let_def)

text \<open>\<open>Uuid::new_v4\<close> takes the next id of a stream.\<close>

definition new_uuid :: "aenv \<Rightarrow> uuid asvc" where
  "new_uuid ev = (\<lambda>s. (Inr (a_uuid_gen ev (adrawn s)), s\<lparr>adrawn := Suc (adrawn s)\<rparr>))"

text \<open>The in-memory channels never fail: the sender keeps a receiver.\<close>

definition send_report :: "uuid \<Rightarrow> sub_task_status \<Rightarrow> unit asvc" where
  "send_report i st =
     smodify (\<lambda>s. s\<lparr>sub_task_reports := sub_task_reports s @ [\<lparr>sr_id = i, sr_status = st\<rparr>]\<rparr>)"

definition send_deployment :: "software_deployment_command \<Rightarrow> unit asvc" where
  "send_deployment c = smodify (\<lambda>s. s\<lparr>deployments := deployments s @ [c]\<rparr>)"

definition send_download :: "file_transfer_command \<Rightarrow> unit asvc" where
  "send_download c = smodify (\<lambda>s. s\<lparr>downloads := downloads s @ [c]\<rparr>)"

definition send_upload :: "file_transfer_command \<Rightarrow> unit asvc" where
  "send_upload c = smodify (\<lambda>s. s\<lparr>uploads := uploads s @ [c]\<rparr>)"

text \<open>\<open>x - 1\<close> and \<open>x + 1\<close> on a \<open>u32\<close>: a panic with overflow checks, else wrap-around.\<close>

definition u32_dec :: "bool \<Rightarrow> u32 \<Rightarrow> u32 option" where
  "u32_dec oc x = (if oc \<and> x = 0 then None else Some (x - 1))"

definition u32_inc :: "bool \<Rightarrow> u32 \<Rightarrow> u32 option" where
  "u32_inc oc x = (if oc \<and> x = - 1 then None else Some (x + 1))"

lemma u32_inc_dec: "u32_inc oc x = Some y \<Longrightarrow> u32_dec oc y = Some x"
  by (auto simp: u32_inc_def u32_dec_def split: if_splits)
    (metis add.commute add.right_inverse add_diff_cancel_left' diff_0 eq_diff_eq)

end
