(* ===== verification/KA_Repo.thy ===== *)
theory KA_Repo
  imports KA_Types
begin

text \<open>
  The JSON repository of the agent, \<open>agent/app/src/infrastructure/repository.rs\<close>: three vectors
  of rows in memory and three files they are written to by \<open>save_changed\<close>. An update takes the
  first row with the key out and appends the new one, so the order of the rows is the order of
  their last change. The tables are interpretations of \<open>keyed_table\<close>, whose laws hold while no
  two rows share a key; every operation keeps that.
\<close>

section \<open>Vectors with a key\<close>

text \<open>\<open>position\<close> and \<open>remove\<close>: the first element that satisfies the predicate is dropped.\<close>

fun remove_first :: "('a \<Rightarrow> bool) \<Rightarrow> 'a list \<Rightarrow> 'a list" where
  "remove_first P [] = []"
| "remove_first P (x # xs) = (if P x then xs else x # remove_first P xs)"

definition replace_row :: "('a \<Rightarrow> 'k) \<Rightarrow> 'a \<Rightarrow> 'a list \<Rightarrow> 'a list" where
  "replace_row key e xs = remove_first (\<lambda>x. key x = key e) xs @ [e]"

definition has_row :: "('a \<Rightarrow> 'k) \<Rightarrow> 'k \<Rightarrow> 'a list \<Rightarrow> bool" where
  "has_row key k xs = list_ex (\<lambda>x. key x = k) xs"

definition row :: "('a \<Rightarrow> 'k) \<Rightarrow> 'a list \<Rightarrow> 'k \<Rightarrow> 'a option" where
  "row key xs k = find (\<lambda>x. key x = k) xs"

definition update_row :: "('a \<Rightarrow> 'k) \<Rightarrow> 'a \<Rightarrow> 'a list \<Rightarrow> 'a list" where
  "update_row key e xs = (if has_row key (key e) xs then replace_row key e xs else xs)"

lemma remove_first_id: "\<forall>x \<in> set xs. \<not> P x \<Longrightarrow> remove_first P xs = xs"
  by (induction xs) auto

lemma set_remove_first: "set (remove_first P xs) \<subseteq> set xs"
  by (induction xs) auto

lemma remove_first_keys:
  "distinct (map key xs) \<Longrightarrow>
   remove_first (\<lambda>x. key x = k) xs = filter (\<lambda>x. key x \<noteq> k) xs"
  by (induction xs) (auto simp: filter_id_conv image_iff intro!: filter_True [symmetric])

lemma distinct_remove_first: "distinct (map key xs) \<Longrightarrow> distinct (map key (remove_first P xs))"
  by (induction xs) (auto dest: set_mp [OF set_remove_first])

lemma has_row_iff: "has_row key k xs \<longleftrightarrow> k \<in> key ` set xs"
  by (auto simp: has_row_def list_ex_iff)

lemma row_None_iff: "row key xs k = None \<longleftrightarrow> k \<notin> key ` set xs"
  by (auto simp: row_def find_None_iff)

lemma row_SomeD: "row key xs k = Some x \<Longrightarrow> x \<in> set xs \<and> key x = k"
  by (auto simp: row_def dest: find_SomeD)

lemma row_mem: "distinct (map key xs) \<Longrightarrow> x \<in> set xs \<Longrightarrow> row key xs (key x) = Some x"
  by (simp add: row_def find_distinct_key)

lemma row_append:
  "row key (xs @ ys) k = (case row key xs k of None \<Rightarrow> row key ys k | Some x \<Rightarrow> Some x)"
  unfolding row_def by (rule find_append)

lemma row_filter: "k \<noteq> k' \<Longrightarrow> row key (filter (\<lambda>x. key x \<noteq> k') xs) k = row key xs k"
  by (induction xs) (auto simp: row_def)

lemma row_filter_same: "row key (filter (\<lambda>x. key x \<noteq> k) xs) k = None"
  by (auto simp: row_None_iff)

lemma distinct_replace_row: "distinct (map key xs) \<Longrightarrow> distinct (map key (replace_row key e xs))"
  by (auto simp: replace_row_def remove_first_keys distinct_map inj_on_def)

lemma row_replace_row:
  "distinct (map key xs) \<Longrightarrow>
   row key (replace_row key e xs) k = (if k = key e then Some e else row key xs k)"
  by (auto simp: replace_row_def remove_first_keys row_append row_filter row_filter_same split: option.splits)
    (auto simp: row_def)

lemma row_remove_first:
  "distinct (map key xs) \<Longrightarrow>
   row key (remove_first (\<lambda>x. key x = k') xs) k = (if k = k' then None else row key xs k)"
  by (simp add: remove_first_keys row_filter row_filter_same)

lemma set_replace_row: "distinct (map key xs) \<Longrightarrow>
  set (replace_row key e xs) = insert e {x \<in> set xs. key x \<noteq> key e}"
  by (auto simp: replace_row_def remove_first_keys)

lemma row_update_row:
  "distinct (map key xs) \<Longrightarrow>
   row key (update_row key e xs) k =
     (if k = key e then map_option (\<lambda>_. e) (row key xs k) else row key xs k)"
  using row_None_iff [of key xs "key e"]
  by (cases "row key xs (key e)") (auto simp: update_row_def row_replace_row has_row_iff)

lemma distinct_update_row: "distinct (map key xs) \<Longrightarrow> distinct (map key (update_row key e xs))"
  by (simp add: update_row_def distinct_replace_row)

interpretation task_table: keyed_table "\<lambda>t. distinct (map at_id t)" "row at_id" "update_row at_id"
  at_id "\<lambda>e _. e"
  by unfold_locales (simp_all add: row_update_row distinct_update_row)

interpretation sub_table: keyed_table "\<lambda>t. distinct (map st_id t)" "row st_id" "update_row st_id"
  st_id "\<lambda>e _. e"
  by unfold_locales (simp_all add: row_update_row distinct_update_row)

interpretation file_table: keyed_table "\<lambda>t. distinct (map af_id t)" "row af_id" "update_row af_id"
  af_id "\<lambda>e _. e"
  by unfold_locales (simp_all add: row_update_row distinct_update_row)

section \<open>Tasks\<close>

text \<open>\<open>get_by_id\<close> of a task joins the rows of its sub-tasks; \<open>get_all\<close> and the stored row keep the
  body they were written with.\<close>

definition body_of :: "astate \<Rightarrow> uuid \<Rightarrow> sub_task list" where
  "body_of s i = filter (\<lambda>x. st_parent_id x = i) (sub_tasks s)"

definition task_get_by_id :: "uuid \<Rightarrow> agent_task asvc" where
  "task_get_by_id i = (\<lambda>s. (case row at_id (tasks s) i of
       None \<Rightarrow> Inl NoSuchTaskId
     | Some t \<Rightarrow> Inr (t\<lparr>at_body := body_of s i\<rparr>), s))"

definition task_get_all :: "agent_task list asvc" where
  "task_get_all = sgets tasks"

definition task_update :: "agent_task \<Rightarrow> unit asvc" where
  "task_update e = (\<lambda>s.
     if has_row at_id (at_id e) (tasks s)
     then (Inr (), s\<lparr>tasks := replace_row at_id (e\<lparr>at_update_time := anow s\<rparr>) (tasks s)\<rparr>)
     else (Inl NoSuchId, s))"

definition file_of_info :: "uuid \<Rightarrow> agent_file_info \<Rightarrow> agent_file" where
  "file_of_info i f = \<lparr>
     af_id = afi_id f,
     af_metadata_id = afi_metadata_id f,
     af_file_name = afi_path f,
     af_related_task_body = i,
     af_file_type = afi_file_type f,
     af_status = (case afi_file_type f of IN \<Rightarrow> RemoteOnly | OUT \<Rightarrow> WaittingCreate),
     af_is_optional = afi_optional f,
     af_is_packaged = afi_is_package f,
     af_text = afi_text f,
     af_is_generated = afi_is_generated f\<rparr>"

fun files_of :: "agent_task_type \<Rightarrow> agent_file_info list" where
  "files_of (AUsecaseExecution _ _ _ _ files) = files"
| "files_of _ = []"

definition file_insert :: "agent_file \<Rightarrow> unit asvc" where
  "file_insert f = smodify (\<lambda>s. s\<lparr>task_files := replace_row af_id f (task_files s)\<rparr>)"

lemma file_insert_run:
  "file_insert f s = (Inr (), s\<lparr>task_files := replace_row af_id f (task_files s)\<rparr>)"
  by (simp add: file_insert_def svc_simps)

definition sub_insert :: "sub_task \<Rightarrow> unit asvc" where
  "sub_insert e =
     sthen (smodify (\<lambda>s. s\<lparr>sub_tasks := remove_first (\<lambda>x. st_id x = st_id e) (sub_tasks s)\<rparr>))
     (sthen (sfor (files_of (st_task_type e)) (\<lambda>f. file_insert (file_of_info (st_id e) f)))
     (smodify (\<lambda>s. s\<lparr>sub_tasks := sub_tasks s @ [e]\<rparr>)))"

definition task_insert :: "agent_task \<Rightarrow> unit asvc" where
  "task_insert e =
     sthen (smodify (\<lambda>s. s\<lparr>tasks := remove_first (\<lambda>x. at_id x = at_id e) (tasks s)\<rparr>))
     (sthen (sfor (at_body e) sub_insert)
     (smodify (\<lambda>s. s\<lparr>tasks := tasks s @ [e]\<rparr>)))"

definition task_delete_by_id :: "uuid \<Rightarrow> unit asvc" where
  "task_delete_by_id i = (\<lambda>s.
     if has_row at_id i (tasks s)
     then (Inr (), s\<lparr>tasks := remove_first (\<lambda>x. at_id x = i) (tasks s)\<rparr>)
     else (Inl NoSuchId, s))"

definition task_get_next_queuing_id :: "uuid option asvc" where
  "task_get_next_queuing_id =
     sgets (\<lambda>s. map_option at_id (find (\<lambda>x. at_status x = StQueuing) (tasks s)))"

section \<open>Sub-tasks\<close>

definition sub_get_by_id :: "uuid \<Rightarrow> sub_task asvc" where
  "sub_get_by_id i = (\<lambda>s. (ok_or NoSuchTaskId (row st_id (sub_tasks s) i), s))"

definition sub_update :: "sub_task \<Rightarrow> unit asvc" where
  "sub_update e = (\<lambda>s.
     if has_row st_id (st_id e) (sub_tasks s)
     then (Inr (), s\<lparr>sub_tasks := replace_row st_id e (sub_tasks s)\<rparr>)
     else (Inl NoSuchId, s))"

definition sub_delete_by_id :: "uuid \<Rightarrow> unit asvc" where
  "sub_delete_by_id i = (\<lambda>s.
     if has_row st_id i (sub_tasks s)
     then (Inr (), s\<lparr>sub_tasks := remove_first (\<lambda>x. st_id x = i) (sub_tasks s)\<rparr>)
     else (Inl NoSuchId, s))"

definition get_all_refreshable_task :: "sub_task list asvc" where
  "get_all_refreshable_task =
     sgets (\<lambda>s. filter (\<lambda>x. st_job_id x \<noteq> '''' \<and> st_status x = StRunning) (sub_tasks s))"

section \<open>Files\<close>

definition file_get_by_id :: "uuid \<Rightarrow> agent_file asvc" where
  "file_get_by_id i = (\<lambda>s. (ok_or NoSuchJobId (row af_id (task_files s) i), s))"

definition file_update :: "agent_file \<Rightarrow> unit asvc" where
  "file_update e = (\<lambda>s.
     if has_row af_id (af_id e) (task_files s)
     then (Inr (), s\<lparr>task_files := replace_row af_id e (task_files s)\<rparr>)
     else (Inl NoSuchId, s))"

definition files_by_task :: "astate \<Rightarrow> uuid \<Rightarrow> agent_file list" where
  "files_by_task s i = filter (\<lambda>x. af_related_task_body x = i) (task_files s)"

definition find_files_by_task :: "uuid \<Rightarrow> agent_file list asvc" where
  "find_files_by_task i = sgets (\<lambda>s. files_by_task s i)"

definition update_task_file_status :: "uuid \<Rightarrow> agent_file_status \<Rightarrow> unit asvc" where
  "update_task_file_status i st =
     sbind (file_get_by_id i) (\<lambda>f. file_update (f\<lparr>af_status := st\<rparr>))"

text \<open>\<open>save_changed\<close> writes the three files in turn; the vectors in memory do not change.\<close>

definition asave_changed :: "aenv \<Rightarrow> unit asvc" where
  "asave_changed ev =
     sbind (sgets id) (\<lambda>s.
     sthen (ext (ans_unit ev) (WriteTasks (tasks s)))
     (sthen (ext (ans_unit ev) (WriteSubTasks (sub_tasks s)))
     (ext (ans_unit ev) (WriteFiles (task_files s)))))"

end
