(* ===== verification/KA_Frame.thy ===== *)
theory KA_Frame
  imports KA_Repo
begin

text \<open>
  What an operation on one sub-task may change. \<open>sub_step i a s t\<close> relates the states before and
  after an operation on the sub-task \<open>i\<close>: the tasks, the counter and the clock are the same, no
  other sub-task changed, \<open>i\<close> still has its parent if it is there, and it became active only if
  \<open>a\<close> allows it. The locale \<open>state_preorder\<close> composes such relations along a service; the locale
  \<open>sub_task_contract\<close> is the contract of \<open>SubTaskService\<close>
  (\<open>agent/domain/src/service/sub_task_service.rs\<close>) that the scheduler relies on, interpreted in
  the theories of the three services.
\<close>

section \<open>Services that respect a preorder on states\<close>

definition obeys :: "('s \<Rightarrow> 's \<Rightarrow> bool) \<Rightarrow> ('s, 'e, 'a) svc \<Rightarrow> bool" where
  "obeys R m \<longleftrightarrow> (\<forall>s. R s (snd (m s)))"

lemma obeysI [intro?]: "(\<And>s. R s (snd (m s))) \<Longrightarrow> obeys R m"
  by (simp add: obeys_def)

lemma obeysD: "obeys R m \<Longrightarrow> R s (snd (m s))"
  by (simp add: obeys_def)

lemma obeys_mono: "obeys R m \<Longrightarrow> (\<And>s t. R s t \<Longrightarrow> Q s t) \<Longrightarrow> obeys Q m"
  by (simp add: obeys_def)

locale state_preorder =
  fixes R :: "'s \<Rightarrow> 's \<Rightarrow> bool"
  assumes refl: "R s s"
    and trans: "R s t \<Longrightarrow> R t u \<Longrightarrow> R s u"
begin

lemma obeys_sret: "obeys R (sret x)"
  by (simp add: obeys_def svc_simps refl)

lemma obeys_sfail: "obeys R (sfail e)"
  by (simp add: obeys_def svc_simps refl)

lemma obeys_sgets: "obeys R (sgets f)"
  by (simp add: obeys_def svc_simps refl)

lemma obeys_slift: "obeys R (slift r)"
  by (simp add: obeys_def svc_simps refl)

lemma obeys_satt: "obeys R m \<Longrightarrow> obeys R (satt m)"
  by (simp add: obeys_def svc_simps)

lemma obeys_sbind:
  assumes "obeys R m" "\<And>x. obeys R (f x)"
  shows "obeys R (sbind m f)"
proof
  fix s
  obtain r t where m: "m s = (r, t)" by force
  have "R s t" using obeysD [OF assms(1), of s] m by simp
  then show "R s (snd (sbind m f s))"
    using trans [OF _ obeysD [OF assms(2)]] by (cases r) (auto simp: svc_simps m)
qed

lemma obeys_sthen: "obeys R m \<Longrightarrow> obeys R k \<Longrightarrow> obeys R (sthen m k)"
  by (simp add: sthen_def obeys_sbind)

lemma obeys_sfor: "(\<And>x. obeys R (f x)) \<Longrightarrow> obeys R (sfor xs f)"
  by (induction xs) (simp_all add: obeys_sret obeys_sthen)

lemma obeys_smap: "(\<And>x. obeys R (f x)) \<Longrightarrow> obeys R (smap f xs)"
  by (induction xs) (simp_all add: obeys_sret obeys_sbind)

lemma obeys_if:
  "(b \<Longrightarrow> obeys R m) \<Longrightarrow> (\<not> b \<Longrightarrow> obeys R k) \<Longrightarrow> obeys R (if b then m else k)"
  by simp

lemma obeys_option:
  "(\<And>x. v = Some x \<Longrightarrow> obeys R (f x)) \<Longrightarrow> (v = None \<Longrightarrow> obeys R n) \<Longrightarrow>
   obeys R (case v of None \<Rightarrow> n | Some x \<Rightarrow> f x)"
  by (cases v) auto

lemma obeys_sum:
  "(\<And>x. v = Inl x \<Longrightarrow> obeys R (f x)) \<Longrightarrow> (\<And>y. v = Inr y \<Longrightarrow> obeys R (g y)) \<Longrightarrow>
   obeys R (case v of Inl x \<Rightarrow> f x | Inr y \<Rightarrow> g y)"
  by (cases v) auto

lemmas obeys_rules = obeys_sret obeys_sfail obeys_sgets obeys_slift obeys_satt
  obeys_sbind obeys_sthen obeys_sfor obeys_smap obeys_if obeys_option obeys_sum

end

section \<open>One operation on one sub-task\<close>

definition is_active :: "sub_task \<Rightarrow> bool" where
  "is_active x \<longleftrightarrow> st_status x = StRunning \<or> st_status x = StCompleting"

definition sub_ids_distinct :: "astate \<Rightarrow> bool" where
  "sub_ids_distinct s \<longleftrightarrow> distinct (map st_id (sub_tasks s))"

abbreviation sub_row :: "astate \<Rightarrow> uuid \<Rightarrow> sub_task option" where
  "sub_row s \<equiv> row st_id (sub_tasks s)"

definition sub_step :: "uuid \<Rightarrow> bool \<Rightarrow> astate \<Rightarrow> astate \<Rightarrow> bool" where
  "sub_step i a s t \<longleftrightarrow>
     (sub_ids_distinct s \<longrightarrow>
        tasks t = tasks s \<and> tasks_count t = tasks_count s \<and> anow t = anow s \<and>
        sub_ids_distinct t \<and> (\<forall>j. j \<noteq> i \<longrightarrow> sub_row t j = sub_row s j) \<and>
        (\<forall>x. sub_row t i = Some x \<longrightarrow>
           (\<exists>y. sub_row s i = Some y \<and> st_parent_id y = st_parent_id x \<and> (is_active x \<longrightarrow> is_active y \<or> a))))"

lemma sub_step_refl: "sub_step i a s s"
  by (auto simp: sub_step_def)

lemma sub_step_trans: "sub_step i a s t \<Longrightarrow> sub_step i a t u \<Longrightarrow> sub_step i a s u"
  by (fastforce simp: sub_step_def)

interpretation sub_op: state_preorder "sub_step i a" for i a
  by unfold_locales (rule sub_step_refl, erule (1) sub_step_trans)

lemma sub_step_mono: "sub_step i False s t \<Longrightarrow> sub_step i a s t"
  by (fastforce simp: sub_step_def)

text \<open>When the sub-task is active already, an operation that may activate it activates nothing.\<close>

lemma sub_step_active:
  "sub_step i True s t \<Longrightarrow> sub_row s i = Some x \<Longrightarrow> is_active x \<Longrightarrow> sub_step i False s t"
  by (auto simp: sub_step_def)

lemma sub_step_same:
  "sub_tasks t = sub_tasks s \<Longrightarrow> tasks t = tasks s \<Longrightarrow> tasks_count t = tasks_count s \<Longrightarrow>
   anow t = anow s \<Longrightarrow> sub_step i a s t"
  by (auto simp: sub_step_def sub_ids_distinct_def)

text \<open>Operations that do not touch tasks or sub-tasks at all.\<close>

lemma obeys_smodify_same:
  "(\<And>s. sub_tasks (f s) = sub_tasks s \<and> tasks (f s) = tasks s \<and> tasks_count (f s) = tasks_count s \<and>
     anow (f s) = anow s) \<Longrightarrow> obeys (sub_step i a) (smodify f)"
  by (auto simp: obeys_def svc_simps intro!: sub_step_same)

lemma obeys_ext: "obeys (sub_step i a) (ext ans c)"
  by (auto simp: obeys_def svc_simps intro!: sub_step_same)

lemma obeys_send:
  "obeys (sub_step i a) (send_report j st)"
  "obeys (sub_step i a) (send_deployment c)"
  "obeys (sub_step i a) (send_download d)"
  "obeys (sub_step i a) (send_upload d)"
  by (simp_all add: send_report_def send_deployment_def send_download_def send_upload_def
      obeys_smodify_same)

lemma obeys_file_update: "obeys (sub_step i a) (file_update f)"
  by (auto simp: obeys_def file_update_def intro!: sub_step_same)

lemma obeys_file_get: "obeys (sub_step i a) (file_get_by_id j)"
  by (auto simp: obeys_def file_get_by_id_def sub_step_refl)

lemma obeys_find_files: "obeys (sub_step i a) (find_files_by_task j)"
  by (simp add: find_files_by_task_def sub_op.obeys_sgets)

lemma obeys_update_task_file_status: "obeys (sub_step i a) (update_task_file_status f st)"
  by (simp add: update_task_file_status_def sub_op.obeys_sbind obeys_file_get obeys_file_update)

lemma obeys_save: "obeys (sub_step i a) (asave_changed ev)"
  by (simp add: asave_changed_def sub_op.obeys_rules obeys_ext)

lemma obeys_sub_delete: "obeys (sub_step i a) (sub_delete_by_id i)"
  by (auto simp: obeys_def sub_delete_by_id_def sub_step_def sub_ids_distinct_def
      distinct_remove_first row_remove_first)

lemmas obeys_basic = obeys_ext obeys_send obeys_file_update obeys_file_get
  obeys_find_files obeys_update_task_file_status obeys_save obeys_sub_delete

text \<open>
  An update writes back a row that was read before. \<open>known i p\<close> carries the parent the row was
  read with along the calls in between: \<open>under P R\<close> is \<open>R\<close> from the states with \<open>P\<close>, which it keeps.
\<close>

definition under :: "(astate \<Rightarrow> bool) \<Rightarrow> (astate \<Rightarrow> astate \<Rightarrow> bool) \<Rightarrow> astate \<Rightarrow> astate \<Rightarrow> bool" where
  "under P R s t \<longleftrightarrow> (P s \<longrightarrow> R s t \<and> P t)"

definition known :: "uuid \<Rightarrow> uuid \<Rightarrow> astate \<Rightarrow> bool" where
  "known i p s \<longleftrightarrow> sub_ids_distinct s \<and> (\<exists>y. sub_row s i = Some y \<and> st_parent_id y = p)"

interpretation known_op: state_preorder "under (known i p) (sub_step i a)" for i p a
  by unfold_locales (auto simp: under_def sub_step_refl elim: sub_step_trans)

lemma known_same: "sub_tasks t = sub_tasks s \<Longrightarrow> known i p t = known i p s"
  by (simp add: known_def sub_ids_distinct_def)

lemma known_respects:
  assumes "obeys (sub_step i a) m" "\<And>s. sub_tasks (snd (m s)) = sub_tasks s"
  shows "obeys (under (known i p) (sub_step i a)) m"
  using assms(1) known_same [OF assms(2)] by (simp add: obeys_def under_def)

text \<open>Calls that leave the sub-tasks alone.\<close>

lemma subs_same_rules:
  "sub_tasks (snd (ext ans c s)) = sub_tasks s"
  "sub_tasks (snd (send_report j st s)) = sub_tasks s"
  "sub_tasks (snd (send_deployment sc s)) = sub_tasks s"
  "sub_tasks (snd (send_download d s)) = sub_tasks s"
  "sub_tasks (snd (send_upload d s)) = sub_tasks s"
  "sub_tasks (snd (file_update f s)) = sub_tasks s"
  "sub_tasks (snd (file_get_by_id j s)) = sub_tasks s"
  "sub_tasks (snd (find_files_by_task j s)) = sub_tasks s"
  by (simp_all add: svc_simps send_report_def send_deployment_def send_download_def send_upload_def
      file_update_def file_get_by_id_def find_files_by_task_def)

lemma subs_same_save: "sub_tasks (snd (asave_changed ev s)) = sub_tasks s"
  by (simp add: asave_changed_def svc_simps split: sum.splits)

lemma subs_same_file_status: "sub_tasks (snd (update_task_file_status f st s)) = sub_tasks s"
  by (simp add: update_task_file_status_def svc_simps file_get_by_id_def file_update_def
      split: prod.splits sum.splits)

lemmas known_basic =
  known_respects [OF obeys_ext subs_same_rules(1)]
  known_respects [OF obeys_send(1) subs_same_rules(2)]
  known_respects [OF obeys_send(2) subs_same_rules(3)]
  known_respects [OF obeys_send(3) subs_same_rules(4)]
  known_respects [OF obeys_send(4) subs_same_rules(5)]
  known_respects [OF obeys_file_update subs_same_rules(6)]
  known_respects [OF obeys_file_get subs_same_rules(7)]
  known_respects [OF obeys_find_files subs_same_rules(8)]
  known_respects [OF obeys_save subs_same_save]
  known_respects [OF obeys_update_task_file_status subs_same_file_status]

lemma known_sub_update:
  assumes "st_id e = i" "st_parent_id e = p" "is_active e \<longrightarrow> a"
  shows "obeys (under (known i p) (sub_step i a)) (sub_update e)"
  using assms
  by (auto simp: obeys_def under_def known_def sub_update_def sub_step_def sub_ids_distinct_def
      row_replace_row distinct_replace_row)

lemma obeys_read:
  assumes "\<And>x. st_id x = i \<Longrightarrow> obeys (under (known i (st_parent_id x)) (sub_step i a)) (f x)"
  shows "obeys (sub_step i a) (sbind (sub_get_by_id i) f)"
proof
  fix s
  show "sub_step i a s (snd (sbind (sub_get_by_id i) f s))"
  proof (cases "sub_row s i")
    case None
    then show ?thesis by (simp add: svc_simps sub_get_by_id_def sub_step_refl)
  next
    case (Some x)
    then have x: "st_id x = i" by (auto dest: row_SomeD)
    have run: "snd (sbind (sub_get_by_id i) f s) = snd (f x s)"
      using Some by (simp add: svc_simps sub_get_by_id_def)
    show ?thesis
    proof (cases "sub_ids_distinct s")
      case True
      with Some have "known i (st_parent_id x) s" by (simp add: known_def)
      with obeysD [OF assms [OF x]] show ?thesis unfolding run under_def by blast
    next
      case False
      then show ?thesis by (simp add: sub_step_def)
    qed
  qed
qed

lemma obeys_sub_get: "obeys (sub_step i a) (sub_get_by_id j)"
  by (auto simp: obeys_def sub_get_by_id_def sub_step_refl)

text \<open>Writing back a row whose status was not touched.\<close>

lemma obeys_read_keep:
  assumes "\<And>x. st_id x = i \<Longrightarrow>
    obeys (under (known i (st_parent_id x)) (sub_step i (is_active x))) (f x)"
  shows "obeys (sub_step i False) (sbind (sub_get_by_id i) f)"
proof
  fix s
  show "sub_step i False s (snd (sbind (sub_get_by_id i) f s))"
  proof (cases "sub_row s i")
    case None
    then show ?thesis by (simp add: svc_simps sub_get_by_id_def sub_step_refl)
  next
    case (Some x)
    then have x: "st_id x = i" by (auto dest: row_SomeD)
    have run: "snd (sbind (sub_get_by_id i) f s) = snd (f x s)"
      using Some by (simp add: svc_simps sub_get_by_id_def)
    show ?thesis
    proof (cases "sub_ids_distinct s")
      case True
      with Some have "known i (st_parent_id x) s" by (simp add: known_def)
      with obeysD [OF assms [OF x]] have "sub_step i (is_active x) s (snd (f x s))"
        unfolding under_def by blast
      with Some show ?thesis unfolding run by (cases "is_active x") (auto intro: sub_step_active)
    next
      case False
      then show ?thesis by (simp add: sub_step_def)
    qed
  qed
qed

text \<open>Reading the row again after other calls.\<close>

lemma known_read:
  assumes "\<And>x. st_id x = i \<Longrightarrow> st_parent_id x = p \<Longrightarrow> obeys (under (known i p) (sub_step i a)) (f x)"
  shows "obeys (under (known i p) (sub_step i a)) (sbind (sub_get_by_id i) f)"
proof
  fix s
  show "under (known i p) (sub_step i a) s (snd (sbind (sub_get_by_id i) f s))"
  proof (cases "known i p s")
    case True
    then obtain x where x: "sub_row s i = Some x" "st_parent_id x = p" by (auto simp: known_def)
    then have "st_id x = i" by (auto dest: row_SomeD)
    with obeysD [OF assms] x show ?thesis by (simp add: svc_simps sub_get_by_id_def)
  next
    case False
    then show ?thesis by (simp add: under_def)
  qed
qed

section \<open>At most one sub-task of a task is active\<close>

definition one_active :: "astate \<Rightarrow> bool" where
  "one_active s \<longleftrightarrow> (\<forall>i j x y. sub_row s i = Some x \<longrightarrow> sub_row s j = Some y \<longrightarrow>
     is_active x \<longrightarrow> is_active y \<longrightarrow> st_parent_id x = st_parent_id y \<longrightarrow> i = j)"

definition agent_inv :: "astate \<Rightarrow> bool" where
  "agent_inv s \<longleftrightarrow> sub_ids_distinct s \<and> distinct (map at_id (tasks s)) \<and> one_active s"

lemma one_activeD:
  "one_active s \<Longrightarrow> sub_row s i = Some x \<Longrightarrow> sub_row s j = Some y \<Longrightarrow> is_active x \<Longrightarrow> is_active y \<Longrightarrow>
   st_parent_id x = st_parent_id y \<Longrightarrow> i = j"
  by (simp add: one_active_def)

text \<open>Every row after a step stems from a row with its id and parent before.\<close>

lemma sub_step_row:
  assumes "sub_step i a s t" "sub_ids_distinct s" "sub_row t j = Some x"
  obtains y where "sub_row s j = Some y" "st_parent_id y = st_parent_id x"
    "is_active x \<longrightarrow> is_active y \<or> (j = i \<and> a)"
  using assms by (cases "j = i") (auto simp: sub_step_def)

lemma sub_step_inv:
  assumes "sub_step i False s t" "agent_inv s"
  shows "agent_inv t"
proof -
  have d: "sub_ids_distinct s" and o: "one_active s" using assms(2) by (simp_all add: agent_inv_def)
  have "one_active t" unfolding one_active_def
  proof (intro allI impI)
    fix j k x y
    assume x: "sub_row t j = Some x" "is_active x" and y: "sub_row t k = Some y" "is_active y"
      and p: "st_parent_id x = st_parent_id y"
    obtain x' where "sub_row s j = Some x'" "st_parent_id x' = st_parent_id x" "is_active x'"
      using sub_step_row [OF assms(1) d x(1)] x(2) by blast
    moreover obtain y' where "sub_row s k = Some y'" "st_parent_id y' = st_parent_id y" "is_active y'"
      using sub_step_row [OF assms(1) d y(1)] y(2) by blast
    ultimately show "j = k" using one_activeD [OF o] p by metis
  qed
  with assms d show ?thesis by (simp add: agent_inv_def sub_step_def)
qed

lemma sub_step_start:
  assumes step: "sub_step i True s t" and inv: "agent_inv s" and b: "sub_row s i = Some b"
    and idle: "\<forall>x \<in> set (body_of s (st_parent_id b)). \<not> is_active x"
  shows "agent_inv t"
proof -
  have d: "sub_ids_distinct s" and o: "one_active s" using inv by (simp_all add: agent_inv_def)
  have old: "is_active y \<Longrightarrow> st_parent_id y \<noteq> st_parent_id b" if "sub_row s j = Some y" for j y
    using idle row_SomeD [OF that] by (auto simp: body_of_def)
  have par: "st_parent_id x = st_parent_id b" if "sub_row t i = Some x" for x
    using sub_step_row [OF step d that] b by force
  have "one_active t" unfolding one_active_def
  proof (intro allI impI)
    fix j k x y
    assume x: "sub_row t j = Some x" "is_active x" and y: "sub_row t k = Some y" "is_active y"
      and p: "st_parent_id x = st_parent_id y"
    obtain x' where x': "sub_row s j = Some x'" "st_parent_id x' = st_parent_id x" "is_active x' \<or> j = i"
      using sub_step_row [OF step d x(1)] x(2) by blast
    obtain y' where y': "sub_row s k = Some y'" "st_parent_id y' = st_parent_id y" "is_active y' \<or> k = i"
      using sub_step_row [OF step d y(1)] y(2) by blast
    show "j = k"
    proof (cases "j = i \<or> k = i")
      case True
      then have "st_parent_id x = st_parent_id b" "st_parent_id y = st_parent_id b"
        using par x(1) y(1) p by auto
      with x' y' old show ?thesis by metis
    next
      case False
      with x' y' one_activeD [OF o] p show ?thesis by metis
    qed
  qed
  with inv d step show ?thesis by (simp add: agent_inv_def sub_step_def)
qed

section \<open>The contract of a sub-task service\<close>

locale sub_task_contract =
  fixes enqueue :: "uuid \<Rightarrow> unit asvc"
    and delete :: "uuid \<Rightarrow> unit asvc"
    and pause :: "uuid \<Rightarrow> unit asvc"
    and continue :: "uuid \<Rightarrow> unit asvc"
  assumes enqueue_step: "obeys (sub_step i True) (enqueue i)"
    and delete_step: "obeys (sub_step i False) (delete i)"
    and pause_step: "obeys (sub_step i False) (pause i)"
    and continue_step: "obeys (sub_step i True) (continue i)"
begin

lemma delete_inv: "agent_inv s \<Longrightarrow> agent_inv (snd (delete i s))"
  by (rule sub_step_inv [OF obeysD [OF delete_step]])

lemma pause_inv: "agent_inv s \<Longrightarrow> agent_inv (snd (pause i s))"
  by (rule sub_step_inv [OF obeysD [OF pause_step]])

lemma pause_frame: "sub_ids_distinct s \<Longrightarrow> t = snd (pause i s) \<Longrightarrow>
  tasks t = tasks s \<and> tasks_count t = tasks_count s \<and> anow t = anow s \<and> sub_ids_distinct t \<and>
  (\<forall>j. j \<noteq> i \<longrightarrow> sub_row t j = sub_row s j)"
  using obeysD [OF pause_step, of i s] by (simp add: sub_step_def)

text \<open>Starting or continuing a sub-task whose siblings are idle keeps the invariant.\<close>

lemma start_inv:
  assumes "agent_inv s" "sub_row s i = Some b" "\<forall>x \<in> set (body_of s (st_parent_id b)). \<not> is_active x"
  shows "agent_inv (snd (enqueue i s))" "agent_inv (snd (continue i s))"
  using sub_step_start [OF obeysD [OF enqueue_step] assms] sub_step_start [OF obeysD [OF continue_step] assms]
  by simp_all

end

end
