(* ===== verification/KA_RunJob.thy ===== *)
theory KA_RunJob
  imports KA_Frame
begin

text \<open>
  \<open>agent/service/src/run_job.rs\<close>: a use-case sub-task downloads its input files, is submitted to
  the batch system once all of them are there, is watched until its job ends, uploads its output
  files, and reports its end to the scheduler of the agent.
\<close>

section \<open>Operations\<close>

text \<open>The branches that give up: the sub-task is stored as failed with its reason, and reported.\<close>

definition fail_sub :: "aenv \<Rightarrow> sub_task \<Rightarrow> string \<Rightarrow> unit asvc" where
  "fail_sub ev task reason =
     sthen (sub_update (task\<lparr>st_status := StFailed, st_failed_reason := reason\<rparr>))
     (sthen (asave_changed ev)
     (send_report (st_id task) SubFailed))"

definition no_such_software :: string where
  "no_such_software = ''Unabled to load software. No such software.''"

definition no_package_manager :: string where
  "no_package_manager = ''Unabled to load software. Unable to access software package manager.''"

text \<open>The script that loads the software; \<open>None\<close> when the sub-task has been failed instead.\<close>

definition load_from :: "aenv \<Rightarrow> sub_task \<Rightarrow> deployer_type \<Rightarrow> string \<Rightarrow> string list \<Rightarrow> string option asvc" where
  "load_from ev task d name parameters =
     (if has_deployer ev d
      then sbind (ext (ans_hash ev) (FindInstalledHash d name parameters)) (\<lambda>hash.
           case hash of
             Some h \<Rightarrow> sret (Some (gen_load_script ev d h))
           | None \<Rightarrow> sthen (fail_sub ev task no_such_software) (sret None))
      else sthen (fail_sub ev task no_package_manager) (sret None))"

definition load_software :: "aenv \<Rightarrow> sub_task \<Rightarrow> string option asvc" where
  "load_software ev task =
     (case st_facility_kind task of
        ASpack name argument_list \<Rightarrow> load_from ev task DSpack name argument_list
      | ASingularity img tag \<Rightarrow> load_from ev task DApptainer img [tag]
      | AFacilityUnknown \<Rightarrow> sret (Some ''''))"

definition is_mpi_before_loader :: "sub_task \<Rightarrow> bool" where
  "is_mpi_before_loader task = (case st_facility_kind task of ASingularity _ _ \<Rightarrow> True | _ \<Rightarrow> False)"

definition files_ready :: "agent_file_type \<Rightarrow> agent_file list \<Rightarrow> bool" where
  "files_ready ft files = list_all (\<lambda>f. af_status f = Both) (filter (\<lambda>f. af_file_type f = ft) files)"

definition submit_task :: "aenv \<Rightarrow> sub_task \<Rightarrow> string \<Rightarrow> unit asvc" where
  "submit_task ev task script =
     (case st_task_type task of
        AUsecaseExecution name arguments environments std_in _ \<Rightarrow>
          sbind (ext (ans_string ev) (SubmitJob \<lparr>
            js_id = show_uuid (st_id task),
            js_is_mpi_before_loader = is_mpi_before_loader task,
            js_parent_id = show_uuid (st_parent_id task),
            js_name = name,
            js_load_software = script,
            js_path = show_uuid (st_parent_id task) @ ''/run.sh'',
            js_arguments = arguments,
            js_environments = environments,
            js_std_in = std_in,
            js_requirements = st_requirements task\<rparr>)) (\<lambda>j.
          sub_update (task\<lparr>st_job_id := j\<rparr>))
      | _ \<Rightarrow> sfail UnableToBuildScript)"

definition internal_run_job :: "aenv \<Rightarrow> uuid \<Rightarrow> unit asvc" where
  "internal_run_job ev i =
     sbind (find_files_by_task i) (\<lambda>files.
     if files_ready IN files
     then sbind (sub_get_by_id i) (\<lambda>task.
          sbind (load_software ev task) (\<lambda>load.
          case load of
            None \<Rightarrow> sret ()
          | Some script \<Rightarrow> sthen (submit_task ev task script) (asave_changed ev)))
     else asave_changed ev)"

definition internal_complete_job :: "aenv \<Rightarrow> uuid \<Rightarrow> unit asvc" where
  "internal_complete_job ev i =
     sbind (find_files_by_task i) (\<lambda>files.
     if files_ready OUT files then send_report i SubCompleted else sret ())"

definition start_download :: "sub_task \<Rightarrow> agent_file \<Rightarrow> unit asvc" where
  "start_download task f =
     sthen (update_task_file_status (af_id f) Downloading)
     (send_download \<lparr>ft_id = af_id f, ft_parent_id = st_parent_id task, ft_status = FtStart,
        ft_task_file = Some f\<rparr>)"

definition run_enqueue_sub_task :: "aenv \<Rightarrow> uuid \<Rightarrow> unit asvc" where
  "run_enqueue_sub_task ev i =
     sbind (sub_get_by_id i) (\<lambda>task.
     sbind (find_files_by_task i) (\<lambda>all_files.
     let files = filter (\<lambda>f. af_file_type f = IN) all_files in
     if files = []
     then sthen (sub_update (task\<lparr>st_status := StRunning\<rparr>))
          (sthen (asave_changed ev)
          (internal_run_job ev i))
     else sthen (sfor files (start_download task))
          (sthen (sub_update (task\<lparr>st_status := StRunning\<rparr>))
          (asave_changed ev))))"

definition run_delete_sub_task :: "aenv \<Rightarrow> uuid \<Rightarrow> unit asvc" where
  "run_delete_sub_task ev i =
     sbind (sub_get_by_id i) (\<lambda>task.
     sthen (if st_job_id task \<noteq> '''' then ext (ans_unit ev) (DeleteJob (st_job_id task)) else sret ())
     (sthen (sub_delete_by_id i)
     (asave_changed ev)))"

text \<open>Pausing and continuing tell the downloads that are not finished.\<close>

definition signal_downloads :: "file_transfer_status \<Rightarrow> agent_file list \<Rightarrow> unit asvc" where
  "signal_downloads st files =
     sfor files (\<lambda>f.
       if af_file_type f = IN \<and> af_status f \<noteq> Both
       then send_download \<lparr>ft_id = af_id f, ft_parent_id = 0, ft_status = st, ft_task_file = None\<rparr>
       else sret ())"

text \<open>The test \<open>status != Completed || status != Completing\<close> is the code's; no status fails it.\<close>

definition run_pause_sub_task :: "aenv \<Rightarrow> uuid \<Rightarrow> unit asvc" where
  "run_pause_sub_task ev i =
     sbind (sub_get_by_id i) (\<lambda>task.
     sthen (if st_job_id task \<noteq> '''' then ext (ans_unit ev) (PauseJob (st_job_id task)) else sret ())
     (sthen (if st_status task \<noteq> StCompleted \<or> st_status task \<noteq> StCompleting
             then sbind (satt (sub_update (task\<lparr>st_status := StSuspended\<rparr>))) (\<lambda>_.
                  sbind (find_files_by_task i) (signal_downloads FtPause))
             else sret ())
     (asave_changed ev)))"

definition run_continue_sub_task :: "aenv \<Rightarrow> uuid \<Rightarrow> unit asvc" where
  "run_continue_sub_task ev i =
     sbind (sub_get_by_id i) (\<lambda>task.
     sthen (if st_job_id task \<noteq> '''' then ext (ans_unit ev) (ContinueJob (st_job_id task)) else sret ())
     (sthen (if st_status task \<noteq> StCompleted \<or> st_status task \<noteq> StCompleting
             then sbind (satt (sub_update (task\<lparr>st_status := StQueuing\<rparr>))) (\<lambda>_.
                  sbind (find_files_by_task i) (signal_downloads FtContinue))
             else sret ())
     (asave_changed ev)))"

fun status_of_job :: "job_state \<Rightarrow> agent_task_status" where
  "status_of_job JRunning = StRunning"
| "status_of_job JSuspended = StRunning"
| "status_of_job JQueuing = StRunning"
| "status_of_job JCompleting = StRunning"
| "status_of_job JCompleted = StCompleting"
| "status_of_job JFailed = StFailed"
| "status_of_job JUnknown = StFailed"

definition job_failure :: "job \<Rightarrow> string" where
  "job_failure j = ''Job exit with '' @ show_i32 (exit_status_code j) @ [CHR 0x0A] @
     ''Error Output:'' @ [CHR 0x0A] @ error_output j"

definition start_upload :: "sub_task \<Rightarrow> agent_file \<Rightarrow> unit asvc" where
  "start_upload task f =
     sthen (send_upload \<lparr>ft_id = af_id f, ft_parent_id = st_parent_id task, ft_status = FtStart,
        ft_task_file = Some f\<rparr>)
     (file_update (f\<lparr>af_status := Uploading\<rparr>))"

definition run_refresh_status :: "aenv \<Rightarrow> uuid \<Rightarrow> unit asvc" where
  "run_refresh_status ev i =
     sbind (sub_get_by_id i) (\<lambda>old.
     sbind (ext (ans_job ev) (GetJob (st_job_id old))) (\<lambda>job.
     let task = old\<lparr>st_resource_used := Some (job_resource_used job), st_status := status_of_job (job_state job)\<rparr> in
     if st_status task = StRunning then sret ()
     else if st_status task = StFailed then fail_sub ev task (job_failure job)
     else sthen (sub_update task)
          (sthen (asave_changed ev)
          (sbind (find_files_by_task i) (\<lambda>all_files.
          let files = filter (\<lambda>f. af_file_type f = OUT) all_files in
          if files = [] then internal_complete_job ev i
          else sthen (sfor files (start_upload task)) (asave_changed ev))))))"

definition run_refresh_all_status :: "aenv \<Rightarrow> unit asvc" where
  "run_refresh_all_status ev =
     sbind get_all_refreshable_task (\<lambda>ts. sfor ts (\<lambda>t. run_refresh_status ev (st_id t)))"

text \<open>The file transfers report back: \<open>run_job\<close> after a download, \<open>complete_job\<close> after an upload,
  both with the file's id, \<open>fail_job\<close> with the sub-task's.\<close>

definition run_job :: "aenv \<Rightarrow> uuid \<Rightarrow> unit asvc" where
  "run_job ev i =
     sbind (file_get_by_id i) (\<lambda>f.
     sthen (update_task_file_status i Both)
     (sthen (asave_changed ev)
     (internal_run_job ev (af_related_task_body f))))"

definition complete_job :: "aenv \<Rightarrow> uuid \<Rightarrow> unit asvc" where
  "complete_job ev i =
     sbind (file_get_by_id i) (\<lambda>f.
     sthen (update_task_file_status i Both)
     (sthen (asave_changed ev)
     (internal_complete_job ev (af_related_task_body f))))"

definition fail_job :: "aenv \<Rightarrow> uuid \<Rightarrow> string \<Rightarrow> unit asvc" where
  "fail_job ev i reason = sbind (sub_get_by_id i) (\<lambda>task. fail_sub ev task reason)"

section \<open>The contract\<close>

lemma known_fail_sub:
  "st_id x = i \<Longrightarrow> obeys (under (known i (st_parent_id x)) (sub_step i a)) (fail_sub ev x reason)"
  unfolding fail_sub_def
  by (intro known_op.obeys_sthen known_sub_update known_basic) (simp_all add: is_active_def)

lemma known_load_software:
  "st_id x = i \<Longrightarrow> obeys (under (known i (st_parent_id x)) (sub_step i a)) (load_software ev x)"
  unfolding load_software_def load_from_def
  by (auto intro!: known_op.obeys_rules known_fail_sub known_basic split: agent_facility.split option.split)

lemma known_submit_task:
  "st_id x = i \<Longrightarrow> is_active x \<longrightarrow> a \<Longrightarrow>
   obeys (under (known i (st_parent_id x)) (sub_step i a)) (submit_task ev x script)"
  unfolding submit_task_def
  by (auto intro!: known_op.obeys_rules known_sub_update known_basic simp: is_active_def
      split: agent_task_type.split)

lemma known_submit_loaded:
  "st_id x = i \<Longrightarrow> is_active x \<longrightarrow> a \<Longrightarrow>
   obeys (under (known i (st_parent_id x)) (sub_step i a))
     (sbind (load_software ev x) (\<lambda>load. case load of None \<Rightarrow> sret ()
       | Some script \<Rightarrow> sthen (submit_task ev x script) (asave_changed ev)))"
  by (auto intro!: known_op.obeys_rules known_load_software known_submit_task known_basic)

lemma internal_run_step: "obeys (sub_step i False) (internal_run_job ev i)"
  unfolding internal_run_job_def
  by (intro sub_op.obeys_sbind sub_op.obeys_if obeys_basic obeys_read_keep known_submit_loaded) simp_all

lemma known_internal_run: "obeys (under (known i p) (sub_step i True)) (internal_run_job ev i)"
  unfolding internal_run_job_def
  by (intro known_op.obeys_sbind [OF known_basic(8)] known_op.obeys_if known_basic known_read)
    (auto intro: known_submit_loaded)

lemma internal_complete_step: "obeys (sub_step i a) (internal_complete_job ev j)"
  unfolding internal_complete_job_def
  by (intro sub_op.obeys_rules obeys_basic)

lemma known_internal_complete: "obeys (under (known i p) (sub_step i a)) (internal_complete_job ev j)"
  unfolding internal_complete_job_def
  by (intro known_op.obeys_rules known_basic)

lemma known_start_download: "obeys (under (known i p) (sub_step i a)) (start_download x f)"
  unfolding start_download_def
  by (intro known_op.obeys_rules known_basic)

lemma known_start_upload: "obeys (under (known i p) (sub_step i a)) (start_upload x f)"
  unfolding start_upload_def
  by (intro known_op.obeys_rules known_basic)

lemma known_signal_downloads: "obeys (under (known i p) (sub_step i a)) (signal_downloads st fs)"
  unfolding signal_downloads_def
  by (intro known_op.obeys_sfor known_op.obeys_if known_op.obeys_sret known_basic)

lemma run_enqueue_step: "obeys (sub_step i True) (run_enqueue_sub_task ev i)"
  unfolding run_enqueue_sub_task_def Let_def
  by (intro obeys_read known_op.obeys_sbind [OF known_basic(8)] known_op.obeys_if known_op.obeys_sthen
      known_op.obeys_sfor known_start_download known_sub_update known_internal_run known_basic) simp_all

lemma run_delete_step: "obeys (sub_step i False) (run_delete_sub_task ev i)"
  unfolding run_delete_sub_task_def
  by (intro sub_op.obeys_sbind sub_op.obeys_sthen sub_op.obeys_if sub_op.obeys_sret obeys_sub_get obeys_basic)

lemma run_pause_step: "obeys (sub_step i False) (run_pause_sub_task ev i)"
  unfolding run_pause_sub_task_def
  by (intro obeys_read known_op.obeys_rules known_signal_downloads known_sub_update known_basic)
    (simp_all add: is_active_def)

lemma run_continue_step: "obeys (sub_step i True) (run_continue_sub_task ev i)"
  unfolding run_continue_sub_task_def
  by (intro obeys_read known_op.obeys_rules known_signal_downloads known_sub_update known_basic)
    simp_all

interpretation run: sub_task_contract "run_enqueue_sub_task ev" "run_delete_sub_task ev"
  "run_pause_sub_task ev" "run_continue_sub_task ev" for ev
  by unfold_locales (rule run_enqueue_step run_delete_step run_pause_step run_continue_step)+

section \<open>Refreshing and file transfers\<close>

lemma run_refresh_step: "obeys (sub_step i True) (run_refresh_status ev i)"
  unfolding run_refresh_status_def Let_def
  by (intro obeys_read)
    (auto intro!: known_op.obeys_rules known_fail_sub [of _ i, simplified] known_sub_update known_internal_complete
      known_start_upload known_basic simp: fail_sub_def)

end
