(* ===== verification/KA_Deploy.thy ===== *)
theory KA_Deploy
  imports KA_Frame
begin

text \<open>
  \<open>agent/service/src/deploy_software.rs\<close>: a deployment sub-task hands a command to the deployment
  runner; the runner installs the software, unless it is installed already, and sends a second
  command that completes or fails the sub-task.
\<close>

section \<open>Operations\<close>

definition deploy_command :: "uuid \<Rightarrow> agent_task_status \<Rightarrow> unit asvc" where
  "deploy_command i st = send_deployment \<lparr>sd_id = i, sd_task_status = st\<rparr>"

definition set_status :: "aenv \<Rightarrow> sub_task \<Rightarrow> agent_task_status \<Rightarrow> unit asvc" where
  "set_status ev task st = sthen (sub_update (task\<lparr>st_status := st\<rparr>)) (asave_changed ev)"

definition deploy_enqueue_sub_task :: "aenv \<Rightarrow> uuid \<Rightarrow> unit asvc" where
  "deploy_enqueue_sub_task ev i =
     sbind (sub_get_by_id i) (\<lambda>task.
     sthen (deploy_command (st_id task) StRunning)
     (set_status ev task StRunning))"

definition deploy_delete_sub_task :: "aenv \<Rightarrow> uuid \<Rightarrow> unit asvc" where
  "deploy_delete_sub_task ev i =
     sbind (sub_get_by_id i) (\<lambda>task.
     sthen (deploy_command (st_id task) StSuspended)
     (sthen (sub_delete_by_id i)
     (asave_changed ev)))"

definition deploy_pause_sub_task :: "aenv \<Rightarrow> uuid \<Rightarrow> unit asvc" where
  "deploy_pause_sub_task ev i =
     sbind (sub_get_by_id i) (\<lambda>task.
     sthen (deploy_command (st_id task) StSuspended)
     (set_status ev task StSuspended))"

definition deploy_continue_sub_task :: "aenv \<Rightarrow> uuid \<Rightarrow> unit asvc" where
  "deploy_continue_sub_task ev i = deploy_enqueue_sub_task ev i"

definition deploy_complete_sub_task :: "aenv \<Rightarrow> uuid \<Rightarrow> unit asvc" where
  "deploy_complete_sub_task ev i =
     sbind (sub_get_by_id i) (\<lambda>task.
     sthen (set_status ev task StCompleted)
     (send_report i SubCompleted))"

definition deploy_fail_sub_task :: "aenv \<Rightarrow> uuid \<Rightarrow> unit asvc" where
  "deploy_fail_sub_task ev i =
     sbind (sub_get_by_id i) (\<lambda>task.
     sthen (set_status ev task StFailed)
     (send_report i SubFailed))"

text \<open>A deployment that cannot be done stores its reason and sends the failing command.\<close>

definition deploy_failed :: "aenv \<Rightarrow> sub_task \<Rightarrow> string \<Rightarrow> unit asvc" where
  "deploy_failed ev task reason =
     sthen (sub_update (task\<lparr>st_failed_reason := reason\<rparr>))
     (sthen (asave_changed ev)
     (deploy_command (st_id task) StFailed))"

definition deploy_with :: "aenv \<Rightarrow> sub_task \<Rightarrow> deployer_type \<Rightarrow> string \<Rightarrow> string list \<Rightarrow> unit asvc" where
  "deploy_with ev task d name parameters =
     (if has_deployer ev d
      then sbind (satt (ext (ans_hash ev) (FindInstalledHash d name parameters))) (\<lambda>r.
           case r of
             Inr (Some _) \<Rightarrow> deploy_command (st_id task) StCompleting
           | _ \<Rightarrow>
             sbind (satt (ext (ans_string ev) (InstallSoftware d name parameters))) (\<lambda>r.
             case r of
               Inr _ \<Rightarrow> deploy_command (st_id task) StCompleting
             | Inl e \<Rightarrow> deploy_failed ev task (aerr_text e)))
      else deploy_failed ev task ''No such package manager.'')"

definition deploy_run_sub_task :: "aenv \<Rightarrow> uuid \<Rightarrow> unit asvc" where
  "deploy_run_sub_task ev i =
     sbind (sub_get_by_id i) (\<lambda>task.
     case st_facility_kind task of
       ASpack name argument_list \<Rightarrow> deploy_with ev task DSpack name argument_list
     | ASingularity img tag \<Rightarrow> deploy_with ev task DApptainer img [tag]
     | AFacilityUnknown \<Rightarrow> deploy_failed ev task ''No such package manager.'')"

section \<open>The contract\<close>

lemma deploy_command_obeys: "obeys (sub_step i a) (deploy_command j st)"
  by (simp add: deploy_command_def obeys_basic)

lemma known_deploy_command: "obeys (under (known i p) (sub_step i a)) (deploy_command j st)"
  by (simp add: deploy_command_def known_basic)

lemma known_set_status:
  "st_id x = i \<Longrightarrow> (st \<noteq> StRunning \<and> st \<noteq> StCompleting) \<or> a \<Longrightarrow>
   obeys (under (known i (st_parent_id x)) (sub_step i a)) (set_status ev x st)"
  unfolding set_status_def
  by (intro known_op.obeys_sthen known_sub_update known_basic) (auto simp: is_active_def)

lemma deploy_enqueue_step: "obeys (sub_step i True) (deploy_enqueue_sub_task ev i)"
  unfolding deploy_enqueue_sub_task_def
  by (intro obeys_read known_op.obeys_sthen known_deploy_command known_set_status) simp_all

lemma deploy_pause_step: "obeys (sub_step i False) (deploy_pause_sub_task ev i)"
  unfolding deploy_pause_sub_task_def
  by (intro obeys_read known_op.obeys_sthen known_deploy_command known_set_status) simp_all

lemma deploy_delete_step: "obeys (sub_step i False) (deploy_delete_sub_task ev i)"
  unfolding deploy_delete_sub_task_def
  by (intro sub_op.obeys_sbind sub_op.obeys_sthen obeys_sub_get deploy_command_obeys obeys_basic)

interpretation deploy: sub_task_contract "deploy_enqueue_sub_task ev" "deploy_delete_sub_task ev"
  "deploy_pause_sub_task ev" "deploy_continue_sub_task ev" for ev
  by unfold_locales
    (simp_all add: deploy_enqueue_step deploy_delete_step deploy_pause_step deploy_continue_sub_task_def)

lemma deploy_complete_step: "obeys (sub_step i False) (deploy_complete_sub_task ev i)"
  unfolding deploy_complete_sub_task_def
  by (intro obeys_read known_op.obeys_sthen known_set_status known_basic) simp_all

lemma deploy_fail_step: "obeys (sub_step i False) (deploy_fail_sub_task ev i)"
  unfolding deploy_fail_sub_task_def
  by (intro obeys_read known_op.obeys_sthen known_set_status known_basic) simp_all

lemma known_deploy_failed:
  "st_id x = i \<Longrightarrow> obeys (under (known i (st_parent_id x)) (sub_step i (is_active x))) (deploy_failed ev x reason)"
  unfolding deploy_failed_def
  by (intro known_op.obeys_sthen known_sub_update known_deploy_command known_basic)
    (simp_all add: is_active_def)

lemma known_deploy_with:
  "st_id x = i \<Longrightarrow>
   obeys (under (known i (st_parent_id x)) (sub_step i (is_active x))) (deploy_with ev x d name ps)"
  unfolding deploy_with_def
  by (auto intro!: known_op.obeys_rules known_deploy_failed known_deploy_command known_basic
      split: sum.split option.split)

lemma deploy_run_step: "obeys (sub_step i False) (deploy_run_sub_task ev i)"
  unfolding deploy_run_sub_task_def
  by (rule obeys_read_keep)
    (auto intro!: known_deploy_failed known_deploy_with split: agent_facility.split)

end
