(* ===== verification/KA_Collect.thy ===== *)
theory KA_Collect
  imports KA_Frame
begin

text \<open>
  \<open>agent/service/src/collection_task.rs\<close>: a collection sub-task reads an output of the task,
  takes the matches of a regular expression or some of its lines, and saves the result. It runs
  within the call that enqueues it.
\<close>

section \<open>Lines of a text\<close>

text \<open>\<open>str::lines\<close>: the text is split at line feeds, a carriage return before one belongs to the
  line end, and a final line end starts no line.\<close>

definition strip_cr :: "string \<Rightarrow> string" where
  "strip_cr rev_line = (case rev_line of
     [] \<Rightarrow> []
   | c # cs \<Rightarrow> if c = CHR 0x0D then cs else c # cs)"

fun str_lines_from :: "string \<Rightarrow> string \<Rightarrow> string list" where
  "str_lines_from acc [] = (if acc = [] then [] else [rev acc])"
| "str_lines_from acc (c # cs) =
     (if c = CHR 0x0A then rev (strip_cr acc) # str_lines_from [] cs else str_lines_from (c # acc) cs)"

definition str_lines :: "string \<Rightarrow> string list" where
  "str_lines cs = str_lines_from [] cs"

definition newline :: string where
  "newline = [CHR 0x0A]"

text \<open>The rules. \<open>lines - n\<close> is computed on \<open>usize\<close>.\<close>

fun collect :: "aenv \<Rightarrow> agent_collect_rule \<Rightarrow> string \<Rightarrow> aerr + string" where
  "collect ev (ARegex e) txt =
     (case captures ev e txt of Inl m \<Rightarrow> Inl (External m) | Inr ms \<Rightarrow> Inr (join newline ms))"
| "collect ev (ABottomLines n) txt =
     rbind (ok_or APanic (usize_sub (a_overflow_checks ev) (length (str_lines txt)) n)) (\<lambda>k.
     Inr (join newline (take n (drop k (str_lines txt)))))"
| "collect ev (ATopLines n) txt = Inr (join newline (take n (str_lines txt)))"

section \<open>Operations\<close>

definition inner_run_sub_task :: "aenv \<Rightarrow> sub_task \<Rightarrow> unit asvc" where
  "inner_run_sub_task ev task =
     (case st_task_type task of
        ACollectedOut from rule to optional \<Rightarrow>
          sbind (satt (ext (ans_string ev) (LoadFile (st_parent_id task) from))) (\<lambda>loaded.
          case loaded of
            Inl e \<Rightarrow> if optional then sret () else sfail (UnableToCollect (st_id task) (aerr_text e))
          | Inr txt \<Rightarrow>
            sbind (slift (collect ev rule txt)) (\<lambda>out.
            ext (ans_unit ev) (SaveFile (st_parent_id task) out to)))
      | _ \<Rightarrow> sfail (MismatchTaskType (st_id task)))"

text \<open>A panic unwinds through \<open>enqueue_sub_task\<close>; an error fails the sub-task.\<close>

definition collect_enqueue_sub_task :: "aenv \<Rightarrow> uuid \<Rightarrow> unit asvc" where
  "collect_enqueue_sub_task ev i =
     sbind (sub_get_by_id i) (\<lambda>task.
     sbind (satt (inner_run_sub_task ev task)) (\<lambda>r.
     case r of
       Inr _ \<Rightarrow>
         sthen (sub_update (task\<lparr>st_status := StCompleted\<rparr>))
         (sthen (asave_changed ev)
         (send_report i SubCompleted))
     | Inl e \<Rightarrow>
         if e = APanic then sfail APanic
         else sthen (sub_update (task\<lparr>st_status := StFailed,
                st_failed_reason := ''Failed to collect value. Because of '' @ aerr_text e\<rparr>))
              (sthen (asave_changed ev)
              (sthen (send_report i SubFailed)
              (sfail e)))))"

definition collect_delete_sub_task :: "aenv \<Rightarrow> uuid \<Rightarrow> unit asvc" where
  "collect_delete_sub_task ev i = sret ()"

definition collect_pause_sub_task :: "aenv \<Rightarrow> uuid \<Rightarrow> unit asvc" where
  "collect_pause_sub_task ev i = sret ()"

definition collect_continue_sub_task :: "aenv \<Rightarrow> uuid \<Rightarrow> unit asvc" where
  "collect_continue_sub_task ev i = sret ()"

section \<open>The contract\<close>

lemma known_inner_run: "obeys (under (known i p) (sub_step i a)) (inner_run_sub_task ev x)"
  unfolding inner_run_sub_task_def
  by (auto intro!: known_op.obeys_rules known_basic split: agent_task_type.split sum.split)

lemma collect_enqueue_idle: "obeys (sub_step i False) (collect_enqueue_sub_task ev i)"
  unfolding collect_enqueue_sub_task_def
  by (rule obeys_read)
    (auto intro!: known_op.obeys_rules known_inner_run known_sub_update known_basic
      simp: is_active_def split: sum.split)

lemma collect_enqueue_step: "obeys (sub_step i True) (collect_enqueue_sub_task ev i)"
  by (rule obeys_mono [OF collect_enqueue_idle]) (rule sub_step_mono)

interpretation collect: sub_task_contract "collect_enqueue_sub_task ev" "collect_delete_sub_task ev"
  "collect_pause_sub_task ev" "collect_continue_sub_task ev" for ev
  by unfold_locales
    (simp_all add: collect_enqueue_step collect_delete_sub_task_def collect_pause_sub_task_def
      collect_continue_sub_task_def sub_op.obeys_sret)

end
