(* ===== verification/KA_Scheduler.thy ===== *)
theory KA_Scheduler
  imports KA_RunJob KA_Deploy KA_Collect
begin

text \<open>
  \<open>agent/service/src/task_scheduler.rs\<close> and \<open>agent/app/src/infrastructure/http_client.rs\<close>: the
  tasks of the agent are worked off one sub-task at a time, a sub-task by the service of its
  type, and every change of a task is reported to the coordinator. Then the runners of
  \<open>agent/app/src/background_service\<close> that call the scheduler.
\<close>

section \<open>Reports to the coordinator: \<open>http_client.rs\<close>\<close>

text \<open>
  \<open>http_post\<close> counts \<open>times\<close> up from 1 and gives up when it reaches \<open>max_times\<close>. When it starts
  past that bound the loop has no exit but a success; every call passes \<open>max_times = 3\<close>.
\<close>

function http_post_loop :: "aenv \<Rightarrow> acall \<Rightarrow> nat \<Rightarrow> nat \<Rightarrow> unit asvc" where
  "http_post_loop ev c max_times tries =
     sbind (satt (ext (ans_unit ev) c)) (\<lambda>r.
     case r of
       Inr _ \<Rightarrow> sret ()
     | Inl e \<Rightarrow>
         if tries + 1 = max_times then sfail e
         else if max_times \<le> tries then sfail NeverReturns
         else http_post_loop ev c max_times (tries + 1))"
  by pat_completeness auto
termination
  by (relation "measure (\<lambda>(_, _, m, t). m - t)") auto

declare http_post_loop.simps [simp del]

definition http_post :: "aenv \<Rightarrow> agent_task_result \<Rightarrow> unit asvc" where
  "http_post ev r = http_post_loop ev (PostResult r) 3 1"

definition task_result_of :: "uuid \<Rightarrow> agent_result_status \<Rightarrow> agent_task_result" where
  "task_result_of i st =
     \<lparr>ar_id = show_uuid i, ar_status = st, ar_message = '''', ar_used_resources = None\<rparr>"

definition report_completed_task :: "aenv \<Rightarrow> uuid \<Rightarrow> unit asvc" where
  "report_completed_task ev i =
     sbind (task_get_by_id i) (\<lambda>task.
     let used = (case find (\<lambda>x. st_resource_used x \<noteq> None) (at_body task) of
                   None \<Rightarrow> None | Some x \<Rightarrow> st_resource_used x) in
     http_post ev ((task_result_of i RSuccess)\<lparr>ar_used_resources := used\<rparr>))"

definition report_failed_task :: "aenv \<Rightarrow> uuid \<Rightarrow> string \<Rightarrow> unit asvc" where
  "report_failed_task ev i message = http_post ev ((task_result_of i RFailed)\<lparr>ar_message := message\<rparr>)"

definition report_paused_task :: "aenv \<Rightarrow> uuid \<Rightarrow> unit asvc" where
  "report_paused_task ev i = http_post ev (task_result_of i RPaused)"

definition report_resumed_task :: "aenv \<Rightarrow> uuid \<Rightarrow> unit asvc" where
  "report_resumed_task ev i = http_post ev (task_result_of i RContinued)"

definition report_deleted_task :: "aenv \<Rightarrow> uuid \<Rightarrow> unit asvc" where
  "report_deleted_task ev i = http_post ev (task_result_of i RDeleted)"

definition report_started_task :: "aenv \<Rightarrow> uuid \<Rightarrow> unit asvc" where
  "report_started_task ev i = http_post ev (task_result_of i RStart)"

section \<open>The sub-task services\<close>

record sub_task_service =
  enqueue_sub_task :: "uuid \<Rightarrow> unit asvc"
  delete_sub_task :: "uuid \<Rightarrow> unit asvc"
  pause_sub_task :: "uuid \<Rightarrow> unit asvc"
  continue_sub_task :: "uuid \<Rightarrow> unit asvc"

text \<open>The map \<open>sub_task_services\<close> that \<open>service_provider.rs\<close> builds.\<close>

fun sub_task_services :: "aenv \<Rightarrow> task_display_type \<Rightarrow> sub_task_service option" where
  "sub_task_services ev DispUsecaseExecution = Some \<lparr>
     enqueue_sub_task = run_enqueue_sub_task ev, delete_sub_task = run_delete_sub_task ev,
     pause_sub_task = run_pause_sub_task ev, continue_sub_task = run_continue_sub_task ev\<rparr>"
| "sub_task_services ev DispSoftwareDeployment = Some \<lparr>
     enqueue_sub_task = deploy_enqueue_sub_task ev, delete_sub_task = deploy_delete_sub_task ev,
     pause_sub_task = deploy_pause_sub_task ev, continue_sub_task = deploy_continue_sub_task ev\<rparr>"
| "sub_task_services ev DispCollectedOut = Some \<lparr>
     enqueue_sub_task = collect_enqueue_sub_task ev, delete_sub_task = collect_delete_sub_task ev,
     pause_sub_task = collect_pause_sub_task ev, continue_sub_task = collect_continue_sub_task ev\<rparr>"
| "sub_task_services ev DispUnknown = None"

definition service_of :: "aenv \<Rightarrow> sub_task \<Rightarrow> sub_task_service option" where
  "service_of ev x = sub_task_services ev (task_display_type_from (st_task_type x))"

section \<open>The scheduler\<close>

definition count_up :: "aenv \<Rightarrow> unit asvc" where
  "count_up ev = (\<lambda>s. case u32_inc (a_overflow_checks ev) (tasks_count s) of
     None \<Rightarrow> (Inl APanic, s) | Some c \<Rightarrow> (Inr (), s\<lparr>tasks_count := c\<rparr>))"

definition count_down :: "aenv \<Rightarrow> unit asvc" where
  "count_down ev = (\<lambda>s. case u32_dec (a_overflow_checks ev) (tasks_count s) of
     None \<Rightarrow> (Inl APanic, s) | Some c \<Rightarrow> (Inr (), s\<lparr>tasks_count := c\<rparr>))"

definition update_status :: "aenv \<Rightarrow> agent_task \<Rightarrow> agent_task_status \<Rightarrow> unit asvc" where
  "update_status ev task st = sthen (task_update (task\<lparr>at_status := st\<rparr>)) (asave_changed ev)"

definition is_waiting :: "sub_task \<Rightarrow> bool" where
  "is_waiting x \<longleftrightarrow> st_status x = StQueuing \<or> st_status x = StSuspended"

text \<open>Starting the sub-task that was picked.\<close>

definition run_body :: "aenv \<Rightarrow> sub_task \<Rightarrow> unit asvc" where
  "run_body ev b =
     (case service_of ev b of
        None \<Rightarrow> sfail (NoSuchSubTaskServiceCalled (task_display_type_from (st_task_type b)))
      | Some x \<Rightarrow>
          (case st_status b of
             StQueuing \<Rightarrow> enqueue_sub_task x (st_id b)
           | StSuspended \<Rightarrow> continue_sub_task x (st_id b)
           | _ \<Rightarrow> sfail APanic))"

definition schedule_next_task_by_id :: "aenv \<Rightarrow> uuid \<Rightarrow> unit asvc" where
  "schedule_next_task_by_id ev i =
     sbind (task_get_by_id i) (\<lambda>task.
     sthen (if at_status task = StQueuing then update_status ev task StRunning
            else if at_status task \<noteq> StRunning then sfail (NotInQueue i)
            else sret ())
     (sthen (report_started_task ev i)
     (if list_ex is_active (at_body task) then sret ()
      else case find is_waiting (at_body task) of
             None \<Rightarrow> sfail (NoQueuedBody i)
           | Some b \<Rightarrow>
               sbind (sgets tasks_count) (\<lambda>c.
               if max_tasks_count ev \<noteq> 0 \<and> c = max_tasks_count ev then sret ()
               else sthen (count_up ev) (run_body ev b)))))"

definition schedule_next_task :: "aenv \<Rightarrow> unit asvc" where
  "schedule_next_task ev =
     sbind task_get_next_queuing_id (\<lambda>n.
     case n of Some i \<Rightarrow> schedule_next_task_by_id ev i | None \<Rightarrow> sret ())"

definition enqueue_task :: "aenv \<Rightarrow> agent_task \<Rightarrow> unit asvc" where
  "enqueue_task ev task0 =
     (let task = task0\<lparr>at_status := StQueuing,
          at_body := map (\<lambda>x. x\<lparr>st_status := StQueuing\<rparr>) (at_body task0)\<rparr> in
     sthen (task_insert task)
     (sthen (asave_changed ev)
     (schedule_next_task_by_id ev (at_id task))))"

definition pause_bodies :: "aenv \<Rightarrow> sub_task list \<Rightarrow> unit asvc" where
  "pause_bodies ev body =
     sfor body (\<lambda>x. case service_of ev x of Some v \<Rightarrow> pause_sub_task v (st_id x) | None \<Rightarrow> sret ())"

definition delete_bodies :: "aenv \<Rightarrow> sub_task list \<Rightarrow> unit asvc" where
  "delete_bodies ev body =
     sfor body (\<lambda>x. case service_of ev x of Some v \<Rightarrow> delete_sub_task v (st_id x) | None \<Rightarrow> sret ())"

definition pause_task :: "aenv \<Rightarrow> uuid \<Rightarrow> unit asvc" where
  "pause_task ev i =
     sbind (task_get_by_id i) (\<lambda>task.
     case at_status task of
       StQueuing \<Rightarrow>
         sthen (pause_bodies ev (at_body task))
         (sthen (task_update (task\<lparr>at_status := StSuspended\<rparr>))
         (sthen (report_paused_task ev i)
         (asave_changed ev)))
     | StRunning \<Rightarrow>
         sthen (count_down ev)
         (sthen (pause_bodies ev (at_body task))
         (sthen (update_status ev task StSuspended)
         (sthen (report_paused_task ev i)
         (schedule_next_task ev))))
     | _ \<Rightarrow> sfail (UnableToPause i))"

definition delete_task :: "aenv \<Rightarrow> uuid \<Rightarrow> bool \<Rightarrow> unit asvc" where
  "delete_task ev i is_internal =
     sbind (task_get_by_id i) (\<lambda>task.
     sthen (if at_status task = StRunning
            then sthen (count_down ev)
                 (sthen (pause_bodies ev (at_body task))
                 (sthen (update_status ev task StSuspended)
                 (schedule_next_task ev)))
            else sret ())
     (sthen (delete_bodies ev (at_body task))
     (sthen (task_delete_by_id i)
     (sthen (if is_internal then sret () else report_deleted_task ev i)
     (asave_changed ev)))))"

definition continue_task :: "aenv \<Rightarrow> uuid \<Rightarrow> unit asvc" where
  "continue_task ev i =
     sbind (task_get_by_id i) (\<lambda>task.
     sthen (update_status ev task StQueuing)
     (sthen (report_resumed_task ev i)
     (schedule_next_task_by_id ev i)))"

definition complete_sub_task :: "aenv \<Rightarrow> uuid \<Rightarrow> unit asvc" where
  "complete_sub_task ev i =
     sbind (sub_get_by_id i) (\<lambda>x.
     sthen (sub_update (x\<lparr>st_status := StCompleted\<rparr>))
     (sthen (asave_changed ev)
     (sthen (count_down ev)
     (sbind (task_get_by_id (st_parent_id x)) (\<lambda>task.
     if list_all (\<lambda>b. st_status b = StCompleted) (at_body task)
     then sthen (update_status ev task StCompleted)
          (sthen (report_completed_task ev (st_parent_id x))
          (schedule_next_task ev))
     else schedule_next_task_by_id ev (st_parent_id x))))))"

definition fail_sub_task :: "aenv \<Rightarrow> uuid \<Rightarrow> unit asvc" where
  "fail_sub_task ev i =
     sthen (count_down ev)
     (sbind (sub_get_by_id i) (\<lambda>x.
     sbind (task_get_by_id (st_parent_id x)) (\<lambda>task.
     sthen (update_status ev task StFailed)
     (sthen (report_failed_task ev (st_parent_id x) (st_failed_reason x))
     (schedule_next_task ev)))))"

text \<open>The clock \<open>anow\<close> counts nanoseconds.\<close>

definition two_hours :: int where
  "two_hours = 2 * 3600 * 10 ^ 9"

definition delete_all_completed_tasks :: "aenv \<Rightarrow> unit asvc" where
  "delete_all_completed_tasks ev =
     sbind task_get_all (\<lambda>ts.
     sfor ts (\<lambda>t.
       sbind (sgets anow) (\<lambda>now.
       if at_status t = StCompleted \<and> at_update_time t > now - two_hours
       then delete_task ev (at_id t) True
       else sret ())))"

section \<open>The runners\<close>

text \<open>A runner logs an error and goes on; a panic ends what the runner spawned.\<close>

definition logged :: "unit asvc \<Rightarrow> unit asvc" where
  "logged m = sbind (satt m) (\<lambda>r. if r = Inl APanic then sfail APanic else sret ())"

definition handle_report :: "aenv \<Rightarrow> sub_task_report \<Rightarrow> unit asvc" where
  "handle_report ev r =
     (case sr_status r of
        SubCompleted \<Rightarrow> logged (complete_sub_task ev (sr_id r))
      | SubFailed \<Rightarrow> logged (fail_sub_task ev (sr_id r)))"

text \<open>\<open>software_deployment_runner.rs\<close>: \<open>spawns\<close> are the installations that run on their own.\<close>

definition handle_deployment :: "aenv \<Rightarrow> software_deployment_command \<Rightarrow> unit asvc" where
  "handle_deployment ev c =
     (case sd_task_status c of
        StRunning \<Rightarrow> smodify (\<lambda>s. s\<lparr>spawns := spawns s @ [sd_id c]\<rparr>)
      | StSuspended \<Rightarrow> smodify (\<lambda>s. s\<lparr>spawns := remove1 (sd_id c) (spawns s)\<rparr>)
      | StCompleting \<Rightarrow> logged (deploy_complete_sub_task ev (sd_id c))
      | StFailed \<Rightarrow> logged (deploy_fail_sub_task ev (sd_id c))
      | _ \<Rightarrow> sfail APanic)"

definition run_spawned :: "aenv \<Rightarrow> uuid \<Rightarrow> unit asvc" where
  "run_spawned ev i =
     sthen (smodify (\<lambda>s. s\<lparr>spawns := remove1 i (spawns s)\<rparr>)) (logged (deploy_run_sub_task ev i))"

definition interval_tick :: "aenv \<Rightarrow> unit asvc" where
  "interval_tick ev =
     sthen (logged (run_refresh_all_status ev))
     (sthen (logged (delete_all_completed_tasks ev))
     (logged (schedule_next_task ev)))"

end
