(* ===== verification/KA_Message.thy ===== *)
theory KA_Message
  imports KA_Scheduler
begin

text \<open>
  The messages the agent receives, \<open>agent/app/src/dto/mod.rs\<close>, and what it does with them,
  \<open>agent/app/src/background_service/message_queue.rs\<close>.
\<close>

section \<open>The messages: \<open>dto/mod.rs\<close>\<close>

datatype dto_task_command = DtoStart | DtoPause | DtoContinue | DtoDelete

datatype dto_collect_from = DtoFileOut string | DtoStdout | DtoStderr

datatype dto_collect_to = DtoToFile uuid string | DtoToText uuid

datatype dto_collect_rule = DtoRegex string | DtoBottomLines nat | DtoTopLines nat

datatype dto_std_in = DtoStdInText string | DtoStdInFile string | DtoStdInNone

datatype dto_deployment_command = DtoInstall | DtoUninstall

datatype dto_in_file_form = DtoId uuid | DtoContent string

datatype dto_file_info = DtoInput string bool dto_in_file_form | DtoOutput uuid string bool bool

datatype dto_facility_kind = DtoSpack string "string list" | DtoSingularity string string

datatype dto_task_body =
    DtoSoftwareDeployment dto_facility_kind dto_deployment_command
  | DtoUsecaseExecution string dto_facility_kind "string list" "(string \<times> string) list" dto_std_in
      "dto_file_info list" "requirements option"
  | DtoCollectedOut dto_collect_from dto_collect_rule dto_collect_to bool

record dto_task =
  dto_id :: uuid
  dto_body :: "dto_task_body list"
  dto_command :: dto_task_command

section \<open>From a message to a task: \<open>message_queue.rs\<close>\<close>

fun facility_of :: "dto_facility_kind \<Rightarrow> agent_facility" where
  "facility_of (DtoSpack name argument_list) = ASpack name argument_list"
| "facility_of (DtoSingularity img tag) = ASingularity img tag"

fun deployment_status_of :: "dto_deployment_command \<Rightarrow> software_deployment_status" where
  "deployment_status_of DtoInstall = Install"
| "deployment_status_of DtoUninstall = Uninstall"

fun std_in_of :: "dto_std_in \<Rightarrow> agent_std_in" where
  "std_in_of (DtoStdInText t) = AStdInText t"
| "std_in_of (DtoStdInFile p) = AStdInFile p"
| "std_in_of DtoStdInNone = AStdInUnknown"

fun collect_from_of :: "dto_collect_from \<Rightarrow> agent_collect_from" where
  "collect_from_of (DtoFileOut p) = AFileOut p"
| "collect_from_of DtoStdout = AStdout"
| "collect_from_of DtoStderr = AStderr"

fun collect_rule_of :: "dto_collect_rule \<Rightarrow> agent_collect_rule" where
  "collect_rule_of (DtoRegex e) = ARegex e"
| "collect_rule_of (DtoBottomLines n) = ABottomLines n"
| "collect_rule_of (DtoTopLines n) = ATopLines n"

fun collect_to_of :: "dto_collect_to \<Rightarrow> agent_collect_to" where
  "collect_to_of (DtoToFile i p) = AToFile i p"
| "collect_to_of (DtoToText i) = AToText i"

definition input_file_info :: "uuid \<Rightarrow> uuid \<Rightarrow> string \<Rightarrow> bool \<Rightarrow> bool \<Rightarrow> string \<Rightarrow> agent_file_info" where
  "input_file_info i meta path is_package generated txt = \<lparr>afi_id = i, afi_metadata_id = meta,
     afi_path = path, afi_is_package = is_package, afi_optional = False, afi_file_type = IN,
     afi_text = txt, afi_is_generated = generated\<rparr>"

fun file_info_of :: "aenv \<Rightarrow> dto_file_info \<Rightarrow> agent_file_info asvc" where
  "file_info_of ev (DtoInput path is_package (DtoId meta)) =
     sbind (new_uuid ev) (\<lambda>i. sret (input_file_info i meta path is_package False ''''))"
| "file_info_of ev (DtoInput path is_package (DtoContent txt)) =
     sbind (new_uuid ev) (\<lambda>i.
     sbind (new_uuid ev) (\<lambda>meta. sret (input_file_info i meta path is_package True txt)))"
| "file_info_of ev (DtoOutput meta path is_package optional) =
     sbind (new_uuid ev) (\<lambda>i. sret \<lparr>afi_id = i, afi_metadata_id = meta, afi_path = path,
       afi_is_package = is_package, afi_optional = optional, afi_file_type = OUT,
       afi_text = '''', afi_is_generated = False\<rparr>)"

definition new_sub_task :: "uuid \<Rightarrow> uuid \<Rightarrow> sub_task" where
  "new_sub_task i parent = \<lparr>st_id = i, st_parent_id = parent, st_status = StQueuing,
     st_facility_kind = AFacilityUnknown, st_task_type = ATypeUnknown, st_job_id = '''',
     st_failed_reason = '''', st_resource_used = None, st_requirements = None\<rparr>"

definition sub_task_of :: "aenv \<Rightarrow> uuid \<Rightarrow> dto_task_body \<Rightarrow> sub_task asvc" where
  "sub_task_of ev parent b =
     sbind (new_uuid ev) (\<lambda>i.
     let x = new_sub_task i parent in
     case b of
       DtoSoftwareDeployment fk command \<Rightarrow>
         sret (x\<lparr>st_facility_kind := facility_of fk,
                 st_task_type := ASoftwareDeployment (deployment_status_of command)\<rparr>)
     | DtoUsecaseExecution name fk arguments environments std_in files requirements \<Rightarrow>
         sbind (smap (file_info_of ev) files) (\<lambda>fs.
         sret (x\<lparr>st_facility_kind := facility_of fk, st_requirements := requirements,
                 st_task_type := AUsecaseExecution name arguments environments (std_in_of std_in) fs\<rparr>))
     | DtoCollectedOut from rule to optional \<Rightarrow>
         sret (x\<lparr>st_task_type := ACollectedOut (collect_from_of from) (collect_rule_of rule)
                 (collect_to_of to) optional\<rparr>))"

definition agent_task_of :: "aenv \<Rightarrow> dto_task \<Rightarrow> agent_task asvc" where
  "agent_task_of ev m =
     sbind (smap (sub_task_of ev (dto_id m)) (dto_body m)) (\<lambda>body.
     sbind (sgets anow) (\<lambda>now.
     sret \<lparr>at_id = dto_id m, at_status = StUnknown, at_body = body, at_update_time = now\<rparr>))"

definition handle_message :: "aenv \<Rightarrow> dto_task \<Rightarrow> unit asvc" where
  "handle_message ev m =
     (case dto_command m of
        DtoStart \<Rightarrow> sbind (agent_task_of ev m) (\<lambda>t. logged (enqueue_task ev t))
      | DtoPause \<Rightarrow> logged (pause_task ev (dto_id m))
      | DtoContinue \<Rightarrow> logged (continue_task ev (dto_id m))
      | DtoDelete \<Rightarrow> logged (delete_task ev (dto_id m) False))"

section \<open>What the coordinator sends\<close>

text \<open>
  The coordinator writes its \<open>Task\<close> as JSON with serde's externally tagged enums; the agent reads
  it by the names of its own variants. Equal names with equal fields are read back as they are, a
  missing \<open>command\<close> of a deployment as its default \<open>Install\<close>; a body whose tag the agent does
  not know makes the whole message unreadable, and it is dropped.
\<close>

fun read_facility :: "facility_kind \<Rightarrow> dto_facility_kind" where
  "read_facility (Spack n l) = DtoSpack n l"
| "read_facility (Singularity i t) = DtoSingularity i t"

fun read_file :: "file_info \<Rightarrow> dto_file_info" where
  "read_file (FileInfoInput p k (FormId i)) = DtoInput p k (DtoId i)"
| "read_file (FileInfoInput p k (FormContent t)) = DtoInput p k (DtoContent t)"
| "read_file (FileInfoOutput i p k opt) = DtoOutput i p k opt"

fun read_std_in :: "std_in_kind \<Rightarrow> dto_std_in" where
  "read_std_in (StdInText t) = DtoStdInText t"
| "read_std_in (StdInFile p) = DtoStdInFile p"
| "read_std_in StdInNone = DtoStdInNone"

fun read_from :: "collect_from \<Rightarrow> dto_collect_from" where
  "read_from (FileOut p) = DtoFileOut p"
| "read_from Stdout = DtoStdout"
| "read_from Stderr = DtoStderr"

fun read_rule :: "collect_rule \<Rightarrow> dto_collect_rule" where
  "read_rule (CRegex e) = DtoRegex e"
| "read_rule (BottomLines n) = DtoBottomLines n"
| "read_rule (TopLines n) = DtoTopLines n"

fun read_to :: "collect_to \<Rightarrow> dto_collect_to" where
  "read_to (CollectFile p i) = DtoToFile i p"
| "read_to (CollectText i) = DtoToText i"

fun read_body :: "task_body \<Rightarrow> dto_task_body option" where
  "read_body (SoftwareDeployment k) = Some (DtoSoftwareDeployment (read_facility k) DtoInstall)"
| "read_body (UsecaseExecution n k a e i fs r) =
     Some (DtoUsecaseExecution n (read_facility k) a e (read_std_in i) (map read_file fs) r)"
| "read_body (CollectedOut f r t opt) = Some (DtoCollectedOut (read_from f) (read_rule r) (read_to t) opt)"
| "read_body _ = None"

fun read_command :: "task_command \<Rightarrow> dto_task_command" where
  "read_command CmdStart = DtoStart"
| "read_command CmdPause = DtoPause"
| "read_command CmdContinue = DtoContinue"
| "read_command CmdDelete = DtoDelete"

definition read_message :: "task \<Rightarrow> dto_task option" where
  "read_message t =
     (let bs = map read_body (task_body t) in
      if None \<in> set bs then None
      else Some \<lparr>dto_id = task_id t, dto_body = map the bs, dto_command = read_command (task_command t)\<rparr>)"

definition receive_task :: "aenv \<Rightarrow> task \<Rightarrow> unit asvc" where
  "receive_task ev t =
     (case read_message t of None \<Rightarrow> sret () | Some m \<Rightarrow> handle_message ev m)"

text \<open>And what the coordinator can read of a result: its \<open>TaskResultStatus\<close> has no \<open>Start\<close>.\<close>

fun read_result_status :: "agent_result_status \<Rightarrow> task_result_status option" where
  "read_result_status RSuccess = Some TSuccess"
| "read_result_status RFailed = Some TFailed"
| "read_result_status RPaused = Some TPaused"
| "read_result_status RContinued = Some TContinued"
| "read_result_status RDeleted = Some TDeleted"
| "read_result_status RStart = None"

end
