(* ===== verification/KA_Steps.thy ===== *)
theory KA_Steps
  imports KA_Message
begin

text \<open>
  The agent as a state machine: one step per message, sub-task report, deployment command,
  installation, timer tick, finished file transfer or signal file. The handlers of the steps keep
  \<open>agent_inv\<close>: ids are unique, and of the sub-tasks of a task at most one is running or completing.

  A handler runs as one step. In the program the handlers are tasks of one runtime that may be
  interleaved where they wait; that interleaving is not part of the relation.
\<close>

section \<open>Handlers that keep the invariant\<close>

named_theorems agent_keeps "operations of the agent that keep agent_inv"

lemma keeps_inv_obeys: "obeys (sub_step i False) m \<Longrightarrow> keeps agent_inv m"
  by (auto simp: keeps_def intro: sub_step_inv obeysD)

lemmas keeps_inv_basic [agent_keeps] = obeys_basic [THEN keeps_inv_obeys]

lemma keeps_inv_sub_get [agent_keeps]: "keeps agent_inv (sub_get_by_id i)"
  by (rule keeps_inv_obeys [OF obeys_sub_get])

lemma agent_inv_update [simp]:
  "agent_inv (s\<lparr>sub_task_reports := rs\<rparr>) = agent_inv s"
  "agent_inv (s\<lparr>deployments := ds\<rparr>) = agent_inv s"
  "agent_inv (s\<lparr>spawns := is\<rparr>) = agent_inv s"
  "agent_inv (s\<lparr>anow := n\<rparr>) = agent_inv s"
  "agent_inv (s\<lparr>calls := cs\<rparr>) = agent_inv s"
  "agent_inv (s\<lparr>adrawn := k\<rparr>) = agent_inv s"
  "agent_inv (s\<lparr>tasks_count := c\<rparr>) = agent_inv s"
  by (simp_all add: agent_inv_def sub_ids_distinct_def one_active_def)

lemma keeps_task_get [agent_keeps]: "keeps P (task_get_by_id i)"
  by (auto simp: keeps_def task_get_by_id_def)

lemma agent_inv_tasks:
  "agent_inv s \<Longrightarrow> distinct (map at_id ts) \<Longrightarrow> agent_inv (s\<lparr>tasks := ts\<rparr>)"
  by (simp add: agent_inv_def sub_ids_distinct_def one_active_def)

lemma distinct_task_update:
  "distinct (map at_id ts) \<Longrightarrow> distinct (map at_id (replace_row at_id (e\<lparr>at_update_time := n\<rparr>) ts))"
  by (rule distinct_replace_row)

lemma keeps_task_update [agent_keeps]: "keeps agent_inv (task_update e)"
  by (auto simp: keeps_def task_update_def intro!: agent_inv_tasks distinct_task_update)
    (simp add: agent_inv_def)

lemma keeps_task_delete [agent_keeps]: "keeps agent_inv (task_delete_by_id i)"
  by (auto simp: keeps_def task_delete_by_id_def intro!: agent_inv_tasks distinct_remove_first)
    (simp add: agent_inv_def)

lemma keeps_count [agent_keeps]: "keeps agent_inv (count_up ev)" "keeps agent_inv (count_down ev)"
  by (auto simp: keeps_def count_up_def count_down_def split: option.splits)

lemma keeps_new_uuid [agent_keeps]: "keeps agent_inv (new_uuid ev)"
  by (simp add: keeps_def new_uuid_def)

lemma keeps_update_status [agent_keeps]: "keeps agent_inv (update_status ev t st)"
  unfolding update_status_def by (intro keeps_sthen agent_keeps)

text \<open>A report changes nothing but \<open>calls\<close>.\<close>

lemma http_post_loop_same: "\<exists>cs. snd (http_post_loop ev c m k s) = s\<lparr>calls := cs\<rparr>"
proof (induction ev c m k arbitrary: s rule: http_post_loop.induct)
  case (1 ev c m k)
  show ?case
  proof (cases "ans_unit ev (calls s @ [c])")
    case (Inr u)
    then show ?thesis by (subst http_post_loop.simps) (auto simp: svc_simps)
  next
    case (Inl e)
    have "\<exists>cs. snd (http_post_loop ev c m (k + 1) (s\<lparr>calls := calls s @ [c]\<rparr>)) = s\<lparr>calls := cs\<rparr>"
      if "k + 1 \<noteq> m" "\<not> m \<le> k"
      using "1.IH" [OF that, of "s\<lparr>calls := calls s @ [c]\<rparr>"] by simp
    with Inl show ?thesis by (subst http_post_loop.simps) (auto simp: svc_simps)
  qed
qed

lemma http_post_same: "\<exists>cs. snd (http_post ev r s) = s\<lparr>calls := cs\<rparr>"
  by (simp add: http_post_def http_post_loop_same)

lemma keeps_http_post: "(\<And>s cs. P s \<Longrightarrow> P (s\<lparr>calls := cs\<rparr>)) \<Longrightarrow> keeps P (http_post ev r)"
  unfolding keeps_def by (metis http_post_same)

lemma keeps_report_started: "(\<And>s cs. P s \<Longrightarrow> P (s\<lparr>calls := cs\<rparr>)) \<Longrightarrow> keeps P (report_started_task ev i)"
  by (simp add: report_started_task_def keeps_http_post)

lemma keeps_reports [agent_keeps]:
  "keeps agent_inv (report_completed_task ev i)"
  "keeps agent_inv (report_failed_task ev i m)"
  "keeps agent_inv (report_paused_task ev i)"
  "keeps agent_inv (report_resumed_task ev i)"
  "keeps agent_inv (report_deleted_task ev i)"
  by (simp_all add: report_completed_task_def report_failed_task_def report_paused_task_def
      report_resumed_task_def report_deleted_task_def Let_def keeps_http_post keeps_sbind keeps_task_get)

lemma services_contract:
  "service_of ev x = Some v \<Longrightarrow>
   sub_task_contract (enqueue_sub_task v) (delete_sub_task v) (pause_sub_task v) (continue_sub_task v)"
  using run.sub_task_contract_axioms deploy.sub_task_contract_axioms collect.sub_task_contract_axioms
  by (cases "task_display_type_from (st_task_type x)") (auto simp: service_of_def)

lemma keeps_bodies [agent_keeps]:
  "keeps agent_inv (pause_bodies ev xs)" "keeps agent_inv (delete_bodies ev xs)"
proof -
  have "keeps agent_inv (case service_of ev x of Some v \<Rightarrow> pause_sub_task v (st_id x) | None \<Rightarrow> sret ())"
    and "keeps agent_inv (case service_of ev x of Some v \<Rightarrow> delete_sub_task v (st_id x) | None \<Rightarrow> sret ())" for x
    using sub_task_contract.pause_inv [OF services_contract]
      sub_task_contract.delete_inv [OF services_contract]
    by (auto split: option.split simp: keeps_def svc_simps)
  then show "keeps agent_inv (pause_bodies ev xs)" "keeps agent_inv (delete_bodies ev xs)"
    unfolding pause_bodies_def delete_bodies_def by (intro keeps_sfor; blast)+
qed

subsection \<open>The scheduler\<close>

lemma run_body_inv:
  assumes "agent_inv s" "b \<in> set (body_of s i)" "\<forall>x \<in> set (body_of s i). \<not> is_active x"
  shows "agent_inv (snd (run_body ev b s))"
proof (cases "service_of ev b")
  case None
  with assms show ?thesis by (simp add: run_body_def svc_simps)
next
  case (Some v)
  have "sub_row s (st_id b) = Some b"
    using assms(1,2) by (auto simp: agent_inv_def sub_ids_distinct_def body_of_def intro: row_mem)
  moreover have "st_parent_id b = i" using assms(2) by (simp add: body_of_def)
  ultimately show ?thesis
    using sub_task_contract.start_inv [OF services_contract [OF Some] assms(1)] assms(1,3) Some
    by (auto simp: run_body_def svc_simps split: agent_task_status.split)
qed

text \<open>While the scheduler picks a sub-task, the body it read stays the body.\<close>

lemma keeps_body:
  assumes "keeps agent_inv m" "\<And>s. sub_tasks (snd (m s)) = sub_tasks s"
  shows "keeps (\<lambda>s. agent_inv s \<and> body_of s i = bs) m"
  using assms by (auto simp: keeps_def body_of_def)

lemma sub_tasks_update_status: "sub_tasks (snd (update_status ev t st s)) = sub_tasks s"
  by (simp add: update_status_def svc_simps task_update_def subs_same_save)

lemma sthen_ensures:
  "keeps P m \<Longrightarrow> (\<And>t. P t \<Longrightarrow> Q (snd (k t))) \<Longrightarrow> (\<And>t. P t \<Longrightarrow> Q t) \<Longrightarrow> P s \<Longrightarrow> Q (snd (sthen m k s))"
  by (fastforce simp: keeps_def svc_simps split: prod.splits sum.splits)

lemma schedule_next_task_by_id_inv [agent_keeps]: "keeps agent_inv (schedule_next_task_by_id ev i)"
proof
  fix s
  assume inv: "agent_inv s"
  show "agent_inv (snd (schedule_next_task_by_id ev i s))"
  proof (cases "row at_id (tasks s) i")
    case None
    with inv show ?thesis by (simp add: schedule_next_task_by_id_def svc_simps task_get_by_id_def)
  next
    case (Some t0)
    define task where "task = t0\<lparr>at_body := body_of s i\<rparr>"
    have get: "task_get_by_id i s = (Inr task, s)"
      using Some by (simp add: task_get_by_id_def task_def)
    define P where "P = (\<lambda>s. agent_inv s \<and> body_of s i = at_body task)"
    let ?pick = "if list_ex is_active (at_body task) then sret ()
      else case find is_waiting (at_body task) of
             None \<Rightarrow> sfail (NoQueuedBody i)
           | Some b \<Rightarrow>
               sbind (sgets tasks_count) (\<lambda>c.
               if max_tasks_count ev \<noteq> 0 \<and> c = max_tasks_count ev then sret ()
               else sthen (count_up ev) (run_body ev b))"
    have first: "keeps P (if at_status task = StQueuing then update_status ev task StRunning
        else if at_status task \<noteq> StRunning then sfail (NotInQueue i) else sret ())"
      unfolding P_def by (intro keeps_if keeps_sfail keeps_sret keeps_body sub_tasks_update_status agent_keeps)
    have second: "keeps P (report_started_task ev i)"
      unfolding P_def by (rule keeps_report_started) (simp add: body_of_def)
    have pick: "agent_inv (snd (?pick t))" if "P t" for t
    proof -
      have up: "agent_inv (snd (sthen (count_up ev) (run_body ev b) t))"
        if "b \<in> set (at_body task)" "\<forall>x \<in> set (at_body task). \<not> is_active x" for b
      proof (rule sthen_ensures [where P = P])
        show "keeps P (count_up ev)"
          unfolding P_def by (intro keeps_body agent_keeps) (simp add: count_up_def split: option.split)
        show "agent_inv (snd (run_body ev b t))" if "P t" for t
          using run_body_inv [of t b i ev] that \<open>b \<in> _\<close> \<open>\<forall>x \<in> _. _\<close> by (simp add: P_def)
      qed (use \<open>P t\<close> in \<open>auto simp: P_def\<close>)
      from \<open>P t\<close> have "agent_inv t" by (simp add: P_def)
      then show ?thesis
        using up by (auto simp: svc_simps list_ex_iff split: option.split dest: find_SomeD)
    qed
    have "snd (schedule_next_task_by_id ev i s) =
      snd (sthen (if at_status task = StQueuing then update_status ev task StRunning
        else if at_status task \<noteq> StRunning then sfail (NotInQueue i) else sret ())
        (sthen (report_started_task ev i) ?pick) s)"
      unfolding schedule_next_task_by_id_def sbind_run [of "task_get_by_id i"] get by simp
    also have "agent_inv \<dots>"
    proof (rule sthen_ensures [OF first])
      show "agent_inv (snd (sthen (report_started_task ev i) ?pick t))" if "P t" for t
      proof (rule sthen_ensures [where P = P, OF second])
        show "agent_inv (snd (?pick u))" if "P u" for u
          by (rule pick [OF that])
      qed (use that in \<open>auto simp: P_def\<close>)
    qed (use inv in \<open>auto simp: P_def task_def\<close>)
    finally show ?thesis .
  qed
qed


lemma schedule_next_task_inv [agent_keeps]: "keeps agent_inv (schedule_next_task ev)"
  unfolding schedule_next_task_def task_get_next_queuing_id_def
  by (intro keeps_sbind keeps_sgets keeps_option agent_keeps keeps_sret)

lemma pause_task_inv [agent_keeps]: "keeps agent_inv (pause_task ev i)"
  unfolding pause_task_def
  by (intro keeps_sbind agent_keeps)
    (auto intro!: keeps_sthen keeps_sfail agent_keeps split: agent_task_status.split)

lemma delete_task_inv [agent_keeps]: "keeps agent_inv (delete_task ev i b)"
  unfolding delete_task_def
  by (intro keeps_sbind keeps_sthen keeps_if keeps_sret agent_keeps)

lemma continue_task_inv [agent_keeps]: "keeps agent_inv (continue_task ev i)"
  unfolding continue_task_def by (intro keeps_sbind keeps_sthen agent_keeps)

text \<open>Marking the finished sub-task, then whatever keeps the invariant.\<close>

lemma keeps_read_update:
  assumes "\<And>x. \<not> is_active (g x) \<and> st_id (g x) = st_id x \<and> st_parent_id (g x) = st_parent_id x"
    and "\<And>x. keeps agent_inv (k x)"
  shows "keeps agent_inv (sbind (sub_get_by_id i) (\<lambda>x. sthen (sub_update (g x)) (k x)))"
proof
  fix s
  assume inv: "agent_inv s"
  show "agent_inv (snd (sbind (sub_get_by_id i) (\<lambda>x. sthen (sub_update (g x)) (k x)) s))"
  proof (cases "sub_row s i")
    case None
    with inv show ?thesis by (simp add: svc_simps sub_get_by_id_def)
  next
    case (Some x)
    then have i: "st_id x = i" by (auto dest: row_SomeD)
    have "known i (st_parent_id x) s" using inv Some by (simp add: known_def agent_inv_def)
    then have "sub_step i False s (snd (sub_update (g x) s))"
      using obeysD [OF known_sub_update [of "g x" i "st_parent_id x" False]] assms(1) [of x] i
      by (auto simp: under_def)
    then have "agent_inv (snd (sub_update (g x) s))" using inv by (rule sub_step_inv)
    then have "agent_inv (snd (sthen (sub_update (g x)) (k x) s))"
      using keepsD [OF assms(2)] by (auto simp: svc_simps split: prod.splits sum.splits)
    with Some show ?thesis by (simp add: svc_simps sub_get_by_id_def)
  qed
qed

lemma complete_sub_task_inv [agent_keeps]: "keeps agent_inv (complete_sub_task ev i)"
  unfolding complete_sub_task_def
  by (intro keeps_read_update keeps_sthen keeps_sbind keeps_if agent_keeps) (simp add: is_active_def)

lemma fail_sub_task_inv [agent_keeps]: "keeps agent_inv (fail_sub_task ev i)"
  unfolding fail_sub_task_def by (intro keeps_sbind keeps_sthen agent_keeps)

lemma delete_all_inv [agent_keeps]: "keeps agent_inv (delete_all_completed_tasks ev)"
  unfolding delete_all_completed_tasks_def task_get_all_def
  by (intro keeps_sbind keeps_sgets keeps_sfor keeps_if keeps_sret agent_keeps)

subsection \<open>Enqueueing a new task\<close>

lemma agent_inv_files: "agent_inv (s\<lparr>task_files := fs\<rparr>) = agent_inv s"
  by (simp add: agent_inv_def sub_ids_distinct_def one_active_def)

lemma sub_insert_run: "\<exists>fs. sub_insert e s = (Inr (), s\<lparr>task_files := fs, sub_tasks := replace_row st_id e (sub_tasks s)\<rparr>)"
proof -
  have files: "\<exists>fs. sfor xs (\<lambda>f. file_insert (file_of_info i f)) s = (Inr (), s\<lparr>task_files := fs\<rparr>)" for xs i s
  proof (induction xs arbitrary: s)
    case Nil
    show ?case by (auto simp: svc_simps intro: exI [of _ "task_files s"])
  next
    case (Cons f xs)
    let ?t = "s\<lparr>task_files := replace_row af_id (file_of_info i f) (task_files s)\<rparr>"
    from Cons [of ?t] obtain fs where
      "sfor xs (\<lambda>f. file_insert (file_of_info i f)) ?t = (Inr (), ?t\<lparr>task_files := fs\<rparr>)" by blast
    moreover have "sfor (f # xs) (\<lambda>f. file_insert (file_of_info i f)) s =
        sfor xs (\<lambda>f. file_insert (file_of_info i f)) ?t"
      by (simp only: sfor.simps sthen_run file_insert_run prod.case sum.case)
    ultimately show ?case by auto
  qed
  show ?thesis
    using files [of "files_of (st_task_type e)" "st_id e" "s\<lparr>sub_tasks := remove_first (\<lambda>x. st_id x = st_id e) (sub_tasks s)\<rparr>"]
    by (auto simp: sub_insert_def svc_simps replace_row_def)
qed

lemma sub_insert_inv: "\<not> is_active e \<Longrightarrow> keeps agent_inv (sub_insert e)"
proof
  fix s
  assume e: "\<not> is_active e" and inv: "agent_inv s"
  have d: "distinct (map st_id (sub_tasks s))" using inv by (simp add: agent_inv_def sub_ids_distinct_def)
  obtain fs where "snd (sub_insert e s) = s\<lparr>task_files := fs, sub_tasks := replace_row st_id e (sub_tasks s)\<rparr>"
    using sub_insert_run [of e s] by auto
  then show "agent_inv (snd (sub_insert e s))"
    using inv e by (auto simp: agent_inv_def sub_ids_distinct_def one_active_def distinct_replace_row
        row_replace_row [OF d] split: if_splits)
qed

lemma sub_insert_tasks: "tasks (snd (sub_insert e s)) = tasks s"
  using sub_insert_run [of e s] by auto

lemma sfor_sub_insert_tasks: "tasks (snd (sfor xs sub_insert s)) = tasks s"
proof (induction xs arbitrary: s)
  case (Cons x xs)
  then show ?case using sub_insert_run [of x s] by (auto simp: svc_simps)
qed (simp add: svc_simps)

lemma sfor_sub_insert_inv:
  "\<forall>x \<in> set xs. \<not> is_active x \<Longrightarrow> keeps agent_inv (sfor xs sub_insert)"
  by (induction xs) (auto intro: keeps_sthen sub_insert_inv)

lemma task_insert_inv:
  assumes "\<forall>x \<in> set (at_body e). \<not> is_active x"
  shows "keeps agent_inv (task_insert e)"
proof
  fix s
  assume inv: "agent_inv s"
  define s1 where "s1 = s\<lparr>tasks := remove_first (\<lambda>x. at_id x = at_id e) (tasks s)\<rparr>"
  define s2 where "s2 = snd (sfor (at_body e) sub_insert s1)"
  have "agent_inv s1" unfolding s1_def
    using inv by (intro agent_inv_tasks distinct_remove_first) (auto simp: agent_inv_def)
  then have s2: "agent_inv s2" unfolding s2_def
    by (rule keepsD [OF sfor_sub_insert_inv [OF assms]])
  have ts: "tasks s2 = tasks s1" unfolding s2_def by (rule sfor_sub_insert_tasks)
  have "distinct (map at_id (replace_row at_id e (tasks s)))"
    using inv by (intro distinct_replace_row) (simp add: agent_inv_def)
  then have "agent_inv (s2\<lparr>tasks := tasks s2 @ [e]\<rparr>)"
    using s2 ts by (intro agent_inv_tasks) (simp_all add: s1_def replace_row_def)
  moreover have "snd (task_insert e s) \<in> {s2, s2\<lparr>tasks := tasks s2 @ [e]\<rparr>}"
    unfolding s2_def s1_def
    by (auto simp: task_insert_def svc_simps split: prod.splits sum.splits)
  ultimately show "agent_inv (snd (task_insert e s))" using s2 by auto
qed

lemma enqueue_task_inv [agent_keeps]: "keeps agent_inv (enqueue_task ev t)"
  unfolding enqueue_task_def Let_def
  by (intro keeps_sthen agent_keeps task_insert_inv) (auto simp: is_active_def)

lemma keeps_logged: "keeps P m \<Longrightarrow> keeps P (logged m)"
  unfolding logged_def by (intro keeps_sbind keeps_satt keeps_if keeps_sret keeps_sfail)

lemma file_info_of_inv: "keeps agent_inv (file_info_of ev f)"
  by (cases "(ev, f)" rule: file_info_of.cases)
    (auto intro!: keeps_sbind keeps_sret agent_keeps)

lemma agent_task_of_inv: "keeps agent_inv (agent_task_of ev m)"
  unfolding agent_task_of_def sub_task_of_def Let_def
  by (auto intro!: keeps_sbind keeps_smap keeps_sret keeps_sgets file_info_of_inv agent_keeps
      split: dto_task_body.split)

lemma handle_message_inv: "keeps agent_inv (handle_message ev m)"
  unfolding handle_message_def
  by (auto intro!: keeps_sbind keeps_logged agent_task_of_inv agent_keeps split: dto_task_command.split)

section \<open>The step relation\<close>

text \<open>
  \<open>watch\<close> tells whether the file system watcher runs: it does not when a SSH proxy is configured
  (\<open>file_system_watch_runner.rs\<close>). It refreshes the sub-task named by a signal file. The transfers
  report any file at any time; the clock only grows.
\<close>

inductive agent_step :: "aenv \<Rightarrow> bool \<Rightarrow> astate \<Rightarrow> astate \<Rightarrow> bool" for ev watch where
  message: "agent_step ev watch s (snd (handle_message ev m s))"
| report: "sub_task_reports s = xs @ r # ys \<Longrightarrow>
    agent_step ev watch s (snd (handle_report ev r (s\<lparr>sub_task_reports := xs @ ys\<rparr>)))"
| deployment: "deployments s = c # cs \<Longrightarrow>
    agent_step ev watch s (snd (handle_deployment ev c (s\<lparr>deployments := cs\<rparr>)))"
| installation: "i \<in> set (spawns s) \<Longrightarrow> agent_step ev watch s (snd (run_spawned ev i s))"
| interval: "agent_step ev watch s (snd (interval_tick ev s))"
| downloaded: "agent_step ev watch s (snd (run_job ev f s))"
| uploaded: "agent_step ev watch s (snd (complete_job ev f s))"
| transfer_failed: "agent_step ev watch s (snd (fail_job ev i reason s))"
| signal: "watch \<Longrightarrow> agent_step ev watch s (snd (run_refresh_status ev i s))"
| time: "anow s \<le> n \<Longrightarrow> agent_step ev watch s (s\<lparr>anow := n\<rparr>)"

inductive_cases unwatched_stepE: "agent_step ev False s t"

inductive agent_reachable :: "aenv \<Rightarrow> bool \<Rightarrow> astate \<Rightarrow> astate \<Rightarrow> bool" for ev watch where
  start: "agent_reachable ev watch s s"
| step: "agent_reachable ev watch s t \<Longrightarrow> agent_step ev watch t u \<Longrightarrow> agent_reachable ev watch s u"

text \<open>Refreshing every running job: the jobs not refreshed yet are still running.\<close>

lemma refresh_list_inv:
  "agent_inv s \<Longrightarrow> distinct (map st_id ts) \<Longrightarrow>
   \<forall>x \<in> set ts. sub_row s (st_id x) = Some x \<and> is_active x \<Longrightarrow>
   agent_inv (snd (sfor ts (\<lambda>x. run_refresh_status ev (st_id x)) s))"
proof (induction ts arbitrary: s)
  case Nil
  then show ?case by (simp add: svc_simps)
next
  case (Cons x ts)
  let ?t = "snd (run_refresh_status ev (st_id x) s)"
  have "sub_step (st_id x) True s ?t" by (rule obeysD [OF run_refresh_step])
  then have step: "sub_step (st_id x) False s ?t"
    using Cons.prems(3) by (auto intro: sub_step_active)
  have t: "agent_inv ?t" using step Cons.prems(1) by (rule sub_step_inv)
  have "\<forall>y \<in> set ts. st_id y \<noteq> st_id x" using Cons.prems(2) by (auto simp: image_iff)
  then have "\<forall>y \<in> set ts. sub_row ?t (st_id y) = Some y \<and> is_active y"
    using step Cons.prems(1,3) by (auto simp: sub_step_def agent_inv_def)
  then have "agent_inv (snd (sfor ts (\<lambda>x. run_refresh_status ev (st_id x)) ?t))"
    using Cons.IH [OF t] Cons.prems(2) by simp
  with t show ?case by (auto simp: svc_simps split: prod.splits sum.splits)
qed

lemma refresh_all_inv [agent_keeps]: "keeps agent_inv (run_refresh_all_status ev)"
proof
  fix s
  assume inv: "agent_inv s"
  let ?ts = "filter (\<lambda>x. st_job_id x \<noteq> '''' \<and> st_status x = StRunning) (sub_tasks s)"
  have d: "distinct (map st_id (sub_tasks s))" using inv by (simp add: agent_inv_def sub_ids_distinct_def)
  then have "agent_inv (snd (sfor ?ts (\<lambda>x. run_refresh_status ev (st_id x)) s))"
    by (intro refresh_list_inv [OF inv]) (auto simp: distinct_map_filter row_mem is_active_def)
  then show "agent_inv (snd (run_refresh_all_status ev s))"
    by (simp add: run_refresh_all_status_def get_all_refreshable_task_def svc_simps)
qed

lemma transfer_inv [agent_keeps]:
  "keeps agent_inv (run_job ev f)"
  "keeps agent_inv (complete_job ev f)"
  "keeps agent_inv (fail_job ev i reason)"
proof -
  show "keeps agent_inv (run_job ev f)" unfolding run_job_def
    by (intro keeps_sbind keeps_sthen agent_keeps keeps_inv_obeys [OF internal_run_step])
  show "keeps agent_inv (complete_job ev f)" unfolding complete_job_def
    by (intro keeps_sbind keeps_sthen agent_keeps keeps_inv_obeys [OF internal_complete_step])
  have "obeys (sub_step i False) (fail_job ev i reason)" unfolding fail_job_def
    by (rule obeys_read) (rule known_fail_sub)
  then show "keeps agent_inv (fail_job ev i reason)" by (rule keeps_inv_obeys)
qed

lemma handle_report_inv: "keeps agent_inv (handle_report ev r)"
  unfolding handle_report_def
  by (auto intro!: keeps_logged agent_keeps split: sub_task_status.split)

lemma handle_deployment_inv: "keeps agent_inv (handle_deployment ev c)"
  unfolding handle_deployment_def
  by (auto intro!: keeps_logged keeps_smodify keeps_sfail
      keeps_inv_obeys [OF deploy_complete_step] keeps_inv_obeys [OF deploy_fail_step]
      split: agent_task_status.split)

lemma run_spawned_inv: "keeps agent_inv (run_spawned ev i)"
  unfolding run_spawned_def
  by (auto intro!: keeps_sthen keeps_logged keeps_smodify keeps_inv_obeys [OF deploy_run_step])

lemma interval_tick_inv: "keeps agent_inv (interval_tick ev)"
  unfolding interval_tick_def by (intro keeps_sthen keeps_logged agent_keeps)

lemma agent_step_inv:
  assumes "agent_step ev False s t" "agent_inv s"
  shows "agent_inv t"
  using assms(1)
  by (rule unwatched_stepE)
    (use assms(2) in \<open>auto intro: keepsD [OF handle_message_inv] keepsD [OF handle_report_inv]
      keepsD [OF handle_deployment_inv] keepsD [OF run_spawned_inv] keepsD [OF interval_tick_inv]
      transfer_inv [THEN keepsD]\<close>)

lemma agent_reachable_inv: "agent_reachable ev False s t \<Longrightarrow> agent_inv s \<Longrightarrow> agent_inv t"
  by (induction rule: agent_reachable.induct) (auto intro: agent_step_inv)

end
