(* ===== verification/KA_Samples.thy ===== *)
theory KA_Samples
  imports KA_Steps
begin

text \<open>
  Concrete agents for the witnesses: an environment that answers every call with success, an empty
  repository, a task with one use case that needs a file, and the states it runs through.
\<close>

definition sample_job :: job where
  "sample_job = \<lparr>job_id = ''j'', job_name = '''', job_owner = '''', job_state = JCompleted,
     exit_status_code = 0, error_output = '''', job_resource_used =
       \<lparr>cpu = 1, avg_memory = 0, max_memory = 0, storage = 0, wall_time = 5, cpu_time = 5, res_node = 1,
        start_time = 0, end_time = 5\<rparr>\<rparr>"

definition sample_agent :: aenv where
  "sample_agent = \<lparr>a_overflow_checks = True, max_tasks_count = 0, has_deployer = (\<lambda>_. True),
     gen_load_script = (\<lambda>_ h. h), captures = (\<lambda>e t. Inr [t]), ans_unit = (\<lambda>_. Inr ()),
     ans_string = (\<lambda>_. Inr ''j''), ans_hash = (\<lambda>_. Inr (Some ''h'')), ans_job = (\<lambda>_. Inr sample_job),
     a_uuid_gen = (\<lambda>n. of_nat (100 + n))\<rparr>"

definition empty_agent :: astate where
  "empty_agent = \<lparr>tasks = [], sub_tasks = [], task_files = [], tasks_count = 0, anow = 0, calls = [],
     sub_task_reports = [], deployments = [], downloads = [], uploads = [], spawns = [], adrawn = 0\<rparr>"

text \<open>A deployment followed by a collection of lines.\<close>

definition sample_message :: dto_task where
  "sample_message = \<lparr>dto_id = 7,
     dto_body = [DtoSoftwareDeployment (DtoSpack ''s'' []) DtoInstall,
                 DtoCollectedOut DtoStdout (DtoBottomLines 1) (DtoToText 9) False],
     dto_command = DtoStart\<rparr>"

definition sample_use_case :: "agent_task_status \<Rightarrow> sub_task" where
  "sample_use_case st = \<lparr>st_id = 1, st_parent_id = 7, st_status = st, st_facility_kind = AFacilityUnknown,
     st_task_type = AUsecaseExecution ''u'' [''-v''] [] AStdInUnknown [], st_job_id = '''',
     st_failed_reason = '''', st_resource_used = None, st_requirements = None\<rparr>"

definition sample_collection :: "agent_task_status \<Rightarrow> sub_task" where
  "sample_collection st = \<lparr>st_id = 2, st_parent_id = 7, st_status = st, st_facility_kind = AFacilityUnknown,
     st_task_type = ACollectedOut AStdout (ABottomLines 1) (AToText 9) False, st_job_id = '''',
     st_failed_reason = '''', st_resource_used = None, st_requirements = None\<rparr>"

definition sample_file :: "uuid \<Rightarrow> agent_file_status \<Rightarrow> agent_file" where
  "sample_file i st = \<lparr>af_id = i, af_metadata_id = 0, af_file_name = ''f'', af_related_task_body = 1,
     af_file_type = IN, af_status = st, af_is_optional = False, af_is_packaged = False,
     af_text = '''', af_is_generated = False\<rparr>"

definition sample_agent_task :: "agent_task_status \<Rightarrow> agent_task" where
  "sample_agent_task st = \<lparr>at_id = 7, at_status = st, at_body = [], at_update_time = 0\<rparr>"

text \<open>A task of a use case and a collection.\<close>

definition agent_with ::
  "agent_task_status \<Rightarrow> sub_task list \<Rightarrow> agent_file list \<Rightarrow> u32 \<Rightarrow> astate" where
  "agent_with st subs fs n = empty_agent\<lparr>tasks := [sample_agent_task st], sub_tasks := subs,
     task_files := fs, tasks_count := n\<rparr>"

lemma sample_agent_fields:
  "a_overflow_checks sample_agent = True" "max_tasks_count sample_agent = 0"
  "has_deployer sample_agent d = True" "gen_load_script sample_agent d h = h"
  "captures sample_agent e txt = Inr [txt]" "ans_unit sample_agent cs = Inr ()"
  "ans_string sample_agent cs = Inr ''j''" "ans_hash sample_agent cs = Inr (Some ''h'')"
  "ans_job sample_agent cs = Inr sample_job" "a_uuid_gen sample_agent n = of_nat (100 + n)"
  by (simp_all add: sample_agent_def)

lemmas agent_eval = svc_simps sample_agent_fields empty_agent_def sample_message_def sample_use_case_def
  sample_collection_def sample_file_def sample_agent_task_def agent_with_def sample_job_def

lemmas agent_op_defs = row_def has_row_def replace_row_def body_of_def files_by_task_def files_ready_def
  task_get_by_id_def task_get_all_def task_update_def task_insert_def task_delete_by_id_def
  task_get_next_queuing_id_def sub_get_by_id_def sub_update_def sub_insert_def sub_delete_by_id_def
  file_get_by_id_def file_update_def file_insert_run find_files_by_task_def update_task_file_status_def
  asave_changed_def get_all_refreshable_task_def is_active_def is_waiting_def
  send_report_def send_deployment_def send_download_def send_upload_def deploy_command_def new_uuid_def
  count_up_def count_down_def u32_inc_def u32_dec_def

end
