(* ===== verification/KA_Props.thy ===== *)
theory KA_Props
  imports KA_Samples
begin

text \<open>
  Properties of the agent: the invariant of its state machine, what starts and ends a job, what
  pausing and collecting do, and what the counter of running tasks allows to go wrong.
\<close>

section \<open>One sub-task at a time\<close>

lemma agent_inv_empty: "tasks s = [] \<Longrightarrow> sub_tasks s = [] \<Longrightarrow> agent_inv s"
  by (simp add: agent_inv_def sub_ids_distinct_def one_active_def row_def)

lemma distinct_same_key:
  assumes "distinct (map f xs)" and same: "\<And>x y. x \<in> set xs \<Longrightarrow> y \<in> set xs \<Longrightarrow> f x = f y"
  shows "length xs \<le> 1"
proof (rule ccontr)
  assume "\<not> length xs \<le> 1"
  then obtain x y ys where xs: "xs = x # y # ys" by (cases xs; cases "tl xs") auto
  then have "f x = f y" by (intro same) simp_all
  with assms(1) xs show False by simp
qed

lemma active_at_most_one:
  assumes "agent_inv s"
  shows "length (filter is_active (body_of s p)) \<le> 1"
proof -
  let ?xs = "filter is_active (body_of s p)"
  have d: "distinct (map st_id (sub_tasks s))" and o: "one_active s"
    using assms by (simp_all add: agent_inv_def sub_ids_distinct_def)
  have same: "st_id x = st_id y" if "x \<in> set ?xs" "y \<in> set ?xs" for x y
    using that row_mem [OF d, of x] row_mem [OF d, of y] one_activeD [OF o]
    by (auto simp: body_of_def)
  have "distinct (map st_id ?xs)" using d by (simp add: body_of_def distinct_map_filter)
  then show ?thesis by (rule distinct_same_key) (rule same)
qed

text \<open>C3 In every state the agent reaches from an empty repository, without the file system
  watcher, the ids of tasks and sub-tasks are unique and every task has at most one sub-task that
  is running or completing.\<close>

theorem one_sub_task_at_a_time:
  assumes "agent_reachable ev False s t" "tasks s = []" "sub_tasks s = []"
  shows "distinct (map at_id (tasks t)) \<and> distinct (map st_id (sub_tasks t)) \<and>
    length (filter is_active (body_of t p)) \<le> 1"
proof -
  have "agent_inv t" using agent_reachable_inv [OF assms(1)] agent_inv_empty [OF assms(2,3)] by blast
  then show ?thesis using active_at_most_one by (simp add: agent_inv_def sub_ids_distinct_def)
qed

section \<open>Pausing\<close>

lemma save_ok:
  "\<forall>cs. ans_unit ev cs = Inr () \<Longrightarrow> \<exists>cs. asave_changed ev s = (Inr (), s\<lparr>calls := calls s @ cs\<rparr>)"
  by (auto simp: asave_changed_def svc_simps)

lemma signal_downloads_run:
  "\<exists>ds. signal_downloads st fs s = (Inr (), s\<lparr>downloads := ds\<rparr>)"
proof (induction fs arbitrary: s)
  case Nil
  show ?case by (auto simp: signal_downloads_def svc_simps intro: exI [of _ "downloads s"])
next
  case (Cons f fs)
  define c where "c = \<lparr>ft_id = af_id f, ft_parent_id = (0 :: uuid), ft_status = st, ft_task_file = None\<rparr>"
  obtain d1 where d1: "signal_downloads st fs s = (Inr (), s\<lparr>downloads := d1\<rparr>)" using Cons by blast
  obtain d2 where d2: "signal_downloads st fs (s\<lparr>downloads := downloads s @ [c]\<rparr>) = (Inr (), s\<lparr>downloads := d2\<rparr>)"
    using Cons [of "s\<lparr>downloads := downloads s @ [c]\<rparr>"] by auto
  from d1 d2 show ?case
    by (cases "af_file_type f = IN \<and> af_status f \<noteq> Both")
      (auto simp: signal_downloads_def sthen_run sret_run send_download_def smodify_run c_def)
qed

text \<open>What pausing a list of sub-tasks leaves alone.\<close>

definition same_tasks :: "astate \<Rightarrow> astate \<Rightarrow> bool" where
  "same_tasks s t \<longleftrightarrow> tasks t = tasks s \<and> tasks_count t = tasks_count s \<and> anow t = anow s"

definition pausable :: "sub_task \<Rightarrow> bool" where
  "pausable x = (case st_task_type x of
     AUsecaseExecution _ _ _ _ _ \<Rightarrow> True | ASoftwareDeployment _ \<Rightarrow> True | _ \<Rightarrow> False)"

abbreviation suspend :: "sub_task \<Rightarrow> sub_task" where
  "suspend x \<equiv> x\<lparr>st_status := StSuspended\<rparr>"

lemma row_Some_has_row: "row key xs k = Some x \<Longrightarrow> has_row key k xs"
  by (auto simp: has_row_iff dest: row_SomeD)

lemma run_pause_exact:
  assumes ok: "\<forall>cs. ans_unit ev cs = Inr ()" and x: "sub_row s i = Some x"
  shows "\<exists>t. run_pause_sub_task ev i s = (Inr (), t) \<and>
    sub_tasks t = replace_row st_id (suspend x) (sub_tasks s) \<and> same_tasks s t"
proof -
  define cs where "cs = (if st_job_id x \<noteq> '''' then calls s @ [PauseJob (st_job_id x)] else calls s)"
  define s1 where "s1 = s\<lparr>calls := cs, sub_tasks := replace_row st_id (suspend x) (sub_tasks s)\<rparr>"
  obtain ds where ds: "signal_downloads FtPause (files_by_task s1 i) s1 = (Inr (), s1\<lparr>downloads := ds\<rparr>)"
    using signal_downloads_run by blast
  obtain cs' where cs': "asave_changed ev (s1\<lparr>downloads := ds\<rparr>) = (Inr (), s1\<lparr>downloads := ds, calls := calls s1 @ cs'\<rparr>)"
    using save_ok [OF ok, of "s1\<lparr>downloads := ds\<rparr>"] by auto
  have "st_id x = i" using x by (auto dest: row_SomeD)
  then have "run_pause_sub_task ev i s = (Inr (), s1\<lparr>downloads := ds, calls := calls s1 @ cs'\<rparr>)"
    using x ok ds cs' row_Some_has_row [OF x]
    by (auto simp: run_pause_sub_task_def svc_simps sub_get_by_id_def sub_update_def find_files_by_task_def
        s1_def cs_def cong: if_cong)
  then show ?thesis by (auto simp: s1_def same_tasks_def)
qed

lemma deploy_pause_exact:
  assumes ok: "\<forall>cs. ans_unit ev cs = Inr ()" and x: "sub_row s i = Some x"
  shows "\<exists>t. deploy_pause_sub_task ev i s = (Inr (), t) \<and>
    sub_tasks t = replace_row st_id (suspend x) (sub_tasks s) \<and> same_tasks s t"
proof -
  have "st_id x = i" using x by (auto dest: row_SomeD)
  then show ?thesis
    using x ok row_Some_has_row [OF x]
    by (auto simp: deploy_pause_sub_task_def deploy_command_def send_deployment_def set_status_def svc_simps
        sub_get_by_id_def sub_update_def asave_changed_def same_tasks_def)
qed

lemma pause_body_exact:
  assumes ok: "\<forall>cs. ans_unit ev cs = Inr ()" and x: "sub_row s (st_id x) = Some x"
  shows "\<exists>t. (case service_of ev x of Some v \<Rightarrow> pause_sub_task v (st_id x) | None \<Rightarrow> sret ()) s = (Inr (), t) \<and>
    sub_tasks t = (if pausable x then replace_row st_id (suspend x) (sub_tasks s) else sub_tasks s) \<and> same_tasks s t"
  using run_pause_exact [OF assms] deploy_pause_exact [OF assms]
  by (cases "st_task_type x")
    (auto simp: service_of_def pausable_def collect_pause_sub_task_def svc_simps same_tasks_def)

lemma pause_bodies_exact:
  assumes ok: "\<forall>cs. ans_unit ev cs = Inr ()"
  shows "distinct (map st_id (sub_tasks s)) \<Longrightarrow> distinct (map st_id xs) \<Longrightarrow> set xs \<subseteq> set (sub_tasks s) \<Longrightarrow>
    \<exists>t. pause_bodies ev xs s = (Inr (), t) \<and> same_tasks s t \<and>
      sub_tasks t = filter (\<lambda>y. st_id y \<notin> st_id ` set (filter pausable xs)) (sub_tasks s)
        @ map suspend (filter pausable xs)"
proof (induction xs arbitrary: s)
  case Nil
  then show ?case by (simp add: pause_bodies_def svc_simps same_tasks_def)
next
  case (Cons x xs)
  have "sub_row s (st_id x) = Some x" using Cons.prems by (auto intro: row_mem)
  from pause_body_exact [OF ok this] obtain u where
    u: "(case service_of ev x of Some v \<Rightarrow> pause_sub_task v (st_id x) | None \<Rightarrow> sret ()) s = (Inr (), u)"
      "sub_tasks u = (if pausable x then replace_row st_id (suspend x) (sub_tasks s) else sub_tasks s)"
      "same_tasks s u" by blast
  have rep: "replace_row st_id (suspend x) (sub_tasks s) =
      filter (\<lambda>y. st_id y \<noteq> st_id x) (sub_tasks s) @ [suspend x]"
    using Cons.prems(1) by (simp add: replace_row_def remove_first_keys)
  have x: "st_id x \<notin> st_id ` set xs" using Cons.prems(2) by simp
  have ne: "\<forall>y \<in> set xs. st_id y \<noteq> st_id x" using x by (metis imageI)
  have "distinct (map st_id (sub_tasks u))"
    using Cons.prems(1) u(2) distinct_replace_row [of st_id "sub_tasks s"] by simp
  moreover have "set xs \<subseteq> set (sub_tasks u)"
    using Cons.prems(3) ne u(2) rep by auto
  ultimately obtain t where
    t: "pause_bodies ev xs u = (Inr (), t)" "same_tasks u t"
      "sub_tasks t = filter (\<lambda>y. st_id y \<notin> st_id ` set (filter pausable xs)) (sub_tasks u)
        @ map suspend (filter pausable xs)"
    using Cons.IH [of u] Cons.prems(2) by auto
  have "pause_bodies ev (x # xs) s = (Inr (), t)"
    using u(1) t(1) by (simp add: pause_bodies_def svc_simps)
  moreover have "same_tasks s t" using u(3) t(2) by (simp add: same_tasks_def)
  moreover have "st_id x \<notin> st_id ` set (filter pausable xs)" using x by auto
  ultimately show ?case using t(3) u(2) rep by (auto simp: conj_commute)
qed


text \<open>With a coordinator that answers, a report is one call.\<close>

lemma http_post_ok:
  "\<forall>cs. ans_unit ev cs = Inr () \<Longrightarrow> http_post ev r s = (Inr (), s\<lparr>calls := calls s @ [PostResult r]\<rparr>)"
  by (subst http_post_def, subst http_post_loop.simps) (simp add: svc_simps)

lemma pause_task_effect:
  assumes ok: "\<forall>cs. ans_unit ev cs = Inr ()"
    and task: "row at_id (tasks s) i = Some task" "at_status task = StRunning"
    and d: "distinct (map st_id (sub_tasks s))" "distinct (map at_id (tasks s))"
    and none: "\<forall>x \<in> set (tasks s). at_status x \<noteq> StQueuing"
    and count: "tasks_count s \<noteq> 0"
  shows "\<exists>t. pause_task ev i s = (Inr (), t) \<and>
    body_of t i = filter (\<lambda>x. \<not> pausable x) (body_of s i) @ map suspend (filter pausable (body_of s i)) \<and>
    (\<forall>p. p \<noteq> i \<longrightarrow> body_of t p = body_of s p) \<and>
    map_option at_status (row at_id (tasks t) i) = Some StSuspended \<and>
    tasks_count t = tasks_count s - 1 \<and> last (calls t) = PostResult (task_result_of i RPaused)"
proof -
  let ?body = "body_of s i" and ?s1 = "s\<lparr>tasks_count := tasks_count s - 1\<rparr>"
  let ?susp = "task\<lparr>at_body := ?body, at_status := StSuspended, at_update_time := anow s\<rparr>"
  have id: "at_id task = i" using task(1) by (auto dest: row_SomeD)
  obtain u where u: "pause_bodies ev ?body ?s1 = (Inr (), u)" "same_tasks ?s1 u"
    "sub_tasks u = filter (\<lambda>y. st_id y \<notin> st_id ` set (filter pausable ?body)) (sub_tasks s)
      @ map suspend (filter pausable ?body)"
    using pause_bodies_exact [OF ok, of ?s1 ?body] d(1) by (auto simp: body_of_def distinct_map_filter)
  define v where "v = u\<lparr>tasks := replace_row at_id ?susp (tasks s)\<rparr>"
  obtain cs where cs: "asave_changed ev v = (Inr (), v\<lparr>calls := calls v @ cs\<rparr>)"
    using save_ok [OF ok] by blast
  have up: "update_status ev (task\<lparr>at_body := ?body\<rparr>) StSuspended u = (Inr (), v\<lparr>calls := calls v @ cs\<rparr>)"
    using u(2) cs id row_Some_has_row [OF task(1)]
    by (simp add: update_status_def svc_simps task_update_def same_tasks_def v_def)
  let ?t = "v\<lparr>calls := calls v @ cs @ [PostResult (task_result_of i RPaused)]\<rparr>"
  have "find (\<lambda>x. at_status x = StQueuing) (tasks v) = None"
    using none d(2) by (auto simp: v_def find_None_iff set_replace_row)
  then have sched: "schedule_next_task ev ?t = (Inr (), ?t)"
    by (simp add: schedule_next_task_def task_get_next_queuing_id_def svc_simps)
  have run: "pause_task ev i s = (Inr (), ?t)"
    using task count u(1) up sched ok
    by (simp add: pause_task_def svc_simps task_get_by_id_def count_down_def u32_dec_def
        report_paused_task_def http_post_ok)
  have other: "st_id y \<notin> st_id ` set (filter pausable ?body)"
    if "y \<in> set (sub_tasks s)" "st_parent_id y \<noteq> i \<or> \<not> pausable y" for y
    using that d(1) by (auto simp: body_of_def distinct_map inj_on_def)
  have body_i: "body_of ?t i = filter (\<lambda>x. \<not> pausable x) ?body @ map suspend (filter pausable ?body)"
  proof -
    have "filter (\<lambda>x. st_parent_id x = i \<and> st_id x \<notin> st_id ` set (filter pausable ?body)) (sub_tasks s) =
        filter (\<lambda>x. st_parent_id x = i \<and> \<not> pausable x) (sub_tasks s)"
      by (rule filter_cong) (use other in \<open>auto simp: body_of_def\<close>)
    then show ?thesis
      by (simp add: v_def u(3) body_of_def filter_map comp_def conj_commute cong: conj_cong)
  qed
  have body_p: "body_of ?t p = body_of s p" if "p \<noteq> i" for p
    using other that by (auto simp: v_def u(3) body_of_def filter_map comp_def intro!: filter_cong)
  have "row at_id (tasks v) i = Some ?susp"
    using row_replace_row [OF d(2), of ?susp] id by (simp add: v_def)
  moreover have "tasks_count v = tasks_count s - 1" using u(2) by (simp add: v_def same_tasks_def)
  ultimately show ?thesis using run body_i body_p by auto
qed


text \<open>C14 Pausing a running task, when every call succeeds and no task is queued, suspends each of its
  use cases and deployments, the completed ones too, and moves them behind its other sub-tasks in
  the order they had; no sub-task of another task changes, the task is suspended, one running task
  less is counted, and the coordinator is told last.\<close>

theorem pause_task_exact:
  assumes ok: "\<forall>cs. ans_unit ev cs = Inr ()"
    and task: "row at_id (tasks s) i = Some task" "at_status task = StRunning"
    and d: "distinct (map st_id (sub_tasks s))" "distinct (map at_id (tasks s))"
    and none: "\<forall>x \<in> set (tasks s). at_status x \<noteq> StQueuing"
    and count: "tasks_count s \<noteq> 0"
  shows "\<exists>t. pause_task ev i s = (Inr (), t) \<and>
    body_of t i = filter (\<lambda>x. \<not> pausable x) (body_of s i) @ map suspend (filter pausable (body_of s i)) \<and>
    (\<forall>p. p \<noteq> i \<longrightarrow> body_of t p = body_of s p) \<and>
    map_option at_status (row at_id (tasks t) i) = Some StSuspended \<and>
    tasks_count t = tasks_count s - 1 \<and> last (calls t) = PostResult (task_result_of i RPaused)"
  by (rule pause_task_effect [OF assms])

lemma save_ok_run:
  "\<forall>cs. ans_unit ev cs = Inr () \<Longrightarrow> asave_changed ev s =
     (Inr (), s\<lparr>calls := calls s @ [WriteTasks (tasks s), WriteSubTasks (sub_tasks s), WriteFiles (task_files s)]\<rparr>)"
  by (simp add: asave_changed_def svc_simps)

lemma continue_deployment_run:
  assumes ok: "\<forall>cs. ans_unit ev cs = Inr ()" and max: "max_tasks_count ev = 0"
    and task: "row at_id (tasks t) i = Some task" and inv: "agent_inv t"
    and idle: "\<not> list_ex is_active (body_of t i)" and pick: "find is_waiting (body_of t i) = Some y"
    and y: "st_status y = StSuspended" "st_task_type y = ASoftwareDeployment k"
    and count: "tasks_count t \<noteq> - 1"
  shows "\<exists>u. continue_task ev i t = (Inr (), u) \<and>
    sub_tasks u = replace_row st_id (y\<lparr>st_status := StRunning\<rparr>) (sub_tasks t)"
proof -
  have d: "distinct (map at_id (tasks t))" "distinct (map st_id (sub_tasks t))"
    using inv by (simp_all add: agent_inv_def sub_ids_distinct_def)
  have id: "at_id task = i" using task by (auto dest: row_SomeD)
  have "y \<in> set (sub_tasks t)" using find_SomeD [OF pick] by (simp add: body_of_def)
  then have yrow: "sub_row t (st_id y) = Some y" by (rule row_mem [OF d(2)])
  let ?k1 = "task\<lparr>at_body := body_of t i, at_status := StQueuing, at_update_time := anow t\<rparr>"
  let ?ts1 = "replace_row at_id ?k1 (tasks t)"
  have d1: "distinct (map at_id ?ts1)" using d(1) by (rule distinct_replace_row)
  have r1: "row at_id ?ts1 i = Some ?k1" using row_replace_row [OF d(1), of ?k1 i] id by simp
  have bodies: "body_of (t\<lparr>tasks := ts, calls := cs\<rparr>) i = body_of t i" for ts cs
    by (simp add: body_of_def)
  show ?thesis
    using ok max task id y count row_Some_has_row [OF task] row_Some_has_row [OF r1] idle pick
      row_Some_has_row [OF yrow]
    by (simp add: continue_task_def svc_simps task_get_by_id_def update_status_def task_update_def
        save_ok_run report_resumed_task_def report_started_task_def http_post_ok
        schedule_next_task_by_id_def r1 bodies run_body_def service_of_def
        deploy_continue_sub_task_def deploy_enqueue_sub_task_def deploy_command_def send_deployment_def
        set_status_def sub_get_by_id_def sub_update_def yrow count_up_def u32_inc_def)
qed


text \<open>When a task is paused while a later sub-task of its body runs last in the stored order,
  continuing it starts the first stored deployment instead, and the interrupted sub-task stays
  suspended.\<close>

theorem resume_starts_another:
  assumes ok: "\<forall>cs. ans_unit ev cs = Inr ()" and max: "max_tasks_count ev = 0"
    and task: "row at_id (tasks s) i = Some task" "at_status task = StRunning"
    and inv: "agent_inv s"
    and none: "\<forall>x \<in> set (tasks s). at_status x \<noteq> StQueuing"
    and count: "tasks_count s \<noteq> 0"
    and body: "body_of s i = b # bs @ [x]" "list_all pausable (b # bs @ [x])"
    and b: "st_task_type b = ASoftwareDeployment k" and x: "is_active x"
  shows "\<exists>t u. pause_task ev i s = (Inr (), t) \<and> continue_task ev i t = (Inr (), u) \<and>
    map_option st_status (sub_row u (st_id b)) = Some StRunning \<and>
    map_option st_status (sub_row u (st_id x)) = Some StSuspended"
proof -
  have d: "distinct (map st_id (sub_tasks s))" "distinct (map at_id (tasks s))"
    using inv by (simp_all add: agent_inv_def sub_ids_distinct_def)
  have pausables: "filter pausable (body_of s i) = body_of s i" "filter (\<lambda>x. \<not> pausable x) (body_of s i) = []"
    using body by (auto simp: list_all_iff)
  obtain t where t: "pause_task ev i s = (Inr (), t)"
    "body_of t i = map suspend (body_of s i)" "tasks_count t = tasks_count s - 1"
    "map_option at_status (row at_id (tasks t) i) = Some StSuspended"
    using pause_task_effect [OF ok task d none count] unfolding pausables by auto
  from t(4) obtain task' where task': "row at_id (tasks t) i = Some task'" by auto
  have inv_t: "agent_inv t" using keepsD [OF pause_task_inv inv, of ev i] t(1) by simp
  have idle: "\<not> list_ex is_active (body_of t i)"
    unfolding t(2) by (auto simp: list_ex_iff is_active_def)
  have pick: "find is_waiting (body_of t i) = Some (suspend b)"
    unfolding t(2) body(1) by (simp add: is_waiting_def)
  have "tasks_count t \<noteq> - 1" using count t(3) by simp
  from continue_deployment_run [OF ok max task' inv_t idle pick _ _ this] b
  obtain u where u: "continue_task ev i t = (Inr (), u)"
    "sub_tasks u = replace_row st_id (b\<lparr>st_status := StRunning\<rparr>) (sub_tasks t)" by auto
  have dt: "distinct (map st_id (sub_tasks t))" using inv_t by (simp add: agent_inv_def sub_ids_distinct_def)
  have "distinct (map st_id (body_of s i))" using d(1) by (simp add: body_of_def distinct_map_filter)
  then have ne: "st_id x \<noteq> st_id b" unfolding body(1) by auto
  have "suspend x \<in> set (body_of t i)" unfolding t(2) body(1) by simp
  then have "sub_row t (st_id x) = Some (suspend x)"
    using row_mem [OF dt, of "suspend x"] by (simp add: body_of_def)
  moreover have "suspend b \<in> set (sub_tasks t)" using find_SomeD [OF pick] by (simp add: body_of_def)
  ultimately show ?thesis
    using t(1) u ne by (auto simp: row_replace_row [OF dt])
qed

section \<open>Which calls an operation makes\<close>

text \<open>\<open>quiet Q\<close>: the calls an operation makes all satisfy \<open>Q\<close>.\<close>

definition quiet :: "(acall \<Rightarrow> bool) \<Rightarrow> astate \<Rightarrow> astate \<Rightarrow> bool" where
  "quiet Q s t \<longleftrightarrow> (\<exists>new. calls t = calls s @ new \<and> (\<forall>c \<in> set new. Q c))"

interpretation quiet_op: state_preorder "quiet Q" for Q
proof
  show "quiet Q s s" for s by (simp add: quiet_def)
  show "quiet Q s u" if "quiet Q s t" "quiet Q t u" for s t u
  proof -
    from that obtain n1 n2 where "calls t = calls s @ n1" "\<forall>c \<in> set n1. Q c"
      "calls u = calls t @ n2" "\<forall>c \<in> set n2. Q c" by (auto simp: quiet_def)
    then have "calls u = calls s @ (n1 @ n2)" "\<forall>c \<in> set (n1 @ n2). Q c" by auto
    then show ?thesis unfolding quiet_def by blast
  qed
qed

lemma quietD: "quiet Q s t \<Longrightarrow> c \<in> set (drop (length (calls s)) (calls t)) \<Longrightarrow> Q c"
  by (auto simp: quiet_def)

named_theorems quiet_intro "operations whose calls satisfy a predicate"

lemma quiet_same: "(\<And>s. calls (snd (m s)) = calls s) \<Longrightarrow> obeys (quiet Q) m"
  by (auto simp: obeys_def quiet_def)

lemma quiet_ext: "Q c \<Longrightarrow> obeys (quiet Q) (ext ans c)"
  by (auto simp: obeys_def quiet_def svc_simps)

lemma quiet_basic [quiet_intro]:
  "obeys (quiet Q) (task_get_by_id i)" "obeys (quiet Q) task_get_all" "obeys (quiet Q) (task_update t)"
  "obeys (quiet Q) (task_delete_by_id i)" "obeys (quiet Q) task_get_next_queuing_id"
  "obeys (quiet Q) (sub_get_by_id i)" "obeys (quiet Q) (sub_update x)" "obeys (quiet Q) (sub_delete_by_id i)"
  "obeys (quiet Q) (file_get_by_id i)" "obeys (quiet Q) (file_update f)" "obeys (quiet Q) (find_files_by_task i)"
  "obeys (quiet Q) (send_report i st)" "obeys (quiet Q) (send_deployment c)" "obeys (quiet Q) (send_download d)"
  "obeys (quiet Q) (send_upload d)" "obeys (quiet Q) (deploy_command i dst)"
  "obeys (quiet Q) (count_up ev)" "obeys (quiet Q) (count_down ev)"
  by (auto intro!: quiet_same simp: svc_simps task_get_by_id_def task_get_all_def task_update_def
      task_delete_by_id_def task_get_next_queuing_id_def sub_get_by_id_def sub_update_def sub_delete_by_id_def
      file_get_by_id_def file_update_def find_files_by_task_def send_report_def send_deployment_def
      send_download_def send_upload_def deploy_command_def count_up_def count_down_def split: option.splits)

text \<open>The predicates below allow every call but a submission, or but a report of success.\<close>

definition no_submission :: "acall \<Rightarrow> bool" where
  "no_submission c = (case c of SubmitJob _ \<Rightarrow> False | _ \<Rightarrow> True)"

definition no_success :: "uuid option \<Rightarrow> acall \<Rightarrow> bool" where
  "no_success p c = (case c of
     PostResult r \<Rightarrow> ar_status r \<noteq> RSuccess \<or> (\<exists>i. p = Some i \<and> ar_id r = show_uuid i) | _ \<Rightarrow> True)"

definition allows :: "(acall \<Rightarrow> bool) \<Rightarrow> bool" where
  "allows Q \<longleftrightarrow> (\<forall>c. (case c of SubmitJob _ \<Rightarrow> False | PostResult _ \<Rightarrow> False | _ \<Rightarrow> True) \<longrightarrow> Q c)"

lemma allows_simps [simp]: "allows no_submission" "allows (no_success p)"
  by (auto simp: allows_def no_submission_def no_success_def split: acall.splits)

lemma quiet_allowed:
  "allows Q \<Longrightarrow> (case c of SubmitJob _ \<Rightarrow> False | PostResult _ \<Rightarrow> False | _ \<Rightarrow> True) \<Longrightarrow> obeys (quiet Q) (ext ans c)"
  by (auto simp: allows_def intro: quiet_ext)

lemma quiet_save [quiet_intro]: "allows Q \<Longrightarrow> obeys (quiet Q) (asave_changed ev)"
  unfolding asave_changed_def by (intro quiet_op.obeys_rules quiet_allowed) simp_all

lemma quiet_file_status [quiet_intro]: "obeys (quiet Q) (update_task_file_status f st)"
  unfolding update_task_file_status_def by (intro quiet_op.obeys_rules quiet_intro)

lemma quiet_fail_sub [quiet_intro]: "allows Q \<Longrightarrow> obeys (quiet Q) (fail_sub ev x reason)"
  unfolding fail_sub_def by (intro quiet_op.obeys_rules quiet_intro)

lemma quiet_update_status [quiet_intro]: "allows Q \<Longrightarrow> obeys (quiet Q) (update_status ev t st)"
  unfolding update_status_def by (intro quiet_op.obeys_rules quiet_intro)

lemma quiet_set_status [quiet_intro]: "allows Q \<Longrightarrow> obeys (quiet Q) (set_status ev t st)"
  unfolding set_status_def by (intro quiet_op.obeys_rules quiet_intro)

section \<open>A job waits for its inputs\<close>

lemma mem_remove_first: "x \<in> set xs \<Longrightarrow> \<not> P x \<Longrightarrow> x \<in> set (remove_first P xs)"
  by (induction xs) auto

text \<open>C11 When a finished download makes the agent submit a job, every other input file of its
  sub-task was already there.\<close>

theorem job_waits_for_inputs:
  assumes "SubmitJob js \<in> set (drop (length (calls s)) (calls (snd (run_job ev f s))))"
  shows "\<exists>fl. row af_id (task_files s) f = Some fl \<and>
    (\<forall>g \<in> set (files_by_task s (af_related_task_body fl)).
       af_file_type g = IN \<longrightarrow> af_id g = f \<or> af_status g = Both)"
proof (cases "row af_id (task_files s) f")
  case None
  then show ?thesis using assms by (simp add: run_job_def svc_simps file_get_by_id_def)
next
  case (Some fl)
  let ?i = "af_related_task_body fl"
  let ?s1 = "s\<lparr>task_files := replace_row af_id (fl\<lparr>af_status := Both\<rparr>) (task_files s)\<rparr>"
  let ?rest = "sthen (asave_changed ev) (internal_run_job ev ?i)"
  have id: "af_id fl = f" using Some by (auto dest: row_SomeD)
  have run: "run_job ev f s = ?rest ?s1"
    using Some id row_Some_has_row [OF Some]
    by (simp add: run_job_def svc_simps file_get_by_id_def update_task_file_status_def file_update_def)
  have "files_ready IN (files_by_task ?s1 ?i)"
  proof (rule ccontr)
    assume "\<not> ?thesis"
    then have run': "?rest ?s1 = sthen (asave_changed ev) (asave_changed ev) ?s1"
      by (auto simp: svc_simps asave_changed_def internal_run_job_def find_files_by_task_def
          files_by_task_def split: prod.splits sum.splits)
    have "obeys (quiet no_submission) (sthen (asave_changed ev) (asave_changed ev))"
      by (intro quiet_op.obeys_rules quiet_intro) simp_all
    from obeysD [OF this, of ?s1] have "quiet no_submission s (snd (?rest ?s1))"
      unfolding run' by (simp add: quiet_def)
    from quietD [OF this, of "SubmitJob js"] assms show False unfolding run by (simp add: no_submission_def)
  qed
  moreover have "g \<in> set (task_files ?s1)" if "g \<in> set (task_files s)" "af_id g \<noteq> f" for g
    using that id by (simp add: replace_row_def mem_remove_first)
  ultimately have "\<forall>g \<in> set (files_by_task s ?i). af_file_type g = IN \<longrightarrow> af_id g = f \<or> af_status g = Both"
    by (auto simp: files_ready_def files_by_task_def list_all_iff)
  with Some show ?thesis by simp
qed



section \<open>Success is reported once all sub-tasks are complete\<close>

lemma quiet_http_post [quiet_intro]: "Q (PostResult r) \<Longrightarrow> obeys (quiet Q) (http_post ev r)"
proof -
  assume q: "Q (PostResult r)"
  have "obeys (quiet Q) (http_post_loop ev (PostResult r) m k)" for m k
  proof (induction ev "PostResult r" m k rule: http_post_loop.induct)
    case (1 ev m k)
    then show ?case
      by (subst http_post_loop.simps) (auto intro!: quiet_op.obeys_rules quiet_ext q split: sum.split)
  qed
  then show ?thesis by (simp add: http_post_def)
qed

lemma quiet_run_services [quiet_intro]:
  "Q = no_success p \<Longrightarrow> obeys (quiet Q) (run_enqueue_sub_task ev i)"
  "Q = no_success p \<Longrightarrow> obeys (quiet Q) (run_continue_sub_task ev i)"
proof -
  have e: "obeys (quiet (no_success p)) (ext ans c)" if "\<forall>r. c \<noteq> PostResult r" for ans :: "acall list \<Rightarrow> string + 'r" and c
    using that by (intro quiet_ext) (auto simp: no_success_def split: acall.split)
  have i: "obeys (quiet (no_success p)) (internal_run_job ev i)"
    unfolding internal_run_job_def load_software_def load_from_def submit_task_def
    by (auto intro!: quiet_op.obeys_rules quiet_intro e split: agent_facility.split agent_task_type.split)
  assume Q: "Q = no_success p"
  show "obeys (quiet Q) (run_enqueue_sub_task ev i)"
    unfolding Q run_enqueue_sub_task_def start_download_def Let_def
    by (auto intro!: quiet_op.obeys_rules quiet_intro i)
  show "obeys (quiet Q) (run_continue_sub_task ev i)"
    unfolding Q run_continue_sub_task_def signal_downloads_def
    by (auto intro!: quiet_op.obeys_rules quiet_intro e)
qed

lemma quiet_other_services [quiet_intro]:
  "Q = no_success p \<Longrightarrow> obeys (quiet Q) (deploy_enqueue_sub_task ev i)"
  "Q = no_success p \<Longrightarrow> obeys (quiet Q) (collect_enqueue_sub_task ev i)"
  unfolding deploy_enqueue_sub_task_def collect_enqueue_sub_task_def inner_run_sub_task_def
  by (auto intro!: quiet_op.obeys_rules quiet_intro quiet_allowed split: agent_task_type.split sum.split)

lemma quiet_run_body: "obeys (quiet (no_success p)) (run_body ev b)"
  by (cases "st_task_type b")
    (auto simp: run_body_def service_of_def deploy_continue_sub_task_def collect_continue_sub_task_def
      intro!: quiet_op.obeys_rules quiet_run_services [OF refl] quiet_other_services [OF refl]
      split: agent_task_status.split)

lemma quiet_schedule: "obeys (quiet (no_success p)) (schedule_next_task_by_id ev i)"
  unfolding schedule_next_task_by_id_def report_started_task_def
  by (auto intro!: quiet_op.obeys_rules quiet_intro quiet_run_body
      simp: no_success_def task_result_of_def split: option.split)

lemma quiet_schedule_next: "obeys (quiet (no_success p)) (schedule_next_task ev)"
  unfolding schedule_next_task_def
  by (auto intro!: quiet_op.obeys_rules quiet_intro quiet_schedule split: option.split)

text \<open>C8 When the end of a sub-task makes the agent report success, the report is about its task,
  and every other sub-task of that task is complete.\<close>

theorem success_only_when_complete:
  assumes post: "PostResult r \<in> set (drop (length (calls s)) (calls (snd (complete_sub_task ev i s))))"
    and r: "ar_status r = RSuccess"
  shows "\<exists>x. sub_row s i = Some x \<and> ar_id r = show_uuid (st_parent_id x) \<and>
    (\<forall>y \<in> set (body_of s (st_parent_id x)). st_id y = i \<or> st_status y = StCompleted)"
proof (cases "sub_row s i")
  case None
  then show ?thesis using post by (simp add: complete_sub_task_def svc_simps sub_get_by_id_def)
next
  case (Some x)
  let ?p = "st_parent_id x"
  define tail where "tail = (\<lambda>task. if list_all (\<lambda>b. st_status b = StCompleted) (at_body task)
     then sthen (update_status ev task StCompleted)
          (sthen (report_completed_task ev ?p) (schedule_next_task ev))
     else schedule_next_task_by_id ev ?p)"
  let ?s1 = "s\<lparr>sub_tasks := replace_row st_id (x\<lparr>st_status := StCompleted\<rparr>) (sub_tasks s)\<rparr>"
  define rest where "rest = sthen (asave_changed ev) (sthen (count_down ev) (sbind (task_get_by_id ?p) tail))"
  have id: "st_id x = i" using Some by (auto dest: row_SomeD)
  have run: "complete_sub_task ev i s = rest ?s1"
    using Some id row_Some_has_row [OF Some]
    by (simp add: complete_sub_task_def svc_simps sub_get_by_id_def sub_update_def rest_def tail_def)
  have report: "obeys (quiet (no_success (Some ?p))) (report_completed_task ev ?p)"
    unfolding report_completed_task_def Let_def
    by (auto intro!: quiet_op.obeys_rules quiet_intro simp: no_success_def task_result_of_def)
  have "obeys (quiet (no_success (Some ?p))) rest"
    unfolding rest_def tail_def
    by (auto intro!: quiet_op.obeys_rules quiet_intro report quiet_schedule quiet_schedule_next)
  from obeysD [OF this, of ?s1] have "quiet (no_success (Some ?p)) s (snd (rest ?s1))" by (simp add: quiet_def)
  from quietD [OF this post [unfolded run]] r have "ar_id r = show_uuid ?p" by (simp add: no_success_def)
  moreover have all_done: "list_all (\<lambda>b. st_status b = StCompleted) (body_of ?s1 ?p)"
  proof (rule ccontr)
    assume n: "\<not> ?thesis"
    have "snd (rest ?s1) = snd (sthen (asave_changed ev) (sthen (count_down ev)
        (sbind (task_get_by_id ?p) (\<lambda>_. schedule_next_task_by_id ev ?p))) ?s1)"
      using n by (auto simp: rest_def tail_def svc_simps asave_changed_def count_down_def task_get_by_id_def
          body_of_def split: sum.splits option.splits)
    moreover have "obeys (quiet (no_success None)) (sthen (asave_changed ev) (sthen (count_down ev)
        (sbind (task_get_by_id ?p) (\<lambda>_. schedule_next_task_by_id ev ?p))))"
      by (auto intro!: quiet_op.obeys_rules quiet_intro quiet_schedule)
    from obeysD [OF this, of ?s1] have "quiet (no_success None) s (snd (sthen (asave_changed ev) (sthen (count_down ev)
        (sbind (task_get_by_id ?p) (\<lambda>_. schedule_next_task_by_id ev ?p))) ?s1))" by (simp add: quiet_def)
    ultimately have "quiet (no_success None) s (snd (rest ?s1))" by simp
    from quietD [OF this post [unfolded run]] r show False by (simp add: no_success_def)
  qed
  have "st_id y = i \<or> st_status y = StCompleted" if "y \<in> set (body_of s ?p)" for y
    using all_done that id
    by (auto simp: body_of_def list_all_iff replace_row_def intro!: mem_remove_first)
  ultimately show ?thesis using Some by blast
qed

section \<open>The counter of running tasks\<close>

text \<open>When the end of a sub-task is reported while no running task is counted, as after a pause
  that overtakes the report, a build with overflow checks stores the sub-task as completed and
  panics: the task is not updated, nothing is posted and nothing is scheduled.\<close>

theorem late_completion_panics:
  assumes ok: "\<forall>cs. ans_unit ev cs = Inr ()" and oc: "a_overflow_checks ev"
    and x: "sub_row s i = Some x" and count: "tasks_count s = 0"
  shows "\<exists>t ws. complete_sub_task ev i s = (Inl APanic, t) \<and>
    sub_tasks t = replace_row st_id (x\<lparr>st_status := StCompleted\<rparr>) (sub_tasks s) \<and>
    tasks t = tasks s \<and> calls t = calls s @ [WriteTasks (tasks t), WriteSubTasks (sub_tasks t), WriteFiles ws]"
  using assms row_Some_has_row [OF x] row_SomeD [OF x]
  by (simp add: complete_sub_task_def svc_simps sub_get_by_id_def sub_update_def save_ok_run
      count_down_def u32_dec_def)

section \<open>A continued job is not watched\<close>

text \<open>Continuing a paused use case tells the batch system to go on with its job, but marks the
  sub-task queued, so that the refresh of running jobs never asks for that job again.\<close>

theorem continued_job_not_refreshed:
  assumes ok: "\<forall>cs. ans_unit ev cs = Inr ()" and d: "distinct (map st_id (sub_tasks s))"
    and x: "sub_row s i = Some x" "st_job_id x \<noteq> ''''"
  shows "\<exists>t ts. run_continue_sub_task ev i s = (Inr (), t) \<and>
    hd (drop (length (calls s)) (calls t)) = ContinueJob (st_job_id x) \<and>
    sub_row t i = Some (x\<lparr>st_status := StQueuing\<rparr>) \<and>
    get_all_refreshable_task t = (Inr ts, t) \<and> i \<notin> st_id ` set ts"
proof -
  let ?x = "x\<lparr>st_status := StQueuing\<rparr>"
  define s1 where "s1 = s\<lparr>calls := calls s @ [ContinueJob (st_job_id x)], sub_tasks := replace_row st_id ?x (sub_tasks s)\<rparr>"
  obtain ds where ds: "signal_downloads FtContinue (files_by_task s1 i) s1 = (Inr (), s1\<lparr>downloads := ds\<rparr>)"
    using signal_downloads_run by blast
  define t where "t = s1\<lparr>downloads := ds, calls := calls s @ ContinueJob (st_job_id x) #
    [WriteTasks (tasks s1), WriteSubTasks (sub_tasks s1), WriteFiles (task_files s1)]\<rparr>"
  have id: "st_id x = i" using x(1) by (auto dest: row_SomeD)
  have run: "run_continue_sub_task ev i s = (Inr (), t)"
    using x ok ds id row_Some_has_row [OF x(1)]
    by (auto simp: run_continue_sub_task_def svc_simps sub_get_by_id_def sub_update_def
        find_files_by_task_def s1_def t_def save_ok_run cong: if_cong)
  have row_t: "sub_row t i = Some ?x"
    using row_replace_row [OF d, of ?x i] id by (simp add: t_def s1_def)
  have "distinct (map st_id (sub_tasks t))" using d by (simp add: t_def s1_def distinct_replace_row)
  from row_mem [OF this] row_t have "st_status y = StQueuing" if "y \<in> set (sub_tasks t)" "st_id y = i" for y
    using that by force
  then show ?thesis using run row_t
    by (auto simp: get_all_refreshable_task_def svc_simps t_def s1_def)
qed

section \<open>Collecting lines\<close>

text \<open>Collecting the last lines of an output takes exactly the last \<open>n\<close> of them; when there are
  fewer, a build with overflow checks panics and a release build collects nothing at all.\<close>

theorem bottom_lines_collected:
  assumes "n < 2 ^ 64"
  shows "collect ev (ABottomLines n) txt =
    (if n \<le> length (str_lines txt)
     then Inr (join newline (drop (length (str_lines txt) - n) (str_lines txt)))
     else if a_overflow_checks ev then Inl APanic else Inr '''')"
  using assms by (auto simp: usize_sub_def)

section \<open>Completed tasks are kept\<close>

text \<open>The sweep of completed tasks leaves the agent as it is when every completed task was last
  changed two hours ago or earlier: only the recent ones are deleted.\<close>

theorem old_tasks_kept:
  assumes "\<forall>t \<in> set (tasks s). at_status t = StCompleted \<longrightarrow> at_update_time t \<le> anow s - two_hours"
  shows "delete_all_completed_tasks ev s = (Inr (), s)"
proof -
  have "sfor ts (\<lambda>t. sbind (sgets anow) (\<lambda>now.
       if at_status t = StCompleted \<and> at_update_time t > now - two_hours
       then delete_task ev (at_id t) True else sret ())) s = (Inr (), s)"
    if "set ts \<subseteq> set (tasks s)" for ts
    using that assms by (induction ts) (auto simp: svc_simps)
  then show ?thesis by (simp add: delete_all_completed_tasks_def svc_simps task_get_all_def)
qed

section \<open>Messages\<close>

text \<open>The body a sub-task was made from, as far as the sub-task remembers it.\<close>

fun body_facility :: "agent_facility \<Rightarrow> dto_facility_kind option" where
  "body_facility (ASpack n l) = Some (DtoSpack n l)"
| "body_facility (ASingularity i t) = Some (DtoSingularity i t)"
| "body_facility AFacilityUnknown = None"

definition body_file :: "agent_file_info \<Rightarrow> dto_file_info" where
  "body_file f = (case afi_file_type f of
     OUT \<Rightarrow> DtoOutput (afi_metadata_id f) (afi_path f) (afi_is_package f) (afi_optional f)
   | IN \<Rightarrow> DtoInput (afi_path f) (afi_is_package f)
       (if afi_is_generated f then DtoContent (afi_text f) else DtoId (afi_metadata_id f)))"

fun body_std_in :: "agent_std_in \<Rightarrow> dto_std_in" where
  "body_std_in (AStdInText t) = DtoStdInText t"
| "body_std_in (AStdInFile p) = DtoStdInFile p"
| "body_std_in AStdInUnknown = DtoStdInNone"

fun body_from :: "agent_collect_from \<Rightarrow> dto_collect_from" where
  "body_from (AFileOut p) = DtoFileOut p"
| "body_from AStdout = DtoStdout"
| "body_from AStderr = DtoStderr"

fun body_rule :: "agent_collect_rule \<Rightarrow> dto_collect_rule" where
  "body_rule (ARegex e) = DtoRegex e"
| "body_rule (ABottomLines n) = DtoBottomLines n"
| "body_rule (ATopLines n) = DtoTopLines n"

fun body_to :: "agent_collect_to \<Rightarrow> dto_collect_to" where
  "body_to (AToFile i p) = DtoToFile i p"
| "body_to (AToText i) = DtoToText i"

definition message_body :: "sub_task \<Rightarrow> dto_task_body option" where
  "message_body x =
     (case st_task_type x of
        ASoftwareDeployment st \<Rightarrow> map_option (\<lambda>k. DtoSoftwareDeployment k
          (case st of Install \<Rightarrow> DtoInstall | Uninstall \<Rightarrow> DtoUninstall)) (body_facility (st_facility_kind x))
      | AUsecaseExecution n a e i fs \<Rightarrow> map_option (\<lambda>k. DtoUsecaseExecution n k a e (body_std_in i)
          (map body_file fs) (st_requirements x)) (body_facility (st_facility_kind x))
      | ACollectedOut f r t opt \<Rightarrow> Some (DtoCollectedOut (body_from f) (body_rule r) (body_to t) opt)
      | ATypeUnknown \<Rightarrow> None)"

lemma body_inverses [simp]:
  "body_facility (facility_of k) = Some k"
  "body_std_in (std_in_of i) = i"
  "body_from (collect_from_of f) = f"
  "body_rule (collect_rule_of r) = r"
  "body_to (collect_to_of t) = t"
proof -
  show "body_facility (facility_of k) = Some k" by (cases k) simp_all
  show "body_std_in (std_in_of i) = i" by (cases i) simp_all
  show "body_from (collect_from_of f) = f" by (cases f) simp_all
  show "body_rule (collect_rule_of r) = r" by (cases r) simp_all
  show "body_to (collect_to_of t) = t" by (cases t) simp_all
qed

lemma body_deployment [simp]:
  "(case deployment_status_of c of Install \<Rightarrow> DtoInstall | Uninstall \<Rightarrow> DtoUninstall) = c"
  by (cases c) simp_all

lemma file_info_of_run: "\<exists>x k. file_info_of ev f s = (Inr x, s\<lparr>adrawn := k\<rparr>) \<and> body_file x = f"
  by (cases "(ev, f)" rule: file_info_of.cases)
    (auto simp: svc_simps new_uuid_def body_file_def input_file_info_def)

lemma smap_run:
  assumes "\<And>x s. \<exists>y k. f x s = (Inr y, s\<lparr>adrawn := k\<rparr>) \<and> P x y"
  shows "\<exists>ys k. smap f xs s = (Inr ys, s\<lparr>adrawn := k\<rparr>) \<and> list_all2 P xs ys"
proof (induction xs arbitrary: s)
  case Nil
  show ?case by (auto simp: svc_simps intro: exI [of _ "adrawn s"])
next
  case (Cons x xs)
  obtain y k where y: "f x s = (Inr y, s\<lparr>adrawn := k\<rparr>)" "P x y" using assms by blast
  obtain ys k' where ys: "smap f xs (s\<lparr>adrawn := k\<rparr>) = (Inr ys, s\<lparr>adrawn := k'\<rparr>)" "list_all2 P xs ys"
    using Cons [of "s\<lparr>adrawn := k\<rparr>"] by auto
  with y show ?case by (auto simp: svc_simps)
qed

definition is_new :: "uuid \<Rightarrow> sub_task \<Rightarrow> bool" where
  "is_new p x \<longleftrightarrow> st_parent_id x = p \<and> st_status x = StQueuing \<and> st_job_id x = ''''"

lemma sub_task_of_run:
  "\<exists>x k. sub_task_of ev p b s = (Inr x, s\<lparr>adrawn := k\<rparr>) \<and> message_body x = Some b \<and> is_new p x"
proof (cases b)
  case (DtoUsecaseExecution n k a e i fs r)
  let ?s = "s\<lparr>adrawn := Suc (adrawn s)\<rparr>"
  obtain xs j where "smap (file_info_of ev) fs ?s = (Inr xs, ?s\<lparr>adrawn := j\<rparr>)"
    "list_all2 (\<lambda>f x. body_file x = f) fs xs"
    using smap_run [of "file_info_of ev" "\<lambda>f x. body_file x = f" fs ?s] file_info_of_run by blast
  moreover from this(2) have "map body_file xs = fs"
    by (simp add: list_all2_conv_all_nth list_eq_iff_nth_eq)
  ultimately show ?thesis
    using DtoUsecaseExecution
    by (auto simp: sub_task_of_def svc_simps new_uuid_def message_body_def new_sub_task_def is_new_def)
qed (auto simp: sub_task_of_def svc_simps new_uuid_def message_body_def new_sub_task_def is_new_def)

text \<open>C22 The task the agent makes of a message has the message's id and one queued sub-task per
  body, in order, each of which remembers the body it was made from.\<close>

theorem message_kept:
  "\<exists>t k. agent_task_of ev m s = (Inr t, s\<lparr>adrawn := k\<rparr>) \<and> at_id t = dto_id m \<and>
     map message_body (at_body t) = map Some (dto_body m) \<and> list_all (is_new (dto_id m)) (at_body t)"
proof -
  obtain xs k where "smap (sub_task_of ev (dto_id m)) (dto_body m) s = (Inr xs, s\<lparr>adrawn := k\<rparr>)"
    "list_all2 (\<lambda>b x. message_body x = Some b \<and> is_new (dto_id m) x) (dto_body m) xs"
    using smap_run [of "sub_task_of ev (dto_id m)" "\<lambda>b x. message_body x = Some b \<and> is_new (dto_id m) x"]
      sub_task_of_run by blast
  moreover from this(2) have "map message_body xs = map Some (dto_body m)" "list_all (is_new (dto_id m)) xs"
    by (simp_all add: list_all2_conv_all_nth list_eq_iff_nth_eq list_all_length)
  ultimately show ?thesis by (auto simp: agent_task_of_def svc_simps)
qed

section \<open>The report of a start\<close>

lemma http_post_refused:
  "\<forall>cs. \<exists>e. ans_unit ev (cs @ [PostResult r]) = Inl e \<Longrightarrow>
   \<exists>e. http_post ev r s = (Inl (External e), s\<lparr>calls := calls s @ [PostResult r, PostResult r]\<rparr>)"
proof -
  assume "\<forall>cs. \<exists>e. ans_unit ev (cs @ [PostResult r]) = Inl e"
  then obtain e1 e2 where "ans_unit ev (calls s @ [PostResult r]) = Inl e1"
    "ans_unit ev ((calls s @ [PostResult r]) @ [PostResult r]) = Inl e2" by metis
  then show ?thesis
    unfolding http_post_def
    by (subst http_post_loop.simps, subst http_post_loop.simps) (simp add: svc_simps)
qed

text \<open>With a coordinator that refuses exactly the results it cannot read, scheduling a queued task
  fails after two posts of its start: the task is marked running, none of its sub-tasks is started,
  and it is not the next queued task any more.\<close>

theorem start_report_blocks_task:
  assumes writes: "\<forall>cs c. (\<forall>r. c \<noteq> PostResult r) \<longrightarrow> ans_unit ev (cs @ [c]) = Inr ()"
    and coordinator: "\<forall>cs r. (\<exists>e. ans_unit ev (cs @ [PostResult r]) = Inl e) =
      (read_result_status (ar_status r) = None)"
    and task: "row at_id (tasks s) i = Some task" "at_status task = StQueuing"
    and d: "distinct (map at_id (tasks s))"
  shows "\<exists>e t. schedule_next_task_by_id ev i s = (Inl (External e), t) \<and>
    sub_tasks t = sub_tasks s \<and> tasks_count t = tasks_count s \<and>
    map_option at_status (row at_id (tasks t) i) = Some StRunning \<and>
    fst (task_get_next_queuing_id t) \<noteq> Inr (Some i)"
proof -
  let ?k = "task\<lparr>at_body := body_of s i, at_status := StRunning, at_update_time := anow s\<rparr>"
  define s1 where "s1 = s\<lparr>tasks := replace_row at_id ?k (tasks s)\<rparr>"
  define s2 where "s2 = s1\<lparr>calls := calls s @ [WriteTasks (tasks s1), WriteSubTasks (sub_tasks s1), WriteFiles (task_files s1)]\<rparr>"
  have id: "at_id task = i" using task(1) by (auto dest: row_SomeD)
  have w: "ans_unit ev (cs @ [WriteTasks x]) = Inr ()" "ans_unit ev (cs @ [WriteSubTasks y]) = Inr ()"
    "ans_unit ev (cs @ [WriteFiles z]) = Inr ()" for cs x y z using writes by simp_all
  have save: "asave_changed ev s1 = (Inr (), s2)"
    using w(1) [of "calls s"] w(2) [of "calls s @ [WriteTasks (tasks s1)]"]
      w(3) [of "calls s @ [WriteTasks (tasks s1), WriteSubTasks (sub_tasks s1)]"]
    by (simp add: asave_changed_def svc_simps s2_def s1_def)
  have "\<forall>cs. \<exists>e. ans_unit ev (cs @ [PostResult (task_result_of i RStart)]) = Inl e"
    using coordinator by (simp add: task_result_of_def)
  from http_post_refused [OF this, of s2] obtain e t where
    post: "report_started_task ev i s2 = (Inl (External e), t)" and t: "\<exists>cs. t = s2\<lparr>calls := cs\<rparr>"
    by (auto simp: report_started_task_def)
  have "schedule_next_task_by_id ev i s = (Inl (External e), t)"
    using task id row_Some_has_row [OF task(1)] save post
    by (simp add: schedule_next_task_by_id_def svc_simps task_get_by_id_def update_status_def task_update_def s1_def)
  moreover have tasks: "tasks t = replace_row at_id ?k (tasks s)" and same: "sub_tasks t = sub_tasks s"
    "tasks_count t = tasks_count s"
    using t by (auto simp: s2_def s1_def)
  have "row at_id (tasks t) i = Some ?k"
    unfolding tasks using row_replace_row [OF d, of ?k i] id by simp
  moreover have "at_status x = StRunning" if "x \<in> set (tasks t)" "at_id x = i" for x
    using that id unfolding tasks by (auto simp: set_replace_row [OF d])
  then have "fst (task_get_next_queuing_id t) \<noteq> Inr (Some i)"
    by (force simp: task_get_next_queuing_id_def svc_simps dest!: find_SomeD)
  ultimately show ?thesis using same by auto
qed

section \<open>Witnesses\<close>

definition started :: astate where
  "started = snd (handle_message sample_agent sample_message empty_agent)"

lemma http_post_sample:
  "http_post sample_agent r s = (Inr (), s\<lparr>calls := calls s @ [PostResult r]\<rparr>)"
  by (rule http_post_ok) (simp add: sample_agent_fields)

lemmas agent_command_defs = handle_message_def logged_def enqueue_task_def agent_task_of_def sub_task_of_def
  new_sub_task_def schedule_next_task_by_id_def update_status_def report_started_task_def
  report_completed_task_def complete_sub_task_def schedule_next_task_def http_post_sample
  run_body_def service_of_def deploy_enqueue_sub_task_def set_status_def task_result_of_def
  run_job_def internal_run_job_def load_software_def submit_task_def

lemma started_eval: "map st_status (sub_tasks started) = [StQueuing, StRunning]"
  by (simp add: started_def agent_eval agent_op_defs agent_command_defs Let_def)

lemma one_sub_task_at_a_time_witness:
  "agent_reachable sample_agent False empty_agent started \<and>
   map st_status (sub_tasks started) = [StQueuing, StRunning] \<and>
   distinct (map st_id (sub_tasks started)) \<and> length (filter is_active (body_of started 7)) \<le> 1"
proof -
  have r: "agent_reachable sample_agent False empty_agent started"
    unfolding started_def by (rule agent_reachable.step [OF agent_reachable.start agent_step.message])
  have e: "tasks empty_agent = []" "sub_tasks empty_agent = []" by (simp_all add: empty_agent_def)
  show ?thesis using one_sub_task_at_a_time [OF r e, of 7] r started_eval by blast
qed

definition sample_deployment :: "uuid \<Rightarrow> agent_task_status \<Rightarrow> sub_task" where
  "sample_deployment i st = \<lparr>st_id = i, st_parent_id = 7, st_status = st, st_facility_kind = ASpack ''s'' [],
     st_task_type = ASoftwareDeployment Install, st_job_id = '''', st_failed_reason = '''',
     st_resource_used = None, st_requirements = None\<rparr>"

lemma pause_task_exact_witness:
  "\<exists>t. pause_task sample_agent 7 (agent_with StRunning [sample_use_case StRunning, sample_collection StQueuing] [] 1) = (Inr (), t) \<and>
     body_of t 7 = [sample_collection StQueuing, sample_use_case StSuspended] \<and> tasks_count t = 0"
  using pause_task_exact [of sample_agent "agent_with StRunning [sample_use_case StRunning, sample_collection StQueuing] [] 1" 7
      "sample_agent_task StRunning"]
  by (auto simp: agent_eval row_def body_of_def pausable_def)

lemma one_active_filter: "filter is_active (sub_tasks s) = [x] \<Longrightarrow> one_active s"
proof -
  assume "filter is_active (sub_tasks s) = [x]"
  then have "set (filter is_active (sub_tasks s)) = {x}" by simp
  then have "y = x" if "y \<in> set (sub_tasks s)" "is_active y" for y
    using that by auto
  then show ?thesis unfolding one_active_def by (metis row_SomeD)
qed

definition sample_deployments :: astate where
  "sample_deployments = agent_with StRunning [sample_deployment 3 StQueuing, sample_deployment 4 StRunning] [] 1"

lemma resume_starts_another_witness:
  "\<exists>t u. pause_task sample_agent 7 sample_deployments = (Inr (), t) \<and>
     continue_task sample_agent 7 t = (Inr (), u) \<and>
     map_option st_status (sub_row u 3) = Some StRunning \<and> map_option st_status (sub_row u 4) = Some StSuspended"
proof -
  have ids: "st_id (sample_deployment i st) = i" for i st by (simp add: sample_deployment_def)
  have "filter is_active (sub_tasks sample_deployments) = [sample_deployment 4 StRunning]"
    by (simp add: sample_deployments_def agent_eval sample_deployment_def is_active_def)
  then have inv: "agent_inv sample_deployments" unfolding agent_inv_def
    by (intro conjI one_active_filter) (simp_all add: sub_ids_distinct_def sample_deployments_def agent_eval ids)
  have row: "row at_id (tasks sample_deployments) 7 = Some (sample_agent_task StRunning)"
    by (simp add: sample_deployments_def agent_eval row_def)
  have body: "body_of sample_deployments 7 = sample_deployment 3 StQueuing # [] @ [sample_deployment 4 StRunning]"
    by (simp add: sample_deployments_def agent_eval body_of_def sample_deployment_def)
  show ?thesis
    using resume_starts_another [of sample_agent, OF _ _ row _ inv _ _ body]
    unfolding ids
    by (simp add: sample_deployments_def agent_eval pausable_def sample_deployment_def is_active_def)
qed

text \<open>The use case waits for file 5, file 6 is there.\<close>

definition sample_waiting :: astate where
  "sample_waiting = agent_with StRunning [sample_use_case StRunning]
     [sample_file 5 Downloading, sample_file 6 Both] 1"

lemma job_waits_for_inputs_witness:
  "\<exists>js fl. SubmitJob js \<in> set (drop (length (calls sample_waiting)) (calls (snd (run_job sample_agent 5 sample_waiting)))) \<and>
     row af_id (task_files sample_waiting) 5 = Some fl \<and>
     list_all (\<lambda>g. af_file_type g = OUT \<or> af_id g = 5 \<or> af_status g = Both)
       (files_by_task sample_waiting (af_related_task_body fl))"
proof -
  have "\<exists>js. SubmitJob js \<in> set (drop (length (calls sample_waiting)) (calls (snd (run_job sample_agent 5 sample_waiting))))"
    by (simp add: sample_waiting_def agent_eval agent_op_defs agent_command_defs)
  then obtain js where js: "SubmitJob js \<in> set (drop (length (calls sample_waiting)) (calls (snd (run_job sample_agent 5 sample_waiting))))" ..
  obtain fl where fl: "row af_id (task_files sample_waiting) 5 = Some fl"
    "\<forall>g \<in> set (files_by_task sample_waiting (af_related_task_body fl)). af_file_type g = IN \<longrightarrow> af_id g = 5 \<or> af_status g = Both"
    using job_waits_for_inputs [OF js] by blast
  have "af_file_type g = OUT \<or> af_id g = 5 \<or> af_status g = Both"
    if "g \<in> set (files_by_task sample_waiting (af_related_task_body fl))" for g
    using bspec [OF fl(2) that] by (cases "af_file_type g") simp_all
  then have "list_all (\<lambda>g. af_file_type g = OUT \<or> af_id g = 5 \<or> af_status g = Both)
       (files_by_task sample_waiting (af_related_task_body fl))"
    unfolding list_all_iff by blast
  with js fl(1) show ?thesis by blast
qed


definition sample_ending :: astate where
  "sample_ending = agent_with StRunning [sample_use_case StRunning] [] 1"

lemma success_only_when_complete_witness:
  "\<exists>r x. PostResult r \<in> set (drop (length (calls sample_ending)) (calls (snd (complete_sub_task sample_agent 1 sample_ending)))) \<and>
     ar_status r = RSuccess \<and> sub_row sample_ending 1 = Some x \<and> ar_id r = show_uuid (st_parent_id x)"
proof -
  let ?r = "(task_result_of 7 RSuccess)"
  have r: "PostResult ?r \<in> set (drop (length (calls sample_ending)) (calls (snd (complete_sub_task sample_agent 1 sample_ending))))"
    by (simp add: sample_ending_def agent_eval agent_op_defs agent_command_defs)
  have "ar_status ?r = RSuccess" by (simp add: task_result_of_def)
  from success_only_when_complete [OF r this] r this show ?thesis by blast
qed

lemma late_completion_panics_witness:
  "\<exists>t. complete_sub_task sample_agent 1 (agent_with StSuspended [sample_use_case StSuspended] [] 0) = (Inl APanic, t) \<and>
     sub_tasks t = [sample_use_case StCompleted] \<and> map at_status (tasks t) = [StSuspended]"
  using late_completion_panics [of sample_agent "agent_with StSuspended [sample_use_case StSuspended] [] 0" 1 "sample_use_case StSuspended"]
  by (auto simp: agent_eval row_def replace_row_def)

lemma continued_job_not_refreshed_witness:
  "\<exists>t ts. run_continue_sub_task sample_agent 1 (agent_with StRunning [(sample_use_case StSuspended)\<lparr>st_job_id := ''j''\<rparr>] [] 1) = (Inr (), t) \<and>
     hd (calls t) = ContinueJob ''j'' \<and> get_all_refreshable_task t = (Inr ts, t) \<and> 1 \<notin> st_id ` set ts"
  using continued_job_not_refreshed [of sample_agent "agent_with StRunning [(sample_use_case StSuspended)\<lparr>st_job_id := ''j''\<rparr>] [] 1" 1
      "(sample_use_case StSuspended)\<lparr>st_job_id := ''j''\<rparr>"]
  by (auto simp: agent_eval row_def)

lemma bottom_lines_collected_witness:
  "collect sample_agent (ABottomLines 1) (''a'' @ newline @ ''b'' @ newline) = Inr ''b'' \<and>
   collect sample_agent (ABottomLines 3) (''a'' @ newline @ ''b'' @ newline) = Inl APanic"
  using bottom_lines_collected [of 1 sample_agent "''a'' @ newline @ ''b'' @ newline"]
    bottom_lines_collected [of 3 sample_agent "''a'' @ newline @ ''b'' @ newline"]
  by (simp add: str_lines_def newline_def strip_cr_def sample_agent_fields)

lemma old_tasks_kept_witness:
  "delete_all_completed_tasks sample_agent ((agent_with StCompleted [] [] 0)\<lparr>anow := 2 * two_hours\<rparr>) =
     (Inr (), (agent_with StCompleted [] [] 0)\<lparr>anow := 2 * two_hours\<rparr>)"
  by (rule old_tasks_kept) (simp add: agent_eval two_hours_def)

definition strict_agent :: aenv where
  "strict_agent = sample_agent\<lparr>ans_unit := \<lambda>cs. case last cs of
     PostResult r \<Rightarrow> (if read_result_status (ar_status r) = None then Inl ''400'' else Inr ()) | _ \<Rightarrow> Inr ()\<rparr>"

lemma start_report_blocks_task_witness:
  "\<exists>e t. schedule_next_task_by_id strict_agent 7 (agent_with StQueuing [sample_use_case StQueuing] [] 0) = (Inl (External e), t) \<and>
     sub_tasks t = [sample_use_case StQueuing] \<and> map_option at_status (row at_id (tasks t) 7) = Some StRunning"
proof -
  let ?s = "agent_with StQueuing [sample_use_case StQueuing] [] 0"
  have w: "\<forall>cs c. (\<forall>r. c \<noteq> PostResult r) \<longrightarrow> ans_unit strict_agent (cs @ [c]) = Inr ()"
    by (auto simp: strict_agent_def split: acall.split)
  have c: "\<forall>cs r. (\<exists>e. ans_unit strict_agent (cs @ [PostResult r]) = Inl e) = (read_result_status (ar_status r) = None)"
    by (simp add: strict_agent_def)
  have row: "row at_id (tasks ?s) 7 = Some (sample_agent_task StQueuing)"
    "at_status (sample_agent_task StQueuing) = StQueuing" "distinct (map at_id (tasks ?s))"
    by (simp_all add: agent_eval row_def)
  have subs: "sub_tasks ?s = [sample_use_case StQueuing]" by (simp add: agent_with_def)
  from start_report_blocks_task [OF w c row] subs show ?thesis by metis
qed

end
