(* ===== verification/KP_Match.thy ===== *)
theory KP_Match
  imports KP_NodeDraft KP_ParseTask
begin

text \<open>
  The validation of a package against the parsing of a node that runs it. Both walk the same
  lists: the references of each input slot, the templates in use, the output slots. The locale
  \<open>loop_simulation\<close> is one such pair of loops: steps that succeed on both sides keep a relation
  between the two states; \<open>guarded_loop\<close> adds that a step which passed the validation does not
  panic in the parsing. The locales are interpreted on every loop of the two functions, with the
  relation that the states agree once the filled values are erased
  (\<open>agree\<close>).
\<close>

section \<open>Loops in step\<close>

lemma rfold_InrD: "rfold f xs b = Inr c \<Longrightarrow> x \<in> set xs \<Longrightarrow> \<exists>b' c'. f x b' = Inr c'"
  by (induction xs arbitrary: b) (auto simp: rbind_Inr_iff)

lemma rmap_ex: "(\<And>x. x \<in> set xs \<Longrightarrow> \<exists>y. f x = Inr y) \<Longrightarrow> \<exists>ys. rmap f xs = Inr ys"
  by (metis rmap_total)

lemma rbind_not_Inl: "rbind r f \<noteq> Inl e \<longleftrightarrow> r \<noteq> Inl e \<and> (\<forall>x. r = Inr x \<longrightarrow> f x \<noteq> Inl e)"
  by (cases r) auto

lemma ok_or_not_Inl: "ok_or e x \<noteq> Inl e' \<longleftrightarrow> x \<noteq> None \<or> e \<noteq> e'"
  by (cases x) auto

locale loop_simulation =
  fixes rel :: "'a \<Rightarrow> 'c \<Rightarrow> bool"
    and astep :: "'r \<Rightarrow> 'a \<Rightarrow> 'e + 'a"
    and cstep :: "'r \<Rightarrow> 'c \<Rightarrow> 'f + 'c"
  assumes sim: "rel a c \<Longrightarrow> astep r a = Inr a' \<Longrightarrow> cstep r c = Inr c' \<Longrightarrow> rel a' c'"
begin

lemma fold_sim:
  "rel a c \<Longrightarrow> rfold astep rs a = Inr a' \<Longrightarrow> rfold cstep rs c = Inr c' \<Longrightarrow> rel a' c'"
  by (induction rs arbitrary: a c) (auto simp: rbind_Inr_iff dest: sim)

end

locale guarded_loop = loop_simulation rel astep cstep
  for rel :: "'a \<Rightarrow> 'c \<Rightarrow> bool"
    and astep :: "'r \<Rightarrow> 'a \<Rightarrow> 'e + 'a"
    and cstep :: "'r \<Rightarrow> 'c \<Rightarrow> 'f + 'c" +
  fixes ok :: "'r \<Rightarrow> bool" and stuck :: 'f
  assumes progress: "ok r \<Longrightarrow> rel a c \<Longrightarrow> astep r a = Inr a' \<Longrightarrow> cstep r c \<noteq> Inl stuck"
begin

lemma fold_progress:
  "\<forall>r \<in> set rs. ok r \<Longrightarrow> rel a c \<Longrightarrow> rfold astep rs a = Inr a' \<Longrightarrow> rfold cstep rs c \<noteq> Inl stuck"
proof (induction rs arbitrary: a c)
  case (Cons r rs)
  from Cons.prems obtain b where b: "astep r a = Inr b" "rfold astep rs b = Inr a'"
    by (auto simp: rbind_Inr_iff)
  have "rfold cstep rs c' \<noteq> Inl stuck" if "cstep r c = Inr c'" for c'
    using Cons.IH [OF _ sim [OF Cons.prems(2) b(1) that] b(2)] Cons.prems(1) by simp
  with progress [OF _ Cons.prems(2) b(1)] Cons.prems(1) show ?case by (simp add: rbind_not_Inl)
qed simp

end

section \<open>Erasing the values\<close>

definition map_vals :: "('v \<Rightarrow> 'w) \<Rightarrow> ('k \<times> 'v) list \<Rightarrow> ('k \<times> 'w) list" where
  "map_vals h m = map (\<lambda>(k, v). (k, h v)) m"

lemma map_vals_simps [simp]:
  "map_vals h [] = []" "map_vals h ((k, v) # m) = (k, h v) # map_vals h m"
  by (simp_all add: map_vals_def)

lemma map_vals_update: "map_vals h (AList.update k v m) = AList.update k (h v) (map_vals h m)"
  by (induction m) auto

lemma map_of_map_vals: "map_of (map_vals h m) k = map_option h (map_of m k)"
  by (induction m) auto

lemma map_fst_map_vals [simp]: "map fst (map_vals h m) = map fst m"
  by (induction m) auto

lemma sort_key_map_vals: "sort_key fst (map_vals h m) = map_vals h (sort_key fst m)"
proof (induction m)
  case (Cons x m)
  have "insort_key fst (k, h v) (map_vals h xs) = map_vals h (insort_key fst (k, v) xs)" for k v xs
    by (induction xs) (auto split: prod.splits)
  with Cons show ?case by (cases x) simp
qed simp

definition erase_format :: "'v format_fill \<Rightarrow> unit format_fill" where
  "erase_format ff = \<lparr>fm_format = fm_format ff,
     placeholder_fill_map = map_vals (\<lambda>_. ()) (placeholder_fill_map ff)\<rparr>"

lemma erase_entry_fill:
  "map_vals erase_format (entry_fill k ff n v m) =
   entry_fill k (erase_format ff) n () (map_vals erase_format m)"
  by (cases "map_of m k")
    (auto simp: entry_fill_def map_vals_update map_of_map_vals erase_format_def)

lemma erase_fill_keys:
  "map_vals (map_vals (\<lambda>_. ())) (fill_keys d ks v m) =
   fill_keys d ks () (map_vals (map_vals (\<lambda>_. ())) m)"
proof (induction ks arbitrary: m)
  case (Cons k ks)
  show ?case
    by (cases "map_of m d")
      (use Cons in \<open>simp_all add: fill_keys_def map_vals_update map_of_map_vals\<close>)
qed (simp add: fill_keys_def)

text \<open>
  The states agree on the templates and their keys, and, unless the use case has flags, which the
  validation does not look at, on the formats and their placeholders.
\<close>

definition agree :: "bool \<Rightarrow> ('v, 'f, 'i) fills \<Rightarrow> ('w, 'g, 'j) fills \<Rightarrow> bool" where
  "agree flagged a c \<longleftrightarrow>
     map_vals (map_vals (\<lambda>_. ())) (templates_kv a) = map_vals (map_vals (\<lambda>_. ())) (templates_kv c) \<and>
     (flagged \<or>
        map_vals erase_format (argument_formats_sorts a) = map_vals erase_format (argument_formats_sorts c) \<and>
        map_vals erase_format (environment_formats a) = map_vals erase_format (environment_formats c))"

lemma agree_updates [simp]:
  "agree fl (a\<lparr>fl_files := x\<rparr>) c = agree fl a c" "agree fl (a\<lparr>fl_std_in := y\<rparr>) c = agree fl a c"
  "agree fl a (c\<lparr>fl_files := z\<rparr>) = agree fl a c" "agree fl a (c\<lparr>fl_std_in := w\<rparr>) = agree fl a c"
  by (simp_all add: agree_def)

lemma agree_argument:
  "agree fl a c \<Longrightarrow> erase_format ff = erase_format gg \<Longrightarrow>
   agree fl (a\<lparr>argument_formats_sorts := entry_fill pos ff n v (argument_formats_sorts a)\<rparr>)
         (c\<lparr>argument_formats_sorts := entry_fill pos gg n w (argument_formats_sorts c)\<rparr>)"
  by (auto simp: agree_def erase_entry_fill)

lemma agree_environment:
  "agree fl a c \<Longrightarrow> erase_format ff = erase_format gg \<Longrightarrow>
   agree fl (a\<lparr>environment_formats := entry_fill key ff n v (environment_formats a)\<rparr>)
         (c\<lparr>environment_formats := entry_fill key gg n w (environment_formats c)\<rparr>)"
  by (auto simp: agree_def erase_entry_fill)

lemma agree_keys:
  "agree fl a c \<Longrightarrow>
   agree fl (a\<lparr>templates_kv := fill_keys d ks v (templates_kv a)\<rparr>)
         (c\<lparr>templates_kv := fill_keys d ks w (templates_kv c)\<rparr>)"
  by (simp add: agree_def erase_fill_keys)

lemma agree_template_keys: "agree fl a c \<Longrightarrow> map fst (templates_kv a) = map fst (templates_kv c)"
  unfolding agree_def by (metis map_fst_map_vals)

section \<open>Input slots\<close>

text \<open>The use case of a pair of packages.\<close>

definition usecase_of :: "uuid \<Rightarrow> uuid \<Rightarrow> validate_data \<Rightarrow> software_computing_usecase" where
  "usecase_of uid sid vd =
     \<lparr>cu_usecase_version_id = uid, cu_software_version_id = sid,
      cu_usecase_spec = ud_spec (vd_usecase_data vd), cu_software_spec = sd_spec (vd_software_data vd),
      cu_arguments = sd_arguments (vd_software_data vd),
      cu_environments = sd_environments (vd_software_data vd),
      cu_filesome_inputs = sd_filesome_inputs (vd_software_data vd),
      cu_collected_outs = ud_collected_outs (vd_usecase_data vd),
      cu_filesome_outputs = sd_filesome_outputs (vd_software_data vd),
      cu_template_file_infos = ud_template_file_infos (vd_usecase_data vd)\<rparr>"

lemma usecase_of_simps [simp]:
  "cu_usecase_spec (usecase_of uid sid vd) = ud_spec (vd_usecase_data vd)"
  "cu_software_spec (usecase_of uid sid vd) = sd_spec (vd_software_data vd)"
  "cu_arguments (usecase_of uid sid vd) = sd_arguments (vd_software_data vd)"
  "cu_environments (usecase_of uid sid vd) = sd_environments (vd_software_data vd)"
  "cu_filesome_inputs (usecase_of uid sid vd) = sd_filesome_inputs (vd_software_data vd)"
  "cu_collected_outs (usecase_of uid sid vd) = ud_collected_outs (vd_usecase_data vd)"
  "cu_filesome_outputs (usecase_of uid sid vd) = sd_filesome_outputs (vd_software_data vd)"
  "cu_template_file_infos (usecase_of uid sid vd) = ud_template_file_infos (vd_usecase_data vd)"
  by (simp_all add: usecase_of_def)

lemma fill_argument_sim:
  "agree fl a c \<Longrightarrow> preview_fill_argument vd who d n pos a = Inr a' \<Longrightarrow>
   fill_argument (usecase_of uid sid vd) v d n pos c = Inr c' \<Longrightarrow> agree fl a' c'"
  by (auto simp: preview_fill_argument_def fill_argument_def preview_argument_format_def
      argument_format_def rbind_Inr_iff ok_or_Inr_iff erase_format_def intro!: agree_argument)

lemma fill_argument_progress:
  "preview_fill_argument vd who d n pos a = Inr a' \<Longrightarrow>
   fill_argument (usecase_of uid sid vd) v d n pos c \<noteq> Inl e"
  by (auto simp: preview_fill_argument_def fill_argument_def preview_argument_format_def
      argument_format_def rbind_Inr_iff ok_or_Inr_iff)

lemma fill_environment_sim:
  "agree fl a c \<Longrightarrow> preview_fill_environment vd who d n a = Inr a' \<Longrightarrow>
   fill_environment (usecase_of uid sid vd) v d n c = Inr c' \<Longrightarrow> agree fl a' c'"
  by (auto simp: preview_fill_environment_def fill_environment_def preview_environment_kv_format_def
      environment_kv_format_def rbind_Inr_iff ok_or_Inr_iff erase_format_def intro!: agree_environment)

lemma fill_environment_progress:
  "preview_fill_environment vd who d n a = Inr a' \<Longrightarrow>
   fill_environment (usecase_of uid sid vd) v d n c \<noteq> Inl e"
  by (auto simp: preview_fill_environment_def fill_environment_def preview_environment_kv_format_def
      environment_kv_format_def rbind_Inr_iff ok_or_Inr_iff)

lemmas fill_sim = fill_argument_sim fill_environment_sim
lemmas fill_progress = fill_argument_progress fill_environment_progress

lemma text_ref_sim:
  "agree fl a c \<Longrightarrow> validate_text_ref vd slot r a = Inr a' \<Longrightarrow>
   parse_text_ref (usecase_of uid sid vd) x r c = Inr c' \<Longrightarrow> agree fl a' c'"
  by (cases r) (auto simp: rbind_Inr_iff intro: agree_keys dest: fill_sim)

lemma file_ref_sim:
  "agree fl a c \<Longrightarrow> validate_file_ref vd slot r a = Inr a' \<Longrightarrow>
   parse_file_ref (usecase_of uid sid vd) x r c = Inr c' \<Longrightarrow> agree fl a' c'"
  by (cases r) (auto simp: rbind_Inr_iff intro: agree_keys dest: fill_sim)

text \<open>
  A text on standard input is the one reference that panics without a content: the slot is
  optional and empty.
\<close>

interpretation text_refs: guarded_loop "agree fl" "validate_text_ref vd slot"
  "parse_text_ref (usecase_of uid sid vd) x" "\<lambda>r. r = TextStdIn \<longrightarrow> x \<noteq> None" Panic
  for fl vd slot uid sid x
proof unfold_locales
  fix r a c a'
  assume "r = TextStdIn \<longrightarrow> x \<noteq> None" "validate_text_ref vd slot r a = Inr a'"
  then show "parse_text_ref (usecase_of uid sid vd) x r c \<noteq> Inl Panic"
    by (cases r) (auto simp: rbind_not_Inl ok_or_not_Inl dest: fill_progress)
qed (rule text_ref_sim)

interpretation file_refs: guarded_loop "agree fl" "validate_file_ref vd slot"
  "parse_file_ref (usecase_of uid sid vd) x" "\<lambda>_. True" Panic
  for fl vd slot uid sid x
proof unfold_locales
  fix r a c a'
  assume "validate_file_ref vd slot r a = Inr a'"
  then show "parse_file_ref (usecase_of uid sid vd) x r c \<noteq> Inl Panic"
    by (cases r) (auto dest: fill_progress)
qed (rule file_ref_sim)

text \<open>What a node has to offer an input slot of its use case.\<close>

fun needs_content :: "usecase_input_slot \<Rightarrow> bool" where
  "needs_content (UInText _ _ refs _ _) = (TextStdIn \<in> set refs)"
| "needs_content (UInFile _ _ _ _) = False"

definition slot_filled :: "node_input_slot \<Rightarrow> bool" where
  "slot_filled el = (case is_kind el of
     SlotText contents _ \<Rightarrow> contents \<noteq> None | SlotFile contents _ _ \<Rightarrow> contents \<noteq> None | SlotUnknown \<Rightarrow> False)"

definition input_fits :: "node_spec \<Rightarrow> usecase_input_slot \<Rightarrow> bool" where
  "input_fits ns slot =
     (case find (\<lambda>el. is_descriptor el = uin_descriptor slot) (input_slots ns) of
        None \<Rightarrow> False
      | Some el \<Rightarrow> slot_filled el \<or> is_kind el \<noteq> SlotUnknown \<and> is_optional el \<and> \<not> needs_content slot)"

lemma read_text_not_Panic [simp]: "read_text s i \<noteq> Inl Panic"
  by (simp add: read_text_def text_get_by_id_def ok_or_not_Inl)

lemma rmap_not_Inl: "(\<And>x. x \<in> set xs \<Longrightarrow> f x \<noteq> Inl e) \<Longrightarrow> rmap f xs \<noteq> Inl e"
  by (induction xs) (auto simp: rbind_not_Inl)

lemma get_content_filled:
  assumes "find (\<lambda>el. is_descriptor el = d) (input_slots ns) = Some el" "slot_filled el"
  shows "get_content ns s d \<noteq> Inl Panic" "get_content ns s d \<noteq> Inr None"
  using assms
  by (auto simp: get_content_def input_slot_def slot_filled_def is_empty_input_def rbind_not_Inl
      rbind_Inr_iff rmap_not_Inl split: node_input_slot_kind.splits)

lemma get_content_optional:
  assumes "find (\<lambda>el. is_descriptor el = d) (input_slots ns) = Some el"
    and "\<not> slot_filled el" "is_kind el \<noteq> SlotUnknown" "is_optional el"
  shows "get_content ns s d = Inr None"
  using assms
  by (auto simp: get_content_def input_slot_def slot_filled_def is_empty_input_def
      split: node_input_slot_kind.splits)

lemma input_sim:
  assumes "agree fl a c" "validate_input_slot vd slot a = Inr a'"
    "parse_input (usecase_of uid sid vd) ns s slot c = Inr c'"
  shows "agree fl a' c'"
  using assms
  by (cases slot)
    (auto simp: parse_input_def rbind_Inr_iff Let_def split: option.splits
      dest: text_refs.fold_sim [rotated] file_refs.fold_sim [rotated])

interpretation inputs: guarded_loop "agree fl" "validate_input_slot vd"
  "parse_input (usecase_of uid sid vd) ns s" "input_fits ns" Panic
  for fl vd uid sid ns s
proof unfold_locales
  fix slot and a a' :: preview_fills and c :: task_fills
  assume fits: "input_fits ns slot" and rel: "agree fl a c"
    and ok: "validate_input_slot vd slot a = Inr a'"
  let ?st = "\<lambda>x. case x of Some x \<Rightarrow> c\<lparr>fl_files := fl_files c @ infiles x\<rparr> | None \<Rightarrow> c"
  have rel': "agree fl a (?st x)" for x using rel by (cases x) auto
  obtain el where el: "find (\<lambda>el. is_descriptor el = uin_descriptor slot) (input_slots ns) = Some el"
    and fill: "slot_filled el \<or> is_kind el \<noteq> SlotUnknown \<and> is_optional el \<and> \<not> needs_content slot"
    using fits by (auto simp: input_fits_def split: option.splits)
  have no_panic: "get_content ns s (uin_descriptor slot) \<noteq> Inl Panic"
    using get_content_filled(1) [OF el] get_content_optional [OF el] fill
    by (cases "slot_filled el") auto
  have given: "x \<noteq> None" if "get_content ns s (uin_descriptor slot) = Inr x" "needs_content slot" for x
    using get_content_filled(2) [OF el] fill that by (cases x) auto
  show "parse_input (usecase_of uid sid vd) ns s slot c \<noteq> Inl Panic"
  proof (cases slot)
    case (UInText d rule refs meta opt)
    with ok have "rfold (validate_text_ref vd d) refs a = Inr a'" by simp
    then have "rfold (parse_text_ref (usecase_of uid sid vd) x) refs (?st x) \<noteq> Inl Panic"
      if "get_content ns s d = Inr x" for x
      by (intro text_refs.fold_progress [OF _ rel']) (use given that UInText in auto)
    then show ?thesis using no_panic UInText by (auto simp: parse_input_def rbind_not_Inl Let_def)
  next
    case (UInFile d refs meta opt)
    with ok have "rfold (validate_file_ref vd d) refs a = Inr a'" by simp
    then have "rfold (parse_file_ref (usecase_of uid sid vd) x) refs (?st x) \<noteq> Inl Panic" for x
      by (intro file_refs.fold_progress [OF _ rel']) auto
    then show ?thesis using no_panic UInFile by (auto simp: parse_input_def rbind_not_Inl Let_def)
  qed
qed (rule input_sim)

section \<open>Templates\<close>

definition agree_on :: "bool \<Rightarrow> string list \<Rightarrow> ('v, 'f, 'i) fills \<Rightarrow> ('w, 'g, 'j) fills \<Rightarrow> bool" where
  "agree_on fl ks a c \<longleftrightarrow> agree fl a c \<and> map fst (templates_kv c) = ks"

lemma fill_keeps_templates:
  "fill_argument cu v d n pos c = Inr c' \<Longrightarrow> templates_kv c' = templates_kv c"
  "fill_environment cu v d n c = Inr c' \<Longrightarrow> templates_kv c' = templates_kv c"
  by (auto simp: fill_argument_def fill_environment_def rbind_Inr_iff)

lemma as_content_sim:
  "agree_on fl ks a c \<Longrightarrow> validate_as_content vd t r a = Inr a' \<Longrightarrow>
   parse_as_content (usecase_of uid sid vd) x r c = Inr c' \<Longrightarrow> agree_on fl ks a' c'"
  by (cases r) (auto simp: agree_on_def rbind_Inr_iff fill_keeps_templates dest: fill_sim)

lemma as_file_name_sim:
  "agree_on fl ks a c \<Longrightarrow> validate_as_file_name vd t r a = Inr a' \<Longrightarrow>
   parse_as_file_name (usecase_of uid sid vd) n x r c = Inr c' \<Longrightarrow> agree_on fl ks a' c'"
  by (cases r) (auto simp: agree_on_def rbind_Inr_iff fill_keeps_templates dest: fill_sim)

interpretation contents: guarded_loop "agree_on fl ks" "validate_as_content vd t"
  "parse_as_content (usecase_of uid sid vd) x" "\<lambda>_. True" Panic
  for fl ks vd t uid sid x
proof unfold_locales
  fix r a c a'
  assume "validate_as_content vd t r a = Inr a'"
  then show "parse_as_content (usecase_of uid sid vd) x r c \<noteq> Inl Panic"
    by (cases r) (auto dest: fill_progress)
qed (rule as_content_sim)

interpretation file_names: guarded_loop "agree_on fl ks" "validate_as_file_name vd t"
  "parse_as_file_name (usecase_of uid sid vd) n x" "\<lambda>_. True" Panic
  for fl ks vd t uid sid n x
proof unfold_locales
  fix r a c a'
  assume "validate_as_file_name vd t r a = Inr a'"
  then show "parse_as_file_name (usecase_of uid sid vd) n x r c \<noteq> Inl Panic"
    by (cases r) (auto simp: rbind_Inr_iff ok_or_Inr_iff dest: fill_progress)
qed (rule as_file_name_sim)

lemma agree_on_file [simp]:
  "agree_on fl ks (if b then a\<lparr>fl_files := f\<rparr> else a) (if b then c\<lparr>fl_files := g\<rparr> else c) = agree_on fl ks a c"
  by (simp add: agree_on_def)

lemma template_sim:
  assumes "agree_on fl ks a c" "validate_template vd t a = Inr a'"
    "parse_template ue (usecase_of uid sid vd) t c = Inr c'"
  shows "agree_on fl ks a' c'"
proof -
  let ?us = "ud_spec (vd_usecase_data vd)"
  obtain tf b where tf: "find_template ?us t = Some tf"
    and b: "rfold (validate_as_content vd t) (as_content tf) a = Inr b"
      "rfold (validate_as_file_name vd t) (as_file_name tf)
         (if template_as_file tf then b\<lparr>fl_files := fl_files b @ [DynamicInput (InTemplate t)]\<rparr> else b) = Inr a'"
    using assms(2) by (auto simp: validate_template_def rbind_Inr_iff ok_or_Inr_iff)
  obtain n x d where d: "rfold (parse_as_content (usecase_of uid sid vd) x) (as_content tf) c = Inr d"
      "rfold (parse_as_file_name (usecase_of uid sid vd) n x) (as_file_name tf)
         (if template_as_file tf then d\<lparr>fl_files := fl_files d @ [FileInfoInput n False (FormContent x)]\<rparr>
          else d) = Inr c'"
    using assms(3) tf by (auto simp: parse_template_def rbind_Inr_iff ok_or_Inr_iff)
  have "agree_on fl ks b d" by (rule contents.fold_sim [OF assms(1) b(1) d(1)])
  then show ?thesis by (intro file_names.fold_sim [OF _ b(2) d(2)]) simp
qed

interpretation templates: guarded_loop "agree_on fl ks" "validate_template vd"
  "parse_template ue (usecase_of uid sid vd)" "\<lambda>t. t \<in> set ks" Panic
  for fl ks vd ue uid sid
proof unfold_locales
  fix t and a a' :: preview_fills and c :: task_fills
  assume t: "t \<in> set ks" and rel: "agree_on fl ks a c" and ok: "validate_template vd t a = Inr a'"
  let ?cu = "usecase_of uid sid vd"
  obtain kv where kv: "map_of (templates_kv c) t = Some kv"
    using t rel by (cases "map_of (templates_kv c) t") (auto simp: agree_on_def map_of_eq_None_iff)
  obtain tf info b where tf: "find_template (ud_spec (vd_usecase_data vd)) t = Some tf"
      "find_template_info (ud_template_file_infos (vd_usecase_data vd)) t = Some info"
    and b: "rfold (validate_as_content vd t) (as_content tf) a = Inr b"
      "rfold (validate_as_file_name vd t) (as_file_name tf)
         (if template_as_file tf then b\<lparr>fl_files := fl_files b @ [DynamicInput (InTemplate t)]\<rparr> else b) = Inr a'"
    using ok by (auto simp: validate_template_def rbind_Inr_iff ok_or_Inr_iff)
  let ?n = "ti_file_name info"
  have contents_ok: "rfold (parse_as_content ?cu x) (as_content tf) c \<noteq> Inl Panic" for x
    by (rule contents.fold_progress [OF _ rel b(1)]) simp
  have "rfold (parse_as_file_name ?cu ?n x) (as_file_name tf)
      (if template_as_file tf then d\<lparr>fl_files := fl_files d @ [FileInfoInput ?n False (FormContent x)]\<rparr> else d)
      \<noteq> Inl Panic" if "rfold (parse_as_content ?cu x) (as_content tf) c = Inr d" for x d
    using contents.fold_sim [OF rel b(1) that] by (intro file_names.fold_progress [OF _ _ b(2)]) simp_all
  then show "parse_template ue ?cu t c \<noteq> Inl Panic"
    using kv tf contents_ok
    by (simp add: parse_template_def get_template_file_result_def rbind_not_Inl ok_or_not_Inl)
qed (rule template_sim)

section \<open>Output slots\<close>

fun from_matches :: "preview_collect_from \<Rightarrow> collect_from \<Rightarrow> bool" where
  "from_matches (PreviewFileOut _) (FileOut _) = True"
| "from_matches PreviewStdout Stdout = True"
| "from_matches PreviewStderr Stderr = True"
| "from_matches _ _ = False"

fun to_matches :: "preview_collect_to \<Rightarrow> collect_to \<Rightarrow> bool" where
  "to_matches (PreviewToFile p) (CollectFile q _) = (p = q)"
| "to_matches PreviewToText (CollectText _) = True"
| "to_matches _ _ = False"

fun rule_matches :: "preview_collect_rule \<Rightarrow> collect_rule \<Rightarrow> bool" where
  "rule_matches (PreviewRegex r) (CRegex q) = (r = q)"
| "rule_matches (PreviewBottomLines n) (BottomLines m) = (n = m)"
| "rule_matches (PreviewTopLines n) (TopLines m) = (n = m)"
| "rule_matches _ _ = False"

text \<open>A collection of the task is the one the preview shows.\<close>

definition collect_matches :: "collect_preview \<Rightarrow> task_body \<Rightarrow> bool" where
  "collect_matches p b = (case b of
     CollectedOut src rule dst opt \<Rightarrow>
       from_matches (cpv_from p) src \<and> rule_matches (cpv_rule p) rule \<and> to_matches (cpv_to p) dst \<and>
       cpv_optional p = opt
   | _ \<Rightarrow> False)"

text \<open>An output file of the task is the one the preview shows, at its constant path if it has one.\<close>

fun out_matches :: "file_info_preview \<Rightarrow> file_info \<Rightarrow> bool" where
  "out_matches (ConstOutput _ path) (FileInfoOutput _ p _ _) = (p = path)"
| "out_matches (DynamicOutput _ _) (FileInfoOutput _ _ _ _) = True"
| "out_matches _ _ = False"

definition outs_agree :: "nat \<Rightarrow> nat \<Rightarrow> preview_outs \<Rightarrow> task_outs \<Rightarrow> bool" where
  "outs_agree n m a c \<longleftrightarrow>
     n \<le> length (fst a) \<and> m \<le> length (fst c) \<and>
     list_all2 out_matches (drop n (fst a)) (drop m (fst c)) \<and> list_all2 collect_matches (snd a) (snd c)"

lemma rule_matches_of [simp]: "rule_matches (preview_collect_rule_of r) (collect_rule_from r)"
  by (cases r) auto

lemma from_matches_of:
  "preview_collect_from_of chk vd co = Inr p \<Longrightarrow> task_collect_from cu ns s (co_from co) = Inr b \<Longrightarrow>
   from_matches p b"
  by (auto simp: preview_collect_from_of_def task_collect_from_def rbind_Inr_iff
      split: repo_collect_from.splits)

lemma outs_agree_collect:
  "outs_agree n m (fls, outs) (files, body) \<Longrightarrow> collect_matches p b \<Longrightarrow>
   outs_agree n m (fls, outs @ [p]) (files, body @ [b])"
  by (auto simp: outs_agree_def list_all2_appendI)

lemma outs_agree_file:
  "outs_agree n m (fls, outs) (files, body) \<Longrightarrow> out_matches p b \<Longrightarrow>
   outs_agree n m (fls @ [p], outs) (files @ [b], body)"
  by (auto simp: outs_agree_def list_all2_appendI)

lemma output_sim:
  assumes "outs_agree n m a c" "validate_output_slot vd slot a = Inr a'"
    "parse_output (usecase_of uid sid vd) ns s slot c = Inr c'"
  shows "outs_agree n m a' c'"
proof -
  obtain fls outs files body where acc: "a = (fls, outs)" "c = (files, body)" by (metis surj_pair)
  show ?thesis
  proof (cases slot)
    case (UOutText d c meta opt v)
    with assms(2) acc obtain co where co: "find_collected_out (ud_collected_outs (vd_usecase_data vd)) c = Some co"
      by (auto simp: rbind_Inr_iff ok_or_Inr_iff)
    show ?thesis
      using assms co unfolding acc UOutText
      by (cases "co_to co")
        (auto simp: rbind_Inr_iff collect_matches_def from_matches_of intro!: outs_agree_collect)
  next
    case (UOutFile d origin opt meta v)
    show ?thesis
    proof (cases origin)
      case (FromCollectedOut c)
      with assms(2) acc UOutFile obtain co
        where co: "find_collected_out (ud_collected_outs (vd_usecase_data vd)) c = Some co"
        by (auto simp: rbind_Inr_iff ok_or_Inr_iff)
      show ?thesis
        using assms co unfolding acc UOutFile FromCollectedOut
        by (cases "co_to co")
          (auto simp: rbind_Inr_iff collect_matches_def from_matches_of intro!: outs_agree_collect)
    next
      case (FromUsecaseOut fo)
      show ?thesis
        using assms unfolding acc UOutFile FromUsecaseOut
        by (auto simp: rbind_Inr_iff ok_or_Inr_iff out_path_def out_path_alter_def
            split: appointed_by.splits intro!: outs_agree_file)
    qed
  qed
qed

text \<open>What a node has to offer an output slot: ids, and a path where an input slot appoints it.\<close>

definition appointed_fits :: "node_spec \<Rightarrow> appointed_by \<Rightarrow> bool" where
  "appointed_fits ns by =
     (case by of
        ByMaterial \<Rightarrow> True
      | ByInputSlot d \<Rightarrow>
          (case find (\<lambda>el. is_descriptor el = d) (input_slots ns) of
             None \<Rightarrow> False
           | Some el \<Rightarrow> (case is_kind el of SlotText (Some (_ # _)) _ \<Rightarrow> True | _ \<Rightarrow> False)))"

fun output_fits :: "node_spec \<Rightarrow> usecase_output_slot \<Rightarrow> bool" where
  "output_fits ns (UOutText d _ _ _ _) =
     (case find (\<lambda>el. os_descriptor el = d) (output_slots ns) of
        None \<Rightarrow> False
      | Some el \<Rightarrow> (case os_kind el of OutText (_ # _) \<Rightarrow> True | _ \<Rightarrow> False))"
| "output_fits ns (UOutFile d origin _ _ _) =
     ((case find (\<lambda>el. os_descriptor el = d) (output_slots ns) of
         None \<Rightarrow> False
       | Some el \<Rightarrow> (case os_kind el of OutFile _ _ (_ # _) \<Rightarrow> True | _ \<Rightarrow> False)) \<and>
      (case origin of FromUsecaseOut fo \<Rightarrow> appointed_fits ns (appointed fo) | FromCollectedOut _ \<Rightarrow> True))"

lemma out_path_progress:
  "appointed_fits ns (appointed fo) \<Longrightarrow>
   find_filesome_output (cu_filesome_outputs cu) (file_out_material_descriptor fo) = Some m \<Longrightarrow>
   out_path cu ns s fo \<noteq> Inl Panic"
  by (auto simp: out_path_def out_path_alter_def appointed_fits_def input_slot_def nth_or_def rbind_not_Inl
      split: appointed_by.splits option.splits node_input_slot_kind.splits list.splits)

lemma collect_path_progress:
  "preview_file_out chk (cu_filesome_outputs cu) d slots = Inr (Some m) \<Longrightarrow>
   \<forall>slot \<in> set slots. output_fits ns slot \<Longrightarrow> collect_path cu ns s d slots \<noteq> Inl Panic"
proof (induction slots)
  case (Cons slot slots)
  then show ?case
    by (cases slot)
      (auto simp: rbind_not_Inl rbind_Inr_iff ok_or_Inr_iff dest!: out_path_progress
        split: if_splits usecase_file_out_origin.splits)
qed simp

lemma collect_from_progress:
  "preview_collect_from_of chk vd co = Inr p \<Longrightarrow>
   \<forall>slot \<in> set (us_output_slots (ud_spec (vd_usecase_data vd))). output_fits ns slot \<Longrightarrow>
   task_collect_from (usecase_of uid sid vd) ns s (co_from co) \<noteq> Inl Panic"
  by (cases "co_from co")
    (auto simp: preview_collect_from_of_def task_collect_from_def rbind_Inr_iff ok_or_Inr_iff rbind_not_Inl
      dest: collect_path_progress [where cu = "usecase_of uid sid vd", simplified])

definition outputs_fit :: "node_spec \<Rightarrow> usecase_spec \<Rightarrow> bool" where
  "outputs_fit ns us = (\<forall>slot \<in> set (us_output_slots us). output_fits ns slot)"

lemma output_progress:
  assumes fits: "output_fits ns slot" and all: "outputs_fit ns (ud_spec (vd_usecase_data vd))"
    and ok: "validate_output_slot vd slot a = Inr a'"
  shows "parse_output (usecase_of uid sid vd) ns s slot c \<noteq> Inl Panic"
proof -
  obtain fls outs files body where acc: "a = (fls, outs)" "c = (files, body)" by (metis surj_pair)
  note src = collect_from_progress [OF _ all [unfolded outputs_fit_def]]
  show ?thesis
  proof (cases slot)
    case (UOutText d c meta opt v)
    show ?thesis
      using fits ok unfolding acc UOutText
      by (auto simp: rbind_Inr_iff ok_or_Inr_iff rbind_not_Inl output_slot_def all_tasks_text_outputs_def
          nth_or_def dest!: src split: option.splits node_spec_output_slot_kind.splits list.splits
          repo_collect_to.splits)
  next
    case (UOutFile d origin opt meta v)
    show ?thesis
    proof (cases origin)
      case (FromCollectedOut co)
      show ?thesis
        using fits ok unfolding acc UOutFile FromCollectedOut
        by (auto simp: rbind_Inr_iff ok_or_Inr_iff rbind_not_Inl output_slot_def all_tasks_file_outputs_def
            nth_or_def dest!: src split: option.splits node_spec_output_slot_kind.splits list.splits
            repo_collect_to.splits)
    next
      case (FromUsecaseOut fo)
      show ?thesis
        using fits ok unfolding acc UOutFile FromUsecaseOut
        by (auto simp: rbind_Inr_iff ok_or_Inr_iff rbind_not_Inl output_slot_def all_tasks_file_outputs_def
            nth_or_def dest!: out_path_progress [of ns fo "usecase_of uid sid vd"]
            split: option.splits node_spec_output_slot_kind.splits list.splits)
    qed
  qed
qed

interpretation outputs: guarded_loop "outs_agree n m" "validate_output_slot vd"
  "parse_output (usecase_of uid sid vd) ns s"
  "\<lambda>slot. output_fits ns slot \<and> outputs_fit ns (ud_spec (vd_usecase_data vd))" Panic
  for n m vd uid sid ns s
proof unfold_locales
  fix slot and a a' :: preview_outs and c :: task_outs
  assume "output_fits ns slot \<and> outputs_fit ns (ud_spec (vd_usecase_data vd))"
    "validate_output_slot vd slot a = Inr a'"
  then show "parse_output (usecase_of uid sid vd) ns s slot c \<noteq> Inl Panic"
    by (intro output_progress) auto
qed (rule output_sim)

section \<open>The two functions\<close>

definition flagged :: "usecase_spec \<Rightarrow> bool" where
  "flagged us \<longleftrightarrow> flag_arguments us \<noteq> [] \<or> flag_environments us \<noteq> []"

definition flags_resolve :: "validate_data \<Rightarrow> bool" where
  "flags_resolve vd \<longleftrightarrow>
     (let us = ud_spec (vd_usecase_data vd); sd = vd_software_data vd in
      fst ` set (flag_arguments us) \<subseteq> ar_descriptor ` set (sd_arguments sd) \<and>
      set (flag_environments us) \<subseteq> en_descriptor ` set (sd_environments sd))"

lemma flag_arguments_run:
  "fst ` set fs \<subseteq> ar_descriptor ` set (cu_arguments cu) \<Longrightarrow>
   \<exists>st'. rfold (flag_argument cu) fs st = Inr st' \<and> templates_kv st' = templates_kv st"
proof (induction fs arbitrary: st)
  case (Cons f fs)
  have "find (\<lambda>el. ar_descriptor el = fst f) (cu_arguments cu) \<noteq> None"
    using Cons.prems by (auto simp: find_None_iff_all)
  then obtain st1 where "flag_argument cu f st = Inr st1" "templates_kv st1 = templates_kv st"
    by (cases f) (auto simp: flag_argument_def argument_format_def)
  with Cons show ?case by fastforce
qed simp

lemma flag_environments_run:
  "set ds \<subseteq> en_descriptor ` set (cu_environments cu) \<Longrightarrow>
   \<exists>st'. rfold (flag_environment cu) ds st = Inr st' \<and> templates_kv st' = templates_kv st"
proof (induction ds arbitrary: st)
  case (Cons d ds)
  have "find (\<lambda>el. en_descriptor el = d) (cu_environments cu) \<noteq> None"
    using Cons.prems by (auto simp: find_None_iff_all)
  then obtain st1 where "flag_environment cu d st = Inr st1" "templates_kv st1 = templates_kv st"
    by (auto simp: flag_environment_def environment_kv_format_def)
  with Cons show ?case by fastforce
qed simp

lemma flags_keep_templates:
  "rfold (flag_argument cu) fs st = Inr st1 \<Longrightarrow> templates_kv st1 = templates_kv st"
  "rfold (flag_environment cu) ds st = Inr st1 \<Longrightarrow> templates_kv st1 = templates_kv st"
  by (induction fs arbitrary: st, auto simp: rbind_Inr_iff flag_argument_def)
    (induction ds arbitrary: st, auto simp: rbind_Inr_iff flag_environment_def)

text \<open>The states before the input slots agree.\<close>

lemma agree_start:
  assumes "rfold (flag_argument cu) (flag_arguments us) no_fills = Inr st1"
    and "rfold (flag_environment cu) (flag_environments us) st1 = Inr st2"
  shows "agree (flagged us) no_preview_fills st2"
proof (cases "flagged us")
  case True
  then show ?thesis
    using flags_keep_templates(1) [OF assms(1)] flags_keep_templates(2) [OF assms(2)]
    by (simp add: agree_def no_preview_fills_def no_fills_def)
next
  case False
  with assms have "st2 = no_fills" by (simp add: flagged_def)
  then show ?thesis by (simp add: agree_def no_preview_fills_def no_fills_def)
qed

lemma validate_inputsD:
  assumes "validate_inputs ord vd = Inr a"
  obtains b where
    "rfold (validate_input_slot vd) (us_input_slots (ud_spec (vd_usecase_data vd))) no_preview_fills = Inr b"
    "rfor (template_files (ud_spec (vd_usecase_data vd)))
       (\<lambda>t. rfor (as_file_name t) (check_as_file_name vd)) = Inr ()"
    "rfold (validate_template vd) (ord (map fst (templates_kv b))) b = Inr a"
  using assms by (auto simp: validate_inputs_def rbind_Inr_iff Let_def)

lemma inputs_agree:
  assumes ok: "validate_inputs (template_order ue) vd = Inr a"
    and run: "parse_inputs ue (usecase_of uid sid vd) ns s = Inr c"
  shows "agree (flagged (ud_spec (vd_usecase_data vd))) a c"
proof -
  let ?cu = "usecase_of uid sid vd" and ?us = "ud_spec (vd_usecase_data vd)"
  obtain b where b: "rfold (validate_input_slot vd) (us_input_slots ?us) no_preview_fills = Inr b"
      "rfold (validate_template vd) (template_order ue (map fst (templates_kv b))) b = Inr a"
    using ok by (rule validate_inputsD)
  obtain st1 st2 d where d: "rfold (flag_argument ?cu) (flag_arguments ?us) no_fills = Inr st1"
      "rfold (flag_environment ?cu) (flag_environments ?us) st1 = Inr st2"
      "rfold (parse_input ?cu ns s) (us_input_slots ?us) st2 = Inr d"
      "rfold (parse_template ue ?cu) (template_order ue (map fst (templates_kv d))) d = Inr c"
    using run by (auto simp: parse_inputs_def rbind_Inr_iff Let_def)
  have bd: "agree (flagged ?us) b d" by (rule inputs.fold_sim [OF agree_start [OF d(1,2)] b(1) d(3)])
  then have keys: "map fst (templates_kv b) = map fst (templates_kv d)" by (rule agree_template_keys)
  with bd have "agree_on (flagged ?us) (map fst (templates_kv d)) b d" by (simp add: agree_on_def)
  from templates.fold_sim [OF this b(2)] d(4) keys show ?thesis by (auto simp: agree_on_def)
qed

lemma inputs_progress:
  assumes ok: "validate_inputs (template_order ue) vd = Inr a"
    and flags: "flags_resolve vd"
    and fits: "\<forall>slot \<in> set (us_input_slots (ud_spec (vd_usecase_data vd))). input_fits ns slot"
    and order: "\<And>ks. set (template_order ue ks) \<subseteq> set ks"
  shows "parse_inputs ue (usecase_of uid sid vd) ns s \<noteq> Inl Panic"
proof -
  let ?cu = "usecase_of uid sid vd" and ?us = "ud_spec (vd_usecase_data vd)"
  obtain b where b: "rfold (validate_input_slot vd) (us_input_slots ?us) no_preview_fills = Inr b"
      "rfold (validate_template vd) (template_order ue (map fst (templates_kv b))) b = Inr a"
    using ok by (rule validate_inputsD)
  obtain st1 where st1: "rfold (flag_argument ?cu) (flag_arguments ?us) no_fills = Inr st1"
    using flag_arguments_run [of "flag_arguments ?us" ?cu no_fills] flags
    by (auto simp: flags_resolve_def Let_def)
  obtain st2 where st2: "rfold (flag_environment ?cu) (flag_environments ?us) st1 = Inr st2"
    using flag_environments_run [of "flag_environments ?us" ?cu st1] flags
    by (auto simp: flags_resolve_def Let_def)
  note start = agree_start [OF st1 st2]
  have "rfold (parse_input ?cu ns s) (us_input_slots ?us) st2 \<noteq> Inl Panic"
    by (rule inputs.fold_progress [OF fits start b(1)])
  moreover have "rfold (parse_template ue ?cu) (template_order ue (map fst (templates_kv d))) d \<noteq> Inl Panic"
    if d: "rfold (parse_input ?cu ns s) (us_input_slots ?us) st2 = Inr d" for d
  proof -
    have bd: "agree (flagged ?us) b d" by (rule inputs.fold_sim [OF start b(1) d])
    then have keys: "map fst (templates_kv b) = map fst (templates_kv d)" by (rule agree_template_keys)
    have "agree_on (flagged ?us) (map fst (templates_kv d)) b d" using bd by (simp add: agree_on_def)
    moreover have "\<forall>t \<in> set (template_order ue (map fst (templates_kv d))). t \<in> set (map fst (templates_kv d))"
      using order by blast
    ultimately show ?thesis using b(2) unfolding keys by (intro templates.fold_progress)
  qed
  ultimately show ?thesis using st1 st2 by (simp add: parse_inputs_def Let_def rbind_not_Inl)
qed

lemma package_validateD:
  assumes "package_validate ord vd = Inr pv"
  obtains a fls outs where
    "validate_inputs ord vd = Inr a"
    "rfold (validate_output_slot vd) (us_output_slots (ud_spec (vd_usecase_data vd))) (fl_files a, []) = Inr (fls, outs)"
    "pv_argument_formats_sorts pv = sort_key fst (argument_formats_sorts a)"
    "pv_environment_formats pv = environment_formats a"
    "check_argument_sorts (map fst (pv_argument_formats_sorts pv)) = Inr ()"
    "pv_file_infos pv = fls" "collect_previews pv = outs"
    "software_facility pv = facility_kind_from (sd_spec (vd_software_data vd))"
    "command_name pv = command_file (ud_spec (vd_usecase_data vd))"
  using assms by (auto simp: package_validate_def rbind_Inr_iff Let_def)

lemma parse_usecaseD:
  assumes "parse_usecase ue cu ns s = Inr t"
  obtains c files body deploy where
    "parse_inputs ue cu ns s = Inr c"
    "rfold (parse_output cu ns s) (us_output_slots (cu_usecase_spec cu)) (fl_files c, []) = Inr (files, body)"
    "deployment_wanted (cu_software_spec cu) (db s) = Inr deploy"
    "task_body t = (if deploy then [SoftwareDeployment (facility_kind_from (cu_software_spec cu))] else []) @
       execution_body cu ns c files # body"
    "task_id t = ns_id ns"
  using assms by (auto simp: parse_usecase_def rbind_Inr_iff)

lemma deployment_not_Panic [simp]: "deployment_wanted sp d \<noteq> Inl Panic"
proof -
  have js: "json_strings j \<noteq> Inl Panic" for j
    by (auto simp: json_strings_def json_string_def intro!: rmap_not_Inl split: json.splits)
  have "rfold (\<lambda>(_, j) r. rbind (json_strings j) (\<lambda>i. Inr (P i r))) xs b \<noteq> Inl Panic"
    for P :: "string list \<Rightarrow> bool \<Rightarrow> bool" and xs :: "(string \<times> json) list" and b
  proof (induction xs arbitrary: b)
    case (Cons x xs)
    obtain n j where x: "x = (n, j)" by force
    show ?case using Cons js [of j] unfolding x by (cases "json_strings j") auto
  qed simp
  then show ?thesis
    by (auto simp: deployment_wanted_def is_software_version_blocked_def is_software_satisfied_def
        split: prod.splits)
qed

end
