(* ===== verification/KP_Props.thy ===== *)
theory KP_Props
  imports KP_Match KP_Samples
begin

text \<open>
  Properties of packages, of their validation, and of the tasks made from them, with their
  witnesses on the sample use case.
\<close>

section \<open>A validated package does not panic\<close>

text \<open>C5 If two packages pass the validation, the flags of the use case name materials, and the
  node offers contents and output ids for its slots, then making the task of the node does not
  panic: every lookup the code unwraps succeeds.\<close>

theorem validated_never_stuck:
  assumes "package_validate (template_order ue) vd = Inr pv"
    and "flags_resolve vd"
    and "\<forall>slot \<in> set (us_input_slots (ud_spec (vd_usecase_data vd))). input_fits ns slot"
    and "outputs_fit ns (ud_spec (vd_usecase_data vd))"
    and "\<forall>ks. set (template_order ue ks) \<subseteq> set ks"
  shows "parse_usecase ue (usecase_of uid sid vd) ns s \<noteq> Inl Panic"
proof -
  let ?us = "ud_spec (vd_usecase_data vd)"
  obtain a fls outs where a: "validate_inputs (template_order ue) vd = Inr a"
    and outs: "rfold (validate_output_slot vd) (us_output_slots ?us) (fl_files a, []) = Inr (fls, outs)"
    using assms(1) by (rule package_validateD)
  have "rfold (parse_output (usecase_of uid sid vd) ns s) (us_output_slots ?us) (fl_files c, []) \<noteq> Inl Panic"
    for c :: task_fills
    using assms(4) outputs.fold_progress
      [OF _ _ outs, of ns "length (fl_files a)" "length (fl_files c)" "(fl_files c, [])"]
    by (auto simp: outs_agree_def outputs_fit_def)
  with inputs_progress [OF a assms(2,3)] assms(5) show ?thesis
    by (auto simp: parse_usecase_def rbind_not_Inl)
qed

theorem validated_never_stuck_witness:
  "parse_usecase sample_usecases (usecase_of 2 1 solve_packages) solver_node solver_state \<noteq> Inl Panic"
proof (rule validated_never_stuck)
  show "package_validate (template_order sample_usecases) solve_packages = Inr solve_preview"
    by (simp add: solve_packages_valid)
  show "flags_resolve solve_packages" by code_simp
  show "\<forall>slot \<in> set (us_input_slots (ud_spec (vd_usecase_data solve_packages))). input_fits solver_node slot"
    by code_simp
  show "outputs_fit solver_node (ud_spec (vd_usecase_data solve_packages))" by code_simp
qed simp

section \<open>The preview is the command\<close>





definition solver_task :: task where
  "solver_task = \<lparr>task_id = 30,
     task_body = [SoftwareDeployment (Spack ''solver'' [''@1.2'', ''+mpi'']), solver_execution,
       CollectedOut Stdout (BottomLines 5) (CollectText 51) True],
     task_command = CmdStart\<rparr>"

lemma solver_parsed:
  "parse_usecase sample_usecases (usecase_of 2 1 solve_packages) solver_node solver_state = Inr solver_task"
  by code_simp


section \<open>Positions of the arguments\<close>




section \<open>Drafting a node\<close>

text \<open>What a validation that succeeds has looked up.\<close>

lemma validated_file_refs:
  assumes "package_validate ord vd = Inr pv"
    and "UInFile d refs meta opt \<in> set (us_input_slots (ud_spec (vd_usecase_data vd)))"
    and "FileInputRef r \<in> set refs"
  shows "find_filesome_input (sd_filesome_inputs (vd_software_data vd)) r \<noteq> None"
proof -
  obtain a where "validate_inputs ord vd = Inr a" using assms(1) by (rule package_validateD)
  then obtain b where b: "rfold (validate_input_slot vd) (us_input_slots (ud_spec (vd_usecase_data vd)))
      no_preview_fills = Inr b"
    by (rule validate_inputsD)
  from rfold_InrD [OF b assms(2)] obtain st st' where "rfold (validate_file_ref vd d) refs st = Inr st'" by auto
  from rfold_InrD [OF this assms(3)] show ?thesis by (auto simp: rbind_Inr_iff ok_or_Inr_iff)
qed

lemma first_file_ref_in: "first_file_ref refs = Some r \<Longrightarrow> FileInputRef r \<in> set refs"
proof (induction refs)
  case (Cons x refs)
  then show ?case by (cases x) auto
qed simp

lemma validated_output:
  assumes "package_validate ord vd = Inr pv"
    and "slot \<in> set (us_output_slots (ud_spec (vd_usecase_data vd)))"
  shows "\<exists>fls outs r. validate_output_slot vd slot (fls, outs) = Inr r"
proof -
  obtain a :: preview_fills and fls outs where
    "rfold (validate_output_slot vd) (us_output_slots (ud_spec (vd_usecase_data vd))) (fl_files a, []) = Inr (fls, outs)"
    using assms(1) by (rule package_validateD)
  from rfold_InrD [OF this assms(2)] show ?thesis by force
qed

definition ability_of :: "uuid \<Rightarrow> uuid \<Rightarrow> validate_data \<Rightarrow> usecase_node_parsing" where
  "ability_of uid sid vd =
     \<lparr>np_usecase_version_id = uid, np_software_version_id = sid,
      np_usecase_spec = ud_spec (vd_usecase_data vd),
      np_filesome_inputs = sd_filesome_inputs (vd_software_data vd),
      np_filesome_outputs = sd_filesome_outputs (vd_software_data vd),
      np_collected_outs = ud_collected_outs (vd_usecase_data vd)\<rparr>"

lemma parse_input_slot_total:
  assumes "package_validate ord vd = Inr pv"
    and "slot \<in> set (us_input_slots (ud_spec (vd_usecase_data vd)))"
  shows "\<exists>el. parse_input_slot (sd_filesome_inputs (vd_software_data vd)) slot = Inr el"
proof (cases slot)
  case (UInFile d refs meta opt)
  then show ?thesis
    using validated_file_refs [OF assms(1) assms(2) [unfolded UInFile] first_file_ref_in]
    by (cases "first_file_ref refs") auto
qed simp

lemma parse_output_slot_total:
  assumes "package_validate ord vd = Inr pv"
    and "slot \<in> set (us_output_slots (ud_spec (vd_usecase_data vd)))"
  shows "\<exists>el. parse_output_slot (sd_filesome_outputs (vd_software_data vd))
    (ud_collected_outs (vd_usecase_data vd)) slot = Inr el"
proof (cases slot)
  case (UOutFile d origin opt meta v)
  show ?thesis
  proof (cases origin)
    case (FromCollectedOut c)
    with validated_output [OF assms] UOutFile obtain fls outs r
      where v: "validate_output_slot vd (UOutFile d (FromCollectedOut c) opt meta v) (fls, outs) = Inr r" by auto
    then obtain co where co: "find_collected_out (ud_collected_outs (vd_usecase_data vd)) c = Some co"
      by (auto simp: rbind_Inr_iff ok_or_Inr_iff)
    with v obtain f where "co_to co = RepoToFile f" by (cases "co_to co") (auto simp: rbind_Inr_iff)
    with co UOutFile FromCollectedOut show ?thesis by (cases f) auto
  next
    case (FromUsecaseOut fo)
    with validated_output [OF assms] UOutFile obtain m where "find_filesome_output
        (sd_filesome_outputs (vd_software_data vd)) (file_out_material_descriptor fo) = Some m"
      by (auto simp: rbind_Inr_iff ok_or_Inr_iff)
    with UOutFile FromUsecaseOut show ?thesis by (cases "fout_file_kind m") auto
  qed
qed simp

text \<open>The slots are drafted in order, with nothing in them yet.\<close>

lemma parse_input_slotD:
  "parse_input_slot ms slot = Inr el \<Longrightarrow>
   is_descriptor el = uin_descriptor slot \<and> is_optional el = uin_optional slot \<and> \<not> slot_filled el \<and> is_kind el \<noteq> SlotUnknown"
  by (cases slot) (auto simp: slot_filled_def rbind_Inr_iff)

lemma parse_output_slotD:
  "parse_output_slot ms cs slot = Inr el \<Longrightarrow> dro_descriptor el = uout_descriptor slot"
  by (cases slot) (auto simp: rbind_Inr_iff)

text \<open>C16 A validated use case that carries a name and a description is drafted: no lookup panics, and
  the node has the input and output slots of the use case in their order, the input slots empty
  and as optional as the use case says.\<close>

theorem validated_usecase_drafted:
  assumes "package_validate ord vd = Inr pv"
    and "map_of (us_metadata (ud_spec (vd_usecase_data vd))) ''name'' = Some name"
    and "map_of (us_metadata (ud_spec (vd_usecase_data vd))) ''description'' = Some description"
  shows "\<exists>dr. parse_node fresh (ability_of uid sid vd) = Inr dr \<and> dr_name dr = name \<and>
    map (\<lambda>el. (is_descriptor el, is_optional el)) (dr_input_slots dr) =
      map (\<lambda>slot. (uin_descriptor slot, uin_optional slot)) (us_input_slots (ud_spec (vd_usecase_data vd))) \<and>
    (\<forall>el \<in> set (dr_input_slots dr). \<not> slot_filled el) \<and>
    map dro_descriptor (dr_output_slots dr) = map uout_descriptor (us_output_slots (ud_spec (vd_usecase_data vd)))"
proof -
  let ?us = "ud_spec (vd_usecase_data vd)" and ?np = "ability_of uid sid vd"
  obtain ins where ins: "rmap (parse_input_slot (np_filesome_inputs ?np)) (us_input_slots ?us) = Inr ins"
    using rmap_ex parse_input_slot_total [OF assms(1)] unfolding ability_of_def by simp blast
  obtain outs where outs: "rmap (parse_output_slot (np_filesome_outputs ?np) (np_collected_outs ?np))
      (us_output_slots ?us) = Inr outs"
    using rmap_ex parse_output_slot_total [OF assms(1)] unfolding ability_of_def by simp blast
  have ins': "list_all2 (\<lambda>slot el. is_descriptor el = uin_descriptor slot \<and> is_optional el = uin_optional slot \<and>
      \<not> slot_filled el) (us_input_slots ?us) ins"
    using ins by (auto simp: rmap_Inr_iff elim!: list.rel_mono_strong dest: parse_input_slotD)
  have outs': "list_all2 (\<lambda>slot el. dro_descriptor el = uout_descriptor slot) (us_output_slots ?us) outs"
    using outs by (auto simp: rmap_Inr_iff elim!: list.rel_mono_strong dest: parse_output_slotD)
  have us: "np_usecase_spec ?np = ?us" by (simp add: ability_of_def)
  have eqs: "map (\<lambda>el. (is_descriptor el, is_optional el)) ins =
      map (\<lambda>slot. (uin_descriptor slot, uin_optional slot)) (us_input_slots ?us)"
    "\<forall>el \<in> set ins. \<not> slot_filled el" "map dro_descriptor outs = map uout_descriptor (us_output_slots ?us)"
    using ins' outs' by (auto simp: list_all2_conv_all_nth in_set_conv_nth intro!: nth_equalityI)
  show ?thesis
    using assms(2,3) ins outs eqs by (simp add: parse_node_def us Let_def)
qed

theorem validated_usecase_drafted_witness:
  "\<exists>dr. parse_node 9 (ability_of 2 1 solve_packages) = Inr dr \<and> dr_name dr = ''Solve'' \<and>
    map (\<lambda>el. (is_descriptor el, is_optional el)) (dr_input_slots dr) =
      map (\<lambda>slot. (uin_descriptor slot, uin_optional slot)) (us_input_slots (ud_spec (vd_usecase_data solve_packages))) \<and>
    (\<forall>el \<in> set (dr_input_slots dr). \<not> slot_filled el) \<and>
    map dro_descriptor (dr_output_slots dr) = map uout_descriptor (us_output_slots (ud_spec (vd_usecase_data solve_packages)))"
  by (rule validated_usecase_drafted [OF solve_packages_valid, where description = "''A solver''"])
    (simp_all add: package_sample_defs)

section \<open>Flags are not validated\<close>

definition with_flags :: "(string \<times> nat) list \<Rightarrow> string list \<Rightarrow> validate_data \<Rightarrow> validate_data" where
  "with_flags fs ds vd = vd\<lparr>vd_usecase_data := (vd_usecase_data vd)\<lparr>ud_spec :=
     (ud_spec (vd_usecase_data vd))\<lparr>flag_arguments := fs, flag_environments := ds\<rparr>\<rparr>\<rparr>"

lemma with_flags_simps [simp]:
  "vd_software_data (with_flags fs ds vd) = vd_software_data vd"
  "ud_collected_outs (vd_usecase_data (with_flags fs ds vd)) = ud_collected_outs (vd_usecase_data vd)"
  "ud_template_file_infos (vd_usecase_data (with_flags fs ds vd)) = ud_template_file_infos (vd_usecase_data vd)"
  "us_input_slots (ud_spec (vd_usecase_data (with_flags fs ds vd))) = us_input_slots (ud_spec (vd_usecase_data vd))"
  "us_output_slots (ud_spec (vd_usecase_data (with_flags fs ds vd))) = us_output_slots (ud_spec (vd_usecase_data vd))"
  "template_files (ud_spec (vd_usecase_data (with_flags fs ds vd))) = template_files (ud_spec (vd_usecase_data vd))"
  "command_file (ud_spec (vd_usecase_data (with_flags fs ds vd))) = command_file (ud_spec (vd_usecase_data vd))"
  "flag_arguments (ud_spec (vd_usecase_data (with_flags fs ds vd))) = fs"
  "flag_environments (ud_spec (vd_usecase_data (with_flags fs ds vd))) = ds"
  by (simp_all add: with_flags_def)

lemma with_flags_fills [simp]:
  "preview_fill_argument (with_flags fs ds vd) = preview_fill_argument vd"
  "preview_fill_environment (with_flags fs ds vd) = preview_fill_environment vd"
  by (intro ext, simp add: preview_fill_argument_def preview_fill_environment_def)+

lemma with_flags_refs [simp]:
  "validate_text_ref (with_flags fs ds vd) d r st = validate_text_ref vd d r st"
  "validate_file_ref (with_flags fs ds vd) d q st = validate_file_ref vd d q st"
  "check_as_file_name (with_flags fs ds vd) q = check_as_file_name vd q"
  "validate_as_content (with_flags fs ds vd) d r st = validate_as_content vd d r st"
  "validate_as_file_name (with_flags fs ds vd) d q st = validate_as_file_name vd d q st"
  by ((cases r; simp), (cases q; simp), (cases q; simp), (cases r; simp), (cases q; simp))

lemma with_flags_ref_funs [simp]:
  "validate_text_ref (with_flags fs ds vd) = validate_text_ref vd"
  "validate_file_ref (with_flags fs ds vd) = validate_file_ref vd"
  "check_as_file_name (with_flags fs ds vd) = check_as_file_name vd"
  "validate_as_content (with_flags fs ds vd) = validate_as_content vd"
  "validate_as_file_name (with_flags fs ds vd) = validate_as_file_name vd"
  by (intro ext, rule with_flags_refs)+

lemma with_flags_slots [simp]:
  "validate_input_slot (with_flags fs ds vd) = validate_input_slot vd"
  "validate_template (with_flags fs ds vd) = validate_template vd"
  "validate_output_slot (with_flags fs ds vd) = validate_output_slot vd"
proof -
  have "validate_input_slot (with_flags fs ds vd) slot st = validate_input_slot vd slot st" for slot st
    by (cases slot) simp_all
  then show "validate_input_slot (with_flags fs ds vd) = validate_input_slot vd" by (intro ext)
  show "validate_template (with_flags fs ds vd) = validate_template vd"
    by (intro ext) (simp add: validate_template_def find_template_def)
  have "check_appointed (ud_spec (vd_usecase_data (with_flags fs ds vd))) =
      check_appointed (ud_spec (vd_usecase_data vd))"
    by (rule ext) (simp add: check_appointed_def split: appointed_by.split)
  moreover have "preview_collect_from_of chk (with_flags fs ds vd) co = preview_collect_from_of chk vd co" for chk co
    by (simp add: preview_collect_from_of_def split: repo_collect_from.split)
  ultimately have "validate_output_slot (with_flags fs ds vd) slot acc = validate_output_slot vd slot acc" for slot acc
    by (induction vd slot acc rule: validate_output_slot.induct) simp_all
  then show "validate_output_slot (with_flags fs ds vd) = validate_output_slot vd" by (intro ext)
qed

text \<open>The validation does not look at the flag arguments and flag environment variables of a use
  case: whatever they are, its result is the same; but making a task of a use case whose first
  flag names no argument of the software panics.\<close>

theorem flags_not_validated:
  assumes "d \<notin> ar_descriptor ` set (sd_arguments (vd_software_data vd))"
  shows "package_validate ord (with_flags ((d, pos) # fs) ds vd) = package_validate ord vd \<and>
    parse_usecase ue (usecase_of uid sid (with_flags ((d, pos) # fs) ds vd)) ns s = Inl Panic"
proof -
  have "find (\<lambda>el. ar_descriptor el = d) (sd_arguments (vd_software_data vd)) = None"
    using assms by (auto simp: find_None_iff_all)
  then show ?thesis
    by (simp add: package_validate_def validate_inputs_def parse_usecase_def parse_inputs_def
        flag_argument_def argument_format_def Let_def)
qed

theorem flags_not_validated_witness:
  "package_validate (\<lambda>ks. ks) (with_flags [(''quiet'', 3)] [] solve_packages) =
     package_validate (\<lambda>ks. ks) solve_packages \<and>
   parse_usecase sample_usecases (usecase_of 2 1 (with_flags [(''quiet'', 3)] [] solve_packages))
     solver_node solver_state = Inl Panic"
  by (rule flags_not_validated) (simp add: package_sample_defs)

section \<open>Placeholders\<close>

text \<open>A format: literal texts with a placeholder between any two, the first ones filled.\<close>

fun weave :: "string list \<Rightarrow> string list \<Rightarrow> string" where
  "weave [] vs = []"
| "weave [l] vs = l"
| "weave (l # m # ls) [] = l @ placeholder @ weave (m # ls) []"
| "weave (l # m # ls) (v # vs) = l @ v @ weave (m # ls) vs"

lemma replace_first_skip:
  "CHR ''{'' \<notin> set p \<Longrightarrow> replace_first placeholder v (p @ placeholder @ r) = p @ v @ r"
proof (induction p)
  case Nil
  show ?case by (subst replace_first.simps) (simp add: placeholder_def)
next
  case (Cons c p)
  then have "take (length placeholder) ((c # p) @ placeholder @ r) \<noteq> placeholder"
    by (auto simp: placeholder_def)
  with Cons show ?case by (subst replace_first.simps) simp
qed

lemma replace_first_none: "CHR ''{'' \<notin> set s \<Longrightarrow> replace_first placeholder v s = s"
proof (induction s)
  case Nil
  show ?case by (subst replace_first.simps) (simp add: placeholder_def)
next
  case (Cons c s)
  then have "take (length placeholder) (c # s) \<noteq> placeholder" by (auto simp: placeholder_def)
  with Cons show ?case by (subst replace_first.simps) simp
qed

lemma fold_replace_none:
  "CHR ''{'' \<notin> set s \<Longrightarrow> fold (replace_first placeholder) vs s = s"
  by (induction vs) (auto simp: replace_first_none)

lemma fold_replace_weave:
  assumes "\<forall>l \<in> set ls. CHR ''{'' \<notin> set l" "\<forall>v \<in> set vs. CHR ''{'' \<notin> set v" "CHR ''{'' \<notin> set p"
  shows "fold (replace_first placeholder) vs (p @ weave ls []) = p @ weave ls vs"
  using assms
proof (induction ls vs arbitrary: p rule: weave.induct)
  case (4 l m ls v vs)
  have "fold (replace_first placeholder) (v # vs) (p @ weave (l # m # ls) []) =
      fold (replace_first placeholder) vs ((p @ l @ v) @ weave (m # ls) [])"
    using 4 replace_first_skip [of "p @ l" v "weave (m # ls) []"] by simp
  also have "\<dots> = (p @ l @ v) @ weave (m # ls) vs" using 4 by (intro 4(1)) auto
  finally show ?case by simp
qed (auto simp: fold_replace_none)

text \<open>Filling a format puts the values in its placeholders from the left, in the order of their
  placeholder numbers, whatever these numbers are; a missing value is the empty text, and
  placeholders left over stay. The texts and values must have no opening brace.\<close>

theorem placeholders_filled_in_order:
  assumes "fm_format ff = weave ls []" "\<forall>l \<in> set ls. CHR ''{'' \<notin> set l"
    and "vs = map (\<lambda>(_, v). case v of Some x \<Rightarrow> x | None \<Rightarrow> '''') (sort_key fst (placeholder_fill_map ff))"
    and "\<forall>v \<in> set vs. CHR ''{'' \<notin> set v"
  shows "fill_format ff = weave ls vs"
proof -
  have "fold (\<lambda>(_, v) format. replace_first placeholder (case v of Some x \<Rightarrow> x | None \<Rightarrow> '''') format) m s =
      fold (replace_first placeholder) (map (\<lambda>(_, v). case v of Some x \<Rightarrow> x | None \<Rightarrow> '''') m) s"
    for m :: "(nat \<times> string option) list" and s
    by (induction m arbitrary: s) (auto split: prod.splits)
  with fold_replace_weave [OF assms(2,4), of "[]"] show ?thesis
    by (simp add: fill_format_def assms(1,3))
qed

text \<open>Number 7 fills the first placeholder, the second stays.\<close>

theorem placeholders_filled_in_order_witness:
  "fill_format \<lparr>fm_format = ''-u {{}} {{}}'', placeholder_fill_map = [(7, Some ''a'')]\<rparr> =
     weave [''-u '', '' '', ''''] [''a''] \<and> weave [''-u '', '' '', ''''] [''a''] = ''-u a {{}}''"
  by (rule conjI, rule placeholders_filled_in_order) (simp_all add: placeholder_def)

section \<open>Installing the software\<close>

lemma collected_only:
  "rfold (parse_output cu ns s) slots (fls, body) = Inr (fls', body') \<Longrightarrow>
   \<exists>new. body' = body @ new \<and> (\<forall>b \<in> set new. \<exists>src rule dst opt. b = CollectedOut src rule dst opt)"
proof (induction slots arbitrary: fls body)
  case (Cons slot slots)
  then obtain fls1 body1 where one: "parse_output cu ns s slot (fls, body) = Inr (fls1, body1)"
    and rest: "rfold (parse_output cu ns s) slots (fls1, body1) = Inr (fls', body')"
    by (auto simp: rbind_Inr_iff)
  from one have "\<exists>new. body1 = body @ new \<and> (\<forall>b \<in> set new. \<exists>src rule dst opt. b = CollectedOut src rule dst opt)"
  proof (cases slot)
    case (UOutFile d origin opt meta v)
    with one show ?thesis by (cases origin) (auto simp: rbind_Inr_iff)
  qed (auto simp: rbind_Inr_iff)
  with Cons.IH [OF rest] show ?case by fastforce
qed simp

lemma satisfied_fold:
  "rfold (\<lambda>(_, j) r. rbind (json_strings j) (\<lambda>installed.
       Inr (if \<forall>a \<in> set required. a \<in> set installed then r else False))) rows b = Inr r \<Longrightarrow>
   r = (b \<and> (\<forall>(n, j) \<in> set rows. \<exists>installed. json_strings j = Inr installed \<and> set required \<subseteq> set installed))"
proof (induction rows arbitrary: b)
  case (Cons row rows)
  obtain n j where row: "row = (n, j)" by force
  with Cons.prems obtain installed where j: "json_strings j = Inr installed"
    and rest: "rfold (\<lambda>(_, j) r. rbind (json_strings j) (\<lambda>installed.
       Inr (if \<forall>a \<in> set required. a \<in> set installed then r else False))) rows
       (if \<forall>a \<in> set required. a \<in> set installed then b else False) = Inr r"
    by (auto simp: rbind_Inr_iff)
  from Cons.IH [OF rest] j row show ?case by (auto split: if_splits)
qed simp

text \<open>The task of a node of Spack software starts with the installation of the software exactly
  when the version is not blocked and every installed version of that name has all arguments
  asked for: so also when the software is installed already, and not when an installed version
  misses an argument.\<close>

theorem deployment_first_iff:
  assumes "cu_software_spec cu = RepoSpack name args" "parse_usecase ue cu ns s = Inr t"
  shows "(hd (task_body t) = SoftwareDeployment (Spack name args)) =
      ((name, str_replace ''@'' [] (case args of [] \<Rightarrow> [] | a # _ \<Rightarrow> a)) \<notin> set (software_block_list (db s)) \<and>
       (\<forall>(n, j) \<in> set (installed_software (db s)). n = name \<longrightarrow>
          (\<exists>installed. json_strings j = Inr installed \<and> set args \<subseteq> set installed))) \<and>
    (\<forall>b \<in> set (tl (task_body t)). \<forall>fk. b \<noteq> SoftwareDeployment fk)"
proof -
  obtain c files body deploy where
    outs: "rfold (parse_output cu ns s) (us_output_slots (cu_usecase_spec cu)) (fl_files c, []) = Inr (files, body)"
    and wanted: "deployment_wanted (cu_software_spec cu) (db s) = Inr deploy"
    and t: "task_body t = (if deploy then [SoftwareDeployment (facility_kind_from (cu_software_spec cu))] else []) @
       execution_body cu ns (c :: task_fills) files # body"
    using assms(2) by (rule parse_usecaseD)
  have body: "\<forall>b \<in> set body. \<forall>fk. b \<noteq> SoftwareDeployment fk"
    using collected_only [OF outs] by fastforce
  let ?version = "str_replace ''@'' [] (case args of [] \<Rightarrow> [] | a # _ \<Rightarrow> a)"
  have "deploy = ((name, ?version) \<notin> set (software_block_list (db s)) \<and>
      (\<forall>(n, j) \<in> set (installed_software (db s)). n = name \<longrightarrow>
         (\<exists>installed. json_strings j = Inr installed \<and> set args \<subseteq> set installed)))"
  proof (cases "(name, ?version) \<in> set (software_block_list (db s))")
    case True
    then have "filter (\<lambda>(n, v). n = name \<and> v = ?version) (software_block_list (db s)) \<noteq> []"
      by (auto simp: filter_empty_conv)
    with True wanted show ?thesis
      by (simp add: deployment_wanted_def software_requirement_def assms(1) is_software_version_blocked_def)
  next
    case False
    then have "filter (\<lambda>(n, v). n = name \<and> v = ?version) (software_block_list (db s)) = []"
      by (auto simp: filter_empty_conv)
    with wanted have "is_software_satisfied name args (db s) = Inr deploy"
      by (simp add: deployment_wanted_def software_requirement_def assms(1) is_software_version_blocked_def)
    from satisfied_fold [OF this [unfolded is_software_satisfied_def]] False show ?thesis by auto
  qed
  moreover have "execution_body cu ns c files \<noteq> SoftwareDeployment fk" for fk
    by (simp add: execution_body_def)
  ultimately show ?thesis using t body assms(1) by auto
qed

text \<open>An installed solver without the variant asked for is left as it is.\<close>

theorem deployment_first_iff_witness:
  "let s = solver_state\<lparr>db := (db solver_state)\<lparr>installed_software := [(''solver'', JArray [JString ''@1.2''])]\<rparr>\<rparr>;
       t = solver_task\<lparr>task_body := tl (task_body solver_task)\<rparr> in
   (hd (task_body t) = SoftwareDeployment (Spack ''solver'' [''@1.2'', ''+mpi''])) =
      ((''solver'', str_replace ''@'' [] (case [''@1.2'', ''+mpi''] of [] \<Rightarrow> [] | a # _ \<Rightarrow> a))
          \<notin> set (software_block_list (db s)) \<and>
       (\<forall>(n, j) \<in> set (installed_software (db s)). n = ''solver'' \<longrightarrow>
          (\<exists>installed. json_strings j = Inr installed \<and> set [''@1.2'', ''+mpi''] \<subseteq> set installed))) \<and>
    (\<forall>b \<in> set (tl (task_body t)). \<forall>fk. b \<noteq> SoftwareDeployment fk)"
  unfolding Let_def
  by (rule deployment_first_iff [where cu = "usecase_of 2 1 solve_packages" and ue = sample_usecases and ns = solver_node])
    (simp add: package_sample_defs, code_simp)

section \<open>Outputs\<close>

text \<open>The id \<open>i\<close> is written as an output file or collected.\<close>

definition delivers :: "uuid \<Rightarrow> file_info list \<Rightarrow> task_body list \<Rightarrow> bool" where
  "delivers i fls body \<longleftrightarrow>
     (\<exists>p batch opt. FileInfoOutput i p batch opt \<in> set fls) \<or>
     (\<exists>src rule opt. CollectedOut src rule (CollectText i) opt \<in> set body) \<or>
     (\<exists>src rule p opt. CollectedOut src rule (CollectFile p i) opt \<in> set body)"

lemma delivers_mono: "delivers i fls body \<Longrightarrow> set fls \<subseteq> set fls' \<Longrightarrow> set body \<subseteq> set body' \<Longrightarrow> delivers i fls' body'"
  unfolding delivers_def by blast

lemma delivers_last [simp]:
  "delivers i (fls @ [FileInfoOutput i p batch opt]) body"
  "delivers i fls (body @ [CollectedOut src rule (CollectText i) opt])"
  "delivers i fls (body @ [CollectedOut src rule (CollectFile p i) opt])"
  unfolding delivers_def by (meson in_set_conv_decomp)+

definition slot_delivered :: "node_spec \<Rightarrow> usecase_output_slot \<Rightarrow> file_info list \<Rightarrow> task_body list \<Rightarrow> bool" where
  "slot_delivered ns slot fls body \<longleftrightarrow>
     (\<exists>os. output_slot ns (uout_descriptor slot) = Inr os \<and> out_ids os \<noteq> [] \<and> delivers (hd (out_ids os)) fls body)"

lemma text_outputs_ids: "all_tasks_text_outputs os = Inr ids \<Longrightarrow> out_ids os = ids"
  by (auto simp: all_tasks_text_outputs_def out_ids_def split: node_spec_output_slot_kind.splits)

lemma file_outputs_ids: "all_tasks_file_outputs os = Inr ids \<Longrightarrow> out_ids os = ids"
  by (auto simp: all_tasks_file_outputs_def out_ids_def split: node_spec_output_slot_kind.splits)

lemma nth_or_0D: "nth_or e xs 0 = Inr x \<Longrightarrow> xs \<noteq> [] \<and> hd xs = x"
  by (cases xs) (auto simp: nth_or_def split: if_splits)

lemmas first_out = text_outputs_ids file_outputs_ids

lemma parse_output_delivers:
  assumes "parse_output cu ns s slot (fls, body) = Inr (fls', body')"
  shows "slot_delivered ns slot fls' body' \<and>
    (\<exists>nf nb. fls' = fls @ nf \<and> body' = body @ nb \<and> length nf + length nb = 1)"
proof -
  note facts = rbind_Inr_iff slot_delivered_def
  show ?thesis
  proof (cases slot)
    case (UOutText d c meta opt v)
    with assms obtain co where co: "find_collected_out (cu_collected_outs cu) c = Some co"
      by (auto simp: rbind_Inr_iff ok_or_Inr_iff)
    show ?thesis
      using assms co unfolding UOutText
      by (cases "co_to co") (auto simp: facts dest!: nth_or_0D text_outputs_ids)
  next
    case (UOutFile d origin opt meta v)
    show ?thesis
    proof (cases origin)
      case (FromCollectedOut c)
      with assms UOutFile obtain co where co: "find_collected_out (cu_collected_outs cu) c = Some co"
        by (auto simp: rbind_Inr_iff ok_or_Inr_iff)
      show ?thesis
        using assms co unfolding UOutFile FromCollectedOut
        by (cases "co_to co") (auto simp: facts dest!: nth_or_0D file_outputs_ids)
    next
      case (FromUsecaseOut fo)
      show ?thesis
        using assms unfolding UOutFile FromUsecaseOut
        by (auto simp: facts dest!: nth_or_0D file_outputs_ids)
    qed
  qed
qed

lemma parse_outputs_deliver:
  "rfold (parse_output cu ns s) slots (fls, body) = Inr (fls', body') \<Longrightarrow>
   (\<forall>slot \<in> set slots. slot_delivered ns slot fls' body') \<and>
   (\<exists>nf nb. fls' = fls @ nf \<and> body' = body @ nb \<and> length nf + length nb = length slots)"
proof (induction slots arbitrary: fls body)
  case (Cons slot slots)
  then obtain fls1 body1 where one: "parse_output cu ns s slot (fls, body) = Inr (fls1, body1)"
    and rest: "rfold (parse_output cu ns s) slots (fls1, body1) = Inr (fls', body')"
    by (auto simp: rbind_Inr_iff)
  from parse_output_delivers [OF one] obtain nf nb where step: "slot_delivered ns slot fls1 body1"
      "fls1 = fls @ nf" "body1 = body @ nb" "length nf + length nb = 1" by blast
  from Cons.IH [OF rest] obtain mf mb where IH: "\<forall>slot \<in> set slots. slot_delivered ns slot fls' body'"
      "fls' = fls1 @ mf" "body' = body1 @ mb" "length mf + length mb = length slots" by blast
  have "slot_delivered ns slot fls' body'"
    using step(1) unfolding slot_delivered_def IH(2,3) by (auto elim!: delivers_mono)
  moreover have "fls' = fls @ nf @ mf \<and> body' = body @ nb @ mb \<and>
      length (nf @ mf) + length (nb @ mb) = length (slot # slots)"
    using step IH by simp
  ultimately show ?case using IH(1) by (simp del: append_assoc)
qed simp

text \<open>C17 Every output slot of the use case is delivered: the task writes the first id of the node's
  slot as an output file or collects it, and it has exactly one such entry per slot, besides the
  input files, the execution and the installation.\<close>

theorem outputs_delivered:
  assumes "parse_usecase ue cu ns s = Inr t"
  shows "\<exists>pre name fk args envs std_in ins outs req collects.
    task_body t = pre @ UsecaseExecution name fk args envs std_in (ins @ outs) req # collects \<and> length pre \<le> 1 \<and>
    (\<forall>slot \<in> set (us_output_slots (cu_usecase_spec cu)). slot_delivered ns slot (ins @ outs) collects) \<and>
    length outs + length collects = length (us_output_slots (cu_usecase_spec cu))"
proof -
  obtain c files body deploy where
    outs: "rfold (parse_output cu ns s) (us_output_slots (cu_usecase_spec cu)) (fl_files c, []) = Inr (files, body)"
    and t: "task_body t = (if deploy then [SoftwareDeployment (facility_kind_from (cu_software_spec cu))] else []) @
       execution_body cu ns (c :: task_fills) files # body"
    using assms by (rule parse_usecaseD)
  let ?pre = "if deploy then [SoftwareDeployment (facility_kind_from (cu_software_spec cu))] else []"
  obtain nf where files: "files = fl_files c @ nf" "length nf + length body = length (us_output_slots (cu_usecase_spec cu))"
    and slots: "\<forall>slot \<in> set (us_output_slots (cu_usecase_spec cu)). slot_delivered ns slot (fl_files c @ nf) body"
    using parse_outputs_deliver [OF outs] by auto
  have body: "task_body t = ?pre @ UsecaseExecution (command_file (cu_usecase_spec cu))
      (facility_kind_from (cu_software_spec cu))
      (map (\<lambda>(_, ff). fill_format ff) (sort_key fst (argument_formats_sorts c)))
      (map (\<lambda>(key, ff). (key, fill_format ff)) (environment_formats c)) (fl_std_in c) (fl_files c @ nf)
      (or_else (ns_requirements ns) (us_requirements (cu_usecase_spec cu))) # body"
    using t files(1) by (simp add: execution_body_def)
  have pre: "length ?pre \<le> 1" by simp
  show ?thesis by (intro exI conjI, rule body, rule pre, rule slots, rule files(2))
qed

theorem outputs_delivered_witness:
  "\<exists>pre name fk args envs std_in ins outs req collects.
    task_body solver_task = pre @ UsecaseExecution name fk args envs std_in (ins @ outs) req # collects \<and>
    length pre \<le> 1 \<and>
    (\<forall>slot \<in> set (us_output_slots (cu_usecase_spec (usecase_of 2 1 solve_packages))).
       slot_delivered solver_node slot (ins @ outs) collects) \<and>
    length outs + length collects = length (us_output_slots (cu_usecase_spec (usecase_of 2 1 solve_packages)))"
  by (rule outputs_delivered [OF solver_parsed])

section \<open>Reading a software package\<close>

definition specs_of :: "software_material list \<Rightarrow> software_spec list" where
  "specs_of ms = concat (map (\<lambda>m. case m of MSoftwareSpec el \<Rightarrow> [el] | _ \<Rightarrow> []) ms)"

definition arguments_of :: "software_material list \<Rightarrow> argument list" where
  "arguments_of ms = concat (map (\<lambda>m. case m of MArgumentList el \<Rightarrow> el | _ \<Rightarrow> []) ms)"

definition environments_of :: "software_material list \<Rightarrow> environment list" where
  "environments_of ms = concat (map (\<lambda>m. case m of MEnvironmentList el \<Rightarrow> el | _ \<Rightarrow> []) ms)"

definition inputs_of :: "software_material list \<Rightarrow> filesome_input list" where
  "inputs_of ms = concat (map (\<lambda>m. case m of MFilesomeInputList el \<Rightarrow> el | _ \<Rightarrow> []) ms)"

definition outputs_of :: "software_material list \<Rightarrow> filesome_output list" where
  "outputs_of ms = concat (map (\<lambda>m. case m of MFilesomeOutputList el \<Rightarrow> el | _ \<Rightarrow> []) ms)"

lemmas material_defs = specs_of_def arguments_of_def environments_of_def inputs_of_def outputs_of_def

lemma fold_software_material:
  "fold add_software_material ms (spec, d) =
     (if specs_of ms = [] then spec else Some (last (specs_of ms)),
      d\<lparr>sd_arguments := sd_arguments d @ arguments_of ms,
        sd_environments := sd_environments d @ environments_of ms,
        sd_filesome_inputs := sd_filesome_inputs d @ inputs_of ms,
        sd_filesome_outputs := sd_filesome_outputs d @ outputs_of ms\<rparr>)"
proof (induction ms arbitrary: spec d)
  case (Cons m ms)
  then show ?case by (cases m) (auto simp: add_software_material_def material_defs)
qed (simp add: material_defs)

text \<open>An entry that holds the materials \<open>ms\<close>.\<close>

definition holds_software :: "co_repo \<Rightarrow> tar_entry \<Rightarrow> software_material list \<Rightarrow> bool" where
  "holds_software cr e ms \<longleftrightarrow>
     te_is_file e \<and> 2 < length (te_path e) \<and>
     (case te_content e of None \<Rightarrow> False
      | Some c \<Rightarrow> map (\<lambda>part. read_software cr (trim_end part)) (str_split ''---'' c) = map Some ms)"

lemma rfold_parts:
  "map (\<lambda>part. read_software cr (trim_end part)) parts = map Some ms \<Longrightarrow>
   rfold (\<lambda>part acc. rbind (ok_or BadMaterial (read_software cr (trim_end part))) (\<lambda>m.
       Inr (add_software_material m acc))) parts acc = Inr (fold add_software_material ms acc)"
proof (induction parts arbitrary: ms acc)
  case (Cons part parts)
  then obtain n ns where "ms = n # ns" "read_software cr (trim_end part) = Some n"
    "map (\<lambda>part. read_software cr (trim_end part)) parts = map Some ns"
    by (cases ms) auto
  with Cons.IH show ?case by simp
qed simp

lemma rfold_software_entries:
  "list_all2 (holds_software cr) es mss \<Longrightarrow>
   rfold (software_entry cr) es acc = Inr (fold add_software_material (concat mss) acc)"
proof (induction es mss arbitrary: acc rule: list_all2_induct)
  case (Cons e es ms mss)
  then have "software_entry cr e acc = Inr (fold add_software_material ms acc)" for acc
    by (auto simp: holds_software_def software_entry_def ancestors_count_def package_ancestors_count_def
        read_to_string_def rfold_parts split: option.splits)
  with Cons show ?case by simp
qed simp

text \<open>A software package is read as the materials its files hold, in the order of the archive and
  of the parts of each file, however they are spread over files; the last software specification
  is the one kept, and a package without one panics.\<close>

theorem software_package_read:
  assumes "te_is_file mf" "length (te_path mf) = 2" "te_content mf = Some c"
    and "read_manifest cr c = Some m" "mf_ability m = SoftwareRepo"
    and "list_all2 (holds_software cr) es mss"
  shows "extract_package cr i (mf # es) =
    (if specs_of (concat mss) = [] then Inl RepoPanic
     else Inr \<lparr>version_id = i, pk_manifest = m, pk_data = SoftwarePackage
       \<lparr>sd_spec = last (specs_of (concat mss)), sd_arguments = arguments_of (concat mss),
        sd_environments = environments_of (concat mss), sd_filesome_inputs = inputs_of (concat mss),
        sd_filesome_outputs = outputs_of (concat mss)\<rparr>\<rparr>)"
proof -
  have "software_entry cr mf acc = Inr acc" for acc
    using assms(2) by (simp add: software_entry_def ancestors_count_def package_ancestors_count_def)
  then have "parse_software_data cr (mf # es) =
    (if specs_of (concat mss) = [] then Inl RepoPanic
     else Inr (SoftwarePackage
       \<lparr>sd_spec = last (specs_of (concat mss)), sd_arguments = arguments_of (concat mss),
        sd_environments = environments_of (concat mss), sd_filesome_inputs = inputs_of (concat mss),
        sd_filesome_outputs = outputs_of (concat mss)\<rparr>))"
    by (simp add: parse_software_data_def rfold_software_entries [OF assms(6)] fold_software_material)
  then show ?thesis
    using assms(1-5)
    by (simp add: extract_package_def ancestors_count_def package_ancestors_count_def read_to_string_def)
qed

theorem software_package_read_witness:
  "extract_package sample_repo 1 (hd software_archive # tl software_archive) =
    (let mss = [[MSoftwareSpec (sd_spec solver_data), MArgumentList (sd_arguments solver_data)],
       [MEnvironmentList (sd_environments solver_data), MFilesomeInputList (sd_filesome_inputs solver_data),
        MFilesomeOutputList (sd_filesome_outputs solver_data)]] in
     if specs_of (concat mss) = [] then Inl RepoPanic
     else Inr \<lparr>version_id = 1, pk_manifest = sample_manifest SoftwareRepo, pk_data = SoftwarePackage
       \<lparr>sd_spec = last (specs_of (concat mss)), sd_arguments = arguments_of (concat mss),
        sd_environments = environments_of (concat mss), sd_filesome_inputs = inputs_of (concat mss),
        sd_filesome_outputs = outputs_of (concat mss)\<rparr>\<rparr>)"
  unfolding Let_def
proof (rule software_package_read)
  show "list_all2 (holds_software sample_repo) (tl software_archive)
    [[MSoftwareSpec (sd_spec solver_data), MArgumentList (sd_arguments solver_data)],
     [MEnvironmentList (sd_environments solver_data), MFilesomeInputList (sd_filesome_inputs solver_data),
      MFilesomeOutputList (sd_filesome_outputs solver_data)]]"
    by code_simp
qed (simp_all add: package_sample_defs)

section \<open>From the archives to the task\<close>

text \<open>The task made of the node is that of the two packages: whatever the order of the packages.\<close>

lemma parse_task_packages:
  assumes "ns_kind ns = SoftwareUsecaseComputing data"
    and "get_package (repo_client ue) (software_version_id data) = Inr s"
    and "get_package (repo_client ue) (usecase_version_id data) = Inr u"
    and "software_package_data s = Some (sid, vd_software_data vd)"
    and "usecase_package_data u = Some (uid, vd_usecase_data vd)"
  shows "parse_task ue ns st = parse_usecase ue (usecase_of uid sid vd) ns st"
  using assms computing_usecase_of_packages(2) [OF assms(4,5)]
  by (simp add: parse_task_def get_computing_usecase_def of_repo_def usecase_of_def)

end
