(* ===== verification/KF_Redis.thy ===== *)
theory KF_Redis
  imports KC_Orm
begin

text \<open>
  The state of the file services and the Redis store with the repositories on it:
  \<open>co/src/infrastructure/repositories/redis_repository/{mod,multipart,move_registration,snapshot,
  ws_req_info}.rs\<close>.

  Redis is a list of keys with the value and the time until which it is kept; an entry that is out
  of time is not seen any more. Values are the objects whose JSON is stored. The matching of key
  patterns (\<open>glob\<close>), the order of the keys in an answer (\<open>keys_order\<close>), the hash function, the
  formatting of the time and the storage server are outside; \<open>globs\<close> below states the documented
  meaning of a pattern whose only special character is the star. A connection that breaks is not
  modelled.
\<close>

section \<open>State and environment\<close>

datatype redis_value =
    RMultipart multipart
  | RMove move_registration
  | RSnapshot snapshot
  | RWsReq ws_req_info

text \<open>The paths of the cache directory, \<open>normal/<id>\<close>, \<open>multipart/<id>/<nth>\<close>, \<open>snapshot/<id>\<close>.\<close>

datatype cache_path = NormalPath uuid | PartPath uuid nat | SnapshotPath uuid

datatype file_err =
    MultipartErr multipart_exception
  | MoveErr move_exception
  | KernelErr kerr
  | RedisErr
  | IoErr cache_path
  | FileJsonErr
  | NoSuchKey string
  | NoSuchMultipart uuid
  | NoSuchSnapshot uuid
  | NoSuchMove uuid
  | NoMoveOfMeta uuid
  | NoSuchReq uuid
  | NoUserInfo
  | BadUserInfo
  | NoSuchFileMeta uuid
  | NoSuchStorage uuid uuid
  | NoSuchServer uuid
  | WrongHashAlgorithm
  | UnreachableDestination
  | UploadFailed uuid string
  | FilePanic

record server_url =
  su_bucket :: string
  su_storage_server_id :: uuid
  su_meta_id :: uuid

record fenv =
  new_uuid :: "nat \<Rightarrow> uuid"
  glob :: "string \<Rightarrow> string \<Rightarrow> bool"
  keys_order :: "string list \<Rightarrow> string list"
  parse_uuid :: "string \<Rightarrow> uuid option"
  blake3 :: "bytes \<Rightarrow> string"
  format_time :: "int \<Rightarrow> string"
  server_upload :: "storage_server \<Rightarrow> uuid \<Rightarrow> bytes \<Rightarrow> string + server_url"
  default_storage_server_id :: uuid
  multipart_exp :: int
  move_exp :: int
  snapshot_exp :: int
  realtime_exp :: int
  upload_topic :: string
  snapshot_topic :: string
  realtime_request_topic :: string
  ws_server_operate_topic :: string

text \<open>\<open>scope\<close> is the database side of a request, its user and random source included.\<close>

record fstate =
  scope :: kstate
  redis :: "(string \<times> int \<times> redis_value) list"
  now_ms :: int
  disk :: "(cache_path \<times> bytes) list"
  upload_mq :: "(string \<times> file_upload_command) list"
  snapshot_mq :: "(string \<times> request_snapshot_command) list"
  realtime_mq :: "(string \<times> view_realtime_command) list"
  ws_mq :: "(string \<times> ws_server_operate_command) list"

type_synonym 'a fsvc = "(fstate, file_err, 'a) svc"

text \<open>A call of the database side.\<close>

definition on_scope :: "'a ksvc \<Rightarrow> 'a fsvc" where
  "on_scope m = (\<lambda>s. case m (scope s) of
     (r, t) \<Rightarrow> (case r of Inl e \<Rightarrow> Inl (KernelErr e) | Inr x \<Rightarrow> Inr x, s\<lparr>scope := t\<rparr>))"

definition fresh_uuid :: "fenv \<Rightarrow> uuid fsvc" where
  "fresh_uuid ev = on_scope (draw_uuid (new_uuid ev))"

section \<open>Patterns\<close>

text \<open>A pattern with stars as the only special characters, as Redis documents it.\<close>

fun star_match :: "string \<Rightarrow> string \<Rightarrow> bool" where
  "star_match [] s = (s = [])"
| "star_match (c # p) s =
     (if c = CHR ''*'' then star_match p s \<or> (case s of [] \<Rightarrow> False | _ # t \<Rightarrow> star_match (c # p) t)
      else (case s of [] \<Rightarrow> False | d # t \<Rightarrow> c = d \<and> star_match p t))"

definition plain_pattern :: "string \<Rightarrow> bool" where
  "plain_pattern p \<longleftrightarrow> (\<forall>c \<in> set p. c \<notin> {CHR ''?'', CHR ''['', CHR '']'', CHR 0x5C, CHR ''^''})"

definition globs :: "fenv \<Rightarrow> bool" where
  "globs ev \<longleftrightarrow> (\<forall>p s. plain_pattern p \<longrightarrow> glob ev p s = star_match p s)"

section \<open>Commands\<close>

definition live :: "fstate \<Rightarrow> (string \<times> int \<times> redis_value) list" where
  "live s = filter (\<lambda>(_, deadline, _). now_ms s < deadline) (redis s)"

definition query_keys :: "fenv \<Rightarrow> string \<Rightarrow> fstate \<Rightarrow> string list" where
  "query_keys ev regex s = keys_order ev (map fst (filter (\<lambda>(k, _). glob ev regex k) (live s)))"

definition redis_get :: "string \<Rightarrow> redis_value fsvc" where
  "redis_get key = (\<lambda>s. (ok_or FileJsonErr (map_option snd (map_of (live s) key)), s))"

text \<open>\<open>PSETEX\<close> refuses a time that is not positive; \<open>DEL\<close> without a key is a wrong command.\<close>

definition pset_ex :: "string \<Rightarrow> redis_value \<Rightarrow> int \<Rightarrow> unit fsvc" where
  "pset_ex key v ttl s =
     (if ttl \<le> 0 then (Inl RedisErr, s)
      else (Inr (), s\<lparr>redis := AList.update key (now_ms s + ttl, v) (redis s)\<rparr>))"

definition redis_del :: "string list \<Rightarrow> unit fsvc" where
  "redis_del ks s =
     (if ks = [] then (Inl RedisErr, s)
      else (Inr (), s\<lparr>redis := filter (\<lambda>(k, _). k \<notin> set ks) (redis s)\<rparr>))"

text \<open>The answer to \<open>TTL\<close>: the seconds left, \<open>-2\<close> for a key that is not there.\<close>

definition redis_ttl :: "string \<Rightarrow> fstate \<Rightarrow> int" where
  "redis_ttl key s =
     (case map_of (live s) key of None \<Rightarrow> - 2 | Some (deadline, _) \<Rightarrow> (deadline - now_ms s) div 1000)"

section \<open>The repositories\<close>

definition get_first :: "fenv \<Rightarrow> (redis_value \<Rightarrow> 'a option) \<Rightarrow> string \<Rightarrow> 'a option fsvc" where
  "get_first ev from regex =
     sbind (sgets (query_keys ev regex)) (\<lambda>keys.
     case keys of
       [] \<Rightarrow> sret None
     | key # _ \<Rightarrow> sbind (redis_get key) (\<lambda>v. sbind (slift (ok_or FileJsonErr (from v))) (\<lambda>x. sret (Some x))))"

definition get_all :: "fenv \<Rightarrow> (redis_value \<Rightarrow> 'a option) \<Rightarrow> string \<Rightarrow> 'a list fsvc" where
  "get_all ev from regex =
     sbind (sgets (query_keys ev regex)) (\<lambda>keys.
     sbind (smap redis_get keys) (\<lambda>vs.
     slift (rmap (\<lambda>v. ok_or FileJsonErr (from v)) vs)))"

fun as_multipart :: "redis_value \<Rightarrow> multipart option" where
  "as_multipart (RMultipart x) = Some x"
| "as_multipart _ = None"

fun as_move :: "redis_value \<Rightarrow> move_registration option" where
  "as_move (RMove x) = Some x"
| "as_move _ = None"

fun as_snapshot :: "redis_value \<Rightarrow> snapshot option" where
  "as_snapshot (RSnapshot x) = Some x"
| "as_snapshot _ = None"

fun as_ws_req :: "redis_value \<Rightarrow> ws_req_info option" where
  "as_ws_req (RWsReq x) = Some x"
| "as_ws_req _ = None"

subsection \<open>\<open>multipart.rs\<close>\<close>

definition multipart_get_one :: "fenv \<Rightarrow> string \<Rightarrow> multipart option fsvc" where
  "multipart_get_one ev regex = get_first ev as_multipart regex"

definition multipart_delete :: "fenv \<Rightarrow> string \<Rightarrow> unit fsvc" where
  "multipart_delete ev regex =
     sbind (sgets (query_keys ev regex)) (\<lambda>keys.
     case keys of [] \<Rightarrow> sfail (NoSuchKey regex) | key # _ \<Rightarrow> redis_del [key])"

definition multipart_update :: "string \<Rightarrow> multipart \<Rightarrow> int \<Rightarrow> unit fsvc" where
  "multipart_update key entity ttl = pset_ex key (RMultipart entity) ttl"

definition multipart_insert :: "string \<Rightarrow> multipart \<Rightarrow> int \<Rightarrow> unit fsvc" where
  "multipart_insert key entity ttl = pset_ex key (RMultipart entity) ttl"

subsection \<open>\<open>move_registration.rs\<close>\<close>

definition any_user_key_regex :: "string \<Rightarrow> string" where
  "any_user_key_regex regex = ''*_'' @ regex"

definition move_get_all :: "fenv \<Rightarrow> string \<Rightarrow> move_registration list fsvc" where
  "move_get_all ev key_regex = get_all ev as_move (any_user_key_regex key_regex)"

definition move_get_one :: "fenv \<Rightarrow> string \<Rightarrow> move_registration option fsvc" where
  "move_get_one ev key_regex = get_first ev as_move (any_user_key_regex key_regex)"

definition move_get_user :: "fenv \<Rightarrow> string \<Rightarrow> uuid option fsvc" where
  "move_get_user ev key_regex =
     sbind (sgets (query_keys ev (any_user_key_regex key_regex))) (\<lambda>keys.
     case keys of
       [] \<Rightarrow> sret None
     | key # _ \<Rightarrow>
         slift (rbind (ok_or BadUserInfo (parse_uuid ev (takeWhile (\<lambda>c. c \<noteq> CHR ''_'') key)))
           (\<lambda>u. Inr (Some u))))"

definition move_remove_all :: "fenv \<Rightarrow> string \<Rightarrow> unit fsvc" where
  "move_remove_all ev key_regex =
     sbind (sgets (query_keys ev (any_user_key_regex key_regex))) redis_del"

definition move_update :: "fenv \<Rightarrow> string \<Rightarrow> move_registration \<Rightarrow> int \<Rightarrow> unit fsvc" where
  "move_update ev key entity ttl =
     sbind (sgets (query_keys ev (any_user_key_regex key))) (\<lambda>keys.
     case keys of
       [] \<Rightarrow> sfail (NoSuchKey key)
     | k # _ \<Rightarrow>
         sbind (sgets (redis_ttl k)) (\<lambda>r.
         if r = - 2 then sfail (NoSuchKey k) else pset_ex k (RMove entity) ttl))"

text \<open>The key starts with the user of the registration, or else the user of the request.\<close>

definition move_insert :: "string \<Rightarrow> move_registration \<Rightarrow> int \<Rightarrow> unit fsvc" where
  "move_insert key entity ttl =
     sbind (sgets (\<lambda>s. case mr_user_id entity of Some u \<Rightarrow> Some u | None \<Rightarrow> repo_user_id (scope s)))
       (\<lambda>user. case user of
          None \<Rightarrow> sfail NoUserInfo
        | Some u \<Rightarrow> pset_ex (show_uuid u @ ''_'' @ key) (RMove entity) ttl)"

subsection \<open>\<open>snapshot.rs\<close>\<close>

definition snapshot_get_one :: "fenv \<Rightarrow> string \<Rightarrow> snapshot option fsvc" where
  "snapshot_get_one ev regex = get_first ev as_snapshot (any_user_key_regex regex)"

definition snapshot_get_all :: "fenv \<Rightarrow> string \<Rightarrow> snapshot list fsvc" where
  "snapshot_get_all ev regex = get_all ev as_snapshot (any_user_key_regex regex)"

text \<open>The record is parsed after its key is deleted.\<close>

definition snapshot_delete :: "fenv \<Rightarrow> string \<Rightarrow> snapshot fsvc" where
  "snapshot_delete ev regex =
     sbind (sgets (query_keys ev (any_user_key_regex regex))) (\<lambda>keys.
     case keys of
       [] \<Rightarrow> sfail (NoSuchKey regex)
     | key # _ \<Rightarrow>
         sbind (redis_get key) (\<lambda>v.
         sthen (redis_del [key]) (slift (ok_or FileJsonErr (as_snapshot v)))))"

definition snapshot_insert :: "string \<Rightarrow> snapshot \<Rightarrow> int \<Rightarrow> unit fsvc" where
  "snapshot_insert key entity ttl =
     pset_ex (show_uuid (sn_user_id entity) @ ''_'' @ key) (RSnapshot entity) ttl"

subsection \<open>\<open>ws_req_info.rs\<close>\<close>

definition ws_get_one :: "fenv \<Rightarrow> string \<Rightarrow> ws_req_info option fsvc" where
  "ws_get_one ev regex = get_first ev as_ws_req regex"

definition ws_delete_all :: "fenv \<Rightarrow> string \<Rightarrow> unit fsvc" where
  "ws_delete_all ev regex = sbind (sgets (query_keys ev regex)) redis_del"

definition ws_insert :: "string \<Rightarrow> ws_req_info \<Rightarrow> int \<Rightarrow> unit fsvc" where
  "ws_insert key entity ttl = pset_ex key (RWsReq entity) ttl"

end
