(* ===== verification/KF_Cache.thy ===== *)
theory KF_Cache
  imports KF_Redis
begin

text \<open>
  The local cache of the coordinator, \<open>LocalCacheService\<close> of
  \<open>kernel/src/services/file/supports/cache.rs\<close>: files under a base directory. A directory is there
  when a file is in it (the directory of an upload is only ever emptied as a whole). Full disks and
  missing rights are not modelled.
\<close>

datatype cache_operate_command =
    WriteNormal uuid bytes
  | WritePart part
  | RemoveMultipartDir uuid
  | RemoveNormal uuid
  | ChangeNormalToSnapshot uuid
  | RemoveSnapshot uuid
  | IsSnapshotExists uuid

datatype cache_read_command =
    ReadNormal uuid
  | ReadSnapshot uuid
  | ReadPart uuid nat

fun in_multipart_dir :: "uuid \<Rightarrow> cache_path \<Rightarrow> bool" where
  "in_multipart_dir i (PartPath j _) = (i = j)"
| "in_multipart_dir i _ = False"

definition write_file :: "cache_path \<Rightarrow> bytes \<Rightarrow> unit fsvc" where
  "write_file p content = smodify (\<lambda>s. s\<lparr>disk := AList.update p content (disk s)\<rparr>)"

definition read_cached :: "cache_path \<Rightarrow> bytes fsvc" where
  "read_cached p = (\<lambda>s. (ok_or (IoErr p) (map_of (disk s) p), s))"

definition remove_file :: "cache_path \<Rightarrow> unit fsvc" where
  "remove_file p = sthen (read_cached p) (smodify (\<lambda>s. s\<lparr>disk := AList.delete p (disk s)\<rparr>))"

fun cache_operate :: "cache_operate_command \<Rightarrow> unit fsvc" where
  "cache_operate (WriteNormal i content) = write_file (NormalPath i) content"
| "cache_operate (WritePart p) = write_file (PartPath (pt_meta_id p) (pt_nth p)) (pt_content p)"
| "cache_operate (RemoveMultipartDir i) = (\<lambda>s.
     if list_ex (\<lambda>(p, _). in_multipart_dir i p) (disk s)
     then (Inr (), s\<lparr>disk := filter (\<lambda>(p, _). \<not> in_multipart_dir i p) (disk s)\<rparr>)
     else (Inl (IoErr (PartPath i 0)), s))"
| "cache_operate (RemoveNormal i) = remove_file (NormalPath i)"
| "cache_operate (ChangeNormalToSnapshot i) =
     sbind (read_cached (NormalPath i)) (\<lambda>content.
     smodify (\<lambda>s. s\<lparr>disk := AList.update (SnapshotPath i) content (AList.delete (NormalPath i) (disk s))\<rparr>))"
| "cache_operate (RemoveSnapshot i) = remove_file (SnapshotPath i)"
| "cache_operate (IsSnapshotExists i) = sthen (read_cached (SnapshotPath i)) (sret ())"

fun cache_read :: "cache_read_command \<Rightarrow> bytes fsvc" where
  "cache_read (ReadNormal i) = read_cached (NormalPath i)"
| "cache_read (ReadSnapshot i) = read_cached (SnapshotPath i)"
| "cache_read (ReadPart i n) = read_cached (PartPath i n)"

end
