(* ===== verification/KF_Repo.thy ===== *)
theory KF_Repo
  imports KF_Redis
begin

text \<open>
  The repositories of the file tables:
  \<open>co/src/infrastructure/repositories/sea_orm_db_repository/{file_meta,file_storage,net_disk,
  storage_server}.rs\<close>, on the repository of \<open>KC_Orm\<close> and its queue of statements. A query that asks
  for one row gets the first one in the order of the table.
\<close>

definition file_rows :: "(file_tables \<Rightarrow> 'a) \<Rightarrow> 'a fsvc" where
  "file_rows f = sgets (\<lambda>s. f (file_tabs (db (scope s))))"

definition push_file :: "file_stmt \<Rightarrow> unit fsvc" where
  "push_file st = on_scope (smodify (push_stmt (FileStmt st)))"

definition files_save_changed :: "bool fsvc" where
  "files_save_changed = on_scope save_changed"

text \<open>\<open>user_id\<close>: the one given, or that of the request.\<close>

definition scope_user :: "uuid option \<Rightarrow> uuid fsvc" where
  "scope_user user_id = on_scope (\<lambda>s. (repo_user s user_id, s))"

section \<open>\<open>file_meta.rs\<close>\<close>

definition get_by_hash_and_algorithm :: "string \<Rightarrow> hash_algorithm \<Rightarrow> file_meta option fsvc" where
  "get_by_hash_and_algorithm hash hash_algorithm =
     sbind (file_rows (\<lambda>t. find (\<lambda>r. fmr_hash r = hash \<and>
         fmr_hash_algorithm r = show_hash_algorithm hash_algorithm) (file_metadata t))) (\<lambda>r.
     case r of
       None \<Rightarrow> sret None
     | Some el \<Rightarrow> slift (rbind (ok_or WrongHashAlgorithm (file_meta_from_row el)) (\<lambda>m. Inr (Some m))))"

definition file_meta_get_by_id :: "uuid \<Rightarrow> file_meta fsvc" where
  "file_meta_get_by_id i =
     sbind (file_rows (\<lambda>t. find (\<lambda>r. fmr_id r = i) (file_metadata t))) (\<lambda>r.
     sbind (slift (ok_or (NoSuchFileMeta i) r)) (\<lambda>model.
     slift (ok_or WrongHashAlgorithm (file_meta_from_row model))))"

definition file_meta_insert :: "file_meta \<Rightarrow> unit fsvc" where
  "file_meta_insert entity = push_file (InsertFileMeta (file_meta_row_from entity))"

section \<open>\<open>file_storage.rs\<close>\<close>

text \<open>The conversion draws the id of the row.\<close>

definition file_storage_insert :: "fenv \<Rightarrow> file_storage \<Rightarrow> unit fsvc" where
  "file_storage_insert ev entity =
     sbind (fresh_uuid ev) (\<lambda>i.
     sbind (scope_user None) (\<lambda>u.
     push_file (InsertFileStorage (file_storage_row_from i u entity))))"

definition insert_with_custom_user_id :: "fenv \<Rightarrow> file_storage \<Rightarrow> uuid \<Rightarrow> unit fsvc" where
  "insert_with_custom_user_id ev entity user_id =
     sbind (fresh_uuid ev) (\<lambda>i.
     push_file (InsertFileStorage (file_storage_row_from i user_id entity)))"

definition get_all_by_meta_id :: "uuid \<Rightarrow> file_storage list fsvc" where
  "get_all_by_meta_id meta_id =
     file_rows (\<lambda>t. map (\<lambda>r. \<lparr>fs_storage_server_id = fsr_storage_server_id r,
         fs_meta_id = fsr_file_metadata_id r, fs_server_url = fsr_server_url r\<rparr>)
       (filter (\<lambda>r. fsr_file_metadata_id r = meta_id) (file_storages t)))"

definition get_by_storage_server_id_and_meta_id :: "uuid \<Rightarrow> uuid \<Rightarrow> string fsvc" where
  "get_by_storage_server_id_and_meta_id storage_server_id meta_id =
     sbind (file_rows (\<lambda>t. find (\<lambda>r. fsr_storage_server_id r = storage_server_id \<and>
         fsr_file_metadata_id r = meta_id) (file_storages t))) (\<lambda>r.
     slift (rbind (ok_or (NoSuchStorage storage_server_id meta_id) r) (\<lambda>x. Inr (fsr_server_url x))))"

section \<open>\<open>storage_server.rs\<close>\<close>

definition storage_server_get_by_id :: "uuid \<Rightarrow> storage_server fsvc" where
  "storage_server_get_by_id i =
     sbind (file_rows (\<lambda>t. find (\<lambda>r. sv_id r = i) (storage_servers t))) (\<lambda>r.
     slift (ok_or (NoSuchServer i) r))"

section \<open>\<open>net_disk.rs\<close>\<close>

text \<open>
  The directories for drafts and for instances get the ids one and two above the user's; the
  addition wraps around here (with overflow checks it panics for the two highest user ids).
\<close>

definition root_dir_id :: "uuid \<Rightarrow> net_disk \<Rightarrow> uuid" where
  "root_dir_id user entity =
     (case ne_meta entity of
        None \<Rightarrow> ne_id entity
      | Some m \<Rightarrow>
          (case nm_dir_kind m of
             Some DirFlowDraft \<Rightarrow> if nm_flow_draft_id m = None then user + 1 else ne_id entity
           | Some DirFlowInstance \<Rightarrow> if nm_flow_instance_id m = None then user + 2 else ne_id entity
           | _ \<Rightarrow> ne_id entity))"

definition net_disk_insert :: "net_disk \<Rightarrow> net_disk fsvc" where
  "net_disk_insert entity =
     sbind (scope_user (ne_user_id entity)) (\<lambda>user.
     let entity = entity\<lparr>ne_id := root_dir_id user entity\<rparr> in
     sthen (push_file (InsertNetDisk (file_system_row_from user entity))) (sret entity))"

definition create_root :: "uuid fsvc" where
  "create_root =
     sbind (scope_user None) (\<lambda>user.
     sthen (push_file (InsertRoot
       \<lparr>fy_id = user, fy_parent_id = None, fy_name = show_uuid user, fy_is_dict = True,
        fy_kind = file_type_code Folder, fy_owner_id = user, fy_file_metadata_id = None,
        fy_meta = None\<rparr>)) (sret user))"

text \<open>The id of the first row a query selects.\<close>

definition first_row :: "(file_system_row \<Rightarrow> bool) \<Rightarrow> uuid option fsvc" where
  "first_row P = file_rows (\<lambda>t. map_option fy_id (find P (file_system t)))"

definition repo_get_root_id :: "uuid option \<Rightarrow> uuid option fsvc" where
  "repo_get_root_id user_id =
     sbind (scope_user user_id) (\<lambda>user. first_row (\<lambda>r. fy_id r = user))"

text \<open>\<open>meta ->> 'dirKind' = ...\<close>, and a key of \<open>meta\<close>.\<close>

definition has_dir_kind :: "dir_kind \<Rightarrow> file_system_row \<Rightarrow> bool" where
  "has_dir_kind k r \<longleftrightarrow> (case fy_meta r of None \<Rightarrow> False | Some m \<Rightarrow> nm_dir_kind m = Some k)"

definition meta_key :: "(net_disk_meta \<Rightarrow> uuid option) \<Rightarrow> file_system_row \<Rightarrow> uuid option" where
  "meta_key f r = Option.bind (fy_meta r) f"

definition get_flow_draft_dir_id :: "uuid \<Rightarrow> uuid option fsvc" where
  "get_flow_draft_dir_id flow_draft_id =
     sbind (scope_user None) (\<lambda>user.
     first_row (\<lambda>r. has_dir_kind DirFlowDraft r \<and> meta_key nm_flow_draft_id r = Some flow_draft_id \<and>
       fy_owner_id r = user))"

definition get_node_instance_dir_id :: "uuid \<Rightarrow> uuid option fsvc" where
  "get_node_instance_dir_id node_instance =
     first_row (\<lambda>r. has_dir_kind DirNodeInstance r \<and>
       meta_key nm_node_instance_id r = Some node_instance)"

definition get_flow_instance_dir_id :: "uuid \<Rightarrow> uuid option fsvc" where
  "get_flow_instance_dir_id flow_instance =
     first_row (\<lambda>r. has_dir_kind DirFlowInstance r \<and>
       meta_key nm_flow_instance_id r = Some flow_instance)"

definition is_same_pid_fname_exists :: "uuid option \<Rightarrow> string \<Rightarrow> uuid option \<Rightarrow> bool fsvc" where
  "is_same_pid_fname_exists parent_id file_name user_id =
     sbind (scope_user user_id) (\<lambda>user.
     let parent_id = (case parent_id of Some p \<Rightarrow> Some p | None \<Rightarrow> Some user) in
     sbind (first_row (\<lambda>r. fy_parent_id r = parent_id \<and> fy_name r = file_name \<and> fy_owner_id r = user))
       (\<lambda>x. sret (x \<noteq> None)))"

definition get_flow_draft_root_id :: "uuid option fsvc" where
  "get_flow_draft_root_id =
     sbind (scope_user None) (\<lambda>user.
     first_row (\<lambda>r. has_dir_kind DirFlowDraft r \<and> meta_key nm_flow_draft_id r = None \<and>
       fy_owner_id r = user))"

definition get_flow_instance_root_id :: "uuid option \<Rightarrow> uuid option fsvc" where
  "get_flow_instance_root_id user_id =
     sbind (scope_user user_id) (\<lambda>user.
     first_row (\<lambda>r. has_dir_kind DirFlowInstance r \<and> meta_key nm_flow_instance_id r = None \<and>
       fy_owner_id r = user))"

end
