(* ===== verification/KF_NetDisk.thy ===== *)
theory KF_NetDisk
  imports KF_Repo
begin

text \<open>
  The net disk service (\<open>kernel/src/services/file/supports/net_disk.rs\<close>): files are entered in a
  tree of directories, which are made when they are missing: the user's root, one directory for
  drafts and one for instances below it, one per draft or flow, one per node of a flow.
\<close>

definition net_get_root_id :: "uuid option \<Rightarrow> uuid fsvc" where
  "net_get_root_id user_id =
     sbind (repo_get_root_id user_id) (\<lambda>user_root.
     case user_root of
       Some el \<Rightarrow> sret el
     | None \<Rightarrow> sbind create_root (\<lambda>i. sthen files_save_changed (sret i)))"

text \<open>A file whose name is taken in its directory gets a time stamp.\<close>

definition fix_file_name :: "fenv \<Rightarrow> uuid option \<Rightarrow> string \<Rightarrow> uuid option \<Rightarrow> string fsvc" where
  "fix_file_name ev parent_id file_name user_id =
     sbind (is_same_pid_fname_exists parent_id file_name user_id) (\<lambda>same.
     if same then sgets (\<lambda>s. file_name @ ''_'' @ format_time ev (now_ms s)) else sret file_name)"

definition insert_and_save :: "net_disk \<Rightarrow> uuid fsvc" where
  "insert_and_save entity =
     sbind (net_disk_insert entity) (\<lambda>el. sthen files_save_changed (sret (ne_id el)))"

definition get_or_create_flow_draft_dir :: "uuid \<Rightarrow> string \<Rightarrow> uuid fsvc" where
  "get_or_create_flow_draft_dir flow_draft_id flow_name =
     sbind (get_flow_draft_dir_id flow_draft_id) (\<lambda>dir.
     case dir of
       Some el \<Rightarrow> sret el
     | None \<Rightarrow>
         sbind get_flow_draft_root_id (\<lambda>root.
         sbind (case root of
                  Some el \<Rightarrow> sret el
                | None \<Rightarrow> sbind (net_get_root_id None) (\<lambda>root_id. insert_and_save (flow_draft_root root_id)))
           (\<lambda>flow_draft_root_dir_id.
         insert_and_save (flow_draft_dir flow_draft_root_dir_id flow_draft_id flow_name))))"

definition get_or_create_flow_instance_dir :: "uuid \<Rightarrow> string \<Rightarrow> uuid option \<Rightarrow> uuid fsvc" where
  "get_or_create_flow_instance_dir flow_id flow_name user_id =
     sbind (get_flow_instance_dir_id flow_id) (\<lambda>dir.
     case dir of
       Some el \<Rightarrow> sret el
     | None \<Rightarrow>
         sbind (get_flow_instance_root_id user_id) (\<lambda>root.
         sbind (case root of
                  Some el \<Rightarrow> sret el
                | None \<Rightarrow> sbind (net_get_root_id user_id) (\<lambda>root_id.
                    insert_and_save (flow_instance_root root_id user_id)))
           (\<lambda>flow_instance_root_dir_id.
         insert_and_save (flow_instance_dir flow_instance_root_dir_id flow_id flow_name user_id))))"

definition get_or_create_node_instance_dir ::
  "uuid \<Rightarrow> uuid \<Rightarrow> string \<Rightarrow> string \<Rightarrow> uuid option \<Rightarrow> uuid fsvc" where
  "get_or_create_node_instance_dir node_id flow_id node_name flow_name user_id =
     sbind (get_node_instance_dir_id node_id) (\<lambda>dir.
     sbind (case dir of
              Some el \<Rightarrow> sret el
            | None \<Rightarrow> get_or_create_flow_instance_dir flow_id flow_name user_id)
       (\<lambda>flow_instance_dir_id.
     insert_and_save (node_instance_dir flow_instance_dir_id flow_id node_id node_name user_id)))"

section \<open>Files\<close>

definition net_disk_file ::
  "uuid \<Rightarrow> uuid option \<Rightarrow> string \<Rightarrow> file_type \<Rightarrow> uuid \<Rightarrow> net_disk_meta option \<Rightarrow> uuid option \<Rightarrow> net_disk" where
  "net_disk_file i parent_id name file_kind meta_id meta user_id =
     \<lparr>ne_id = i, ne_parent_id = parent_id, ne_name = name, ne_is_dict = False, ne_kind = file_kind,
      ne_file_metadata_id = Some meta_id, ne_meta = meta, ne_user_id = user_id\<rparr>"

definition create_node_instance_file :: "fenv \<Rightarrow> uuid \<Rightarrow> uuid \<Rightarrow> string \<Rightarrow> file_type \<Rightarrow> unit fsvc" where
  "create_node_instance_file ev node_id meta_id file_name file_kind =
     sbind (on_scope (node_get_by_id node_id)) (\<lambda>node_instance.
     sbind (on_scope (flow_get_by_id (flow_instance_id node_instance))) (\<lambda>flow_instance.
     let user_id = Some (wi_user_id flow_instance) in
     sbind (get_or_create_node_instance_dir node_id (flow_instance_id node_instance)
         (ni_name node_instance) (wi_name flow_instance) user_id) (\<lambda>node_instance_dir_id.
     sbind (fix_file_name ev (Some node_instance_dir_id) file_name user_id) (\<lambda>name.
     sbind (fresh_uuid ev) (\<lambda>i.
     sthen (insert_and_save (net_disk_file i (Some node_instance_dir_id) name file_kind meta_id
         (Some (no_meta\<lparr>nm_flow_instance_id := Some (flow_instance_id node_instance),
                       nm_node_instance_id := Some node_id\<rparr>)) user_id))
       (sret ()))))))"

definition create_flow_draft_file :: "fenv \<Rightarrow> uuid \<Rightarrow> uuid \<Rightarrow> string \<Rightarrow> file_type \<Rightarrow> unit fsvc" where
  "create_flow_draft_file ev flow_draft_id meta_id file_name file_kind =
     sbind (on_scope (draft_get_by_id flow_draft_id)) (\<lambda>draft.
     sbind (get_or_create_flow_draft_dir flow_draft_id (wd_name draft)) (\<lambda>parent_id.
     sbind (fix_file_name ev (Some parent_id) file_name None) (\<lambda>name.
     sbind (fresh_uuid ev) (\<lambda>i.
     sthen (insert_and_save (net_disk_file i (Some parent_id) name file_kind meta_id
         (Some (no_meta\<lparr>nm_flow_draft_id := Some flow_draft_id\<rparr>)) None))
       (sret ())))))"

text \<open>A directory the user names is not looked up.\<close>

definition create_normal_file :: "fenv \<Rightarrow> uuid option \<Rightarrow> uuid \<Rightarrow> string \<Rightarrow> file_type \<Rightarrow> unit fsvc" where
  "create_normal_file ev parent_id meta_id file_name file_kind =
     sbind (fix_file_name ev parent_id file_name None) (\<lambda>name.
     sbind (case parent_id of Some el \<Rightarrow> sret el | None \<Rightarrow> net_get_root_id None) (\<lambda>parent.
     sbind (fresh_uuid ev) (\<lambda>i.
     sthen (insert_and_save (net_disk_file i (Some parent) name file_kind meta_id None None))
       (sret ()))))"

definition net_disk_create_file :: "fenv \<Rightarrow> create_net_disk_file \<Rightarrow> unit fsvc" where
  "net_disk_create_file ev command =
     (case cf_kind command of
        NodeInstanceFile node_id \<Rightarrow>
          create_node_instance_file ev node_id (cf_meta_id command) (cf_file_name command) (cf_file_type command)
      | FlowDraftFile flow_draft_id \<Rightarrow>
          create_flow_draft_file ev flow_draft_id (cf_meta_id command) (cf_file_name command) (cf_file_type command)
      | NormalFile parent_id \<Rightarrow>
          create_normal_file ev parent_id (cf_meta_id command) (cf_file_name command) (cf_file_type command))"

end
