(* ===== verification/KF_Upload.thy ===== *)
theory KF_Upload
  imports KF_Cache KF_NetDisk
begin

text \<open>
  Uploads in parts, snapshots and the moves of uploaded files:
  \<open>kernel/src/services/file/{multipart,mover}.rs\<close>, \<open>supports/{snapshot,meta_storage}.rs\<close>, the storage
  server dispatcher, and the runner that brings a file to the storage server
  (\<open>co/src/infrastructure/external_services/file_upload_runner.rs\<close>).

  An upload is announced (\<open>multipart_create\<close>) together with the move its file shall make
  (\<open>register_move\<close>). Each part is cached; the last one merges them into a file of the cache, and the
  registered move turns the file into a snapshot or has it sent to the storage server.
\<close>

section \<open>Parts: \<open>multipart.rs\<close>\<close>

definition id_hash_key :: "uuid \<Rightarrow> string \<Rightarrow> string" where
  "id_hash_key i hash = ''multipart_'' @ show_uuid i @ ''_'' @ hash"

definition multipart_id_regex :: "uuid \<Rightarrow> string" where
  "multipart_id_regex i = ''multipart_'' @ show_uuid i @ ''_*''"

definition multipart_hash_regex :: "string \<Rightarrow> string" where
  "multipart_hash_regex hash = ''multipart_*_'' @ hash"

definition multipart_create :: "fenv \<Rightarrow> uuid \<Rightarrow> string \<Rightarrow> hash_algorithm \<Rightarrow> nat \<Rightarrow> unit fsvc" where
  "multipart_create ev meta_id hash algorithm parts =
     sbind (multipart_get_one ev (multipart_hash_regex hash)) (\<lambda>same_hash.
     case same_hash of
       Some el \<Rightarrow> sfail (MultipartErr (ConflictedHash (mp_meta_id el) hash))
     | None \<Rightarrow>
         sbind (multipart_get_one ev (multipart_id_regex meta_id)) (\<lambda>same_id.
         if same_id \<noteq> None then sfail (MultipartErr (ConflictedId meta_id))
         else multipart_insert (id_hash_key meta_id hash)
           \<lparr>mp_meta_id = meta_id, mp_hash = hash, mp_hash_algorithm = algorithm,
            mp_parts = replicate parts False\<rparr> (multipart_exp ev)))"

definition unfinished_parts :: "multipart \<Rightarrow> nat list" where
  "unfinished_parts mp = map fst (filter (\<lambda>(_, el). \<not> el) (enumerate 0 (mp_parts mp)))"

text \<open>
  \<open>complete_part\<close> in its three steps: the part is cached, the record is read and the part marked,
  the record is written back and a complete upload merged. Two requests may run their steps in
  turn, as nothing locks the record.
\<close>

definition load_marked :: "fenv \<Rightarrow> uuid \<Rightarrow> nat \<Rightarrow> multipart fsvc" where
  "load_marked ev meta_id n =
     sbind (multipart_get_one ev (multipart_id_regex meta_id)) (\<lambda>m.
     sbind (slift (ok_or (MultipartErr (MultipartNotFound meta_id)) m)) (\<lambda>mp.
     if n < length (mp_parts mp) then sret (mp\<lparr>mp_parts := (mp_parts mp)[n := True]\<rparr>)
     else sfail (MultipartErr (NoSuchPart meta_id n))))"

definition file_hash :: "fenv \<Rightarrow> hash_algorithm \<Rightarrow> bytes \<Rightarrow> string" where
  "file_hash ev algorithm content = (case algorithm of Blake3 \<Rightarrow> to_ascii_uppercase (blake3 ev content))"

definition merge_parts :: "fenv \<Rightarrow> uuid \<Rightarrow> multipart \<Rightarrow> nat list fsvc" where
  "merge_parts ev meta_id mp =
     sbind (smap (\<lambda>n. cache_read (ReadPart meta_id n)) [0..<length (mp_parts mp)]) (\<lambda>contents.
     let content = concat contents; h = file_hash ev (mp_hash_algorithm mp) content in
     if h \<noteq> mp_hash mp then sfail (MultipartErr (DifferentHashs meta_id (mp_hash mp) h))
     else sthen (cache_operate (WriteNormal meta_id content))
       (sthen (cache_operate (RemoveMultipartDir meta_id)) (sret [])))"

definition store_marked :: "fenv \<Rightarrow> uuid \<Rightarrow> multipart \<Rightarrow> nat list fsvc" where
  "store_marked ev meta_id mp =
     sthen (multipart_update (id_hash_key meta_id (mp_hash mp)) mp (multipart_exp ev))
       (if unfinished_parts mp \<noteq> [] then sret (unfinished_parts mp) else merge_parts ev meta_id mp)"

definition complete_part :: "fenv \<Rightarrow> part \<Rightarrow> nat list fsvc" where
  "complete_part ev p =
     sthen (cache_operate (WritePart p))
       (sbind (load_marked ev (pt_meta_id p) (pt_nth p)) (store_marked ev (pt_meta_id p)))"

definition multipart_info :: "fenv \<Rightarrow> uuid \<Rightarrow> multipart fsvc" where
  "multipart_info ev meta_id =
     sbind (multipart_get_one ev (multipart_id_regex meta_id)) (\<lambda>m.
     slift (ok_or (NoSuchMultipart meta_id) m))"

text \<open>The directory may be gone already; its removal is allowed to fail.\<close>

definition multipart_remove :: "fenv \<Rightarrow> uuid \<Rightarrow> unit fsvc" where
  "multipart_remove ev meta_id =
     sthen (multipart_delete ev (multipart_id_regex meta_id))
       (sthen (satt (cache_operate (RemoveMultipartDir meta_id))) (sret ()))"

section \<open>Snapshots: \<open>snapshot.rs\<close>\<close>

definition snapshot_key :: "snapshot \<Rightarrow> string" where
  "snapshot_key r =
     ''snapshot_'' @ show_uuid (sn_id r) @ ''_'' @ show_uuid (sn_node_id r) @ ''_'' @
     show_uuid (sn_file_id r) @ ''_'' @ show_int (sn_timestamp r) @ ''_'' @
     show_hash_algorithm (sn_hash_algorithm r) @ ''_'' @ sn_hash r"

definition snapshot_id_regex :: "uuid \<Rightarrow> string" where
  "snapshot_id_regex i = ''snapshot_'' @ show_uuid i @ ''_*_*_*_*_*''"

definition snapshot_hash_regex :: "string \<Rightarrow> hash_algorithm \<Rightarrow> string" where
  "snapshot_hash_regex hash algorithm =
     ''snapshot_*_*_*_*_'' @ show_hash_algorithm algorithm @ ''_'' @ hash"

definition nid_fid_regex :: "uuid \<Rightarrow> uuid \<Rightarrow> string" where
  "nid_fid_regex node_id file_id =
     ''snapshot_*_'' @ show_uuid node_id @ ''_'' @ show_uuid file_id @ ''_*_*_*''"

definition snapshot_request :: "fenv \<Rightarrow> request_snapshot_command \<Rightarrow> unit fsvc" where
  "snapshot_request ev info =
     smodify (\<lambda>s. s\<lparr>snapshot_mq := snapshot_mq s @ [(snapshot_topic ev, info)]\<rparr>)"

definition snapshot_create_record :: "fenv \<Rightarrow> snapshot \<Rightarrow> unit fsvc" where
  "snapshot_create_record ev sn = snapshot_insert (snapshot_key sn) sn (snapshot_exp ev)"

definition snapshot_create :: "fenv \<Rightarrow> snapshot \<Rightarrow> unit fsvc" where
  "snapshot_create ev sn =
     sthen (cache_operate (ChangeNormalToSnapshot (sn_meta_id sn)))
       (snapshot_insert (snapshot_key sn) sn (snapshot_exp ev))"

text \<open>The file goes with the last record of its hash.\<close>

definition snapshot_remove :: "fenv \<Rightarrow> uuid \<Rightarrow> unit fsvc" where
  "snapshot_remove ev i =
     sbind (snapshot_delete ev (snapshot_id_regex i)) (\<lambda>deleted.
     sbind (snapshot_get_one ev (snapshot_hash_regex (sn_hash deleted) (sn_hash_algorithm deleted)))
       (\<lambda>same.
     if same = None then cache_operate (RemoveSnapshot (sn_meta_id deleted)) else sret ()))"

definition snapshot_read :: "fenv \<Rightarrow> uuid \<Rightarrow> bytes fsvc" where
  "snapshot_read ev i =
     sbind (snapshot_get_one ev (snapshot_id_regex i)) (\<lambda>r.
     sbind (slift (ok_or (NoSuchSnapshot i) r)) (\<lambda>sn.
     cache_read (ReadSnapshot (sn_meta_id sn))))"

definition get_all_by_nid_and_fid :: "fenv \<Rightarrow> uuid \<Rightarrow> uuid \<Rightarrow> snapshot list fsvc" where
  "get_all_by_nid_and_fid ev node_id meta_id = snapshot_get_all ev (nid_fid_regex node_id meta_id)"

definition snapshot_satisfy_flash_upload :: "fenv \<Rightarrow> string \<Rightarrow> hash_algorithm \<Rightarrow> uuid option fsvc" where
  "snapshot_satisfy_flash_upload ev hash algorithm =
     sbind (snapshot_get_one ev (snapshot_hash_regex hash algorithm)) (\<lambda>r.
     sret (map_option sn_meta_id r))"

section \<open>Stored files: \<open>meta_storage.rs\<close>, the dispatcher\<close>

definition record_meta_and_storage :: "fenv \<Rightarrow> file_meta \<Rightarrow> file_storage \<Rightarrow> uuid option \<Rightarrow> unit fsvc" where
  "record_meta_and_storage ev m st user_id =
     sthen (file_meta_insert m)
       (sthen (case user_id of
                 Some el \<Rightarrow> insert_with_custom_user_id ev st el
               | None \<Rightarrow> file_storage_insert ev st)
         (sthen files_save_changed (sret ())))"

definition meta_satisfy_flash_upload :: "string \<Rightarrow> hash_algorithm \<Rightarrow> uuid option fsvc" where
  "meta_satisfy_flash_upload hash algorithm =
     sbind (get_by_hash_and_algorithm hash algorithm) (\<lambda>m. sret (map_option fm_id m))"

definition get_server_url :: "uuid \<Rightarrow> uuid \<Rightarrow> string fsvc" where
  "get_server_url storage_server_id meta_id =
     get_by_storage_server_id_and_meta_id storage_server_id meta_id"

definition default_file_storage_server :: "fenv \<Rightarrow> storage_server fsvc" where
  "default_file_storage_server ev = storage_server_get_by_id (default_storage_server_id ev)"

definition dispatcher_upload :: "fenv \<Rightarrow> uuid \<Rightarrow> bytes \<Rightarrow> server_url fsvc" where
  "dispatcher_upload ev meta_id content =
     sbind (default_file_storage_server ev) (\<lambda>server.
     slift (case server_upload ev server meta_id content of
              Inl e \<Rightarrow> Inl (UploadFailed meta_id e) | Inr u \<Rightarrow> Inr u))"

definition url_key :: "server_url \<Rightarrow> string" where
  "url_key u = ''storage-'' @ show_uuid (su_storage_server_id u) @ ''/'' @ show_uuid (su_meta_id u)"

definition url_string :: "server_url \<Rightarrow> string" where
  "url_string u = su_bucket u @ ''/'' @ url_key u"

end
