(* ===== verification/KF_Mover.thy ===== *)
theory KF_Mover
  imports KF_Upload
begin

text \<open>
  The moves of uploaded files (\<open>kernel/src/services/file/mover.rs\<close>), the runner that brings a file
  to the storage server (\<open>co/src/infrastructure/external_services/file_upload_runner.rs\<close>), with its
  consumer, and the service for files read while a node runs (\<open>realtime.rs\<close>).
\<close>

section \<open>Texts of errors\<close>

text \<open>The two errors whose text is kept as the reason of a failed move.\<close>

definition hash_error_text :: "uuid \<Rightarrow> string \<Rightarrow> string \<Rightarrow> string" where
  "hash_error_text meta_id origin completed =
     ''Meta id: '' @ show_uuid meta_id @ [CHR 0x27] @ ''s Original hash: '' @ origin @
     ''. Completed hash: '' @ completed"

fun upload_error_text :: "file_err \<Rightarrow> string" where
  "upload_error_text (UploadFailed _ e) = e"
| "upload_error_text (NoSuchServer i) = ''There is no such storage_server with id: '' @ show_uuid i"
| "upload_error_text _ = ''''"

section \<open>\<open>mover.rs\<close>\<close>

definition move_key :: "uuid \<Rightarrow> uuid \<Rightarrow> string" where
  "move_key move_id meta_id = ''movereg_'' @ show_uuid move_id @ ''_'' @ show_uuid meta_id"

definition meta_id_key_regex :: "uuid \<Rightarrow> string" where
  "meta_id_key_regex meta_id = ''movereg_*_'' @ show_uuid meta_id"

definition move_id_key_regex :: "uuid \<Rightarrow> string" where
  "move_id_key_regex move_id = ''movereg_'' @ show_uuid move_id @ ''_*''"

definition register_move :: "fenv \<Rightarrow> move_registration \<Rightarrow> unit fsvc" where
  "register_move ev info = move_insert (move_key (mr_id info) (mr_meta_id info)) info (move_exp ev)"

definition get_move_info :: "fenv \<Rightarrow> uuid \<Rightarrow> move_registration option fsvc" where
  "get_move_info ev move_id = move_get_one ev (move_id_key_regex move_id)"

definition get_user_id :: "fenv \<Rightarrow> uuid \<Rightarrow> uuid option fsvc" where
  "get_user_id ev move_id = move_get_user ev (move_id_key_regex move_id)"

text \<open>The snapshot of a registration, with the id of the file it uses.\<close>

definition snapshot_of ::
  "fenv \<Rightarrow> move_registration \<Rightarrow> uuid \<Rightarrow> uuid \<Rightarrow> int \<Rightarrow> uuid \<Rightarrow> snapshot fsvc" where
  "snapshot_of ev r meta_id node_id timestamp file_id =
     sbind (fresh_uuid ev) (\<lambda>i.
     sbind (slift (ok_or NoUserInfo (mr_user_id r))) (\<lambda>u.
     sret \<lparr>sn_id = i, sn_meta_id = meta_id, sn_node_id = node_id, sn_file_id = file_id,
           sn_timestamp = timestamp, sn_file_name = mr_file_name r, sn_size = mr_size r,
           sn_hash = mr_hash r, sn_hash_algorithm = mr_hash_algorithm r, sn_user_id = u\<rparr>))"

definition send_upload_command :: "fenv \<Rightarrow> uuid \<Rightarrow> uuid \<Rightarrow> unit fsvc" where
  "send_upload_command ev move_id user_id =
     smodify (\<lambda>s. s\<lparr>upload_mq := upload_mq s @
       [(upload_topic ev, \<lparr>fu_move_id = move_id, fu_user_id = user_id\<rparr>)]\<rparr>)"

definition do_move :: "fenv \<Rightarrow> move_registration \<Rightarrow> unit fsvc" where
  "do_move ev r =
     (case mr_destination r of
        ToSnapshot node_id timestamp file_id \<Rightarrow>
          sbind (snapshot_of ev r (mr_meta_id r) node_id timestamp file_id) (\<lambda>sn.
          sthen (snapshot_create ev sn)
            (sthen (multipart_remove ev (mr_meta_id r))
              (move_remove_all ev (meta_id_key_regex (mr_meta_id r)))))
      | ToStorageServer _ \<Rightarrow>
          sbind (get_user_id ev (mr_id r)) (\<lambda>u.
          sbind (slift (ok_or (NoSuchMove (mr_id r)) u)) (\<lambda>user_id.
          send_upload_command ev (mr_id r) user_id)))"

definition do_registered_moves :: "fenv \<Rightarrow> uuid \<Rightarrow> unit fsvc" where
  "do_registered_moves ev meta_id =
     sbind (move_get_all ev (meta_id_key_regex meta_id)) (\<lambda>registrations.
     sfor registrations (do_move ev))"

text \<open>A flash upload is reported as an error.\<close>

definition if_possible_do_flash_upload :: "fenv \<Rightarrow> move_registration \<Rightarrow> unit fsvc" where
  "if_possible_do_flash_upload ev info =
     (let flash = (\<lambda>already_id. sfail (MoveErr (FlashUpload (show_destination (mr_destination info))
            (mr_hash info) (mr_meta_id info) already_id)))
      in case mr_destination info of
        ToSnapshot node_id timestamp file_id \<Rightarrow>
          sbind (snapshot_satisfy_flash_upload ev (mr_hash info) (mr_hash_algorithm info)) (\<lambda>m.
          case m of
            None \<Rightarrow> sret ()
          | Some meta_id \<Rightarrow>
              sbind (snapshot_of ev info meta_id node_id timestamp file_id) (\<lambda>sn.
              sthen (snapshot_create_record ev sn) (flash meta_id)))
      | ToStorageServer record_net_disk \<Rightarrow>
          sbind (meta_satisfy_flash_upload (mr_hash info) (mr_hash_algorithm info)) (\<lambda>m.
          case m of
            None \<Rightarrow> sret ()
          | Some meta_id \<Rightarrow>
              sthen (case record_net_disk of
                       None \<Rightarrow> sret ()
                     | Some el \<Rightarrow> net_disk_create_file ev
                         \<lparr>cf_meta_id = meta_id, cf_file_name = mr_file_name info,
                          cf_file_type = rn_file_type el, cf_kind = rn_kind el\<rparr>)
                (flash meta_id)))"

definition mark_failed :: "string \<Rightarrow> move_registration \<Rightarrow> move_registration" where
  "mark_failed reason r = r\<lparr>mr_is_upload_failed := True, mr_failed_reason := Some reason\<rparr>"

definition set_all_moves_with_same_meta_id_as_failed :: "fenv \<Rightarrow> uuid \<Rightarrow> string \<Rightarrow> unit fsvc" where
  "set_all_moves_with_same_meta_id_as_failed ev meta_id failed_reason =
     sbind (move_get_all ev (meta_id_key_regex meta_id)) (\<lambda>infos.
     sfor (map (mark_failed failed_reason) infos) (\<lambda>info.
       move_update ev (move_key (mr_id info) meta_id) info (move_exp ev)))"

definition set_move_as_failed :: "fenv \<Rightarrow> uuid \<Rightarrow> string \<Rightarrow> unit fsvc" where
  "set_move_as_failed ev move_id failed_reason =
     sbind (get_move_info ev move_id) (\<lambda>r.
     sbind (slift (ok_or (NoSuchMove move_id) r)) (\<lambda>info.
     move_update ev (move_key move_id (mr_meta_id info)) (mark_failed failed_reason info) (move_exp ev)))"

definition get_meta_id_failed_info :: "fenv \<Rightarrow> uuid \<Rightarrow> (bool \<times> string option) fsvc" where
  "get_meta_id_failed_info ev meta_id =
     sbind (move_get_all ev (meta_id_key_regex meta_id)) (\<lambda>rs.
     case rs of
       [] \<Rightarrow> sfail (NoMoveOfMeta meta_id)
     | one # _ \<Rightarrow> sret (mr_is_upload_failed one, mr_failed_reason one))"

definition remove_all_with_meta_id :: "fenv \<Rightarrow> uuid \<Rightarrow> unit fsvc" where
  "remove_all_with_meta_id ev meta_id = move_remove_all ev (meta_id_key_regex meta_id)"

section \<open>The upload runner\<close>

definition net_disk_record :: "move_destination \<Rightarrow> file_err + record_net_disk option" where
  "net_disk_record d = (case d of ToStorageServer r \<Rightarrow> Inr r | _ \<Rightarrow> Inl UnreachableDestination)"

definition upload_file :: "fenv \<Rightarrow> file_upload_command \<Rightarrow> unit fsvc" where
  "upload_file ev cmd =
     (let move_id = fu_move_id cmd in
      sbind (get_move_info ev move_id) (\<lambda>r.
      sbind (slift (ok_or (NoSuchMove move_id) r)) (\<lambda>move_info.
      sbind (get_user_id ev move_id) (\<lambda>u.
      sbind (slift (ok_or (NoSuchMove move_id) u)) (\<lambda>user_id.
      let meta_id = mr_meta_id move_info in
      sbind (slift (net_disk_record (mr_destination move_info))) (\<lambda>record_net_disk.
      sbind (cache_read (ReadNormal meta_id)) (\<lambda>content.
      sbind (satt (dispatcher_upload ev meta_id content)) (\<lambda>uploaded.
      case uploaded of
        Inl e \<Rightarrow>
          sthen (set_move_as_failed ev move_id (upload_error_text e))
            (sfail (UploadFailed meta_id (upload_error_text e)))
      | Inr url \<Rightarrow>
          sthen (record_meta_and_storage ev
              \<lparr>fm_id = meta_id, fm_name = mr_file_name move_info, fm_hash = mr_hash move_info,
               fm_hash_algorithm = mr_hash_algorithm move_info, fm_size = mr_size move_info\<rparr>
              \<lparr>fs_storage_server_id = su_storage_server_id url, fs_meta_id = meta_id,
               fs_server_url = url_string url\<rparr> (Some user_id))
            (sthen (case record_net_disk of
                      None \<Rightarrow> sret ()
                    | Some el \<Rightarrow> net_disk_create_file ev
                        \<lparr>cf_meta_id = meta_id, cf_file_name = mr_file_name move_info,
                         cf_file_type = rn_file_type el, cf_kind = rn_kind el\<rparr>)
              (sthen (cache_operate (RemoveNormal meta_id))
                (sthen (multipart_remove ev meta_id)
                  (remove_all_with_meta_id ev meta_id))))))))))))"

text \<open>Each message and each request runs in a scope of its own, with its user.\<close>

definition new_scope :: "uuid option \<Rightarrow> fstate \<Rightarrow> fstate" where
  "new_scope user s =
     s\<lparr>scope := (scope s)\<lparr>repo_user_id := user, statements := [], can_drop := True\<rparr>\<rparr>"

definition file_upload_runner_consumer :: "fenv \<Rightarrow> file_upload_command \<Rightarrow> unit fsvc" where
  "file_upload_runner_consumer ev cmd =
     sthen (smodify (new_scope (Some (fu_user_id cmd)))) (upload_file ev cmd)"

section \<open>\<open>realtime.rs\<close>\<close>

definition ws_key :: "uuid \<Rightarrow> uuid \<Rightarrow> string" where
  "ws_key req_id client_id = show_uuid req_id @ ''_'' @ show_uuid client_id"

definition req_id_key_regex :: "uuid \<Rightarrow> string" where
  "req_id_key_regex req_id = show_uuid req_id @ ''_*''"

text \<open>The request is sent to the agents before it gets its id.\<close>

definition request_realtime_file :: "fenv \<Rightarrow> uuid \<Rightarrow> view_realtime_command \<Rightarrow> unit fsvc" where
  "request_realtime_file ev client_id cmd =
     sthen (smodify (\<lambda>s. s\<lparr>realtime_mq := realtime_mq s @ [(realtime_request_topic ev, cmd)]\<rparr>))
       (sbind (if vr_req_id cmd = 0 then fresh_uuid ev else sret (vr_req_id cmd)) (\<lambda>req_id.
        ws_insert (ws_key req_id client_id) \<lparr>ws_request_id = req_id, ws_client_id = client_id\<rparr>
          (realtime_exp ev)))"

definition get_client_id :: "fenv \<Rightarrow> uuid \<Rightarrow> uuid fsvc" where
  "get_client_id ev request_id =
     sbind (ws_get_one ev (req_id_key_regex request_id)) (\<lambda>r.
     slift (rbind (ok_or (NoSuchReq request_id) r) (\<lambda>x. Inr (ws_client_id x))))"

definition send_realtime :: "fenv \<Rightarrow> uuid \<Rightarrow> string \<Rightarrow> unit fsvc" where
  "send_realtime ev request_id file_content =
     sbind (get_client_id ev request_id) (\<lambda>client_id.
     smodify (\<lambda>s. s\<lparr>ws_mq := ws_mq s @
       [(ws_server_operate_topic ev, SendContentToSession client_id file_content)]\<rparr>))"

text \<open>A request arrives without its id: the field is not read from the message.\<close>

definition realtime_file_consumer :: "fenv \<Rightarrow> uuid \<times> view_realtime_command \<Rightarrow> unit fsvc" where
  "realtime_file_consumer ev command =
     sthen (smodify (new_scope None))
       (request_realtime_file ev (fst command) ((snd command)\<lparr>vr_req_id := 0\<rparr>))"

end
