(* ===== verification/KF_Keys.thy ===== *)
theory KF_Keys
  imports KF_Mover
begin

text \<open>
  The keys of the Redis store and the patterns the repositories look them up with. Keys and patterns
  are parts joined by underscores; on keys whose parts have none, a pattern with stars for some of
  its parts matches part by part (\<open>star_match_join\<close>). From this, what each pattern finds in a store
  whose entries are under the keys the repositories give them (\<open>store_ok\<close>).
\<close>

section \<open>Printed ids\<close>

definition clean :: "string \<Rightarrow> bool" where
  "clean s \<longleftrightarrow> CHR ''_'' \<notin> set s \<and> CHR ''*'' \<notin> set s \<and> plain_pattern s"

lemma clean_simps [simp]:
  "clean []"
  "clean (c # s) \<longleftrightarrow> c \<notin> {CHR ''_'', CHR ''*'', CHR ''?'', CHR ''['', CHR '']'', CHR 0x5C, CHR ''^''} \<and> clean s"
  "clean (s @ t) \<longleftrightarrow> clean s \<and> clean t"
  by (auto simp: clean_def plain_pattern_def)

lemma plain_simps [simp]:
  "plain_pattern []"
  "plain_pattern (c # s) \<longleftrightarrow> c \<notin> {CHR ''?'', CHR ''['', CHR '']'', CHR 0x5C, CHR ''^''} \<and> plain_pattern s"
  "plain_pattern (s @ t) \<longleftrightarrow> plain_pattern s \<and> plain_pattern t"
  by (auto simp: plain_pattern_def)

lemma clean_all: "clean s \<longleftrightarrow> (\<forall>c \<in> set s. clean [c])"
  by (induction s) auto

lemma clean_char: "(of_char c :: nat) \<notin> {42, 63, 91, 92, 93, 94, 95} \<Longrightarrow> clean [c]"
  by auto

lemma clean_hex: "n < 16 \<Longrightarrow> clean [hex_digit n]"
  by (rule clean_char) (auto simp: hex_digit_def)

lemma uuid_simple_clean: "clean (uuid_simple i)"
  unfolding clean_all [of "uuid_simple i"] by (auto simp: uuid_simple_def clean_hex simp del: clean_simps)

lemma clean_take: "clean s \<Longrightarrow> clean (take n s)" and clean_drop: "clean s \<Longrightarrow> clean (drop n s)"
  by (meson clean_all in_set_takeD, meson clean_all in_set_dropD)

lemma show_uuid_clean [simp]: "clean (show_uuid i)"
  by (simp add: show_uuid_def Let_def clean_take clean_drop uuid_simple_clean)

lemma length_uuid_simple [simp]: "length (uuid_simple i) = 32"
  by (simp add: uuid_simple_def)

lemma hex_digit_inj: "m < 16 \<Longrightarrow> n < 16 \<Longrightarrow> hex_digit m = hex_digit n \<longleftrightarrow> m = n"
  by (auto simp: hex_digit_def split: if_splits dest!: arg_cong [where f = "of_char :: char \<Rightarrow> nat"])

lemma uuid_simple_inj: "uuid_simple i = uuid_simple j \<longleftrightarrow> i = j"
proof
  assume eq: "uuid_simple i = uuid_simple j"
  have nib: "unat (drop_bit (4 * k) i) mod 16 = unat (drop_bit (4 * k) j) mod 16" if "k < 32" for k
  proof -
    have "uuid_simple i ! (31 - k) = uuid_simple j ! (31 - k)" using eq by simp
    moreover have "[0..<32] ! (31 - k) = 31 - k" using nth_upt [of 0 "31 - k" 32] by simp
    ultimately show ?thesis using that by (simp add: uuid_simple_def hex_digit_inj del: upt_rec_numeral)
  qed
  have "bit i n = bit j n" if "n < 128" for n
  proof -
    let ?k = "n div 4" and ?m = "n mod 4"
    have "take_bit 4 (drop_bit (4 * ?k) i) = take_bit 4 (drop_bit (4 * ?k) j)"
      using nib [of ?k] that by (simp add: word_unat_eq_iff take_bit_eq_mod unat_mod_distrib)
    then have "bit (take_bit 4 (drop_bit (4 * ?k) i)) ?m = bit (take_bit 4 (drop_bit (4 * ?k) j)) ?m"
      by simp
    then have "bit i (4 * ?k + ?m) = bit j (4 * ?k + ?m)"
      by (simp add: bit_take_bit_iff bit_drop_bit_eq)
    then show ?thesis by simp
  qed
  then show "i = j" by (intro bit_word_eqI) simp
qed simp

definition cut_hyphens :: "string \<Rightarrow> string" where
  "cut_hyphens s = take 8 s @ take 4 (drop 9 s) @ take 4 (drop 14 s) @ take 4 (drop 19 s) @ drop 24 s"

lemma cut_hyphens_append:
  "length a = 8 \<Longrightarrow> length b = 4 \<Longrightarrow> length c = 4 \<Longrightarrow> length e = 4 \<Longrightarrow>
   cut_hyphens (a @ [h] @ b @ [h] @ c @ [h] @ e @ [h] @ f) = a @ b @ c @ e @ f"
  by (simp add: cut_hyphens_def)

lemma cut_hyphens_show: "cut_hyphens (show_uuid i) = uuid_simple i"
proof -
  let ?d = "uuid_simple i"
  have "take 20 ?d = take 8 ?d @ take 4 (drop 8 ?d) @ take 4 (drop 12 ?d) @ take 4 (drop 16 ?d)"
    using take_add [of 8 4 ?d] take_add [of 12 4 ?d] take_add [of 16 4 ?d] by simp
  then have "take 8 ?d @ take 4 (drop 8 ?d) @ take 4 (drop 12 ?d) @ take 4 (drop 16 ?d) @ drop 20 ?d = ?d"
    by (metis append.assoc append_take_drop_id)
  then show ?thesis
    unfolding show_uuid_def Let_def by (subst cut_hyphens_append) simp_all
qed

lemma show_uuid_inj [simp]: "show_uuid i = show_uuid j \<longleftrightarrow> i = j"
proof
  assume eq: "show_uuid i = show_uuid j"
  have "uuid_simple i = uuid_simple j"
    using cut_hyphens_show [of i] cut_hyphens_show [of j] eq by simp
  then show "i = j" by (simp add: uuid_simple_inj)
qed simp

section \<open>Patterns and keys in parts\<close>

lemma star_match_literal:
  "CHR ''*'' \<notin> set l \<Longrightarrow> star_match (l @ p) s \<longleftrightarrow> (\<exists>t. s = l @ t \<and> star_match p t)"
proof (induction l arbitrary: s)
  case (Cons c l)
  then show ?case by (cases s) auto
qed simp

lemma cut_any: "(\<exists>u t. c # s = u @ t \<and> Q t) \<longleftrightarrow> Q (c # s) \<or> (\<exists>u t. s = u @ t \<and> Q t)"
proof
  assume "\<exists>u t. c # s = u @ t \<and> Q t"
  then obtain u t where "c # s = u @ t" "Q t" by blast
  then show "Q (c # s) \<or> (\<exists>u t. s = u @ t \<and> Q t)" by (cases u) auto
qed (metis append_Cons append_Nil)

lemma cut_Cons:
  "(\<exists>as bs. k # ks = as @ bs \<and> as \<noteq> [] \<and> Q as bs) \<longleftrightarrow>
   Q [k] ks \<or> (\<exists>as bs. ks = as @ bs \<and> as \<noteq> [] \<and> Q (k # as) bs)"
proof
  assume "\<exists>as bs. k # ks = as @ bs \<and> as \<noteq> [] \<and> Q as bs"
  then obtain as bs where eq: "k # ks = as @ bs" "as \<noteq> []" "Q as bs" by blast
  then obtain as' where "as = k # as'" "ks = as' @ bs" by (cases as) auto
  with eq(3) show "Q [k] ks \<or> (\<exists>as bs. ks = as @ bs \<and> as \<noteq> [] \<and> Q (k # as) bs)"
    by (cases "as' = []") auto
next
  assume "Q [k] ks \<or> (\<exists>as bs. ks = as @ bs \<and> as \<noteq> [] \<and> Q (k # as) bs)"
  then show "\<exists>as bs. k # ks = as @ bs \<and> as \<noteq> [] \<and> Q as bs"
  proof
    assume "Q [k] ks"
    then show ?thesis by (intro exI [of _ "[k]"] exI [of _ ks]) simp
  next
    assume "\<exists>as bs. ks = as @ bs \<and> as \<noteq> [] \<and> Q (k # as) bs"
    then obtain as bs where "ks = as @ bs" "Q (k # as) bs" by blast
    then show ?thesis by (intro exI [of _ "k # as"] exI [of _ bs]) simp
  qed
qed

lemma star_match_star: "star_match (CHR ''*'' # p) s \<longleftrightarrow> (\<exists>u t. s = u @ t \<and> star_match p t)"
  by (induction s) (simp_all add: cut_any)

lemma star_match_any [simp]: "star_match ''*'' s"
  unfolding star_match_star by (intro exI [of _ s] exI [of _ "[]"]) simp

lemma join_Cons: "xs \<noteq> [] \<Longrightarrow> join sep (x # xs) = x @ sep @ join sep xs"
  by (cases xs) auto

text \<open>Cutting a key at an underscore is cutting its list of parts.\<close>

lemma split_at_underscore:
  assumes "CHR ''_'' \<notin> set k"
  shows "k @ ''_'' @ r = u @ ''_'' @ t \<longleftrightarrow>
    (u = k \<and> t = r) \<or> (\<exists>u'. u = k @ ''_'' @ u' \<and> r = u' @ ''_'' @ t)"
proof
  assume eq: "k @ ''_'' @ r = u @ ''_'' @ t"
  then obtain v where "k = u @ v \<and> v @ ''_'' @ r = ''_'' @ t \<or> k @ v = u \<and> ''_'' @ r = v @ ''_'' @ t"
    using append_eq_append_conv2 [of k "''_'' @ r" u "''_'' @ t"] by blast
  then show "(u = k \<and> t = r) \<or> (\<exists>u'. u = k @ ''_'' @ u' \<and> r = u' @ ''_'' @ t)"
    using assms by (cases v) auto
qed auto

lemma join_cut:
  assumes "\<forall>k \<in> set ks. CHR ''_'' \<notin> set k" "ks \<noteq> []"
  shows "join ''_'' ks = u @ ''_'' @ t \<longleftrightarrow>
    (\<exists>as bs. ks = as @ bs \<and> as \<noteq> [] \<and> bs \<noteq> [] \<and> u = join ''_'' as \<and> t = join ''_'' bs)"
  using assms
proof (induction ks arbitrary: u)
  case (Cons k ks)
  show ?case
  proof (cases "ks = []")
    case True
    with Cons.prems show ?thesis by (auto simp: Cons_eq_append_conv)
  next
    case False
    have IH: "join ''_'' ks = u' @ ''_'' @ t \<longleftrightarrow>
      (\<exists>as bs. ks = as @ bs \<and> as \<noteq> [] \<and> bs \<noteq> [] \<and> u' = join ''_'' as \<and> t = join ''_'' bs)" for u'
      using Cons.prems False by (intro Cons.IH) auto
    have "join ''_'' (k # ks) = u @ ''_'' @ t \<longleftrightarrow>
      (u = k \<and> t = join ''_'' ks) \<or> (\<exists>u'. u = k @ ''_'' @ u' \<and> join ''_'' ks = u' @ ''_'' @ t)"
      using split_at_underscore [of k "join ''_'' ks" u t] Cons.prems False by (auto simp: join_Cons)
    also have "\<dots> \<longleftrightarrow> (u = k \<and> t = join ''_'' ks) \<or>
      (\<exists>as bs. ks = as @ bs \<and> as \<noteq> [] \<and> bs \<noteq> [] \<and> u = join ''_'' (k # as) \<and> t = join ''_'' bs)"
      unfolding IH by (metis join_Cons)
    also have "\<dots> \<longleftrightarrow> (\<exists>as bs. k # ks = as @ bs \<and> as \<noteq> [] \<and> bs \<noteq> [] \<and> u = join ''_'' as \<and> t = join ''_'' bs)"
      using cut_Cons [of k ks "\<lambda>as bs. bs \<noteq> [] \<and> u = join ''_'' as \<and> t = join ''_'' bs"] False by simp
    finally show ?thesis .
  qed
qed simp

lemma join_inj:
  assumes "join ''_'' xs = join ''_'' ys" "xs \<noteq> []" "ys \<noteq> []"
    and "\<forall>x \<in> set xs. CHR ''_'' \<notin> set x" "\<forall>y \<in> set ys. CHR ''_'' \<notin> set y"
  shows "xs = ys"
  using assms
proof (induction xs arbitrary: ys)
  case (Cons x xs)
  obtain y zs where ys: "ys = y # zs" using Cons.prems(3) by (cases ys) auto
  show ?case
  proof (cases "xs = [] \<or> zs = []")
    case True
    then show ?thesis using Cons.prems by (cases xs; cases zs) (auto simp: ys join_Cons)
  next
    case False
    with Cons.prems have "x @ ''_'' @ join ''_'' xs = y @ ''_'' @ join ''_'' zs" by (simp add: ys join_Cons)
    then have "y = x \<and> join ''_'' zs = join ''_'' xs"
      using split_at_underscore [of x "join ''_'' xs" y "join ''_'' zs"] Cons.prems(4,5) by (auto simp: ys)
    with Cons.IH [of zs] Cons.prems(4,5) False show ?thesis by (simp add: ys)
  qed
qed simp

text \<open>A pattern part is a literal or a star.\<close>

fun part_text :: "string option \<Rightarrow> string" where
  "part_text (Some l) = l"
| "part_text None = ''*''"

fun parts_match :: "string option list \<Rightarrow> string list \<Rightarrow> bool" where
  "parts_match [] ks = (ks = [])"
| "parts_match (p # ps) [] = False"
| "parts_match (Some l # ps) (k # ks) = (l = k \<and> parts_match ps ks)"
| "parts_match (None # ps) (k # ks) = (parts_match ps ks \<or> parts_match (None # ps) ks)"

lemma parts_match_star:
  "parts_match (None # ps) ks \<longleftrightarrow> (\<exists>as bs. ks = as @ bs \<and> as \<noteq> [] \<and> parts_match ps bs)"
  by (induction ks) (simp_all add: cut_Cons)

lemma parts_match_any [simp]: "parts_match [None] ks \<longleftrightarrow> ks \<noteq> []"
  by (induction ks) auto

lemma parts_match_ne: "parts_match (p # ps) ks \<Longrightarrow> ks \<noteq> []"
  by auto

theorem star_match_join:
  assumes "ps \<noteq> []" "ks \<noteq> []" "\<forall>k \<in> set ks. clean k" "\<forall>l \<in> set ps. clean (case l of Some x \<Rightarrow> x | None \<Rightarrow> [])"
  shows "star_match (join ''_'' (map part_text ps)) (join ''_'' ks) = parts_match ps ks"
  using assms
proof (induction ps arbitrary: ks)
  case (Cons p ps)
  have no: "\<forall>k \<in> set ks. CHR ''_'' \<notin> set k" using Cons.prems by (auto simp: clean_def)
  show ?case
  proof (cases "ps = []")
    case True
    show ?thesis
    proof (cases p)
      case None
      with True Cons.prems(2) show ?thesis by (simp del: star_match.simps)
    next
      case (Some l)
      with Cons.prems have l: "CHR ''*'' \<notin> set l" "CHR ''_'' \<notin> set l" by (auto simp: clean_def)
      obtain k ks' where ks: "ks = k # ks'" using Cons.prems(2) by (cases ks) auto
      have "ks' \<noteq> [] \<Longrightarrow> l \<noteq> join ''_'' ks" using l by (auto simp: ks join_Cons)
      with True Some l show ?thesis
        using star_match_literal [OF l(1), of "[]" "join ''_'' ks"] by (cases ks') (auto simp: ks)
    qed
  next
    case False
    let ?q = "join ''_'' (map part_text ps)"
    have join: "join ''_'' (map part_text (p # ps)) = part_text p @ ''_'' @ ?q" using False by (simp add: join_Cons)
    have IH: "bs \<noteq> [] \<Longrightarrow> set bs \<subseteq> set ks \<Longrightarrow> star_match ?q (join ''_'' bs) = parts_match ps bs" for bs
      using Cons.IH [OF False, of bs] Cons.prems by auto
    have under: "star_match (CHR ''_'' # ?q) s \<longleftrightarrow> (\<exists>t. s = CHR ''_'' # t \<and> star_match ?q t)" for s
      using star_match_literal [of "''_''" ?q s] by simp
    show ?thesis
    proof (cases p)
      case None
      have "star_match (join ''_'' (map part_text (p # ps))) (join ''_'' ks) \<longleftrightarrow>
          (\<exists>u t. join ''_'' ks = u @ ''_'' @ t \<and> star_match ?q t)"
        unfolding None join [unfolded None] part_text.simps append_Cons append_Nil star_match_star under by blast
      also have "\<dots> \<longleftrightarrow> (\<exists>as bs. ks = as @ bs \<and> as \<noteq> [] \<and> bs \<noteq> [] \<and> star_match ?q (join ''_'' bs))"
        by (simp only: join_cut [OF no Cons.prems(2)]) blast
      also have "\<dots> \<longleftrightarrow> (\<exists>as bs. ks = as @ bs \<and> as \<noteq> [] \<and> bs \<noteq> [] \<and> parts_match ps bs)"
        using IH by (metis (no_types, lifting) Un_upper2 set_append)
      also have "\<dots> \<longleftrightarrow> parts_match (p # ps) ks"
        using False unfolding None parts_match_star by (metis neq_Nil_conv parts_match_ne)
      finally show ?thesis .
    next
      case (Some l)
      with Cons.prems have l: "CHR ''*'' \<notin> set l" "CHR ''_'' \<notin> set l" by (auto simp: clean_def)
      obtain k ks' where ks: "ks = k # ks'" using Cons.prems(2) by (cases ks) auto
      have "star_match (join ''_'' (map part_text (p # ps))) (join ''_'' ks) \<longleftrightarrow>
          (\<exists>t. join ''_'' ks = l @ ''_'' @ t \<and> star_match ?q t)"
        unfolding Some join [unfolded Some] part_text.simps star_match_literal [OF l(1)] append_Cons append_Nil under by blast
      also have "\<dots> \<longleftrightarrow> k = l \<and> ks' \<noteq> [] \<and> star_match ?q (join ''_'' ks')"
      proof -
        have "join ''_'' ks = l @ ''_'' @ t \<longleftrightarrow> k = l \<and> ks' \<noteq> [] \<and> t = join ''_'' ks'" for t
        proof (cases "ks' = []")
          case True
          with no l show ?thesis by (auto simp: ks)
        next
          case False
          then show ?thesis
            using split_at_underscore [of k "join ''_'' ks'" l t] no l by (auto simp: ks join_Cons)
        qed
        then show ?thesis by auto
      qed
      also have "\<dots> \<longleftrightarrow> parts_match (p # ps) ks"
        using IH [of ks'] False unfolding ks Some by (cases ks'; cases ps) auto
      finally show ?thesis .
    qed
  qed
qed simp

section \<open>What the patterns find\<close>

text \<open>The parts of the key a value is stored under; a move is stored under its user \<open>u\<close>.\<close>

fun key_parts :: "uuid \<Rightarrow> redis_value \<Rightarrow> string list" where
  "key_parts u (RMultipart m) = [''multipart'', show_uuid (mp_meta_id m), mp_hash m]"
| "key_parts u (RMove r) = [show_uuid u, ''movereg'', show_uuid (mr_id r), show_uuid (mr_meta_id r)]"
| "key_parts u (RSnapshot n) = [show_uuid (sn_user_id n), ''snapshot'', show_uuid (sn_id n),
     show_uuid (sn_node_id n), show_uuid (sn_file_id n), show_int (sn_timestamp n),
     show_hash_algorithm (sn_hash_algorithm n), sn_hash n]"
| "key_parts u (RWsReq w) = [show_uuid (ws_request_id w), show_uuid (ws_client_id w)]"

definition entry_ok :: "string \<times> int \<times> redis_value \<Rightarrow> bool" where
  "entry_ok e = (case e of (k, _, v) \<Rightarrow>
     \<exists>u. k = join ''_'' (key_parts u v) \<and> (\<forall>x \<in> set (key_parts u v). clean x))"

definition store_ok :: "fstate \<Rightarrow> bool" where
  "store_ok s \<longleftrightarrow> distinct (map fst (redis s)) \<and> (\<forall>e \<in> set (redis s). entry_ok e)"

text \<open>What is assumed of the outside: the stars, the order of an answer, the printing of ids.\<close>

definition env_ok :: "fenv \<Rightarrow> bool" where
  "env_ok ev \<longleftrightarrow> globs ev \<and> (\<forall>ks. mset (keys_order ev ks) = mset ks) \<and>
     (\<forall>u. parse_uuid ev (show_uuid u) = Some u)"

lemma clean_show_nat: "clean (show_nat n)"
proof (induction n rule: less_induct)
  case (less n)
  have digit: "m < 10 \<Longrightarrow> clean [char_of (48 + m)]" for m :: nat by (rule clean_char) auto
  show ?case
  proof (cases "n < 10")
    case True
    then show ?thesis using digit [of n] by (subst show_nat.simps) simp
  next
    case False
    then show ?thesis using digit [of "n mod 10"] less [of "n div 10"] by (subst show_nat.simps) simp
  qed
qed

lemma clean_show_int [simp]: "clean (show_int i)"
  by (simp add: show_int_def clean_show_nat)

lemma show_nat_digits: "set (show_nat n) \<subseteq> char_of ` {48..57 :: nat}"
proof (induction n rule: less_induct)
  case (less n)
  then show ?case by (cases "n < 10"; subst show_nat.simps) (auto simp: image_iff)
qed

lemma show_int_no_letter: "of_char c > (57 :: nat) \<Longrightarrow> c \<notin> set (show_int i)"
  using show_nat_digits [of "nat i"] show_nat_digits [of "nat (- i)"] by (auto simp: show_int_def)

lemma show_int_ne [simp]: "show_int i \<noteq> ''movereg''" "''movereg'' \<noteq> show_int i" "show_int i \<noteq> ''snapshot''" "''snapshot'' \<noteq> show_int i"
proof -
  have ne: "show_int i \<noteq> l \<and> l \<noteq> show_int i" if "CHR ''s'' \<in> set l \<or> CHR ''m'' \<in> set l" for l
    using that show_int_no_letter [of "CHR ''s''" i] show_int_no_letter [of "CHR ''m''" i] by auto
  show "show_int i \<noteq> ''movereg''" "''movereg'' \<noteq> show_int i" "show_int i \<noteq> ''snapshot''" "''snapshot'' \<noteq> show_int i"
    using ne [of "''movereg''"] ne [of "''snapshot''"] by simp_all
qed

lemma show_hash_algorithm_ne [simp]: "show_hash_algorithm a \<noteq> ''movereg''" "''movereg'' \<noteq> show_hash_algorithm a"
  "show_hash_algorithm a \<noteq> ''snapshot''" "''snapshot'' \<noteq> show_hash_algorithm a"
  by (cases a; simp)+

lemma clean_algorithm [simp]: "clean (show_hash_algorithm a)"
  by (cases a) simp

lemma length_show_uuid [simp]: "length (show_uuid i) = 36"
  by (simp add: show_uuid_def Let_def)

lemma show_uuid_ne [simp]:
  "length l \<noteq> 36 \<Longrightarrow> show_uuid i \<noteq> l" "length l \<noteq> 36 \<Longrightarrow> l \<noteq> show_uuid i"
  by auto

lemma join_parts_plain:
  "\<forall>l \<in> set ps. clean (case l of Some x \<Rightarrow> x | None \<Rightarrow> []) \<Longrightarrow> plain_pattern (join ''_'' (map part_text ps))"
proof (induction ps)
  case (Cons p ps)
  have "plain_pattern (part_text p)" using Cons.prems by (cases p) (auto simp: clean_def plain_pattern_def)
  with Cons show ?case by (cases "ps = []") (simp_all add: join_Cons)
qed simp

lemma glob_parts:
  assumes "globs ev" "ps \<noteq> []" "\<forall>l \<in> set ps. clean (case l of Some x \<Rightarrow> x | None \<Rightarrow> [])"
    and "\<forall>k \<in> set ks. clean k" "ks \<noteq> []"
  shows "glob ev (join ''_'' (map part_text ps)) (join ''_'' ks) = parts_match ps ks"
  using assms star_match_join [of ps ks] join_parts_plain [of ps] by (simp add: globs_def)

lemma key_parts_ne [simp]: "key_parts u v \<noteq> []"
  by (cases v) simp_all

lemma glob_entry:
  assumes "globs ev" "entry_ok (k, d, v)" "ps \<noteq> []"
    and "\<forall>l \<in> set ps. clean (case l of Some x \<Rightarrow> x | None \<Rightarrow> [])"
    and "\<And>u. parts_match ps (key_parts u v) \<longleftrightarrow> P"
  shows "glob ev (join ''_'' (map part_text ps)) k \<longleftrightarrow> P"
  using assms by (auto simp: entry_ok_def glob_parts)

lemma glob_multipart_id:
  assumes "globs ev" "entry_ok (k, d, v)"
  shows "glob ev (multipart_id_regex i) k \<longleftrightarrow> (\<exists>m. v = RMultipart m \<and> mp_meta_id m = i)"
  using glob_entry [OF assms, of "[Some ''multipart'', Some (show_uuid i), None]"]
  by (cases v) (auto simp: multipart_id_regex_def)

lemma glob_multipart_hash:
  assumes "globs ev" "entry_ok (k, d, v)" "clean h"
  shows "glob ev (multipart_hash_regex h) k \<longleftrightarrow> (\<exists>m. v = RMultipart m \<and> mp_hash m = h)"
  using glob_entry [OF assms(1,2), of "[Some ''multipart'', None, Some h]"] assms(3)
  by (cases v) (auto simp: multipart_hash_regex_def)

lemma glob_move_meta:
  assumes "globs ev" "entry_ok (k, d, v)"
  shows "glob ev (any_user_key_regex (meta_id_key_regex i)) k \<longleftrightarrow> (\<exists>r. v = RMove r \<and> mr_meta_id r = i)"
  using glob_entry [OF assms, of "[None, Some ''movereg'', None, Some (show_uuid i)]"]
  by (cases v) (auto simp: any_user_key_regex_def meta_id_key_regex_def)

lemma glob_move_id:
  assumes "globs ev" "entry_ok (k, d, v)"
  shows "glob ev (any_user_key_regex (move_id_key_regex i)) k \<longleftrightarrow> (\<exists>r. v = RMove r \<and> mr_id r = i)"
  using glob_entry [OF assms, of "[None, Some ''movereg'', Some (show_uuid i), None]"]
  by (cases v) (auto simp: any_user_key_regex_def move_id_key_regex_def)


lemma glob_snapshot_id:
  assumes "globs ev" "entry_ok (k, d, v)"
  shows "glob ev (any_user_key_regex (snapshot_id_regex i)) k \<longleftrightarrow> (\<exists>n. v = RSnapshot n \<and> sn_id n = i)"
  using glob_entry [OF assms, of "[None, Some ''snapshot'', Some (show_uuid i), None, None, None, None, None]"]
  by (cases v) (auto simp: any_user_key_regex_def snapshot_id_regex_def)

lemma glob_snapshot_hash:
  assumes "globs ev" "entry_ok (k, d, v)" "clean h"
  shows "glob ev (any_user_key_regex (snapshot_hash_regex h a)) k \<longleftrightarrow>
    (\<exists>n. v = RSnapshot n \<and> sn_hash n = h \<and> sn_hash_algorithm n = a)"
proof -
  have alg: "(show_hash_algorithm x = show_hash_algorithm y) = True" "(x = y) = True" for x y
    by (cases x; cases y; simp)+
  show ?thesis
    using glob_entry [OF assms(1,2), of "[None, Some ''snapshot'', None, None, None, None, Some (show_hash_algorithm a), Some h]"] assms(3)
    by (cases v) (auto simp: any_user_key_regex_def snapshot_hash_regex_def alg)
qed

end
