(* ===== verification/KF_Lookup.thy ===== *)
theory KF_Lookup
  imports KF_Keys
begin

text \<open>
  What the Redis repositories return and change on a store whose entries are under their keys: a
  look-up by a pattern finds the live values the pattern stands for, an insert or update sets one
  key, a delete removes the keys found. The services are proved from these facts.
\<close>

lemma live_iff:
  "store_ok s \<Longrightarrow> (k, d, v) \<in> set (live s) \<longleftrightarrow> map_of (redis s) k = Some (d, v) \<and> now_ms s < d"
  by (auto simp: live_def store_ok_def)

lemma live_entry: "store_ok s \<Longrightarrow> (k, d, v) \<in> set (live s) \<Longrightarrow> entry_ok (k, d, v)"
  by (auto simp: live_def store_ok_def)

lemma distinct_live: "store_ok s \<Longrightarrow> distinct (map fst (live s))"
  by (auto simp: live_def store_ok_def distinct_map intro: inj_on_subset)

lemma redis_get_live: "store_ok s \<Longrightarrow> (k, d, v) \<in> set (live s) \<Longrightarrow> redis_get k s = (Inr v, s)"
  using map_of_is_SomeI [OF distinct_live] by (fastforce simp: redis_get_def)

text \<open>\<open>stands_for\<close>: the pattern finds the live values with \<open>P\<close>.\<close>

definition stands_for :: "fenv \<Rightarrow> string \<Rightarrow> (redis_value \<Rightarrow> bool) \<Rightarrow> bool" where
  "stands_for ev pat P \<longleftrightarrow> (\<forall>k d v. entry_ok (k, d, v) \<longrightarrow> glob ev pat k = P v)"

lemma query_keys_mset:
  assumes "env_ok ev" "store_ok s" "stands_for ev pat P"
  shows "mset (query_keys ev pat s) = mset (map fst (filter (\<lambda>(_, _, v). P v) (live s)))"
proof -
  have "filter (\<lambda>(k, _). glob ev pat k) (live s) = filter (\<lambda>(_, _, v). P v) (live s)"
  proof (rule filter_cong [OF refl])
    fix x assume x: "x \<in> set (live s)"
    obtain k d v where kdv: "x = (k, d, v)" by (cases x)
    then have "glob ev pat k = P v"
      using live_entry [OF assms(2), of k d v] x assms(3) unfolding stands_for_def by blast
    then show "(case x of (k, _) \<Rightarrow> glob ev pat k) = (case x of (_, _, v) \<Rightarrow> P v)"
      by (simp add: kdv)
  qed
  with assms(1) show ?thesis by (simp add: query_keys_def env_ok_def)
qed

lemma query_keys_set:
  assumes "env_ok ev" "store_ok s" "stands_for ev pat P"
  shows "k \<in> set (query_keys ev pat s) \<longleftrightarrow> (\<exists>d v. (k, d, v) \<in> set (live s) \<and> P v)"
proof -
  have "set (query_keys ev pat s) = set (map fst (filter (\<lambda>(_, _, v). P v) (live s)))"
    using query_keys_mset [OF assms] by (metis set_mset_mset)
  also have "\<dots> = {k. \<exists>d v. (k, d, v) \<in> set (live s) \<and> P v}"
  proof (intro set_eqI iffI)
    fix k assume "k \<in> {k. \<exists>d v. (k, d, v) \<in> set (live s) \<and> P v}"
    then obtain d v where "(k, d, v) \<in> set (live s)" "P v" by blast
    then have "(k, d, v) \<in> set (filter (\<lambda>(_, _, v). P v) (live s))" by simp
    then show "k \<in> set (map fst (filter (\<lambda>(_, _, v). P v) (live s)))" by (metis fst_conv image_eqI set_map)
  next
    fix k assume "k \<in> set (map fst (filter (\<lambda>(_, _, v). P v) (live s)))"
    then obtain d v where "(k, d, v) \<in> set (live s)" "P v" by auto
    then show "k \<in> {k. \<exists>d v. (k, d, v) \<in> set (live s) \<and> P v}" by blast
  qed
  finally show ?thesis by blast
qed

lemma query_keys_none:
  assumes "env_ok ev" "store_ok s" "stands_for ev pat P" "\<forall>(k, d, v) \<in> set (live s). \<not> P v"
  shows "query_keys ev pat s = []"
proof -
  have "k \<notin> set (query_keys ev pat s)" for k using assms(4) query_keys_set [OF assms(1-3), of k] by blast
  then show ?thesis by (metis list.set_intros(1) neq_Nil_conv)
qed

lemma query_keys_one:
  assumes "env_ok ev" "store_ok s" "stands_for ev pat P"
    and "(k, d, v) \<in> set (live s)" "P v"
    and "\<And>k' d' v'. (k', d', v') \<in> set (live s) \<Longrightarrow> P v' \<Longrightarrow> k' = k"
  shows "query_keys ev pat s = [k]"
proof -
  have "set (query_keys ev pat s) = {k}" using query_keys_set [OF assms(1-3)] assms(4-6) by blast
  moreover have "distinct (query_keys ev pat s)"
  proof -
    have "distinct (map fst (filter (\<lambda>(_, _, v). P v) (live s)))"
      using distinct_live [OF assms(2)] by (simp add: distinct_map_filter)
    then show ?thesis using query_keys_mset [OF assms(1-3)] mset_eq_imp_distinct_iff by blast
  qed
  ultimately show ?thesis
    by (metis List.finite_set card.empty card.insert distinct_card distinct_singleton empty_iff
        finite.emptyI length_0_conv length_Suc_conv list.set(1) list.simps(15) singleton_insert_inj_eq')
qed

section \<open>Reading\<close>

lemma get_first_none:
  assumes "env_ok ev" "store_ok s" "stands_for ev pat P" "\<forall>(k, d, v) \<in> set (live s). \<not> P v"
  shows "get_first ev from pat s = (Inr None, s)"
  by (simp add: get_first_def svc_simps query_keys_none [OF assms])

lemma get_first_one:
  assumes "env_ok ev" "store_ok s" "stands_for ev pat P"
    and "(k, d, v) \<in> set (live s)" "P v" "from v = Some x"
    and "\<And>k' d' v'. (k', d', v') \<in> set (live s) \<Longrightarrow> P v' \<Longrightarrow> k' = k"
  shows "get_first ev from pat s = (Inr (Some x), s)"
  using query_keys_one [OF assms(1-5,7)] redis_get_live [OF assms(2,4)] assms(6)
  by (simp add: get_first_def svc_simps)

text \<open>In any case a value found is one the pattern stands for.\<close>

lemma get_first_found:
  assumes "env_ok ev" "store_ok s" "stands_for ev pat P"
    and "\<forall>v. P v \<longrightarrow> from v \<noteq> None"
  shows "\<exists>r. get_first ev from pat s = (Inr r, s) \<and>
    (case r of None \<Rightarrow> \<forall>(k, d, v) \<in> set (live s). \<not> P v
     | Some x \<Rightarrow> \<exists>(k, d, v) \<in> set (live s). P v \<and> from v = Some x)"
proof (cases "query_keys ev pat s")
  case Nil
  then show ?thesis
    using query_keys_set [OF assms(1-3)] by (auto simp: get_first_def svc_simps)
next
  case (Cons k ks)
  then have "k \<in> set (query_keys ev pat s)" by simp
  then obtain d v where e: "(k, d, v) \<in> set (live s)" "P v"
    using query_keys_set [OF assms(1-3), of k] by auto
  moreover obtain x where "from v = Some x" using assms(4) e(2) by blast
  ultimately show ?thesis
    using Cons redis_get_live [OF assms(2) e(1)]
    by (intro exI [of _ "Some x"]) (auto simp: get_first_def svc_simps)
qed

lemma get_all_one:
  assumes "env_ok ev" "store_ok s" "stands_for ev pat P"
    and "(k, d, v) \<in> set (live s)" "P v" "from v = Some x"
    and "\<And>k' d' v'. (k', d', v') \<in> set (live s) \<Longrightarrow> P v' \<Longrightarrow> k' = k"
  shows "get_all ev from pat s = (Inr [x], s)"
  using query_keys_one [OF assms(1-5,7)] redis_get_live [OF assms(2,4)] assms(6)
  by (simp add: get_all_def svc_simps)

lemma get_all_none:
  assumes "env_ok ev" "store_ok s" "stands_for ev pat P" "\<forall>(k, d, v) \<in> set (live s). \<not> P v"
  shows "get_all ev from pat s = (Inr [], s)"
  by (simp add: get_all_def svc_simps query_keys_none [OF assms])

section \<open>The contract of a pattern\<close>

text \<open>
  What the services rely on when they look a record up: the pattern \<open>pat\<close> matches, of the keys the
  repositories write, those of the values with \<open>P\<close>, and these are read by \<open>parse\<close>. \<open>ok\<close> is what the
  pattern itself has to be (a hash in a pattern has no special character). The repositories keep the
  contract by the keys they write, as the interpretations below show.
\<close>

locale key_pattern =
  fixes ok :: bool
    and ev :: fenv
    and pat :: string
    and P :: "redis_value \<Rightarrow> bool"
    and parse :: "redis_value \<Rightarrow> 'a option"
  assumes matches: "ok \<Longrightarrow> env_ok ev \<Longrightarrow> entry_ok (k, d, v) \<Longrightarrow> glob ev pat k = P v"
    and parses: "P v \<Longrightarrow> parse v \<noteq> None"
begin

lemma pattern: "ok \<Longrightarrow> env_ok ev \<Longrightarrow> stands_for ev pat P"
  by (simp add: stands_for_def matches)

lemma keys_set:
  "ok \<Longrightarrow> env_ok ev \<Longrightarrow> store_ok s \<Longrightarrow> k \<in> set (query_keys ev pat s) \<longleftrightarrow> (\<exists>d v. (k, d, v) \<in> set (live s) \<and> P v)"
  using query_keys_set pattern by blast

lemma keys_one:
  "ok \<Longrightarrow> env_ok ev \<Longrightarrow> store_ok s \<Longrightarrow> (k, d, v) \<in> set (live s) \<Longrightarrow> P v \<Longrightarrow>
   (\<And>k' d' v'. (k', d', v') \<in> set (live s) \<Longrightarrow> P v' \<Longrightarrow> k' = k) \<Longrightarrow> query_keys ev pat s = [k]"
  using query_keys_one pattern by blast

lemma first_none:
  "ok \<Longrightarrow> env_ok ev \<Longrightarrow> store_ok s \<Longrightarrow> \<forall>(k, d, v) \<in> set (live s). \<not> P v \<Longrightarrow> get_first ev parse pat s = (Inr None, s)"
  using get_first_none pattern by blast

lemma first_one:
  "ok \<Longrightarrow> env_ok ev \<Longrightarrow> store_ok s \<Longrightarrow> (k, d, v) \<in> set (live s) \<Longrightarrow> P v \<Longrightarrow> parse v = Some x \<Longrightarrow>
   (\<And>k' d' v'. (k', d', v') \<in> set (live s) \<Longrightarrow> P v' \<Longrightarrow> k' = k) \<Longrightarrow> get_first ev parse pat s = (Inr (Some x), s)"
  by (rule get_first_one [OF _ _ pattern])

lemma first_found:
  "ok \<Longrightarrow> env_ok ev \<Longrightarrow> store_ok s \<Longrightarrow> \<exists>r. get_first ev parse pat s = (Inr r, s) \<and>
    (case r of None \<Rightarrow> \<forall>(k, d, v) \<in> set (live s). \<not> P v
     | Some x \<Rightarrow> \<exists>(k, d, v) \<in> set (live s). P v \<and> parse v = Some x)"
  by (rule get_first_found [OF _ _ pattern]) (use parses in blast)+

lemma all_one:
  "ok \<Longrightarrow> env_ok ev \<Longrightarrow> store_ok s \<Longrightarrow> (k, d, v) \<in> set (live s) \<Longrightarrow> P v \<Longrightarrow> parse v = Some x \<Longrightarrow>
   (\<And>k' d' v'. (k', d', v') \<in> set (live s) \<Longrightarrow> P v' \<Longrightarrow> k' = k) \<Longrightarrow> get_all ev parse pat s = (Inr [x], s)"
  by (rule get_all_one [OF _ _ pattern])

lemma all_none:
  "ok \<Longrightarrow> env_ok ev \<Longrightarrow> store_ok s \<Longrightarrow> \<forall>(k, d, v) \<in> set (live s). \<not> P v \<Longrightarrow> get_all ev parse pat s = (Inr [], s)"
  using get_all_none pattern by blast

end

interpretation upload_by_id: key_pattern True ev "multipart_id_regex i"
  "\<lambda>v. \<exists>m. v = RMultipart m \<and> mp_meta_id m = i" as_multipart for ev i
  by unfold_locales (auto simp: env_ok_def glob_multipart_id)

interpretation upload_by_hash: key_pattern "clean h" ev "multipart_hash_regex h"
  "\<lambda>v. \<exists>m. v = RMultipart m \<and> mp_hash m = h" as_multipart for h ev
  by unfold_locales (auto simp: env_ok_def glob_multipart_hash)

interpretation moves_by_file: key_pattern True ev "any_user_key_regex (meta_id_key_regex i)"
  "\<lambda>v. \<exists>r. v = RMove r \<and> mr_meta_id r = i" as_move for ev i
  by unfold_locales (auto simp: env_ok_def glob_move_meta)

interpretation move_by_id: key_pattern True ev "any_user_key_regex (move_id_key_regex i)"
  "\<lambda>v. \<exists>r. v = RMove r \<and> mr_id r = i" as_move for ev i
  by unfold_locales (auto simp: env_ok_def glob_move_id)

interpretation snapshot_by_id: key_pattern True ev "any_user_key_regex (snapshot_id_regex i)"
  "\<lambda>v. \<exists>n. v = RSnapshot n \<and> sn_id n = i" as_snapshot for ev i
  by unfold_locales (auto simp: env_ok_def glob_snapshot_id)

interpretation snapshot_by_hash: key_pattern "clean h" ev "any_user_key_regex (snapshot_hash_regex h a)"
  "\<lambda>v. \<exists>n. v = RSnapshot n \<and> sn_hash n = h \<and> sn_hash_algorithm n = a" as_snapshot for h ev a
  by unfold_locales (auto simp: env_ok_def glob_snapshot_hash)

section \<open>Writing\<close>

lemma pset_ex_run:
  "0 < ttl \<Longrightarrow> pset_ex k v ttl s = (Inr (), s\<lparr>redis := AList.update k (now_ms s + ttl, v) (redis s)\<rparr>)"
  by (simp add: pset_ex_def)

lemma store_ok_update:
  assumes "store_ok s" "entry_ok (k, d, v)"
  shows "store_ok (s\<lparr>redis := AList.update k (d, v) (redis s)\<rparr>)"
proof -
  have dist: "distinct (map fst (AList.update k (d, v) (redis s)))"
    using assms(1) by (simp add: store_ok_def distinct_update)
  moreover have "entry_ok e" if "e \<in> set (AList.update k (d, v) (redis s))" for e
  proof -
    obtain j x where e: "e = (j, x)" by (cases e)
    then have "map_of (AList.update k (d, v) (redis s)) j = Some x" using dist that by simp
    then have "j = k \<and> x = (d, v) \<or> map_of (redis s) j = Some x"
      by (auto simp: update_conv' split: if_splits)
    then show ?thesis using assms by (auto simp: e store_ok_def dest: map_of_SomeD)
  qed
  ultimately show ?thesis by (simp add: store_ok_def)
qed

lemma live_update:
  assumes "store_ok s" "entry_ok (k, d, v)" "now_ms s < d"
  shows "(k', d', v') \<in> set (live (s\<lparr>redis := AList.update k (d, v) (redis s)\<rparr>)) \<longleftrightarrow>
    (if k' = k then d' = d \<and> v' = v else (k', d', v') \<in> set (live s))"
  using assms live_iff [OF store_ok_update [OF assms(1,2)], of k' d' v'] live_iff [OF assms(1), of k' d' v']
  by (auto simp: update_conv')

lemma store_ok_filter: "store_ok s \<Longrightarrow> store_ok (s\<lparr>redis := filter P (redis s)\<rparr>)"
  by (auto simp: store_ok_def distinct_map_filter)

lemma live_filter:
  "(k, d, v) \<in> set (live (s\<lparr>redis := filter P (redis s)\<rparr>)) \<longleftrightarrow> (k, d, v) \<in> set (live s) \<and> P (k, d, v)"
  by (auto simp: live_def)

text \<open>The store does not depend on the rest of the state.\<close>

lemma store_ok_frame [simp]:
  "store_ok (s\<lparr>scope := x1\<rparr>) = store_ok s" "store_ok (s\<lparr>disk := x2\<rparr>) = store_ok s"
  "store_ok (s\<lparr>upload_mq := x3\<rparr>) = store_ok s" "store_ok (s\<lparr>now_ms := x4\<rparr>) = store_ok s"
  by (simp_all add: store_ok_def)

lemma live_frame [simp]:
  "live (s\<lparr>scope := x1\<rparr>) = live s" "live (s\<lparr>disk := x2\<rparr>) = live s" "live (s\<lparr>upload_mq := x3\<rparr>) = live s"
  by (simp_all add: live_def)

end
