(* ===== verification/KF_Control.thy ===== *)
theory KF_Control
  imports KF_Mover
begin

text \<open>
  The requests on files: \<open>co/src/controllers/file_storage.rs\<close>. A response has the status and the
  content of \<open>ResponseBase\<close>; its message is left out. Ids that do not parse, and the authorisation
  macro, come before the bodies modelled here. The user of a request is set by \<open>new_scope\<close>.
\<close>

record 'a response =
  rp_status :: nat
  rp_content :: "'a option"

definition rp_ok :: "'a option \<Rightarrow> 'a response" where
  "rp_ok c = \<lparr>rp_status = 200, rp_content = c\<rparr>"

definition rp_err :: "nat \<Rightarrow> 'a response" where
  "rp_err n = \<lparr>rp_status = n, rp_content = None\<rparr>"

datatype prepare_result = Normal | Unfinished | FlashUploaded | ConflictedWithId

record prepare_response =
  pr_result :: prepare_result
  pr_id :: uuid

section \<open>Preparing an upload\<close>

text \<open>The replies to the two calls that may refuse: a flash upload, a conflict, or an error.\<close>

fun flash_reply :: "file_err \<Rightarrow> prepare_response response" where
  "flash_reply (MoveErr (FlashUpload _ _ _ already_id)) =
     rp_ok (Some \<lparr>pr_result = FlashUploaded, pr_id = already_id\<rparr>)"
| "flash_reply _ = rp_err 500"

fun create_reply :: "file_err \<Rightarrow> prepare_response response" where
  "create_reply (MultipartErr (ConflictedId i)) = rp_ok (Some \<lparr>pr_result = ConflictedWithId, pr_id = i\<rparr>)"
| "create_reply (MultipartErr (ConflictedHash i _)) = rp_ok (Some \<lparr>pr_result = Unfinished, pr_id = i\<rparr>)"
| "create_reply _ = rp_err 500"

text \<open>What the four requests have in common once the registration is made.\<close>

definition prepare_upload :: "fenv \<Rightarrow> move_registration \<Rightarrow> nat \<Rightarrow> prepare_response response fsvc" where
  "prepare_upload ev info parts =
     sbind (satt (if_possible_do_flash_upload ev info)) (\<lambda>r.
     case r of
       Inl e \<Rightarrow> sret (flash_reply e)
     | Inr _ \<Rightarrow>
         sbind (satt (multipart_create ev (mr_meta_id info) (mr_hash info) (mr_hash_algorithm info) parts))
           (\<lambda>r.
         case r of
           Inl e \<Rightarrow> sret (create_reply e)
         | Inr _ \<Rightarrow>
             sbind (satt (register_move ev info)) (\<lambda>r.
             case r of
               Inl _ \<Rightarrow> sret (rp_err 500)
             | Inr _ \<Rightarrow> sret (rp_ok (Some \<lparr>pr_result = Normal, pr_id = mr_meta_id info\<rparr>)))))"

record upload_request =
  rq_file_name :: string
  rq_hash :: string
  rq_hash_algorithm :: string
  rq_size :: nat
  rq_count :: nat

definition registration ::
  "uuid \<Rightarrow> uuid \<Rightarrow> upload_request \<Rightarrow> hash_algorithm \<Rightarrow> move_destination \<Rightarrow> uuid option \<Rightarrow> move_registration" where
  "registration i meta_id data algorithm destination user =
     \<lparr>mr_id = i, mr_meta_id = meta_id, mr_file_name = rq_file_name data,
      mr_hash = to_ascii_uppercase (rq_hash data), mr_hash_algorithm = algorithm,
      mr_size = rq_size data, mr_destination = destination, mr_is_upload_failed = False,
      mr_failed_reason = None, mr_user_id = user\<rparr>"

text \<open>\<open>unwrap_or(Uuid::new_v4())\<close> draws the id in every case.\<close>

definition id_or_fresh :: "fenv \<Rightarrow> uuid option \<Rightarrow> uuid fsvc" where
  "id_or_fresh ev i = sbind (fresh_uuid ev) (\<lambda>f. sret (case i of Some x \<Rightarrow> x | None \<Rightarrow> f))"

definition net_disk_destination :: "record_net_disk_kind \<Rightarrow> move_destination" where
  "net_disk_destination k = ToStorageServer (Some \<lparr>rn_file_type = Unkonwn, rn_kind = k\<rparr>)"

text \<open>The requests of a user, for a draft or for the net disk.\<close>

definition prepare_of_user ::
  "fenv \<Rightarrow> uuid \<Rightarrow> upload_request \<Rightarrow> uuid option \<Rightarrow> record_net_disk_kind \<Rightarrow> prepare_response response fsvc" where
  "prepare_of_user ev user data meta_id_given k =
     sthen (smodify (new_scope (Some user)))
       (sbind (id_or_fresh ev meta_id_given) (\<lambda>meta_id.
        case hash_algorithm_from_str (rq_hash_algorithm data) of
          None \<Rightarrow> sret (rp_err 400)
        | Some algorithm \<Rightarrow>
            sbind (fresh_uuid ev) (\<lambda>i.
            prepare_upload ev (registration i meta_id data algorithm (net_disk_destination k) None)
              (rq_count data))))"

definition create_multipart_from_flow_editor ::
  "fenv \<Rightarrow> uuid \<Rightarrow> upload_request \<Rightarrow> uuid option \<Rightarrow> uuid \<Rightarrow> prepare_response response fsvc" where
  "create_multipart_from_flow_editor ev user data meta_id_given flow_draft_uuid =
     prepare_of_user ev user data meta_id_given (FlowDraftFile flow_draft_uuid)"

definition prepare_partial_upload_from_net_disk ::
  "fenv \<Rightarrow> uuid \<Rightarrow> upload_request \<Rightarrow> uuid option \<Rightarrow> uuid option \<Rightarrow> prepare_response response fsvc" where
  "prepare_partial_upload_from_net_disk ev user data meta_id_given parent_id =
     prepare_of_user ev user data meta_id_given (NormalFile parent_id)"

text \<open>The requests of an agent have no user: the file belongs to the owner of the node's flow.\<close>

definition prepare_partial_upload_from_node_instance ::
  "fenv \<Rightarrow> upload_request \<Rightarrow> uuid \<Rightarrow> uuid \<Rightarrow> prepare_response response fsvc" where
  "prepare_partial_upload_from_node_instance ev data meta_id_given node_instance_uuid =
     sthen (smodify (new_scope None))
       (case hash_algorithm_from_str (rq_hash_algorithm data) of
          None \<Rightarrow> sret (rp_err 400)
        | Some algorithm \<Rightarrow>
            sbind (satt (on_scope (get_node_user_id node_instance_uuid))) (\<lambda>u.
            case u of
              Inl _ \<Rightarrow> sret (rp_err 500)
            | Inr user_id \<Rightarrow>
                sbind (fresh_uuid ev) (\<lambda>i.
                prepare_upload ev (registration i meta_id_given data algorithm
                  (net_disk_destination (NodeInstanceFile node_instance_uuid)) (Some user_id)) (rq_count data))))"

definition prepare_partial_upload_from_snapshot ::
  "fenv \<Rightarrow> upload_request \<Rightarrow> uuid \<Rightarrow> uuid \<Rightarrow> int \<Rightarrow> prepare_response response fsvc" where
  "prepare_partial_upload_from_snapshot ev data node_id file_id timestamp =
     sthen (smodify (new_scope None))
       (sbind (fresh_uuid ev) (\<lambda>meta_id.
        case hash_algorithm_from_str (rq_hash_algorithm data) of
          None \<Rightarrow> sret (rp_err 400)
        | Some algorithm \<Rightarrow>
            sbind (satt (on_scope (get_node_user_id node_id))) (\<lambda>u.
            case u of
              Inl _ \<Rightarrow> sret (rp_err 500)
            | Inr user_id \<Rightarrow>
                sbind (fresh_uuid ev) (\<lambda>i.
                prepare_upload ev (registration i meta_id data algorithm
                  (ToSnapshot node_id timestamp file_id) (Some user_id)) (rq_count data)))))"

section \<open>Parts, status, cancel and retry\<close>

text \<open>The reply to a part; the registered moves are made when none is missing.\<close>

definition partial_upload :: "fenv \<Rightarrow> uuid \<Rightarrow> nat \<Rightarrow> bytes list \<Rightarrow> nat list response fsvc" where
  "partial_upload ev meta_id n contents =
     sthen (smodify (new_scope None))
       (case contents of
          [content] \<Rightarrow>
            sbind (satt (complete_part ev \<lparr>pt_meta_id = meta_id, pt_content = content, pt_nth = n\<rparr>)) (\<lambda>r.
            case r of
              Inr missing \<Rightarrow>
                if missing = [] then
                  sbind (satt (do_registered_moves ev meta_id)) (\<lambda>m.
                  sret (case m of Inl _ \<Rightarrow> rp_err 500 | Inr _ \<Rightarrow> rp_ok None))
                else sret (rp_ok (Some missing))
            | Inl (MultipartErr (MultipartNotFound _)) \<Rightarrow> sret (rp_err 400)
            | Inl (MultipartErr (DifferentHashs i origin completed)) \<Rightarrow>
                sthen (satt (set_all_moves_with_same_meta_id_as_failed ev meta_id
                    (hash_error_text i origin completed)))
                  (sret (rp_err 400))
            | Inl _ \<Rightarrow> sret (rp_err 500))
        | _ \<Rightarrow> sret (rp_err 400))"

record partial_upload_info =
  pi_file_metadata_id :: uuid
  pi_hash :: string
  pi_hash_algorithm :: string
  pi_shards :: "bool list"
  pi_is_upload_failed :: bool
  pi_failed_reason :: "string option"

definition get_partial_upload_info :: "fenv \<Rightarrow> uuid \<Rightarrow> partial_upload_info response fsvc" where
  "get_partial_upload_info ev i =
     sthen (smodify (new_scope None))
       (sbind (satt (multipart_info ev i)) (\<lambda>r.
        case r of
          Inl _ \<Rightarrow> sret (rp_err 400)
        | Inr el \<Rightarrow>
            sbind (satt (get_meta_id_failed_info ev i)) (\<lambda>f.
            sret (case f of
                    Inl _ \<Rightarrow> rp_err 500
                  | Inr (failed, reason) \<Rightarrow>
                      rp_ok (Some \<lparr>pi_file_metadata_id = mp_meta_id el, pi_hash = mp_hash el,
                        pi_hash_algorithm = show_hash_algorithm (mp_hash_algorithm el),
                        pi_shards = mp_parts el, pi_is_upload_failed = failed,
                        pi_failed_reason = reason\<rparr>)))))"

definition cancel_partial_upload :: "fenv \<Rightarrow> uuid \<Rightarrow> string response fsvc" where
  "cancel_partial_upload ev i =
     sthen (smodify (new_scope None))
       (sbind (satt (multipart_remove ev i)) (\<lambda>r.
        case r of
          Inl _ \<Rightarrow> sret (rp_err 500)
        | Inr _ \<Rightarrow>
            sbind (satt (remove_all_with_meta_id ev i)) (\<lambda>r.
            sret (case r of Inl _ \<Rightarrow> rp_err 500 | Inr _ \<Rightarrow> rp_ok None))))"

definition retry_partial_upload :: "fenv \<Rightarrow> uuid \<Rightarrow> string response fsvc" where
  "retry_partial_upload ev i =
     sthen (smodify (new_scope None))
       (sbind (satt (do_registered_moves ev i)) (\<lambda>r.
        sret (case r of Inl _ \<Rightarrow> rp_err 400 | Inr _ \<Rightarrow> rp_ok None)))"

definition upload_realtime_file :: "fenv \<Rightarrow> uuid \<Rightarrow> string \<Rightarrow> string response fsvc" where
  "upload_realtime_file ev request_id content =
     sthen (smodify (new_scope None))
       (sbind (satt (send_realtime ev request_id content)) (\<lambda>r.
        sret (case r of Inl _ \<Rightarrow> rp_err 500 | Inr _ \<Rightarrow> rp_ok None)))"

end
