(* ===== verification/KF_Parts.thy ===== *)
theory KF_Parts
  imports KF_Lookup KF_Control
begin

text \<open>
  Uploads in parts: what the requests do to the record and the cache, from the announcement of an
  upload to the merged file.
\<close>

section \<open>The record of an upload\<close>

definition upload_record :: "fstate \<Rightarrow> uuid \<Rightarrow> multipart \<Rightarrow> bool" where
  "upload_record s i m \<longleftrightarrow> mp_meta_id m = i \<and> clean (mp_hash m) \<and>
     (\<exists>d. (id_hash_key i (mp_hash m), d, RMultipart m) \<in> set (live s)) \<and>
     (\<forall>k d m'. (k, d, RMultipart m') \<in> set (live s) \<longrightarrow> mp_meta_id m' = i \<longrightarrow> m' = m)"

lemma entry_multipart:
  "entry_ok (k, d, RMultipart m) \<longleftrightarrow> k = id_hash_key (mp_meta_id m) (mp_hash m) \<and> clean (mp_hash m)"
  by (auto simp: entry_ok_def id_hash_key_def)

lemma entry_multipart_key:
  assumes e: "entry_ok (id_hash_key i h, d, v)" and h: "clean h"
  shows "\<exists>m. v = RMultipart m"
proof -
  have eq: "id_hash_key i h = join ''_'' [''multipart'', show_uuid i, h]" by (simp add: id_hash_key_def)
  have no: "clean x \<Longrightarrow> CHR ''_'' \<notin> set x" for x by (simp add: clean_def)
  obtain u where u: "id_hash_key i h = join ''_'' (key_parts u v)" "\<forall>x \<in> set (key_parts u v). clean x"
    using e unfolding entry_ok_def by auto
  have "[''multipart'', show_uuid i, h] = key_parts u v"
    by (rule join_inj) (use u h eq no in \<open>auto simp del: clean_simps\<close>)
  then show ?thesis by (cases v) auto
qed

lemma multipart_get_record:
  assumes "env_ok ev" "store_ok s" "upload_record s i m"
  shows "multipart_get_one ev (multipart_id_regex i) s = (Inr (Some m), s)"
proof -
  obtain d where e: "(id_hash_key i (mp_hash m), d, RMultipart m) \<in> set (live s)"
    and id: "mp_meta_id m = i" using assms(3) unfolding upload_record_def by blast
  have only: "k = id_hash_key i (mp_hash m)"
    if "(k, d', v) \<in> set (live s)" and v: "\<exists>m'. v = RMultipart m' \<and> mp_meta_id m' = i" for k d' v
  proof -
    obtain m' where m': "v = RMultipart m'" "mp_meta_id m' = i" using v by blast
    with that(1) assms(3) have "m' = m" unfolding upload_record_def by blast
    with live_entry [OF assms(2) that(1)] m' show ?thesis by (simp add: entry_multipart)
  qed
  show ?thesis
    unfolding multipart_get_one_def
    by (rule upload_by_id.first_one [OF TrueI assms(1,2) e]) (use id only in auto)
qed

lemma multipart_no_record:
  assumes "env_ok ev" "store_ok s" "\<forall>(k, d, v) \<in> set (live s). \<forall>m. v = RMultipart m \<longrightarrow> mp_meta_id m \<noteq> i"
  shows "multipart_get_one ev (multipart_id_regex i) s = (Inr None, s)"
  unfolding multipart_get_one_def
  by (rule upload_by_id.first_none [OF TrueI assms(1,2)]) (use assms(3) in auto)

text \<open>The entries of other kinds are the same.\<close>

definition other_live :: "fstate \<Rightarrow> fstate \<Rightarrow> bool" where
  "other_live t s \<longleftrightarrow>
     (\<forall>k d v. as_multipart v = None \<longrightarrow> (k, d, v) \<in> set (live t) \<longleftrightarrow> (k, d, v) \<in> set (live s))"

lemma multipart_write_other:
  assumes "store_ok s" "clean h" "entry_ok (id_hash_key i h, d, RMultipart m)" "now_ms s < d"
  shows "other_live (s\<lparr>redis := AList.update (id_hash_key i h) (d, RMultipart m) (redis s)\<rparr>) s"
  unfolding other_live_def
proof (intro allI impI)
  fix k d' v assume v: "as_multipart v = None"
  have "(id_hash_key i h, x, v) \<notin> set (live s)" for x
  proof
    assume "(id_hash_key i h, x, v) \<in> set (live s)"
    from entry_multipart_key [OF live_entry [OF assms(1) this] assms(2)] v show False by auto
  qed
  then show "(k, d', v) \<in> set (live (s\<lparr>redis := AList.update (id_hash_key i h) (d, RMultipart m) (redis s)\<rparr>)) \<longleftrightarrow>
      (k, d', v) \<in> set (live s)"
    using live_update [OF assms(1,3,4), of k d' v] v by (cases "k = id_hash_key i h") auto
qed

lemma record_written:
  assumes "store_ok s" "mp_meta_id m = i" "clean (mp_hash m)" "0 < ttl"
    and "\<And>k d m'. (k, d, RMultipart m') \<in> set (live s) \<Longrightarrow> mp_meta_id m' = i \<Longrightarrow> mp_hash m' = mp_hash m"
  shows "\<exists>t. pset_ex (id_hash_key i (mp_hash m)) (RMultipart m) ttl s = (Inr (), t) \<and> store_ok t \<and>
    upload_record t i m \<and> disk t = disk s \<and> now_ms t = now_ms s \<and>
    upload_mq t = upload_mq s \<and> other_live t s \<and> scope t = scope s"
proof -
  let ?k = "id_hash_key i (mp_hash m)" and ?d = "now_ms s + ttl"
  let ?t = "s\<lparr>redis := AList.update ?k (?d, RMultipart m) (redis s)\<rparr>"
  have e: "entry_ok (?k, ?d, RMultipart m)" using assms(2,3) by (simp add: entry_multipart)
  have lt: "now_ms s < ?d" using assms(4) by simp
  have ok: "store_ok ?t" by (rule store_ok_update [OF assms(1) e])
  have only: "m' = m" if k: "(k, d, RMultipart m') \<in> set (live ?t)" and id: "mp_meta_id m' = i" for k d m'
  proof (cases "k = ?k")
    case True
    then show ?thesis using k live_update [OF assms(1) e lt, of k d "RMultipart m'"] by simp
  next
    case False
    then have old: "(k, d, RMultipart m') \<in> set (live s)"
      using k live_update [OF assms(1) e lt, of k d "RMultipart m'"] by simp
    then have "k = ?k" using live_entry [OF assms(1) old] assms(5) [OF old id] id by (simp add: entry_multipart)
    with False show ?thesis by simp
  qed
  have "upload_record ?t i m"
    unfolding upload_record_def using assms(2,3) only live_update [OF assms(1) e lt, of ?k ?d "RMultipart m"] by auto
  moreover have "other_live ?t s" by (rule multipart_write_other [OF assms(1,3) e lt])
  ultimately show ?thesis using ok by (simp add: pset_ex_run assms(4))
qed

text \<open>A record is replaced by one of the same id and hash.\<close>

lemma record_replaced:
  assumes "store_ok s" "upload_record s i m" "0 < ttl" "mp_meta_id m' = mp_meta_id m" "mp_hash m' = mp_hash m"
  shows "\<exists>t. pset_ex (id_hash_key i (mp_hash m')) (RMultipart m') ttl s = (Inr (), t) \<and> store_ok t \<and>
    upload_record t i m' \<and> disk t = disk s \<and> now_ms t = now_ms s \<and>
    upload_mq t = upload_mq s \<and> other_live t s \<and> scope t = scope s"
proof (rule record_written [OF assms(1) _ _ assms(3)])
  show "mp_meta_id m' = i" "clean (mp_hash m')" using assms(2,4,5) by (simp_all add: upload_record_def)
  show "mp_hash x = mp_hash m'" if "(k, d, RMultipart x) \<in> set (live s)" "mp_meta_id x = i" for k d x
  proof -
    have "x = m" using assms(2) that unfolding upload_record_def by blast
    then show ?thesis using assms(5) by simp
  qed
qed

lemma multipart_get_id:
  assumes "env_ok ev" "store_ok s"
  shows "\<exists>r. multipart_get_one ev (multipart_id_regex i) s = (Inr r, s) \<and>
    (r = None \<longrightarrow> (\<forall>(k, d, v) \<in> set (live s). \<not> (\<exists>m. v = RMultipart m \<and> mp_meta_id m = i)))"
proof -
  from upload_by_id.first_found [OF TrueI assms, of i]
  show ?thesis unfolding multipart_get_one_def by (metis (no_types, lifting) option.simps(4))
qed

lemma multipart_get_hash:
  assumes "env_ok ev" "store_ok s" "clean h"
  shows "\<exists>r. multipart_get_one ev (multipart_hash_regex h) s = (Inr r, s)"
proof -
  from upload_by_hash.first_found [OF assms(3,1,2)]
  show ?thesis unfolding multipart_get_one_def by blast
qed

text \<open>An announced upload has its record, with no part there.\<close>

lemma multipart_create_record:
  assumes "env_ok ev" "store_ok s" "clean h" "0 < multipart_exp ev"
    and "multipart_create ev i h a n s = (Inr (), t)"
  shows "store_ok t \<and> upload_record t i \<lparr>mp_meta_id = i, mp_hash = h, mp_hash_algorithm = a,
    mp_parts = replicate n False\<rparr> \<and> disk t = disk s \<and> now_ms t = now_ms s \<and>
    upload_mq t = upload_mq s \<and> other_live t s \<and> scope t = scope s"
proof -
  let ?m = "\<lparr>mp_meta_id = i, mp_hash = h, mp_hash_algorithm = a, mp_parts = replicate n False\<rparr>"
  obtain r where r: "multipart_get_one ev (multipart_id_regex i) s = (Inr r, s)"
    "r = None \<Longrightarrow> \<forall>(k, d, v) \<in> set (live s). \<not> (\<exists>m. v = RMultipart m \<and> mp_meta_id m = i)"
    using multipart_get_id [OF assms(1,2)] by blast
  obtain q where q: "multipart_get_one ev (multipart_hash_regex h) s = (Inr q, s)"
    using multipart_get_hash [OF assms(1-3)] by blast
  have "q = None" "r = None" and run: "pset_ex (id_hash_key i h) (RMultipart ?m) (multipart_exp ev) s = (Inr (), t)"
    using assms(5) r(1) q
    by (auto simp: multipart_create_def multipart_insert_def svc_simps split: option.splits if_splits)
  then have none: "(k, d, RMultipart m') \<in> set (live s) \<Longrightarrow> mp_meta_id m' \<noteq> i" for k d m'
    using r(2) by fastforce
  show ?thesis
    using record_written [OF assms(2), of ?m i "multipart_exp ev"] none assms(3,4) run by fastforce
qed

section \<open>One part\<close>

definition the_part :: "uuid \<Rightarrow> (nat \<Rightarrow> bytes) \<Rightarrow> nat \<Rightarrow> part" where
  "the_part i content n = \<lparr>pt_meta_id = i, pt_content = content n, pt_nth = n\<rparr>"

text \<open>The parts in \<open>there\<close> are cached and marked in the record.\<close>

definition uploaded :: "fstate \<Rightarrow> uuid \<Rightarrow> multipart \<Rightarrow> (nat \<Rightarrow> bytes) \<Rightarrow> nat set \<Rightarrow> bool" where
  "uploaded s i m content there \<longleftrightarrow> store_ok s \<and> upload_record s i m \<and>
     mp_parts m = map (\<lambda>k. k \<in> there) [0..<length (mp_parts m)] \<and>
     (\<forall>k \<in> there. map_of (disk s) (PartPath i k) = Some (content k))"

definition missing :: "nat \<Rightarrow> nat set \<Rightarrow> nat list" where
  "missing n there = filter (\<lambda>k. k \<notin> there) [0..<n]"

lemma unfinished_missing:
  "mp_parts m = map (\<lambda>k. k \<in> there) [0..<n] \<Longrightarrow> unfinished_parts m = missing n there"
proof -
  have "map fst (filter (\<lambda>(_, el). \<not> el) (enumerate j (map (\<lambda>k. k \<in> there) [j..<j + n]))) =
      filter (\<lambda>k. k \<notin> there) [j..<j + n]" for j n
  proof (induction n arbitrary: j)
    case (Suc n)
    from Suc [of "Suc j"] show ?case by (simp add: upt_add_Suc del: upt_Suc)
  qed simp
  from this [of 0 n] show "mp_parts m = map (\<lambda>k. k \<in> there) [0..<n] \<Longrightarrow> unfinished_parts m = missing n there"
    by (simp add: unfinished_parts_def missing_def)
qed

lemma mark_part: "(map (\<lambda>k. k \<in> there) [0..<n])[j := True] = map (\<lambda>k. k \<in> insert j there) [0..<n]"
  by (cases "j < n") (auto simp: list_eq_iff_nth_eq nth_list_update list_update_beyond)

text \<open>A part is cached and marked; what follows is \<open>store_marked\<close> on the new record.\<close>

lemma complete_part_marks:
  assumes "env_ok ev" "uploaded s i m content there" "j < length (mp_parts m)"
  shows "complete_part ev (the_part i content j) s =
      store_marked ev i (m\<lparr>mp_parts := (mp_parts m)[j := True]\<rparr>)
        (s\<lparr>disk := AList.update (PartPath i j) (content j) (disk s)\<rparr>)"
proof -
  let ?s = "s\<lparr>disk := AList.update (PartPath i j) (content j) (disk s)\<rparr>"
  have "store_ok ?s" "upload_record ?s i m"
    using assms(2) by (simp_all add: uploaded_def upload_record_def)
  from multipart_get_record [OF assms(1) this]
  show ?thesis
    using assms(3)
    by (simp add: complete_part_def the_part_def load_marked_def svc_simps write_file_def)
qed

lemma part_stored:
  assumes "env_ok ev" "0 < multipart_exp ev" "uploaded s i m content there" "j < length (mp_parts m)"
    and "there \<subseteq> {..<length (mp_parts m)}"
  shows "\<exists>t. complete_part ev (the_part i content j) s =
      (if missing (length (mp_parts m)) (insert j there) \<noteq> [] then sret (missing (length (mp_parts m)) (insert j there))
       else merge_parts ev i (m\<lparr>mp_parts := (mp_parts m)[j := True]\<rparr>)) t \<and>
    uploaded t i (m\<lparr>mp_parts := (mp_parts m)[j := True]\<rparr>) content (insert j there) \<and>
    upload_mq t = upload_mq s \<and> other_live t s \<and>
    map_of (disk t) (SnapshotPath i) = map_of (disk s) (SnapshotPath i)"
proof -
  let ?n = "length (mp_parts m)" and ?m = "m\<lparr>mp_parts := (mp_parts m)[j := True]\<rparr>"
  let ?s = "s\<lparr>disk := AList.update (PartPath i j) (content j) (disk s)\<rparr>"
  have up: "store_ok s" "upload_record s i m" "mp_parts m = map (\<lambda>k. k \<in> there) [0..<?n]"
    "\<forall>k \<in> there. map_of (disk s) (PartPath i k) = Some (content k)"
    using assms(3) unfolding uploaded_def by blast+
  have "upload_record ?s i m" using up(2) by (simp add: upload_record_def)
  then obtain t where t: "pset_ex (id_hash_key i (mp_hash ?m)) (RMultipart ?m) (multipart_exp ev) ?s = (Inr (), t)"
    "store_ok t" "upload_record t i ?m" "disk t = disk ?s" "upload_mq t = upload_mq ?s" "other_live t ?s"
    using record_replaced [of ?s i m "multipart_exp ev" ?m] up(1) assms(2) by auto
  have "(mp_parts m)[j := True] = (map (\<lambda>k. k \<in> there) [0..<?n])[j := True]"
    by (rule arg_cong [OF up(3)])
  also have "\<dots> = map (\<lambda>k. k \<in> insert j there) [0..<?n]" by (rule mark_part)
  finally have parts: "mp_parts ?m = map (\<lambda>k. k \<in> insert j there) [0..<?n]" by simp
  have "complete_part ev (the_part i content j) s =
      (if missing ?n (insert j there) \<noteq> [] then sret (missing ?n (insert j there)) else merge_parts ev i ?m) t"
    using complete_part_marks [OF assms(1,3,4)] t(1) unfinished_missing [OF parts]
    by (simp add: store_marked_def multipart_update_def sthen_run)
  moreover have "uploaded t i ?m content (insert j there)"
    unfolding uploaded_def using t(2-4) parts up(4) by (simp add: update_conv')
  ultimately show ?thesis using t(4-6) by (intro exI [of _ t]) (simp add: other_live_def update_conv')
qed

section \<open>All parts\<close>

text \<open>
  The parts are stored one after the other, by \<open>complete_part\<close> or by the request that calls it: each
  reply tells what is missing, the queue and the other entries of the store stay.
\<close>

lemma loop_of_parts:
  assumes step: "\<And>s m there j. uploaded s i m content there \<Longrightarrow> length (mp_parts m) = n \<Longrightarrow> j < n \<Longrightarrow>
      there \<subseteq> {..<n} \<Longrightarrow> missing n (insert j there) \<noteq> [] \<Longrightarrow>
      \<exists>t. f j s = (Inr (g (missing n (insert j there))), t) \<and>
        uploaded t i (m\<lparr>mp_parts := (mp_parts m)[j := True]\<rparr>) content (insert j there) \<and>
        upload_mq t = upload_mq s \<and> other_live t s"
    and "uploaded s i m content there" "set xs \<subseteq> {..<n}" "there \<subseteq> {..<n}" "length (mp_parts m) = n"
    and "{..<n} - (there \<union> set xs) \<noteq> {}"
  shows "\<exists>t p. smap f xs s = (Inr (map (\<lambda>j. g (missing n (there \<union> set (take (Suc j) xs)))) [0..<length xs]), t) \<and>
    uploaded t i (m\<lparr>mp_parts := p\<rparr>) content (there \<union> set xs) \<and> length p = n \<and>
    upload_mq t = upload_mq s \<and> other_live t s"
  using assms(2-6)
proof (induction xs arbitrary: s m there)
  case Nil
  then show ?case
    by (intro exI [of _ s] exI [of _ "mp_parts m"]) (simp add: sret_run other_live_def)
next
  case (Cons j xs)
  let ?m = "m\<lparr>mp_parts := (mp_parts m)[j := True]\<rparr>"
  have "missing n (insert j there) \<noteq> []"
    using Cons.prems(5) by (auto simp: missing_def filter_empty_conv)
  then obtain t where t: "f j s = (Inr (g (missing n (insert j there))), t)"
    "uploaded t i ?m content (insert j there)" "upload_mq t = upload_mq s" "other_live t s"
    using step [OF Cons.prems(1,4), of j] Cons.prems(2,3) by auto
  obtain u p where u: "smap f xs t =
      (Inr (map (\<lambda>k. g (missing n (insert j there \<union> set (take (Suc k) xs)))) [0..<length xs]), u)"
    "uploaded u i (?m\<lparr>mp_parts := p\<rparr>) content (insert j there \<union> set xs)" "length p = n"
    "upload_mq u = upload_mq t" "other_live u t"
    using Cons.IH [OF t(2)] Cons.prems(2-5) by auto
  have "map (\<lambda>k. g (missing n (there \<union> set (take (Suc k) (j # xs))))) [0..<length (j # xs)] =
      g (missing n (insert j there)) # map (\<lambda>k. g (missing n (insert j there \<union> set (take (Suc k) xs)))) [0..<length xs]"
    by (simp add: upt_conv_Cons map_Suc_upt [symmetric] del: upt_Suc)
  with t u show ?case
    by (intro exI [of _ u] exI [of _ p]) (simp add: sbind_run sret_run other_live_def)
qed

lemma parts_loop:
  assumes "env_ok ev" "0 < multipart_exp ev" "uploaded s i m content there"
    and "set xs \<subseteq> {..<n}" "there \<subseteq> {..<n}" "length (mp_parts m) = n" "{..<n} - (there \<union> set xs) \<noteq> {}"
  shows "\<exists>t p. smap (\<lambda>j. complete_part ev (the_part i content j)) xs s =
      (Inr (map (\<lambda>j. missing n (there \<union> set (take (Suc j) xs))) [0..<length xs]), t) \<and>
    uploaded t i (m\<lparr>mp_parts := p\<rparr>) content (there \<union> set xs) \<and> length p = n"
proof -
  have step: "\<exists>t. complete_part ev (the_part i content j) s = (Inr (missing n (insert j there)), t) \<and>
      uploaded t i (m\<lparr>mp_parts := (mp_parts m)[j := True]\<rparr>) content (insert j there) \<and>
      upload_mq t = upload_mq s \<and> other_live t s"
    if "uploaded s i m content there" "length (mp_parts m) = n" "j < n" "there \<subseteq> {..<n}"
      "missing n (insert j there) \<noteq> []" for s m there j
    using part_stored [OF assms(1,2) that(1), of j] that(2-5) by (auto simp: sret_run)
  show ?thesis using loop_of_parts [where g = "\<lambda>x. x", OF step assms(3-7)] by blast
qed

lemma smap_snoc:
  "smap f (xs @ [x]) s = sbind (smap f xs) (\<lambda>ys. sbind (f x) (\<lambda>y. sret (ys @ [y]))) s"
  by (induction xs arbitrary: s) (auto simp: svc_simps split: prod.splits sum.splits)

lemma read_parts:
  assumes "\<forall>k \<in> set ks. map_of (disk s) (PartPath i k) = Some (content k)"
  shows "smap (\<lambda>n. cache_read (ReadPart i n)) ks s = (Inr (map content ks), s)"
  using assms by (induction ks) (simp_all add: svc_simps read_cached_def)

text \<open>With all parts there and the right hash, the parts are merged and their directory removed.\<close>

lemma merge_parts_run:
  assumes "uploaded s i m content {..<n}" "length (mp_parts m) = n" "0 < n"
    and "mp_hash m = file_hash ev (mp_hash_algorithm m) (concat (map content [0..<n]))"
  shows "\<exists>t. merge_parts ev i m s = (Inr [], t) \<and>
    map_of (disk t) (NormalPath i) = Some (concat (map content [0..<n])) \<and>
    (\<forall>p. map_of (disk t) (PartPath i p) = None) \<and> redis t = redis s \<and> now_ms t = now_ms s \<and> scope t = scope s \<and>
    upload_mq t = upload_mq s \<and> map_of (disk t) (SnapshotPath i) = map_of (disk s) (SnapshotPath i)"
proof -
  let ?c = "concat (map content [0..<n])"
  let ?t = "s\<lparr>disk := AList.update (NormalPath i) ?c (disk s)\<rparr>"
  have read: "smap (\<lambda>k. cache_read (ReadPart i k)) [0..<length (mp_parts m)] s = (Inr (map content [0..<n]), s)"
    using read_parts [of "[0..<n]" s i content] assms(1,2) by (simp add: uploaded_def)
  then have read': "smap (\<lambda>k. read_cached (PartPath i k)) [0..<length (mp_parts m)] s = (Inr (map content [0..<n]), s)"
    by simp
  have "map_of (disk ?t) (PartPath i 0) = Some (content 0)"
    using assms(1,3) by (simp add: uploaded_def update_conv')
  then have "(PartPath i 0, content 0) \<in> set (disk ?t)" by (rule map_of_SomeD)
  then have dir: "list_ex (\<lambda>(p, _). in_multipart_dir i p) (disk ?t)"
    by (auto simp: list_ex_iff intro!: bexI [of _ "(PartPath i 0, content 0)"])
  let ?u = "?t\<lparr>disk := filter (\<lambda>(p, _). \<not> in_multipart_dir i p) (disk ?t)\<rparr>"
  have run: "merge_parts ev i m s = (Inr [], ?u)"
    using assms(4) dir by (simp add: merge_parts_def Let_def svc_simps read' write_file_def)
  have keep: "map_of (filter (\<lambda>(p, _). \<not> in_multipart_dir i p) l) q =
      (if in_multipart_dir i q then None else map_of l q)" for l :: "(cache_path \<times> bytes) list" and q
    by (induction l) auto
  show ?thesis using run by (intro exI [of _ ?u]) (simp add: keep update_conv')
qed

end
