(* ===== verification/KF_Records.thy ===== *)
theory KF_Records
  imports KF_Control
begin

text \<open>
  Frames of the file operations: what is recorded in the file tables stays there, what only reads
  leaves the state as it is, and the database side of an operation does not touch the store.
\<close>

section \<open>Rows stay\<close>

definition recorded :: "file_meta_row \<Rightarrow> file_storage_row \<Rightarrow> kstate \<Rightarrow> bool" where
  "recorded r q k \<longleftrightarrow> r \<in> set (file_metadata (file_tabs (db k))) \<and> q \<in> set (file_storages (file_tabs (db k)))"

lemma exec_file_grows:
  assumes "exec_file st d = Some d'"
  shows "set (file_metadata d) \<subseteq> set (file_metadata d') \<and> set (file_storages d) \<subseteq> set (file_storages d') \<and>
    set (file_system d) \<subseteq> set (file_system d')"
  using assms by (cases st) (auto split: if_splits)

lemma exec_stmt_grows:
  "exec_stmt st d = Some d' \<Longrightarrow> set (file_metadata (file_tabs d)) \<subseteq> set (file_metadata (file_tabs d')) \<and>
    set (file_storages (file_tabs d)) \<subseteq> set (file_storages (file_tabs d')) \<and>
    set (file_system (file_tabs d)) \<subseteq> set (file_system (file_tabs d'))"
proof (cases st)
  case (FileStmt f)
  assume "exec_stmt st d = Some d'"
  with FileStmt show ?thesis using exec_file_grows [of f "file_tabs d"] by auto
qed (auto split: if_splits)

lemma run_stmts_grows:
  "run_stmts exec_stmt sts d = Some d' \<Longrightarrow> set (file_metadata (file_tabs d)) \<subseteq> set (file_metadata (file_tabs d')) \<and>
    set (file_storages (file_tabs d)) \<subseteq> set (file_storages (file_tabs d')) \<and>
    set (file_system (file_tabs d)) \<subseteq> set (file_system (file_tabs d'))"
proof (induction sts arbitrary: d)
  case (Cons st sts)
  then obtain e where "exec_stmt st d = Some e" "run_stmts exec_stmt sts e = Some d'"
    by (auto split: option.splits)
  with Cons.IH [of e] exec_stmt_grows [of st d e] show ?case by blast
qed simp

lemma keeps_on_scope [keeps_intro]: "keeps P m \<Longrightarrow> keeps (\<lambda>s. P (scope s)) (on_scope m)"
  by (auto simp: keeps_def on_scope_def split: prod.splits sum.splits)

lemma recorded_save: "keeps (recorded r q) save_changed"
  by (auto simp: keeps_def save_changed_def recorded_def split: option.splits dest: run_stmts_grows)

lemma recorded_steps [keeps_intro]:
  "keeps (recorded r q) (draw_uuid g)" "keeps (recorded r q) (smodify (push_stmt st))"
  "keeps (recorded r q) (read_db f)" "keeps (recorded r q) (\<lambda>s. (repo_user s u, s))"
  by (auto simp: keeps_def recorded_def draw_uuid_def smodify_def push_stmt_def read_db_def)

abbreviation stays :: "file_meta_row \<Rightarrow> file_storage_row \<Rightarrow> 'a fsvc \<Rightarrow> bool" where
  "stays r q m \<equiv> keeps (\<lambda>s. recorded r q (scope s)) m"

lemma stays_steps [keeps_intro]:
  "stays r q (fresh_uuid ev)" "stays r q (push_file st)" "stays r q files_save_changed"
  "stays r q (scope_user u)" "stays r q (file_rows f)" "stays r q (first_row P)"
  by (auto simp: fresh_uuid_def push_file_def files_save_changed_def scope_user_def file_rows_def
      first_row_def intro!: keeps_intro recorded_save)

lemmas net_disk_reads = repo_get_root_id_def get_flow_draft_dir_id_def get_node_instance_dir_id_def
  get_flow_instance_dir_id_def is_same_pid_fname_exists_def get_flow_draft_root_id_def
  get_flow_instance_root_id_def

lemma stays_net_disk_reads [keeps_intro]:
  "stays r q (repo_get_root_id u)" "stays r q (get_flow_draft_dir_id i)" "stays r q (get_node_instance_dir_id i)"
  "stays r q (get_flow_instance_dir_id i)" "stays r q (is_same_pid_fname_exists p n u)"
  "stays r q get_flow_draft_root_id" "stays r q (get_flow_instance_root_id u)"
  by (auto simp: net_disk_reads Let_def intro!: keeps_intro)

lemma stays_net_disk_writes [keeps_intro]:
  "stays r q (net_get_root_id u)" "stays r q (fix_file_name ev p n u)" "stays r q (insert_and_save e)"
  by (auto simp: net_get_root_id_def fix_file_name_def insert_and_save_def net_disk_insert_def
      create_root_def Let_def intro!: keeps_intro)

lemma stays_dirs [keeps_intro]:
  "stays r q (get_or_create_flow_draft_dir i n)" "stays r q (get_or_create_flow_instance_dir i n u)"
  by (auto simp: get_or_create_flow_draft_dir_def get_or_create_flow_instance_dir_def intro!: keeps_intro)

lemma stays_gets [keeps_intro]:
  "stays r q (on_scope (node_get_by_id i))" "stays r q (on_scope (flow_get_by_id i))"
  "stays r q (on_scope (draft_get_by_id i))"
  by (auto simp: keeps_def on_scope_def recorded_def node_get_by_id_def flow_get_by_id_def
      draft_get_by_id_def read_db_def split: prod.splits sum.splits option.splits)

lemma stays_node_dir [keeps_intro]: "stays r q (get_or_create_node_instance_dir i f n m u)"
  unfolding get_or_create_node_instance_dir_def by (intro keeps_intro)

lemma stays_create_file: "stays r q (net_disk_create_file ev c)"
  unfolding net_disk_create_file_def create_node_instance_file_def create_flow_draft_file_def
    create_normal_file_def Let_def
  by (cases "cf_kind c") (simp_all, (intro keeps_intro)+)

section \<open>Reads leave the state\<close>

lemma redis_get_state: "redis_get k s = (x, t) \<Longrightarrow> t = s"
  by (simp add: redis_get_def)

lemma get_first_state: "get_first ev f p s = (x, t) \<Longrightarrow> t = s"
  by (auto simp: get_first_def svc_simps dest: redis_get_state split: list.splits prod.splits sum.splits)

lemma get_move_info_state: "get_move_info ev i s = (x, t) \<Longrightarrow> t = s"
  by (auto simp: get_move_info_def move_get_one_def dest: get_first_state)

lemma get_user_id_state: "get_user_id ev i s = (x, t) \<Longrightarrow> t = s"
  by (auto simp: get_user_id_def move_get_user_def svc_simps split: list.splits)

lemma dispatcher_upload_run:
  "dispatcher_upload ev i c s =
     (case find (\<lambda>r. sv_id r = default_storage_server_id ev) (storage_servers (file_tabs (db (scope s)))) of
        None \<Rightarrow> Inl (NoSuchServer (default_storage_server_id ev))
      | Some sv \<Rightarrow> (case server_upload ev sv i c of Inl e \<Rightarrow> Inl (UploadFailed i e) | Inr u \<Rightarrow> Inr u), s)"
  by (simp add: dispatcher_upload_def default_file_storage_server_def storage_server_get_by_id_def
      file_rows_def svc_simps split: option.splits)

lemma fresh_uuid_run:
  "fresh_uuid ev s = (Inr (new_uuid ev (drawn (scope s))), s\<lparr>scope := (scope s)\<lparr>drawn := Suc (drawn (scope s))\<rparr>\<rparr>)"
  by (simp add: fresh_uuid_def on_scope_def draw_uuid_def)

lemma fix_file_name_run:
  assumes "repo_user (scope s) u = Inr v"
  shows "\<exists>n. fix_file_name ev p name u s = (Inr n, s)"
proof -
  have "\<exists>x. is_same_pid_fname_exists p name u s = (Inr x, s)"
    using assms
    by (simp add: is_same_pid_fname_exists_def scope_user_def on_scope_def first_row_def file_rows_def svc_simps Let_def)
  then obtain x where "is_same_pid_fname_exists p name u s = (Inr x, s)" by blast
  then show ?thesis by (cases x) (simp_all add: fix_file_name_def sbind_run sgets_run sret_run)
qed

section \<open>The end of an upload\<close>

lemma record_run:
  assumes "record_meta_and_storage ev m st (Some u) s = (Inr (), t)"
  shows "\<exists>i. recorded (file_meta_row_from m) (file_storage_row_from i u st) (scope t)"
proof -
  have run: "run_stmts exec_stmt (sts @ [FileStmt (InsertFileMeta r), FileStmt (InsertFileStorage q)]) d = Some d' \<Longrightarrow>
      r \<in> set (file_metadata (file_tabs d')) \<and> q \<in> set (file_storages (file_tabs d'))" for sts r q d d'
    by (auto simp: run_stmts_append split: option.splits if_splits)
  show ?thesis
    using assms
    by (auto simp: record_meta_and_storage_def file_meta_insert_def insert_with_custom_user_id_def
        fresh_uuid_def draw_uuid_def on_scope_def push_file_def push_stmt_def files_save_changed_def
        save_changed_def recorded_def svc_simps split: option.splits dest!: run)
qed

text \<open>Only the last part of \<open>upload_file\<close> works on the cache, after the rows are in.\<close>

lemma delete_keeps_none: "map_of l p = None \<Longrightarrow> map_of (filter P l) p = None"
  by (induction l) (auto split: if_splits)

lemma multipart_remove_none:
  "keeps (\<lambda>s. map_of (disk s) p = None) (multipart_remove ev i)"
proof -
  have "keeps (\<lambda>s. map_of (disk s) p = None) (multipart_delete ev x)" for x
    by (auto simp: multipart_delete_def keeps_def svc_simps redis_del_def split: list.splits)
  moreover have "keeps (\<lambda>s. map_of (disk s) p = None) (cache_operate (RemoveMultipartDir i))"
    by (auto simp: keeps_def delete_keeps_none)
  ultimately show ?thesis unfolding multipart_remove_def by (intro keeps_intro keeps_sret)
qed

lemma remove_all_disk: "keeps (\<lambda>s. map_of (disk s) p = None) (remove_all_with_meta_id ev i)"
  by (auto simp: keeps_def remove_all_with_meta_id_def move_remove_all_def svc_simps redis_del_def)

lemma stays_store [keeps_intro]:
  "stays r q (cache_operate c)" "stays r q (multipart_remove ev i)" "stays r q (remove_all_with_meta_id ev i)"
proof -
  show "stays r q (cache_operate c)" for c
    by (cases c) (auto simp: keeps_def svc_simps write_file_def remove_file_def read_cached_def
        split: prod.splits sum.splits)
  then show "stays r q (multipart_remove ev i)"
    by (auto simp: multipart_remove_def multipart_delete_def redis_del_def keeps_def svc_simps
        split: list.splits prod.splits sum.splits)
  show "stays r q (remove_all_with_meta_id ev i)"
    by (auto simp: keeps_def remove_all_with_meta_id_def move_remove_all_def svc_simps redis_del_def)
qed

lemma remove_normal_none: "cache_operate (RemoveNormal i) s = (Inr (), t) \<Longrightarrow> map_of (disk t) (NormalPath i) = None"
  by (auto simp: remove_file_def read_cached_def svc_simps delete_conv' ok_or_def split: option.splits)

end
