(* ===== verification/KF_Moves.thy ===== *)
theory KF_Moves
  imports KF_Parts KF_Records
begin

text \<open>
  The registration of a move, from the announcement of an upload to the command that brings its file
  to the storage server, and the requests that carry the parts.
\<close>

section \<open>Registrations\<close>

definition move_entry_key :: "uuid \<Rightarrow> move_registration \<Rightarrow> string" where
  "move_entry_key u r = show_uuid u @ ''_'' @ move_key (mr_id r) (mr_meta_id r)"

definition registered :: "fstate \<Rightarrow> uuid \<Rightarrow> move_registration \<Rightarrow> bool" where
  "registered s u r \<longleftrightarrow> (\<exists>d. (move_entry_key u r, d, RMove r) \<in> set (live s)) \<and>
     (\<forall>k d x. (k, d, RMove x) \<in> set (live s) \<longrightarrow> mr_id x = mr_id r \<or> mr_meta_id x = mr_meta_id r \<longrightarrow>
        k = move_entry_key u r)"

lemma registered_reads:
  assumes "env_ok ev" "store_ok s" "registered s u r"
  shows "get_move_info ev (mr_id r) s = (Inr (Some r), s)"
    and "get_user_id ev (mr_id r) s = (Inr (Some u), s)"
    and "move_get_all ev (meta_id_key_regex (mr_meta_id r)) s = (Inr [r], s)"
proof -
  obtain d where e: "(move_entry_key u r, d, RMove r) \<in> set (live s)"
    using assms(3) unfolding registered_def by blast
  have only: "k = move_entry_key u r"
    if "(k, d, v) \<in> set (live s)" "\<exists>x. v = RMove x \<and> (mr_id x = mr_id r \<or> mr_meta_id x = mr_meta_id r)" for k d v
    using that assms(3) unfolding registered_def by blast
  have keys: "query_keys ev (any_user_key_regex (move_id_key_regex (mr_id r))) s = [move_entry_key u r]"
    by (rule move_by_id.keys_one [OF TrueI assms(1,2) e]) (use only in auto)
  have user: "takeWhile (\<lambda>c. c \<noteq> CHR ''_'') (move_entry_key u r) = show_uuid u"
    using show_uuid_clean [of u] by (auto simp: move_entry_key_def clean_def takeWhile_append2 takeWhile_tail)
  show "get_user_id ev (mr_id r) s = (Inr (Some u), s)"
    using assms(1) by (simp add: get_user_id_def move_get_user_def svc_simps keys user env_ok_def)
  show "get_move_info ev (mr_id r) s = (Inr (Some r), s)"
    unfolding get_move_info_def move_get_one_def
    by (rule move_by_id.first_one [OF TrueI assms(1,2) e]) (use only in auto)
  show "move_get_all ev (meta_id_key_regex (mr_meta_id r)) s = (Inr [r], s)"
    unfolding move_get_all_def
    by (rule moves_by_file.all_one [OF TrueI assms(1,2) e]) (use only in auto)
qed

lemma registered_other: "other_live t s \<Longrightarrow> registered t u r = registered s u r"
  by (simp add: registered_def other_live_def)

lemma registered_frame [simp]:
  "registered (s\<lparr>scope := x1\<rparr>) u r = registered s u r" "registered (s\<lparr>disk := x2\<rparr>) u r = registered s u r"
  by (simp_all add: registered_def)

lemma entry_move_key: "clean (show_uuid u) \<Longrightarrow> entry_ok (move_entry_key u r, d, RMove r)"
  by (auto simp: entry_ok_def move_entry_key_def move_key_def intro!: exI [of _ u])

text \<open>A new registration, for the user it names or the one of the request.\<close>

lemma register_run:
  assumes "store_ok s" "0 < move_exp ev"
    and "\<forall>(k, d, v) \<in> set (live s). \<forall>x. v = RMove x \<longrightarrow> mr_id x \<noteq> mr_id r \<and> mr_meta_id x \<noteq> mr_meta_id r"
    and "(case mr_user_id r of Some u \<Rightarrow> Some u | None \<Rightarrow> repo_user_id (scope s)) = Some u"
  shows "\<exists>t. register_move ev r s = (Inr (), t) \<and> store_ok t \<and> registered t u r \<and> upload_mq t = upload_mq s \<and>
    disk t = disk s \<and> scope t = scope s \<and> (\<forall>k d m. (k, d, RMultipart m) \<in> set (live t) \<longleftrightarrow> (k, d, RMultipart m) \<in> set (live s))"
proof -
  let ?k = "move_entry_key u r" and ?d = "now_ms s + move_exp ev"
  let ?t = "s\<lparr>redis := AList.update ?k (?d, RMove r) (redis s)\<rparr>"
  have e: "entry_ok (?k, ?d, RMove r)" by (rule entry_move_key) simp
  have lt: "now_ms s < ?d" using assms(2) by simp
  note up = live_update [OF assms(1) e lt]
  have "register_move ev r s = (Inr (), ?t)"
    using assms(2,4) by (simp add: register_move_def move_insert_def svc_simps pset_ex_run move_entry_key_def)
  moreover have "store_ok ?t" by (rule store_ok_update [OF assms(1) e])
  moreover have "registered ?t u r"
    unfolding registered_def
  proof (intro conjI allI impI)
    show "\<exists>d. (?k, d, RMove r) \<in> set (live ?t)" by (intro exI [of _ ?d]) (simp add: up)
    fix k d x assume x: "(k, d, RMove x) \<in> set (live ?t)" "mr_id x = mr_id r \<or> mr_meta_id x = mr_meta_id r"
    show "k = ?k"
    proof (rule ccontr)
      assume "k \<noteq> ?k"
      then have "(k, d, RMove x) \<in> set (live s)" using x(1) up [of k d "RMove x"] by simp
      with assms(3) x(2) show False by blast
    qed
  qed
  moreover have "(k, d, RMultipart m) \<in> set (live ?t) \<longleftrightarrow> (k, d, RMultipart m) \<in> set (live s)" for k d m
  proof -
    have "(?k, d, RMultipart m) \<notin> set (live s)"
    proof
      assume "(?k, d, RMultipart m) \<in> set (live s)"
      from live_entry [OF assms(1) this]
      have "?k = id_hash_key (mp_meta_id m) (mp_hash m)" "clean (mp_hash m)"
        by (simp_all add: entry_multipart)
      then show False using entry_multipart_key [of "mp_meta_id m" "mp_hash m" ?d "RMove r"] e by auto
    qed
    then show ?thesis using up [of k d "RMultipart m"] by auto
  qed
  ultimately show ?thesis by auto
qed

section \<open>The announcement\<close>

lemma flash_passed:
  assumes "if_possible_do_flash_upload ev info s = (Inr (), t)"
  shows "t = s"
  using assms
  by (auto simp: if_possible_do_flash_upload_def Let_def svc_simps snapshot_satisfy_flash_upload_def
      snapshot_get_one_def meta_satisfy_flash_upload_def get_by_hash_and_algorithm_def file_rows_def
      snapshot_of_def dest: get_first_state
      split: move_destination.splits option.splits prod.splits sum.splits)

lemma prepared:
  assumes "env_ok ev" "store_ok s" "0 < multipart_exp ev" "0 < move_exp ev" "clean (mr_hash info)"
    and "\<forall>(k, d, v) \<in> set (live s). \<forall>x. v = RMove x \<longrightarrow> mr_id x \<noteq> mr_id info \<and> mr_meta_id x \<noteq> mr_meta_id info"
    and "(case mr_user_id info of Some u \<Rightarrow> Some u | None \<Rightarrow> repo_user_id (scope s)) = Some u"
    and "prepare_upload ev info n s = (Inr (rp_ok (Some \<lparr>pr_result = Normal, pr_id = p\<rparr>)), t)"
  shows "p = mr_meta_id info \<and> store_ok t \<and> registered t u info \<and> disk t = disk s \<and> upload_mq t = upload_mq s \<and>
    upload_record t p \<lparr>mp_meta_id = p, mp_hash = mr_hash info, mp_hash_algorithm = mr_hash_algorithm info,
      mp_parts = replicate n False\<rparr>"
proof -
  let ?m = "\<lparr>mp_meta_id = mr_meta_id info, mp_hash = mr_hash info,
      mp_hash_algorithm = mr_hash_algorithm info, mp_parts = replicate n False\<rparr>"
  have flash: "if_possible_do_flash_upload ev info s = (Inr (), s)"
    using assms(8) flash_passed [of ev info s]
    by (cases "if_possible_do_flash_upload ev info s"; cases "fst (if_possible_do_flash_upload ev info s)")
      (auto simp: prepare_upload_def svc_simps rp_ok_def rp_err_def elim!: flash_reply.elims)
  let ?c = "multipart_create ev (mr_meta_id info) (mr_hash info) (mr_hash_algorithm info) n s"
  obtain v where v: "?c = (Inr (), v)"
    using assms(8) flash
    by (cases "?c"; cases "fst ?c")
      (auto simp: prepare_upload_def svc_simps rp_ok_def rp_err_def elim!: create_reply.elims)
  have rec: "store_ok v" "upload_record v (mr_meta_id info) ?m" "disk v = disk s"
    using multipart_create_record [OF assms(1,2,5,3) v] by simp_all
  have frame: "other_live v s" "upload_mq v = upload_mq s" "scope v = scope s"
    using multipart_create_record [OF assms(1,2,5,3) v] by simp_all
  have none: "\<forall>(k, d, x) \<in> set (live v). \<forall>r. x = RMove r \<longrightarrow> mr_id r \<noteq> mr_id info \<and> mr_meta_id r \<noteq> mr_meta_id info"
  proof safe
    fix k d x r assume "(k, d, RMove r) \<in> set (live v)"
    then have "(k, d, RMove r) \<in> set (live s)" using frame(1) by (simp add: other_live_def)
    with assms(6) show "mr_id r = mr_id info \<Longrightarrow> False" "mr_meta_id r = mr_meta_id info \<Longrightarrow> False" by auto
  qed
  have user: "(case mr_user_id info of Some u \<Rightarrow> Some u | None \<Rightarrow> repo_user_id (scope v)) = Some u"
    unfolding frame(3) by (rule assms(7))
  obtain w where w: "register_move ev info v = (Inr (), w)" "store_ok w" "registered w u info"
      "upload_mq w = upload_mq v" "disk w = disk v"
      "\<forall>k d m. (k, d, RMultipart m) \<in> set (live w) \<longleftrightarrow> (k, d, RMultipart m) \<in> set (live v)"
    using register_run [OF rec(1) assms(4) none user] by blast
  have "p = mr_meta_id info \<and> t = w"
    using assms(8) flash v w(1) by (simp add: prepare_upload_def svc_simps rp_ok_def)
  moreover have "upload_record w (mr_meta_id info) ?m"
    using rec(2) w(6) unfolding upload_record_def by simp
  ultimately show ?thesis using w(2-5) rec(3) frame(2) by simp
qed

section \<open>The parts, as requests\<close>

lemma uploaded_scope [simp]: "uploaded (new_scope u s) i m content there = uploaded s i m content there"
  by (simp add: uploaded_def upload_record_def new_scope_def)

lemma partial_upload_step:
  assumes "env_ok ev" "0 < multipart_exp ev" "uploaded s i m content there" "length (mp_parts m) = n" "j < n"
    and "there \<subseteq> {..<n}" "missing n (insert j there) \<noteq> []"
  shows "\<exists>t. partial_upload ev i j [content j] s = (Inr (rp_ok (Some (missing n (insert j there)))), t) \<and>
    uploaded t i (m\<lparr>mp_parts := (mp_parts m)[j := True]\<rparr>) content (insert j there) \<and>
    upload_mq t = upload_mq s \<and> other_live t s"
proof -
  let ?s = "new_scope None s"
  have frame: "upload_mq ?s = upload_mq s" "other_live t ?s = other_live t s" for t
    by (simp_all add: new_scope_def other_live_def)
  obtain t where "complete_part ev (the_part i content j) ?s = (Inr (missing n (insert j there)), t)"
    "uploaded t i (m\<lparr>mp_parts := (mp_parts m)[j := True]\<rparr>) content (insert j there)"
    "upload_mq t = upload_mq s" "other_live t s"
    using part_stored [OF assms(1,2), of ?s i m content there j] assms(3-7) frame by (auto simp: sret_run)
  with assms(7) show ?thesis
    by (intro exI [of _ t]) (simp add: partial_upload_def the_part_def svc_simps)
qed

text \<open>The last part: the file is merged, and what remains is the move.\<close>

lemma last_part:
  assumes "env_ok ev" "0 < multipart_exp ev" "uploaded s i m content there" "length (mp_parts m) = n" "j < n"
    and "insert j there = {..<n}"
    and "mp_hash m = file_hash ev (mp_hash_algorithm m) (concat (map content [0..<n]))"
  shows "\<exists>t. partial_upload ev i j [content j] s =
      sbind (satt (do_registered_moves ev i)) (\<lambda>r. sret (case r of Inl _ \<Rightarrow> rp_err 500 | Inr _ \<Rightarrow> rp_ok None)) t \<and>
    store_ok t \<and> upload_mq t = upload_mq s \<and> other_live t s \<and>
    map_of (disk t) (SnapshotPath i) = map_of (disk s) (SnapshotPath i) \<and>
    map_of (disk t) (NormalPath i) = Some (concat (map content [0..<n])) \<and>
    (\<forall>p. map_of (disk t) (PartPath i p) = None)"
proof -
  let ?s = "new_scope None s" and ?m = "m\<lparr>mp_parts := (mp_parts m)[j := True]\<rparr>"
  have frame: "upload_mq ?s = upload_mq s" "disk ?s = disk s" "other_live t ?s = other_live t s" for t
    by (simp_all add: new_scope_def other_live_def)
  have none: "missing n (insert j there) = []" unfolding assms(6) by (simp add: missing_def filter_empty_conv)
  have sub: "there \<subseteq> {..<length (mp_parts m)}" using assms(4,6) by blast
  obtain t where t: "complete_part ev (the_part i content j) ?s = merge_parts ev i ?m t"
    "uploaded t i ?m content {..<n}" "upload_mq t = upload_mq s" "other_live t s"
    "map_of (disk t) (SnapshotPath i) = map_of (disk s) (SnapshotPath i)"
    using part_stored [OF assms(1,2) _ _ sub, of ?s i content j] assms(3-5) none frame
    by (auto simp: assms(6))
  have len: "length (mp_parts ?m) = n" "0 < n" using assms(4,5) by (simp, linarith)
  obtain u where u: "merge_parts ev i ?m t = (Inr [], u)"
    "map_of (disk u) (NormalPath i) = Some (concat (map content [0..<n]))"
    "\<forall>p. map_of (disk u) (PartPath i p) = None"
    "redis u = redis t" "now_ms u = now_ms t" "upload_mq u = upload_mq t"
    "map_of (disk u) (SnapshotPath i) = map_of (disk t) (SnapshotPath i)"
    using merge_parts_run [OF t(2), of ev] len assms(7) by auto
  have "store_ok u" "other_live u s"
    using t(2,4) u(4,5) by (simp_all add: uploaded_def store_ok_def other_live_def live_def)
  moreover have "partial_upload ev i j [content j] s =
      sbind (satt (do_registered_moves ev i)) (\<lambda>r. sret (case r of Inl _ \<Rightarrow> rp_err 500 | Inr _ \<Rightarrow> rp_ok None)) u"
    using t(1) u(1) by (simp add: partial_upload_def the_part_def svc_simps)
  ultimately show ?thesis using u(2,3,6,7) t(3,5) by (intro exI [of _ u]) simp
qed

lemma send_registered:
  assumes "env_ok ev" "store_ok s" "registered s u r" "mr_destination r = ToStorageServer x"
  shows "do_registered_moves ev (mr_meta_id r) s = (Inr (), s\<lparr>upload_mq := upload_mq s @
    [(upload_topic ev, \<lparr>fu_move_id = mr_id r, fu_user_id = u\<rparr>)]\<rparr>)"
  using registered_reads [OF assms(1-3)] assms(4)
  by (simp add: do_registered_moves_def do_move_def send_upload_command_def svc_simps)

section \<open>The command is carried out\<close>

lemma registered_scope [simp]: "registered (new_scope x s) u r = registered s u r"
  by (simp add: registered_def new_scope_def)

lemma store_ok_scope [simp]: "store_ok (new_scope x s) = store_ok s"
  by (simp add: new_scope_def)

text \<open>The record of an upload is removed, and the registration after it.\<close>

lemma multipart_query:
  assumes "env_ok ev" "store_ok s" "upload_record s i m"
  shows "query_keys ev (multipart_id_regex i) s = [id_hash_key i (mp_hash m)]"
proof -
  obtain d where e: "(id_hash_key i (mp_hash m), d, RMultipart m) \<in> set (live s)" and id: "mp_meta_id m = i"
    using assms(3) unfolding upload_record_def by blast
  have only: "k = id_hash_key i (mp_hash m)"
    if "(k, d', v) \<in> set (live s)" and v: "\<exists>m'. v = RMultipart m' \<and> mp_meta_id m' = i" for k d' v
  proof -
    obtain m' where m': "v = RMultipart m'" "mp_meta_id m' = i" using v by blast
    with that(1) assms(3) have "m' = m" unfolding upload_record_def by blast
    with live_entry [OF assms(2) that(1)] m' show ?thesis by (simp add: entry_multipart)
  qed
  show ?thesis
    by (rule upload_by_id.keys_one [OF TrueI assms(1,2) e]) (use id only in auto)
qed

lemma multipart_remove_run:
  assumes "env_ok ev" "store_ok s" "upload_record s i m"
  shows "\<exists>d. multipart_remove ev i s = (Inr (),
    s\<lparr>redis := filter (\<lambda>(k, _). k \<noteq> id_hash_key i (mp_hash m)) (redis s), disk := d\<rparr>)"
  using multipart_query [OF assms]
  by (auto simp: multipart_remove_def multipart_delete_def redis_del_def svc_simps split: prod.splits
      intro: exI [of _ "disk s"])

lemma registered_query:
  assumes "env_ok ev" "store_ok s" "registered s u r"
  shows "query_keys ev (any_user_key_regex (meta_id_key_regex (mr_meta_id r))) s = [move_entry_key u r]"
proof -
  obtain d where e: "(move_entry_key u r, d, RMove r) \<in> set (live s)"
    using assms(3) unfolding registered_def by blast
  have only: "k = move_entry_key u r"
    if "(k, d, v) \<in> set (live s)" "\<exists>x. v = RMove x \<and> mr_meta_id x = mr_meta_id r" for k d v
    using that assms(3) unfolding registered_def by blast
  show ?thesis
    by (rule moves_by_file.keys_one [OF TrueI assms(1,2) e]) (use only in auto)
qed

lemma move_key_not_multipart: "clean h \<Longrightarrow> move_entry_key u r \<noteq> id_hash_key i h"
  using entry_multipart_key [of i h 0 "RMove r"] entry_move_key [of u r 0] by auto

lemma registered_filter:
  assumes "registered s u r" "P (move_entry_key u r)"
  shows "registered (s\<lparr>redis := filter (\<lambda>(k, _). P k) (redis s), disk := d\<rparr>) u r"
proof -
  have "(k, x, v) \<in> set (live (s\<lparr>redis := filter (\<lambda>(k, _). P k) (redis s), disk := d\<rparr>)) \<longleftrightarrow>
      (k, x, v) \<in> set (live s) \<and> P k" for k x v
    by (simp add: live_def) blast
  then show ?thesis using assms unfolding registered_def by blast
qed

lemma clean_up:
  assumes "env_ok ev" "store_ok s" "upload_record s (mr_meta_id r) m" "registered s u r"
  shows "\<exists>t. sthen (multipart_remove ev (mr_meta_id r)) (remove_all_with_meta_id ev (mr_meta_id r)) s = (Inr (), t) \<and>
    redis t = filter (\<lambda>(k, _). k \<noteq> id_hash_key (mr_meta_id r) (mp_hash m) \<and> k \<noteq> move_entry_key u r) (redis s)"
proof -
  let ?P = "\<lambda>k. k \<noteq> id_hash_key (mr_meta_id r) (mp_hash m)"
  obtain d where rm: "multipart_remove ev (mr_meta_id r) s =
      (Inr (), s\<lparr>redis := filter (\<lambda>(k, _). ?P k) (redis s), disk := d\<rparr>)" (is "_ = (_, ?t)")
    using multipart_remove_run [OF assms(1-3)] by blast
  have "clean (mp_hash m)" using assms(3) by (simp add: upload_record_def)
  then have "registered ?t u r"
    using registered_filter [OF assms(4), where P = ?P] move_key_not_multipart by blast
  moreover have "store_ok ?t"
    using store_ok_filter [OF assms(2), of "\<lambda>(k, _). ?P k"] by (simp add: store_ok_def)
  ultimately have keys: "query_keys ev (any_user_key_regex (meta_id_key_regex (mr_meta_id r))) ?t = [move_entry_key u r]"
    by (intro registered_query [OF assms(1)])
  have "remove_all_with_meta_id ev (mr_meta_id r) ?t = redis_del [move_entry_key u r] ?t"
    unfolding remove_all_with_meta_id_def move_remove_all_def sbind_run sgets_run keys by simp
  then have "sthen (multipart_remove ev (mr_meta_id r)) (remove_all_with_meta_id ev (mr_meta_id r)) s =
      redis_del [move_entry_key u r] ?t"
    by (simp only: sthen_run rm prod.case sum.case)
  then show ?thesis
    by (intro exI [of _ "snd (redis_del [move_entry_key u r] ?t)"]) (simp add: redis_del_def case_prod_unfold conj_commute)
qed

text \<open>An entry in a directory the user named.\<close>

lemma create_normal_run:
  assumes "repo_user_id (scope s) = Some u" "statements (scope s) = []"
    and "\<forall>n. new_uuid ev n \<notin> fy_id ` set (file_system (file_tabs (db (scope s))))"
  shows "\<exists>k row. create_normal_file ev (Some p) meta name ft s = (Inr (), s\<lparr>scope := k\<rparr>) \<and>
    row \<in> set (file_system (file_tabs (db k))) \<and> fy_parent_id row = Some p \<and>
    fy_file_metadata_id row = Some meta \<and> fy_owner_id row = u \<and> fy_is_dict row = False"
proof -
  have "repo_user (scope s) None = Inr u" using assms(1) by (simp add: repo_user_def ok_or_def)
  then obtain n where n: "fix_file_name ev (Some p) name None s = (Inr n, s)" using fix_file_name_run by blast
  let ?i = "new_uuid ev (drawn (scope s))"
  let ?e = "net_disk_file ?i (Some p) n ft meta None None"
  let ?row = "file_system_row_from u ?e"
  let ?d = "(db (scope s))\<lparr>file_tabs := (file_tabs (db (scope s)))\<lparr>file_system := file_system (file_tabs (db (scope s))) @ [?row]\<rparr>\<rparr>"
  let ?k = "(scope s)\<lparr>drawn := Suc (drawn (scope s)), db := ?d, statements := [], can_drop := True\<rparr>"
  have "create_normal_file ev (Some p) meta name ft s = (Inr (), s\<lparr>scope := ?k\<rparr>)"
    using assms n
    by (auto simp: create_normal_file_def fresh_uuid_def draw_uuid_def on_scope_def insert_and_save_def
        net_disk_insert_def scope_user_def repo_user_def ok_or_def root_dir_id_def net_disk_file_def push_file_def
        push_stmt_def files_save_changed_def save_changed_def file_system_row_from_def Let_def svc_simps)
  then show ?thesis
    by (intro exI [of _ ?k] exI [of _ ?row]) (simp add: file_system_row_from_def net_disk_file_def)
qed

lemma record_new:
  assumes "statements (scope s) = []" "fm_id m \<notin> fmr_id ` set (file_metadata (file_tabs (db (scope s))))"
    and "\<forall>q \<in> set (file_storages (file_tabs (db (scope s)))). fsr_file_metadata_id q \<noteq> fs_meta_id st"
    and "\<forall>n. new_uuid ev n \<notin> fsr_id ` set (file_storages (file_tabs (db (scope s))))"
  shows "\<exists>k. record_meta_and_storage ev m st (Some u) s = (Inr (), s\<lparr>scope := k\<rparr>) \<and> statements k = [] \<and>
    repo_user_id k = repo_user_id (scope s) \<and>
    file_system (file_tabs (db k)) = file_system (file_tabs (db (scope s)))"
  using assms
  by (auto simp: record_meta_and_storage_def file_meta_insert_def insert_with_custom_user_id_def
      fresh_uuid_def draw_uuid_def on_scope_def push_file_def push_stmt_def files_save_changed_def
      save_changed_def file_meta_row_from_def file_storage_row_from_def svc_simps)

lemma scope_clean_up:
  "keeps (\<lambda>s. scope s = l) (multipart_remove ev i)" "keeps (\<lambda>s. scope s = l) (remove_all_with_meta_id ev i)"
proof -
  have "keeps (\<lambda>s. scope s = l) (cache_operate (RemoveMultipartDir i))" by (auto simp: keeps_def)
  moreover have "keeps (\<lambda>s. scope s = l) (multipart_delete ev x)" for x
    by (auto simp: multipart_delete_def keeps_def svc_simps redis_del_def split: list.splits)
  ultimately show "keeps (\<lambda>s. scope s = l) (multipart_remove ev i)"
    unfolding multipart_remove_def by (intro keeps_intro keeps_sret)
  show "keeps (\<lambda>s. scope s = l) (remove_all_with_meta_id ev i)"
    by (auto simp: keeps_def remove_all_with_meta_id_def move_remove_all_def svc_simps redis_del_def)
qed

lemma upload_run:
  assumes "env_ok ev" "store_ok s" "registered s u info" "mr_id info = fu_move_id cmd"
    and "upload_record s (mr_meta_id info) m"
    and "mr_destination info = ToStorageServer (Some \<lparr>rn_file_type = ft, rn_kind = NormalFile (Some p)\<rparr>)"
    and "map_of (disk s) (NormalPath (mr_meta_id info)) = Some content"
    and "find (\<lambda>r. sv_id r = default_storage_server_id ev) (storage_servers (file_tabs (db (scope s)))) = Some sv"
    and "server_upload ev sv (mr_meta_id info) content = Inr url"
    and "mr_meta_id info \<notin> fmr_id ` set (file_metadata (file_tabs (db (scope s))))"
    and "\<forall>q \<in> set (file_storages (file_tabs (db (scope s)))). fsr_file_metadata_id q \<noteq> mr_meta_id info"
    and "\<forall>n. new_uuid ev n \<notin> fsr_id ` set (file_storages (file_tabs (db (scope s)))) \<union>
      fy_id ` set (file_system (file_tabs (db (scope s))))"
  shows "\<exists>t. file_upload_runner_consumer ev cmd s = (Inr (), t) \<and>
    redis t = filter (\<lambda>(k, _). k \<noteq> id_hash_key (mr_meta_id info) (mp_hash m) \<and> k \<noteq> move_entry_key u info) (redis s) \<and>
    map_of (disk t) (NormalPath (mr_meta_id info)) = None \<and>
    (\<exists>row \<in> set (file_system (file_tabs (db (scope t)))). fy_parent_id row = Some p \<and>
      fy_file_metadata_id row = Some (mr_meta_id info) \<and> fy_owner_id row = fu_user_id cmd)"
proof -
  let ?s = "new_scope (Some (fu_user_id cmd)) s" and ?i = "mr_meta_id info"
  let ?m = "\<lparr>fm_id = ?i, fm_name = mr_file_name info, fm_hash = mr_hash info,
      fm_hash_algorithm = mr_hash_algorithm info, fm_size = mr_size info\<rparr>"
  let ?q = "\<lparr>fs_storage_server_id = su_storage_server_id url, fs_meta_id = ?i, fs_server_url = url_string url\<rparr>"
  have ok: "store_ok ?s" "registered ?s u info" using assms(2,3) by simp_all
  have reads: "get_move_info ev (fu_move_id cmd) ?s = (Inr (Some info), ?s)"
    "get_user_id ev (fu_move_id cmd) ?s = (Inr (Some u), ?s)"
    using registered_reads [OF assms(1) ok] by (simp_all add: assms(4))
  have frame: "statements (scope ?s) = []" "file_tabs (db (scope ?s)) = file_tabs (db (scope s))"
    "repo_user_id (scope ?s) = Some (fu_user_id cmd)" "disk ?s = disk s" "redis ?s = redis s"
    by (simp_all add: new_scope_def)
  have send: "dispatcher_upload ev ?i content ?s = (Inr url, ?s)"
    using assms(8,9) by (simp add: dispatcher_upload_run frame)
  obtain k where k: "record_meta_and_storage ev ?m ?q (Some u) ?s = (Inr (), ?s\<lparr>scope := k\<rparr>)"
    "statements k = []" "repo_user_id k = Some (fu_user_id cmd)"
    "file_system (file_tabs (db k)) = file_system (file_tabs (db (scope s)))"
    using record_new [of ?s ?m ?q ev u] assms(10-12) by (auto simp: frame)
  obtain l row where l: "create_normal_file ev (Some p) ?i (mr_file_name info) ft (?s\<lparr>scope := k\<rparr>) = (Inr (), ?s\<lparr>scope := l\<rparr>)"
    "row \<in> set (file_system (file_tabs (db l)))" "fy_parent_id row = Some p"
    "fy_file_metadata_id row = Some ?i" "fy_owner_id row = fu_user_id cmd"
    using create_normal_run [of "?s\<lparr>scope := k\<rparr>" "fu_user_id cmd" ev p ?i "mr_file_name info" ft] k(2-4) assms(12)
    by auto
  let ?v = "?s\<lparr>scope := l, disk := AList.delete (NormalPath ?i) (disk s)\<rparr>"
  have "store_ok ?v" "upload_record ?v ?i m" "registered ?v u info"
    using assms(2,3,5) by (simp_all add: new_scope_def upload_record_def)
  from clean_up [OF assms(1) this] obtain t where t:
    "sthen (multipart_remove ev ?i) (remove_all_with_meta_id ev ?i) ?v = (Inr (), t)"
    "redis t = filter (\<lambda>(k, _). k \<noteq> id_hash_key ?i (mp_hash m) \<and> k \<noteq> move_entry_key u info) (redis s)"
    by (auto simp: frame)
  let ?finish = "sthen (multipart_remove ev ?i) (remove_all_with_meta_id ev ?i)"
  have keep: "keeps (\<lambda>s. map_of (disk s) (NormalPath ?i) = None) ?finish" "keeps (\<lambda>s. scope s = l) ?finish"
    by (intro keeps_intro multipart_remove_none remove_all_disk scope_clean_up)+
  have gone: "map_of (disk t) (NormalPath ?i) = None"
    by (rule keeps_run [OF keep(1) _ t(1)]) (simp add: delete_conv')
  have same: "scope t = l" by (rule keeps_run [OF keep(2) _ t(1)]) simp
  have "file_upload_runner_consumer ev cmd s = (Inr (), t)"
    using t(1) l(1) k(1) send reads assms(6,7)
    by (simp add: file_upload_runner_consumer_def upload_file_def Let_def svc_simps net_disk_record_def
        net_disk_create_file_def read_cached_def remove_file_def frame)
  with t(2) gone same l(2-5) show ?thesis by auto
qed

end
