(* ===== verification/KF_Snapshots.thy ===== *)
theory KF_Snapshots
  imports KF_Parts KF_Records
begin

text \<open>
  Snapshots share files: several records may name the same file of the cache, and the file goes when
  the last record with its hash goes. The steps of the store and the cache below are those of
  \<open>snapshot.rs\<close>, the parts of other uploads, and the passing of time.
\<close>

section \<open>The invariant\<close>

definition snapshots_ok :: "fstate \<Rightarrow> bool" where
  "snapshots_ok s \<longleftrightarrow> store_ok s \<and>
     (\<forall>k d n. (k, d, RSnapshot n) \<in> set (live s) \<longrightarrow> map_of (disk s) (SnapshotPath (sn_meta_id n)) \<noteq> None) \<and>
     (\<forall>k d n k' d' n'. (k, d, RSnapshot n) \<in> set (live s) \<longrightarrow> (k', d', RSnapshot n') \<in> set (live s) \<longrightarrow>
        sn_meta_id n = sn_meta_id n' \<longrightarrow> sn_hash n = sn_hash n' \<and> sn_hash_algorithm n = sn_hash_algorithm n')"

inductive snapshot_step :: "fenv \<Rightarrow> fstate \<Rightarrow> fstate \<Rightarrow> bool" for ev where
  create: "snapshot_create ev n s = (r, t) \<Longrightarrow> clean (sn_hash n) \<Longrightarrow>
    (\<forall>k d n'. (k, d, RSnapshot n') \<in> set (live s) \<longrightarrow> sn_meta_id n' = sn_meta_id n \<longrightarrow>
       sn_hash n' = sn_hash n \<and> sn_hash_algorithm n' = sn_hash_algorithm n) \<Longrightarrow> snapshot_step ev s t"
| flash: "snapshot_satisfy_flash_upload ev (sn_hash n) (sn_hash_algorithm n) s = (Inr (Some (sn_meta_id n)), s) \<Longrightarrow>
    clean (sn_hash n) \<Longrightarrow> snapshot_create_record ev n s = (r, t) \<Longrightarrow> snapshot_step ev s t"
| remove: "snapshot_remove ev i s = (r, t) \<Longrightarrow> snapshot_step ev s t"
| part: "complete_part ev p s = (r, t) \<Longrightarrow> snapshot_step ev s t"
| time: "now_ms s \<le> u \<Longrightarrow> snapshot_step ev s (s\<lparr>now_ms := u\<rparr>)"

section \<open>Every step keeps it\<close>

lemma snapshots_ok_store: "snapshots_ok s \<Longrightarrow> store_ok s"
  by (simp add: snapshots_ok_def)

lemma snapshots_ok_less:
  assumes "snapshots_ok s" "store_ok t" "\<And>k d n. (k, d, RSnapshot n) \<in> set (live t) \<Longrightarrow> (k, d, RSnapshot n) \<in> set (live s)"
    and "\<And>k d n. (k, d, RSnapshot n) \<in> set (live t) \<Longrightarrow>
      map_of (disk s) (SnapshotPath (sn_meta_id n)) \<noteq> None \<Longrightarrow> map_of (disk t) (SnapshotPath (sn_meta_id n)) \<noteq> None"
  shows "snapshots_ok t"
  using assms unfolding snapshots_ok_def by metis

lemma entry_snapshot: "clean (sn_hash n) \<Longrightarrow> entry_ok (show_uuid (sn_user_id n) @ ''_'' @ snapshot_key n, d, RSnapshot n)"
  by (auto simp: entry_ok_def snapshot_key_def)

lemma insert_keeps:
  assumes "snapshots_ok s" "clean (sn_hash n)" "map_of (disk s) (SnapshotPath (sn_meta_id n)) \<noteq> None"
    and "\<forall>k d n'. (k, d, RSnapshot n') \<in> set (live s) \<longrightarrow> sn_meta_id n' = sn_meta_id n \<longrightarrow>
       sn_hash n' = sn_hash n \<and> sn_hash_algorithm n' = sn_hash_algorithm n"
    and "snapshot_insert (snapshot_key n) n ttl s = (r, t)"
  shows "snapshots_ok t"
proof (cases "0 < ttl")
  case False
  then have "t = s" using assms(5) by (simp add: snapshot_insert_def pset_ex_def)
  with assms(1) show ?thesis by simp
next
  case True
  let ?k = "show_uuid (sn_user_id n) @ ''_'' @ snapshot_key n" and ?d = "now_ms s + ttl"
  let ?t = "s\<lparr>redis := AList.update ?k (?d, RSnapshot n) (redis s)\<rparr>"
  have ok: "store_ok s" using assms(1) by (simp add: snapshots_ok_def)
  have e: "entry_ok (?k, ?d, RSnapshot n)" by (rule entry_snapshot [OF assms(2)])
  have t: "t = ?t" using assms(5) True by (simp add: snapshot_insert_def pset_ex_run)
  have cases: "(k, d, RSnapshot x) \<in> set (live ?t) \<Longrightarrow> x = n \<or> (k, d, RSnapshot x) \<in> set (live s)" for k d x
    using live_update [OF ok e, of k d "RSnapshot x"] True by (auto split: if_splits)
  have "store_ok ?t" by (rule store_ok_update [OF ok e])
  moreover have "map_of (disk ?t) (SnapshotPath (sn_meta_id x)) \<noteq> None" if "(k, d, RSnapshot x) \<in> set (live ?t)" for k d x
    using cases [OF that] assms(1,3) unfolding snapshots_ok_def by auto
  moreover have "sn_hash x = sn_hash y \<and> sn_hash_algorithm x = sn_hash_algorithm y"
    if "(k, d, RSnapshot x) \<in> set (live ?t)" "(k', d', RSnapshot y) \<in> set (live ?t)" "sn_meta_id x = sn_meta_id y"
    for k d x k' d' y
    using cases [OF that(1)] cases [OF that(2)] that(3) assms(1,4) unfolding snapshots_ok_def by metis
  ultimately show ?thesis unfolding t snapshots_ok_def by blast
qed

lemma create_keeps:
  assumes "snapshots_ok s" "clean (sn_hash n)" "snapshot_create ev n s = (r, t)"
    and "\<forall>k d n'. (k, d, RSnapshot n') \<in> set (live s) \<longrightarrow> sn_meta_id n' = sn_meta_id n \<longrightarrow>
       sn_hash n' = sn_hash n \<and> sn_hash_algorithm n' = sn_hash_algorithm n"
  shows "snapshots_ok t"
proof (cases "map_of (disk s) (NormalPath (sn_meta_id n))")
  case None
  then have "t = s" using assms(3) by (simp add: snapshot_create_def svc_simps read_cached_def)
  with assms(1) show ?thesis by simp
next
  case (Some c)
  let ?s = "s\<lparr>disk := AList.update (SnapshotPath (sn_meta_id n)) c (AList.delete (NormalPath (sn_meta_id n)) (disk s))\<rparr>"
  have "snapshot_insert (snapshot_key n) n (snapshot_exp ev) ?s = (r, t)"
    using assms(3) Some by (simp add: snapshot_create_def svc_simps read_cached_def)
  moreover have "snapshots_ok ?s"
    by (rule snapshots_ok_less [OF assms(1)])
      (use assms(1) in \<open>simp_all add: snapshots_ok_def update_conv' delete_conv'\<close>)
  ultimately show ?thesis
    using insert_keeps [of ?s n] assms(2,4) by (simp add: update_conv')
qed

lemma flash_keeps:
  assumes "env_ok ev" "snapshots_ok s" "clean (sn_hash n)"
    and "snapshot_satisfy_flash_upload ev (sn_hash n) (sn_hash_algorithm n) s = (Inr (Some (sn_meta_id n)), s)"
    and "snapshot_create_record ev n s = (r, t)"
  shows "snapshots_ok t"
proof -
  have ok: "store_ok s" using assms(2) by (simp add: snapshots_ok_def)
  from snapshot_by_hash.first_found [OF assms(3,1) ok, of "sn_hash_algorithm n"] assms(4)
  obtain k d x where x: "(k, d, RSnapshot x) \<in> set (live s)" "sn_hash x = sn_hash n"
    "sn_hash_algorithm x = sn_hash_algorithm n" "sn_meta_id x = sn_meta_id n"
    by (auto simp: snapshot_satisfy_flash_upload_def snapshot_get_one_def svc_simps)
  then have stored: "map_of (disk s) (SnapshotPath (sn_meta_id n)) \<noteq> None"
    using assms(2) unfolding snapshots_ok_def by metis
  have "\<forall>k d n'. (k, d, RSnapshot n') \<in> set (live s) \<longrightarrow> sn_meta_id n' = sn_meta_id n \<longrightarrow>
      sn_hash n' = sn_hash n \<and> sn_hash_algorithm n' = sn_hash_algorithm n"
    using assms(2) x unfolding snapshots_ok_def by metis
  then show ?thesis
    using insert_keeps [OF assms(2,3) stored] assms(5) by (simp add: snapshot_create_record_def)
qed

text \<open>The removal of a record takes the file only when no record of its hash is left.\<close>

lemma remove_keeps:
  assumes "env_ok ev" "snapshots_ok s" "snapshot_remove ev i s = (r, t)"
  shows "snapshots_ok t"
proof (cases "query_keys ev (any_user_key_regex (snapshot_id_regex i)) s")
  case Nil
  then have "t = s" using assms(3) by (simp add: snapshot_remove_def snapshot_delete_def svc_simps)
  with assms(2) show ?thesis by simp
next
  case (Cons key ks)
  have ok: "store_ok s" using assms(2) by (simp add: snapshots_ok_def)
  have "key \<in> set (query_keys ev (any_user_key_regex (snapshot_id_regex i)) s)" by (simp add: Cons)
  then obtain d n where n: "(key, d, RSnapshot n) \<in> set (live s)" "sn_id n = i"
    using snapshot_by_id.keys_set [OF TrueI assms(1) ok, of key i] by auto
  let ?s = "s\<lparr>redis := filter (\<lambda>(k, _). k \<notin> set [key]) (redis s)\<rparr>"
  have del: "snapshot_delete ev (snapshot_id_regex i) s = (Inr n, ?s)"
    using redis_get_live [OF ok n(1)] by (simp add: snapshot_delete_def svc_simps Cons redis_del_def)
  have clean: "clean (sn_hash n)"
    using live_entry [OF ok n(1)] by (auto simp: entry_ok_def)
  have ok': "store_ok ?s" by (rule store_ok_filter [OF ok])
  have less: "(k, d', v) \<in> set (live ?s) \<Longrightarrow> (k, d', v) \<in> set (live s)" for k d' v
    by (simp add: live_filter)
  have ok_s: "snapshots_ok ?s"
    by (rule snapshots_ok_less [OF assms(2) ok']) (use less in simp_all)
  obtain q where q: "snapshot_get_one ev (snapshot_hash_regex (sn_hash n) (sn_hash_algorithm n)) ?s = (Inr q, ?s)"
    "q = None \<Longrightarrow> \<forall>(k, d, v) \<in> set (live ?s). \<not> (\<exists>x. v = RSnapshot x \<and> sn_hash x = sn_hash n \<and> sn_hash_algorithm x = sn_hash_algorithm n)"
    using snapshot_by_hash.first_found [OF clean assms(1) ok', of "sn_hash_algorithm n"]
    unfolding snapshot_get_one_def by (metis (no_types, lifting) option.simps(4))
  show ?thesis
  proof (cases "q = None")
    case False
    then obtain x where "q = Some x" by blast
    then have "t = ?s" using assms(3) del q(1) by (simp add: snapshot_remove_def sbind_run sret_run)
    with ok_s show ?thesis by simp
  next
    case True
    have t: "t = ?s \<or> t = ?s\<lparr>disk := AList.delete (SnapshotPath (sn_meta_id n)) (disk ?s)\<rparr>"
      using assms(3) del q(1) True
      by (auto simp: snapshot_remove_def svc_simps remove_file_def read_cached_def ok_or_def split: option.splits)
    have other: "sn_meta_id x \<noteq> sn_meta_id n" if x: "(k, d', RSnapshot x) \<in> set (live ?s)" for k d' x
    proof
      assume "sn_meta_id x = sn_meta_id n"
      then have "sn_hash x = sn_hash n \<and> sn_hash_algorithm x = sn_hash_algorithm n"
        using assms(2) less [OF x] n(1) unfolding snapshots_ok_def by blast
      with q(2) [OF True] x show False by blast
    qed
    have "snapshots_ok (?s\<lparr>disk := AList.delete (SnapshotPath (sn_meta_id n)) (disk ?s)\<rparr>)"
    proof (rule snapshots_ok_less [OF ok_s])
      show "store_ok (?s\<lparr>disk := AList.delete (SnapshotPath (sn_meta_id n)) (disk ?s)\<rparr>)" using ok' by simp
      fix k d x assume "(k, d, RSnapshot x) \<in> set (live (?s\<lparr>disk := AList.delete (SnapshotPath (sn_meta_id n)) (disk ?s)\<rparr>))"
      then have x: "(k, d, RSnapshot x) \<in> set (live ?s)" by simp
      then show "(k, d, RSnapshot x) \<in> set (live ?s)" .
      assume "map_of (disk ?s) (SnapshotPath (sn_meta_id x)) \<noteq> None"
      then show "map_of (disk (?s\<lparr>disk := AList.delete (SnapshotPath (sn_meta_id n)) (disk ?s)\<rparr>)) (SnapshotPath (sn_meta_id x)) \<noteq> None"
        using other [OF x] by (simp add: delete_conv')
    qed
    with t ok_s show ?thesis by blast
  qed
qed

text \<open>Uploads of other files work on other keys and other paths.\<close>

definition other_disk :: "fstate \<Rightarrow> fstate \<Rightarrow> bool" where
  "other_disk t s \<longleftrightarrow> (\<forall>i. map_of (disk t) (SnapshotPath i) = map_of (disk s) (SnapshotPath i))"

lemma snapshots_ok_other:
  "snapshots_ok s \<Longrightarrow> store_ok t \<Longrightarrow> other_live t s \<Longrightarrow> other_disk t s \<Longrightarrow> snapshots_ok t"
  by (erule snapshots_ok_less) (simp_all add: other_live_def other_disk_def)

lemma keep_other: "map_of (filter (\<lambda>(p, _). \<not> in_multipart_dir i p) l) (SnapshotPath j) = map_of l (SnapshotPath j)"
  by (induction l) auto

lemma write_snapshots:
  assumes "snapshots_ok s" "\<And>j. p \<noteq> SnapshotPath j"
  shows "snapshots_ok (s\<lparr>disk := AList.update p c (disk s)\<rparr>)"
proof (rule snapshots_ok_other [OF assms(1)])
  show "store_ok (s\<lparr>disk := AList.update p c (disk s)\<rparr>)" using assms(1) by (simp add: snapshots_ok_def)
  show "other_disk (s\<lparr>disk := AList.update p c (disk s)\<rparr>) s"
    using assms(2) by (auto simp: other_disk_def update_conv')
qed (simp add: other_live_def)

lemma smap_read_state: "smap (\<lambda>n. read_cached (f n)) ks s = (r, t) \<Longrightarrow> t = s"
  by (induction ks arbitrary: r) (auto simp: svc_simps read_cached_def split: prod.splits sum.splits)

lemma merge_keeps:
  assumes "snapshots_ok s" "merge_parts ev i m s = (r, t)"
  shows "snapshots_ok t"
proof -
  have clear: "snapshots_ok (s\<lparr>disk := filter (\<lambda>(p, _). \<not> in_multipart_dir i p) (disk s)\<rparr>)" if "snapshots_ok s" for s
    by (rule snapshots_ok_other [OF that])
      (use that in \<open>simp_all add: snapshots_ok_def other_live_def other_disk_def keep_other\<close>)
  obtain q u where q: "smap (\<lambda>n. read_cached (PartPath i n)) [0..<length (mp_parts m)] s = (q, u)" by fastforce
  have "u = s" using q by (rule smap_read_state)
  have wr: "snapshots_ok (s\<lparr>disk := AList.update (NormalPath i) c (disk s)\<rparr>)" for c
    using write_snapshots [OF assms(1), of "NormalPath i"] by simp
  have both: "snapshots_ok (s\<lparr>disk := filter (\<lambda>(p, _). \<not> in_multipart_dir i p) (AList.update (NormalPath i) c (disk s))\<rparr>)" for c
    using clear [OF wr, of c] by simp
  from q \<open>u = s\<close> assms show ?thesis
    using wr both
    by (cases q) (auto simp: merge_parts_def Let_def svc_simps write_file_def split: if_splits)
qed

lemma part_keeps:
  assumes "env_ok ev" "snapshots_ok s" "complete_part ev p s = (r, t)"
  shows "snapshots_ok t"
proof -
  let ?i = "pt_meta_id p" and ?s = "s\<lparr>disk := AList.update (PartPath (pt_meta_id p) (pt_nth p)) (pt_content p) (disk s)\<rparr>"
  have ok_s: "snapshots_ok ?s" by (rule write_snapshots [OF assms(2)]) simp
  then have ok: "store_ok ?s" by (simp add: snapshots_ok_def)
  obtain q where q: "multipart_get_one ev (multipart_id_regex ?i) ?s = (Inr q, ?s)"
    "\<And>m. q = Some m \<Longrightarrow> \<exists>k d. (k, d, RMultipart m) \<in> set (live ?s) \<and> mp_meta_id m = ?i"
    using upload_by_id.first_found [OF TrueI assms(1) ok, of ?i]
    unfolding multipart_get_one_def by fastforce
  have run: "complete_part ev p s = sbind (load_marked ev ?i (pt_nth p)) (store_marked ev ?i) ?s"
    by (simp add: complete_part_def write_file_def svc_simps)
  show ?thesis
  proof (cases "\<exists>m. q = Some m \<and> pt_nth p < length (mp_parts m)")
    case False
    then have "t = ?s"
      using assms(3) q(1) unfolding run by (cases q) (auto simp: load_marked_def svc_simps ok_or_def)
    with ok_s show ?thesis by simp
  next
    case True
    then obtain m where m: "q = Some m" "pt_nth p < length (mp_parts m)" by blast
    let ?m = "m\<lparr>mp_parts := (mp_parts m)[pt_nth p := True]\<rparr>" and ?k = "id_hash_key ?i (mp_hash m)"
    obtain k d where e: "(k, d, RMultipart m) \<in> set (live ?s)" "mp_meta_id m = ?i" using q(2) [OF m(1)] by blast
    have clean: "clean (mp_hash m)" using live_entry [OF ok e(1)] by (simp add: entry_multipart)
    have t: "store_marked ev ?i ?m ?s = (r, t)"
      using assms(3) q(1) m unfolding run by (simp add: load_marked_def svc_simps)
    show ?thesis
    proof (cases "0 < multipart_exp ev")
      case False
      then have "t = ?s" using t by (simp add: store_marked_def multipart_update_def pset_ex_def svc_simps)
      with ok_s show ?thesis by simp
    next
      case True
      let ?u = "?s\<lparr>redis := AList.update ?k (now_ms ?s + multipart_exp ev, RMultipart ?m) (redis ?s)\<rparr>"
      have e': "entry_ok (?k, now_ms ?s + multipart_exp ev, RMultipart ?m)"
        using clean e(2) by (simp add: entry_multipart)
      have "other_live ?u ?s" by (rule multipart_write_other [OF ok clean e']) (simp add: True)
      then have ok_u: "snapshots_ok ?u"
        by (rule snapshots_ok_other [OF ok_s store_ok_update [OF ok e']]) (simp add: other_disk_def)
      have "store_marked ev ?i ?m ?s =
          (if unfinished_parts ?m \<noteq> [] then sret (unfinished_parts ?m) else merge_parts ev ?i ?m) ?u"
        unfolding store_marked_def multipart_update_def sthen_run by (simp add: pset_ex_run [OF True])
      then have "t = ?u \<or> merge_parts ev ?i ?m ?u = (r, t)"
        unfolding t by (cases "unfinished_parts ?m = []") (simp_all add: sret_run)
      with ok_u merge_keeps [OF ok_u] show ?thesis by blast
    qed
  qed
qed

lemma time_keeps:
  assumes "snapshots_ok s" "now_ms s \<le> u"
  shows "snapshots_ok (s\<lparr>now_ms := u\<rparr>)"
proof (rule snapshots_ok_less [OF assms(1)])
  show "store_ok (s\<lparr>now_ms := u\<rparr>)" using snapshots_ok_store [OF assms(1)] by simp
qed (use assms(2) in \<open>auto simp: live_def\<close>)

lemma step_keeps:
  assumes "env_ok ev" "snapshot_step ev s t" "snapshots_ok s"
  shows "snapshots_ok t"
  using assms(2)
proof cases
  case (create n r)
  then show ?thesis using create_keeps [OF assms(3)] by blast
next
  case (flash n r)
  then show ?thesis using flash_keeps [OF assms(1,3)] by blast
next
  case (remove i r)
  then show ?thesis using remove_keeps [OF assms(1,3)] by blast
next
  case (part p r)
  then show ?thesis using part_keeps [OF assms(1,3)] by blast
next
  case (time u)
  then show ?thesis using time_keeps [OF assms(3)] by simp
qed

lemma steps_keep:
  assumes "(snapshot_step ev)\<^sup>*\<^sup>* s t" "env_ok ev" "snapshots_ok s"
  shows "snapshots_ok t"
  using assms by (induction rule: rtranclp_induct) (auto intro: step_keeps)

end
