(* ===== verification/KF_Dirs.thy ===== *)
theory KF_Dirs
  imports KF_Records
begin

text \<open>
  The net disk: which ids of entries an operation may add (without drawing an id), and what a saved entry leaves in the table.
\<close>

definition ids_in :: "uuid set \<Rightarrow> uuid option \<Rightarrow> nat \<Rightarrow> kstate \<Rightarrow> bool" where
  "ids_in A u c k \<longleftrightarrow> statements k = [] \<and> repo_user_id k = u \<and> drawn k = c \<and> fy_id ` set (file_system (file_tabs (db k))) \<subseteq> A"

lemma ids_in_reads [keeps_intro]:
  "keeps (ids_in A u c) (read_db f)" "keeps (ids_in A u c) (\<lambda>s. (repo_user s v, s))"
  by (auto simp: keeps_def ids_in_def read_db_def)

abbreviation within :: "uuid set \<Rightarrow> uuid option \<Rightarrow> nat \<Rightarrow> 'a fsvc \<Rightarrow> bool" where
  "within A u c m \<equiv> keeps (\<lambda>s. ids_in A u c (scope s)) m"

lemma within_steps [keeps_intro]:
  "within A u c (scope_user v)" "within A u c (file_rows f)" "within A u c (first_row P)"
  by (auto simp: scope_user_def file_rows_def first_row_def intro!: keeps_intro)

lemma within_net_disk_reads [keeps_intro]:
  "within A u c (repo_get_root_id v)" "within A u c (get_flow_draft_dir_id i)" "within A u c (get_node_instance_dir_id i)"
  "within A u c (get_flow_instance_dir_id i)" "within A u c (is_same_pid_fname_exists p n v)"
  "within A u c get_flow_draft_root_id" "within A u c (get_flow_instance_root_id v)"
  by (auto simp: net_disk_reads Let_def intro!: keeps_intro)

text \<open>An entry that is saved: its id is that of the directory it stands for, and it is in the table.\<close>

lemma row_from_simps [simp]:
  "fy_id (file_system_row_from v e) = ne_id e" "fy_parent_id (file_system_row_from v e) = ne_parent_id e"
  "fy_file_metadata_id (file_system_row_from v e) = ne_file_metadata_id e"
  "fy_owner_id (file_system_row_from v e) = v"
  by (simp_all add: file_system_row_from_def)

lemma dir_users [simp]:
  "ne_user_id (flow_instance_root r x) = x" "ne_user_id (flow_instance_dir p i nm x) = x"
  "ne_user_id (node_instance_dir p f i nm x) = x" "ne_user_id (net_disk_file i q nm ft m meta x) = x"
  by (simp_all add: flow_instance_root_def flow_instance_dir_def node_instance_dir_def net_disk_file_def)

definition saved_tables :: "uuid \<Rightarrow> net_disk \<Rightarrow> file_tables \<Rightarrow> file_tables" where
  "saved_tables v e d = (let e = e\<lparr>ne_id := root_dir_id v e\<rparr> in
     if ne_id e \<in> fy_id ` set (file_system d) then d
     else d\<lparr>file_system := file_system d @ [file_system_row_from v e]\<rparr>)"

lemma insert_and_save_run:
  assumes "statements (scope s) = []" "repo_user (scope s) (ne_user_id e) = Inr v"
  shows "insert_and_save e s = (Inr (root_dir_id v e), s\<lparr>scope := (scope s)\<lparr>statements := [], can_drop := True,
    db := (db (scope s))\<lparr>file_tabs := saved_tables v e (file_tabs (db (scope s)))\<rparr>\<rparr>\<rparr>)"
  using assms
  by (simp add: insert_and_save_def net_disk_insert_def scope_user_def on_scope_def push_file_def push_stmt_def
      files_save_changed_def save_changed_def saved_tables_def Let_def svc_simps)

lemma insert_and_save_none:
  "repo_user (scope s) (ne_user_id e) = Inl x \<Longrightarrow> insert_and_save e s = (Inl (KernelErr x), s)"
  by (simp add: insert_and_save_def net_disk_insert_def scope_user_def on_scope_def svc_simps)

lemma within_insert:
  assumes "\<And>v. ne_user_id e = Some v \<or> ne_user_id e = None \<and> u = Some v \<Longrightarrow> root_dir_id v e \<in> A"
  shows "within A u c (insert_and_save e)"
proof (rule keepsI)
  fix s :: fstate assume s: "ids_in A u c (scope s)"
  show "ids_in A u c (scope (snd (insert_and_save e s)))"
  proof (cases "repo_user (scope s) (ne_user_id e)")
    case (Inl x)
    with insert_and_save_none [OF this] s show ?thesis by simp
  next
    case (Inr v)
    then have v: "root_dir_id v e \<in> A"
      using assms [of v] s by (auto simp: repo_user_def ids_in_def ok_or_def split: option.splits)
    have "statements (scope s) = []" using s by (simp add: ids_in_def)
    from insert_and_save_run [OF this Inr] v s show ?thesis
      by (auto simp: ids_in_def saved_tables_def Let_def)
  qed
qed

lemma within_root:
  assumes "\<And>v. u = Some v \<Longrightarrow> v \<in> A"
  shows "within A u c (net_get_root_id w)"
proof -
  have "ids_in A u c (scope (snd (sbind create_root (\<lambda>i. sthen files_save_changed (sret i)) s)))"
    if "ids_in A u c (scope s)" for s
  proof (cases u)
    case None
    with that have "repo_user_id (scope s) = None" by (simp add: ids_in_def)
    with that show ?thesis
      by (simp add: create_root_def scope_user_def on_scope_def repo_user_def ok_or_def svc_simps)
  next
    case (Some v)
    with that have st: "repo_user_id (scope s) = Some v" "statements (scope s) = []"
      "drawn (scope s) = c" "fy_id ` set (file_system (file_tabs (db (scope s)))) \<subseteq> A" by (simp_all add: ids_in_def)
    with assms [OF Some] show ?thesis
      by (simp add: Some ids_in_def create_root_def scope_user_def on_scope_def repo_user_def
        ok_or_def push_file_def push_stmt_def files_save_changed_def save_changed_def svc_simps)
  qed
  then have made: "within A u c (sbind create_root (\<lambda>i. sthen files_save_changed (sret i)))" by (rule keepsI)
  show ?thesis
    unfolding net_get_root_id_def
    by (intro keeps_sbind [OF within_net_disk_reads(1)] keeps_option keeps_sret made)
qed

lemma root_dir_ids [simp]:
  "root_dir_id v (flow_instance_root r w) = v + 2"
  "root_dir_id v (flow_instance_dir p i nm x) = i"
  "root_dir_id v (node_instance_dir p f i nm x) = i"
  by (simp_all add: root_dir_id_def flow_instance_root_def flow_instance_dir_def node_instance_dir_def no_meta_def)

lemma file_ids [simp]:
  "meta = None \<or> (\<exists>y. meta = Some y \<and> nm_dir_kind y = None) \<Longrightarrow> root_dir_id v (net_disk_file i p nm ft m meta x) = i"
  by (auto simp: root_dir_id_def net_disk_file_def)

text \<open>The directory of a node is the entry under the node's id, and it is there.\<close>

lemma within_flow_dir:
  assumes "w + 2 \<in> A" "flow \<in> A" "\<And>v. u = Some v \<Longrightarrow> v \<in> A"
  shows "within A u c (get_or_create_flow_instance_dir flow nm (Some w))"
proof -
  have "within A u c (insert_and_save (flow_instance_root r (Some w)))"
    "within A u c (insert_and_save (flow_instance_dir p flow nm (Some w)))" for r p
    using assms(1,2) by (auto intro!: within_insert)
  then show ?thesis
    unfolding get_or_create_flow_instance_dir_def
    by (intro keeps_intro within_root assms(3) keeps_sret)
qed

lemma node_dir_run:
  assumes "get_or_create_node_instance_dir node flow nm flow_nm (Some w) s = (Inr d, t)"
    and "ids_in A u c (scope s)" "node \<in> A" "w + 2 \<in> A" "flow \<in> A" "\<And>v. u = Some v \<Longrightarrow> v \<in> A"
  shows "d = node \<and> ids_in A u c (scope t) \<and> node \<in> fy_id ` set (file_system (file_tabs (db (scope t))))"
proof -
  let ?find = "get_node_instance_dir_id node"
  obtain x p v where x: "?find s = (Inr x, v)"
    and p: "\<exists>y. (case x of Some el \<Rightarrow> sret el | None \<Rightarrow> get_or_create_flow_instance_dir flow flow_nm (Some w)) v = (Inr p, y) \<and>
      insert_and_save (node_instance_dir p flow node nm (Some w)) y = (Inr d, t)"
    using assms(1) by (auto simp: get_or_create_node_instance_dir_def sbind_Inr_iff)
  obtain y where y: "(case x of Some el \<Rightarrow> sret el | None \<Rightarrow> get_or_create_flow_instance_dir flow flow_nm (Some w)) v = (Inr p, y)"
    "insert_and_save (node_instance_dir p flow node nm (Some w)) y = (Inr d, t)" using p by blast
  have keep: "within A u c ?find"
    "within A u c (case x of Some el \<Rightarrow> sret el | None \<Rightarrow> get_or_create_flow_instance_dir flow flow_nm (Some w))"
    by (intro keeps_intro keeps_sret within_flow_dir assms(4-6))+
  have "ids_in A u c (scope v)" using keeps_run [OF keep(1) _ x] assms(2) by simp
  then have in_y: "ids_in A u c (scope y)" using keeps_run [OF keep(2) _ y(1)] by simp
  then have st: "statements (scope y) = []" by (simp add: ids_in_def)
  have user: "repo_user (scope y) (ne_user_id (node_instance_dir p flow node nm (Some w))) = Inr w"
    by (simp add: repo_user_def node_instance_dir_def)
  from insert_and_save_run [OF st user] y(2) in_y assms(3) show ?thesis
    by (auto simp: ids_in_def saved_tables_def Let_def)
qed

end
