(* ===== verification/KF_Samples.thy ===== *)
theory KF_Samples
  imports KF_Moves KF_Snapshots KF_Dirs
begin

text \<open>
  A concrete outside and a concrete store for the witnesses: patterns are matched as documented,
  keys come in the order of the store, ids are read back digit by digit, the hash of a content is
  its length in unary, and the storage server takes every file.
\<close>

definition hex_value :: "char \<Rightarrow> nat" where
  "hex_value c = (let n = of_char c in if n < 58 then n - 48 else n - 87)"

definition read_uuid :: "string \<Rightarrow> uuid option" where
  "read_uuid s = Some (foldl (\<lambda>a c. a * 16 + of_nat (hex_value c)) 0 (cut_hyphens s))"

lemma hex_value_digit: "n < 16 \<Longrightarrow> hex_value (hex_digit n) = n"
  by (auto simp: hex_value_def hex_digit_def Let_def)

lemma word_nibble: "drop_bit 4 w * 16 + word_of_nat (unat w mod 16) = (w :: uuid)"
proof -
  have "word_of_nat (unat w mod 16) = take_bit 4 w"
    by (rule word_unat_eq_iff [THEN iffD2]) (simp add: unsigned_of_nat take_bit_eq_mod unat_mod_distrib)
  then show ?thesis using bits_ident [of 4 w] by (simp add: push_bit_eq_mult)
qed

lemma read_digits:
  assumes "m \<le> 32"
  shows "foldl (\<lambda>a c. a * 16 + of_nat (hex_value c)) 0
      (map (\<lambda>k. hex_digit (unat (drop_bit (4 * (31 - k)) i) mod 16)) [0..<m]) = drop_bit (4 * (32 - m)) (i :: uuid)"
  using assms
proof (induction m)
  case 0
  show ?case by (simp add: drop_bit_word_beyond)
next
  case (Suc m)
  have "4 * (32 - m) = 4 + 4 * (31 - m)" using Suc.prems by simp
  then have "drop_bit (4 * (32 - m)) i = drop_bit 4 (drop_bit (4 * (31 - m)) i)" by (simp add: drop_bit_drop_bit)
  with Suc word_nibble [of "drop_bit (4 * (31 - m)) i"] show ?case by (simp add: hex_value_digit)
qed

lemma read_uuid_show [simp]: "read_uuid (show_uuid i) = Some i"
  using read_digits [of 32 i] by (simp add: read_uuid_def cut_hyphens_show uuid_simple_def)

definition sample_fenv :: fenv where
  "sample_fenv =
     \<lparr>new_uuid = (\<lambda>n. of_nat (1000 + n)), glob = star_match, keys_order = (\<lambda>ks. ks),
      parse_uuid = read_uuid, blake3 = (\<lambda>c. replicate (length c) CHR ''a''),
      format_time = show_int,
      server_upload = (\<lambda>sv m _. Inr \<lparr>su_bucket = sv_bucket sv, su_storage_server_id = sv_id sv, su_meta_id = m\<rparr>),
      default_storage_server_id = 3, multipart_exp = 1000, move_exp = 1000, snapshot_exp = 1000,
      realtime_exp = 1000, upload_topic = ''upload'', snapshot_topic = ''snapshot'',
      realtime_request_topic = ''realtime'', ws_server_operate_topic = ''ws''\<rparr>"

lemma sample_fenv_ok [simp]: "env_ok sample_fenv"
  by (simp add: env_ok_def globs_def sample_fenv_def)

definition sample_scope :: kstate where
  "sample_scope = \<lparr>db = \<lparr>node_rows = [], flow_rows = [], draft_rows = [],
       file_tabs = no_files\<lparr>storage_servers := [\<lparr>sv_id = 3, sv_name = ''s3'', sv_bucket = ''b'', sv_download_endpoint = ''http://s3''\<rparr>]\<rparr>,
       cluster_rows = [], software_block_list = [], installed_software = []\<rparr>,
     statements = [], can_drop = True, repo_user_id = Some 7, clock = 0, drawn = 0, rolled = 0,
     texts = [], sent_tasks = [], node_status_mq = [], bill_mq = [], posted = []\<rparr>"

definition sample_fstate :: fstate where
  "sample_fstate = \<lparr>scope = sample_scope, redis = [], now_ms = 0, disk = [], upload_mq = [],
     snapshot_mq = [], realtime_mq = [], ws_mq = []\<rparr>"

lemma sample_fstate_ok [simp]: "store_ok sample_fstate"
  by (simp add: store_ok_def sample_fstate_def)

text \<open>Two parts of one byte each, announced.\<close>

definition sample_content :: "nat \<Rightarrow> bytes" where
  "sample_content n = [of_nat n]"

lemma sample_hash: "''AA'' = file_hash sample_fenv Blake3 [0, 1]"
  unfolding sample_fenv_def by code_simp

definition sample_announced :: fstate where
  "sample_announced = sample_fstate\<lparr>redis := [(id_hash_key 5 ''AA'', 1000, RMultipart
     \<lparr>mp_meta_id = 5, mp_hash = ''AA'', mp_hash_algorithm = Blake3, mp_parts = [False, False]\<rparr>)]\<rparr>"

lemma sample_announced_create:
  "multipart_create sample_fenv 5 ''AA'' Blake3 2 sample_fstate = (Inr (), sample_announced)"
  by (simp add: multipart_create_def multipart_get_one_def get_first_def query_keys_def live_def
      sample_fstate_def sample_fenv_def sample_announced_def multipart_insert_def pset_ex_def svc_simps
      numeral_eq_Suc)

text \<open>The file of the two parts, to be brought to the storage server, and the command for it.\<close>

definition sample_info :: move_registration where
  "sample_info = \<lparr>mr_id = 8, mr_meta_id = 5, mr_file_name = ''f'', mr_hash = ''AA'', mr_hash_algorithm = Blake3,
     mr_size = 2, mr_destination = ToStorageServer
       (Some \<lparr>rn_file_type = Unkonwn, rn_kind = NormalFile (Some 70)\<rparr>), mr_is_upload_failed = False,
     mr_failed_reason = None, mr_user_id = Some 7\<rparr>"

definition sample_command :: file_upload_command where
  "sample_command = \<lparr>fu_move_id = 8, fu_user_id = 7\<rparr>"

definition sample_merged :: fstate where
  "sample_merged = sample_fstate\<lparr>redis := [
       (id_hash_key 5 ''AA'', 1000, RMultipart \<lparr>mp_meta_id = 5, mp_hash = ''AA'', mp_hash_algorithm = Blake3,
          mp_parts = [True, True]\<rparr>),
       (move_entry_key 7 sample_info, 1000, RMove sample_info)],
     disk := [(NormalPath 5, [0, 1])]\<rparr>"

lemma sample_merged_ok: "store_ok sample_merged" "registered sample_merged 7 sample_info"
  "upload_record sample_merged 5 \<lparr>mp_meta_id = 5, mp_hash = ''AA'', mp_hash_algorithm = Blake3,
     mp_parts = [True, True]\<rparr>"
proof -
  have ne: "move_entry_key 7 sample_info \<noteq> id_hash_key 5 ''AA''" by (rule move_key_not_multipart) simp
  show "store_ok sample_merged"
    using ne entry_move_key [of 7 sample_info 1000]
    by (simp add: store_ok_def sample_merged_def entry_multipart)
  show "registered sample_merged 7 sample_info" "upload_record sample_merged 5 \<lparr>mp_meta_id = 5,
      mp_hash = ''AA'', mp_hash_algorithm = Blake3, mp_parts = [True, True]\<rparr>"
    by (auto simp: registered_def upload_record_def live_def sample_merged_def sample_fstate_def)
qed

lemma sample_upload_run:
  "\<exists>t. file_upload_runner_consumer sample_fenv sample_command sample_merged = (Inr (), t) \<and>
    redis t = [] \<and> map_of (disk t) (NormalPath 5) = None \<and>
    (\<exists>row \<in> set (file_system (file_tabs (db (scope t)))). fy_parent_id row = Some 70 \<and>
      fy_file_metadata_id row = Some 5 \<and> fy_owner_id row = 7)"
proof -
  have i: "mr_meta_id sample_info = 5" "fu_user_id sample_command = 7" by (simp_all add: sample_info_def sample_command_def)
  have h: "mr_id sample_info = fu_move_id sample_command"
    "mr_destination sample_info = ToStorageServer (Some \<lparr>rn_file_type = Unkonwn, rn_kind = NormalFile (Some 70)\<rparr>)"
    "map_of (disk sample_merged) (NormalPath (mr_meta_id sample_info)) = Some [0, 1]"
    "find (\<lambda>r. sv_id r = default_storage_server_id sample_fenv)
      (storage_servers (file_tabs (db (scope sample_merged)))) = Some \<lparr>sv_id = 3, sv_name = ''s3'', sv_bucket = ''b'', sv_download_endpoint = ''http://s3''\<rparr>"
    "server_upload sample_fenv \<lparr>sv_id = 3, sv_name = ''s3'', sv_bucket = ''b'', sv_download_endpoint = ''http://s3''\<rparr> (mr_meta_id sample_info) [0, 1] =
      Inr \<lparr>su_bucket = ''b'', su_storage_server_id = 3, su_meta_id = 5\<rparr>"
    "file_tabs (db (scope sample_merged)) = no_files\<lparr>storage_servers := [\<lparr>sv_id = 3, sv_name = ''s3'', sv_bucket = ''b'', sv_download_endpoint = ''http://s3''\<rparr>]\<rparr>"
    by (simp_all add: sample_info_def sample_command_def sample_merged_def sample_fstate_def sample_scope_def
        sample_fenv_def no_files_def)
  have r: "upload_record sample_merged (mr_meta_id sample_info) \<lparr>mp_meta_id = 5, mp_hash = ''AA'',
      mp_hash_algorithm = Blake3, mp_parts = [True, True]\<rparr>" using sample_merged_ok(3) by (simp add: i)
  show ?thesis
    using upload_run [OF sample_fenv_ok sample_merged_ok(1,2) h(1) r h(2-5)]
    by (simp add: i h(6) no_files_def) (simp add: sample_merged_def)
qed

text \<open>The same command when the metadata was stored before.\<close>

definition sample_again :: fstate where
  "sample_again = sample_merged\<lparr>scope := sample_scope\<lparr>db := (db sample_scope)\<lparr>file_tabs :=
     (file_tabs (db sample_scope))\<lparr>file_metadata := [\<lparr>fmr_id = 5, fmr_name = ''f'', fmr_hash = ''AA'',
       fmr_hash_algorithm = ''blake3'', fmr_size = 2\<rparr>]\<rparr>\<rparr>\<rparr>\<rparr>"

text \<open>The announcement of the file, on an empty store.\<close>

lemma sample_prepared:
  "\<exists>s. prepare_upload sample_fenv sample_info 2 sample_fstate =
    (Inr (rp_ok (Some \<lparr>pr_result = Normal, pr_id = 5\<rparr>)), s)"
  by (simp add: prepare_upload_def if_possible_do_flash_upload_def Let_def meta_satisfy_flash_upload_def
      get_by_hash_and_algorithm_def file_rows_def multipart_create_def multipart_get_one_def get_first_def
      query_keys_def live_def sample_fstate_def sample_scope_def no_files_def sample_fenv_def sample_info_def
      multipart_insert_def pset_ex_def register_move_def move_insert_def svc_simps)

text \<open>A node of a flow, seen from a message of another user.\<close>

definition sample_node_instance :: node_instance where
  "sample_node_instance = \<lparr>ni_kind = KNoAction, ni_id = 11, ni_name = ''node'', is_parent = False,
     batch_parent_id = None, flow_instance_id = 10, ni_status = Running, cluster_id = None, ni_log = None,
     resource_meter = None\<rparr>"

definition sample_flow :: workflow_instance where
  "sample_flow = \<lparr>wi_id = 10, wi_name = ''flow'', wi_description = '''', wi_logo = None, wi_status = FRunning,
     wi_spec = \<lparr>ws_scheduling_strategy = Auto, node_specs = [], node_relations = []\<rparr>,
     wi_last_modified_time = 0, wi_user_id = 8\<rparr>"

definition sample_running :: fstate where
  "sample_running = sample_fstate\<lparr>scope := sample_scope\<lparr>db := (db sample_scope)\<lparr>
     node_rows := [node_row_from sample_node_instance], flow_rows := [flow_row_from sample_flow]\<rparr>\<rparr>\<rparr>"

lemma sample_running_rows:
  "node_by_id 11 (db (scope sample_running)) = Inr sample_node_instance"
  "flow_by_id 10 (db (scope sample_running)) = Inr sample_flow" "flow_instance_id sample_node_instance = 10"
proof -
  have "nr_id (node_row_from sample_node_instance) = 11" "fr_id (flow_row_from sample_flow) = 10"
    by (simp_all add: sample_node_instance_def sample_flow_def flow_row_from_def)
  then show "node_by_id 11 (db (scope sample_running)) = Inr sample_node_instance"
    "flow_by_id 10 (db (scope sample_running)) = Inr sample_flow"
    by (simp_all add: sample_running_def node_by_id_def flow_by_id_def find_node_row_def find_flow_row_def ok_or_def)
qed (simp add: sample_node_instance_def)

lemma sample_node_file: "\<exists>t. create_node_instance_file sample_fenv 11 5 ''f'' Unkonwn sample_running = (Inr (), t)"
proof -
  have gets: "on_scope (node_get_by_id 11) sample_running = (Inr sample_node_instance, sample_running)"
    "on_scope (flow_get_by_id 10) sample_running = (Inr sample_flow, sample_running)"
    by (simp_all add: on_scope_def node_get_by_id_def flow_get_by_id_def read_db_def sample_running_rows)
  have fs: "file_system (file_tabs (db (scope sample_running))) = []" "statements (scope sample_running) = []"
    "repo_user_id (scope sample_running) = Some 7" "wi_user_id sample_flow = 8"
    by (simp_all add: sample_running_def sample_scope_def sample_fstate_def no_files_def sample_flow_def)
  obtain r v where dir: "get_or_create_node_instance_dir 11 10 (ni_name sample_node_instance) (wi_name sample_flow) (Some 8)
      sample_running = (Inr r, v)" "statements (scope v) = []"
    by (simp add: get_or_create_node_instance_dir_def get_or_create_flow_instance_dir_def net_get_root_id_def
       repo_get_root_id_def get_flow_instance_root_id_def get_node_instance_dir_id_def get_flow_instance_dir_id_def
       scope_user_def repo_user_def on_scope_def first_row_def file_rows_def create_root_def push_file_def push_stmt_def
       files_save_changed_def save_changed_def svc_simps fs insert_and_save_run ok_or_def saved_tables_def Let_def)
  have user: "repo_user k (Some 8) = Inr 8" for k by (simp add: repo_user_def)
  obtain x where x: "fix_file_name sample_fenv (Some r) ''f'' (Some 8) v = (Inr x, v)"
    using fix_file_name_run user by blast
  show ?thesis
    using dir by (simp add: create_node_instance_file_def Let_def sbind_run sthen_run sret_run gets x fs(4)
        sample_running_rows(3) fresh_uuid_run insert_and_save_run user)
qed

end
