(* ===== verification/KF_Props.thy ===== *)
theory KF_Props
  imports KF_Samples
begin

text \<open>
  What the file services of the coordinator guarantee, and where they do not keep what they
  promise.
\<close>

section \<open>Uploads in parts\<close>

text \<open>C30 Parts may come in any order, and again: after an upload is announced, each part but the last
  missing one is answered with the list of the parts still missing, and the last one leaves the
  whole file in the cache, with no part left, when its hash is the announced one.\<close>

theorem parts_in_any_order:
  assumes "env_ok ev" "store_ok s0" "0 < multipart_exp ev" "clean h"
    and "multipart_create ev i h a n s0 = (Inr (), s)"
    and "h = file_hash ev a (concat (map content [0..<n]))"
    and "set (xs @ [k]) = {..<n}" "k \<notin> set xs"
  shows "\<exists>t. smap (\<lambda>j. complete_part ev (the_part i content j)) (xs @ [k]) s =
      (Inr (map (\<lambda>j. missing n (set (take (Suc j) (xs @ [k])))) [0..<length (xs @ [k])]), t) \<and>
    map_of (disk t) (NormalPath i) = Some (concat (map content [0..<n])) \<and>
    (\<forall>p. map_of (disk t) (PartPath i p) = None)"
proof -
  let ?m = "\<lparr>mp_meta_id = i, mp_hash = h, mp_hash_algorithm = a, mp_parts = replicate n False\<rparr>"
  have "store_ok s" "upload_record s i ?m"
    using multipart_create_record [OF assms(1,2,4,3,5)] by simp_all
  then have start: "uploaded s i ?m content {}" by (simp add: uploaded_def map_replicate_const)
  have left: "{..<n} - ({} \<union> set xs) \<noteq> {}" "set xs \<subseteq> {..<n}" "k < n" using assms(7,8) by auto
  obtain t p where t: "smap (\<lambda>j. complete_part ev (the_part i content j)) xs s =
      (Inr (map (\<lambda>j. missing n (set (take (Suc j) xs))) [0..<length xs]), t)"
    "uploaded t i (?m\<lparr>mp_parts := p\<rparr>) content (set xs)" "length p = n"
    using parts_loop [OF assms(1,3) start left(2) _ _ left(1)] by auto
  have all: "insert k (set xs) = {..<n}" using assms(7) by simp
  then have none: "missing n (insert k (set xs)) = []" by (simp add: missing_def filter_empty_conv)
  obtain u where u: "complete_part ev (the_part i content k) t =
      merge_parts ev i (?m\<lparr>mp_parts := p[k := True]\<rparr>) u"
    "uploaded u i (?m\<lparr>mp_parts := p[k := True]\<rparr>) content {..<n}"
    using part_stored [OF assms(1,3) t(2), of k] t(3) left(2,3) none all by auto
  obtain w where w: "merge_parts ev i (?m\<lparr>mp_parts := p[k := True]\<rparr>) u = (Inr [], w)"
    "map_of (disk w) (NormalPath i) = Some (concat (map content [0..<n]))"
    "\<forall>p. map_of (disk w) (PartPath i p) = None"
    using merge_parts_run [OF u(2)] t(3) left(3) assms(6) by auto
  have "smap (\<lambda>j. complete_part ev (the_part i content j)) (xs @ [k]) s =
      (Inr (map (\<lambda>j. missing n (set (take (Suc j) xs))) [0..<length xs] @ [[]]), w)"
    using t(1) u(1) w(1) by (simp add: smap_snoc svc_simps)
  moreover have "map (\<lambda>j. missing n (set (take (Suc j) (xs @ [k])))) [0..<length (xs @ [k])] =
      map (\<lambda>j. missing n (set (take (Suc j) xs))) [0..<length xs] @ [[]]"
    using none by (simp add: Un_commute)
  ultimately show ?thesis using w(2,3) by auto
qed

theorem parts_in_any_order_witness:
  "\<exists>t. smap (\<lambda>j. complete_part sample_fenv (the_part 5 sample_content j)) [1, 0] sample_announced =
      (Inr [[0], []], t) \<and> map_of (disk t) (NormalPath 5) = Some [0, 1]"
proof -
  have c: "concat (map sample_content [0..<2]) = [0, 1]"
    by (simp add: sample_content_def numeral_eq_Suc)
  have h: "''AA'' = file_hash sample_fenv Blake3 (concat (map sample_content [0..<2]))"
    unfolding c by (rule sample_hash)
  have m: "map (\<lambda>j. missing 2 (set (take (Suc j) [1, 0]))) [0..<length [1, 0 :: nat]] = [[0], []]"
    by (simp add: missing_def numeral_eq_Suc)
  have xs: "0 < multipart_exp sample_fenv" "clean ''AA''" "set ([1] @ [0]) = {..<2 :: nat}" "(0 :: nat) \<notin> set [1]"
    by (auto simp: sample_fenv_def)
  from parts_in_any_order [OF sample_fenv_ok sample_fstate_ok xs(1,2) sample_announced_create h xs(3,4)]
  show ?thesis unfolding c append_Cons append_Nil m by blast
qed

text \<open>C36 Two parts of an upload that are stored at the same time lose a mark: both requests read the record
  before either writes it, so the first part is cached but the record ends without it, and each reply
  still asks for the other part. Nothing is merged until the part is sent again.\<close>

theorem concurrent_part_lost:
  assumes "env_ok ev" "0 < multipart_exp ev" "uploaded s i m content there"
    and "j < length (mp_parts m)" "k < length (mp_parts m)" "j \<noteq> k" "j \<notin> there" "k \<notin> there"
    and "map_of (disk s) (PartPath i j) = Some (content j)" "map_of (disk s) (PartPath i k) = Some (content k)"
  shows "\<exists>mj mk t u. load_marked ev i j s = (Inr mj, s) \<and> load_marked ev i k s = (Inr mk, s) \<and>
    store_marked ev i mj s = (Inr (missing (length (mp_parts m)) (insert j there)), t) \<and>
    store_marked ev i mk t = (Inr (missing (length (mp_parts m)) (insert k there)), u) \<and>
    upload_record u i mk \<and> j \<in> set (unfinished_parts mk) \<and>
    map_of (disk u) (PartPath i j) = Some (content j)"
proof -
  let ?mj = "m\<lparr>mp_parts := (mp_parts m)[j := True]\<rparr>" and ?mk = "m\<lparr>mp_parts := (mp_parts m)[k := True]\<rparr>"
  let ?n = "length (mp_parts m)"
  have up: "store_ok s" "upload_record s i m" "mp_parts m = map (\<lambda>k. k \<in> there) [0..<?n]"
    using assms(3) unfolding uploaded_def by blast+
  have id: "mp_meta_id m = i" "clean (mp_hash m)" using up(2) unfolding upload_record_def by blast+
  have load: "load_marked ev i j s = (Inr ?mj, s)" "load_marked ev i k s = (Inr ?mk, s)"
    using multipart_get_record [OF assms(1) up(1,2)] assms(4,5) by (simp_all add: load_marked_def svc_simps)
  have marked: "(mp_parts m)[x := True] = map (\<lambda>k. k \<in> insert x there) [0..<?n]" for x
    using arg_cong [OF up(3), of "\<lambda>l. l[x := True]"] mark_part [of there ?n x] by (rule trans)
  have unfinished: "unfinished_parts ?mj = missing ?n (insert j there)"
    "unfinished_parts ?mk = missing ?n (insert k there)"
    by (rule unfinished_missing, simp add: marked)+
  have there: "k \<in> set (missing ?n (insert j there))" "j \<in> set (missing ?n (insert k there))"
    using assms(4-8) by (auto simp: missing_def)
  obtain t where t: "pset_ex (id_hash_key i (mp_hash ?mj)) (RMultipart ?mj) (multipart_exp ev) s = (Inr (), t)"
    "store_ok t" "upload_record t i ?mj" "disk t = disk s"
    using record_replaced [OF up(1,2) assms(2), of ?mj] by auto
  obtain u where u: "pset_ex (id_hash_key i (mp_hash ?mk)) (RMultipart ?mk) (multipart_exp ev) t = (Inr (), u)"
    "upload_record u i ?mk" "disk u = disk t"
    using record_replaced [OF t(2,3) assms(2), of ?mk] by auto
  have "store_marked ev i ?mj s = (Inr (missing ?n (insert j there)), t)"
    "store_marked ev i ?mk t = (Inr (missing ?n (insert k there)), u)"
    using t(1) u(1) there unfinished
    by (auto simp: store_marked_def multipart_update_def sthen_run sret_run)
  with load u(2,3) t(4) there unfinished assms(9) show ?thesis
    by (intro exI [of _ ?mj] exI [of _ ?mk] exI [of _ t] exI [of _ u]) simp
qed

definition sample_cached :: fstate where
  "sample_cached = sample_announced\<lparr>disk := [(PartPath 5 0, sample_content 0), (PartPath 5 1, sample_content 1)]\<rparr>"

lemma sample_cached_uploaded:
  "uploaded sample_cached 5 \<lparr>mp_meta_id = 5, mp_hash = ''AA'', mp_hash_algorithm = Blake3,
     mp_parts = [False, False]\<rparr> sample_content {}"
proof -
  have "store_ok sample_announced \<and> upload_record sample_announced 5 \<lparr>mp_meta_id = 5, mp_hash = ''AA'',
      mp_hash_algorithm = Blake3, mp_parts = replicate 2 False\<rparr>"
    using multipart_create_record [OF sample_fenv_ok sample_fstate_ok _ _ sample_announced_create]
    by (simp add: sample_fenv_def)
  then show ?thesis by (simp add: uploaded_def sample_cached_def upload_record_def numeral_eq_Suc)
qed

theorem concurrent_part_lost_witness:
  "\<exists>mj mk t u. load_marked sample_fenv 5 0 sample_cached = (Inr mj, sample_cached) \<and>
    load_marked sample_fenv 5 1 sample_cached = (Inr mk, sample_cached) \<and>
    store_marked sample_fenv 5 mj sample_cached = (Inr [1], t) \<and>
    store_marked sample_fenv 5 mk t = (Inr [0], u) \<and> 0 \<in> set (unfinished_parts mk)"
proof -
  have m: "missing 2 (insert 0 {}) = [1]" "missing 2 (insert 1 {}) = [0]"
    by (simp_all add: missing_def numeral_eq_Suc)
  have c: "map_of (disk sample_cached) (PartPath 5 0) = Some (sample_content 0)"
    "map_of (disk sample_cached) (PartPath 5 1) = Some (sample_content 1)" by (simp_all add: sample_cached_def)
  let ?m = "\<lparr>mp_meta_id = 5, mp_hash = ''AA'', mp_hash_algorithm = Blake3, mp_parts = [False, False]\<rparr>"
  have h: "0 < multipart_exp sample_fenv" "0 < length (mp_parts ?m)" "1 < length (mp_parts ?m)"
    "(0 :: nat) \<noteq> 1" "(0 :: nat) \<notin> {}" "(1 :: nat) \<notin> {}" by (simp_all add: sample_fenv_def)
  have l: "length (mp_parts ?m) = 2" by simp
  from concurrent_part_lost [OF sample_fenv_ok h(1) sample_cached_uploaded h(2-6) c] show ?thesis
    unfolding l m by blast
qed

section \<open>Moves of uploaded files\<close>

text \<open>C29 From the announcement to the storage server: after the reply \<open>Normal\<close> to an upload for the
  storage server, the parts may come in any order; each request but the last is answered with the
  parts still missing, the last with success, and then the command to bring the file to the storage
  server, with the registration and its user, has been sent once, and the whole file is cached.\<close>

theorem uploaded_file_is_sent:
  assumes "env_ok ev" "store_ok s0" "0 < multipart_exp ev" "0 < move_exp ev" "clean (mr_hash info)"
    and "\<forall>(k, d, v) \<in> set (live s0). \<forall>x. v = RMove x \<longrightarrow> mr_id x \<noteq> mr_id info \<and> mr_meta_id x \<noteq> mr_meta_id info"
    and "(case mr_user_id info of Some u \<Rightarrow> Some u | None \<Rightarrow> repo_user_id (scope s0)) = Some u"
    and "mr_destination info = ToStorageServer x"
    and "prepare_upload ev info n s0 = (Inr (rp_ok (Some \<lparr>pr_result = Normal, pr_id = i\<rparr>)), s)"
    and "mr_hash info = file_hash ev (mr_hash_algorithm info) (concat (map content [0..<n]))"
    and "set (xs @ [k]) = {..<n}" "k \<notin> set xs"
  shows "\<exists>t. smap (\<lambda>j. partial_upload ev i j [content j]) (xs @ [k]) s =
      (Inr (map (\<lambda>j. rp_ok (Some (missing n (set (take (Suc j) xs))))) [0..<length xs] @ [rp_ok None]), t) \<and>
    upload_mq t = upload_mq s0 @ [(upload_topic ev, \<lparr>fu_move_id = mr_id info, fu_user_id = u\<rparr>)] \<and>
    map_of (disk t) (NormalPath (mr_meta_id info)) = Some (concat (map content [0..<n]))"
proof -
  let ?m = "\<lparr>mp_meta_id = i, mp_hash = mr_hash info, mp_hash_algorithm = mr_hash_algorithm info,
      mp_parts = replicate n False\<rparr>"
  have p: "i = mr_meta_id info" "store_ok s" "registered s u info" "upload_mq s = upload_mq s0" "upload_record s i ?m"
    using prepared [OF assms(1-7,9)] by blast+
  then have start: "uploaded s i ?m content {}" by (simp add: uploaded_def map_replicate_const)
  have left: "{..<n} - ({} \<union> set xs) \<noteq> {}" "set xs \<subseteq> {..<n}" "k < n" "insert k (set xs) = {..<n}"
    using assms(11,12) by auto
  have len: "length (mp_parts ?m) = n" by simp
  obtain t q where t: "smap (\<lambda>j. partial_upload ev i j [content j]) xs s =
      (Inr (map (\<lambda>j. rp_ok (Some (missing n ({} \<union> set (take (Suc j) xs))))) [0..<length xs]), t)"
    "uploaded t i (?m\<lparr>mp_parts := q\<rparr>) content ({} \<union> set xs)" "length q = n"
    "upload_mq t = upload_mq s" "other_live t s"
    using loop_of_parts [where g = "\<lambda>y. rp_ok (Some y)", OF partial_upload_step [OF assms(1,3)] start left(2) _ len left(1)]
    by auto
  obtain v where v: "partial_upload ev i k [content k] t =
      sbind (satt (do_registered_moves ev i)) (\<lambda>r. sret (case r of Inl _ \<Rightarrow> rp_err 500 | Inr _ \<Rightarrow> rp_ok None)) v"
    "store_ok v" "upload_mq v = upload_mq t" "other_live v t"
    "map_of (disk v) (NormalPath i) = Some (concat (map content [0..<n]))"
    using last_part [OF assms(1,3) t(2), of n k] t(3) left(3,4) assms(10) by auto
  have reg: "registered v u info"
    using p(3) registered_other [OF v(4)] registered_other [OF t(5)] by simp
  have "partial_upload ev i k [content k] t = (Inr (rp_ok None), v\<lparr>upload_mq := upload_mq v @
      [(upload_topic ev, \<lparr>fu_move_id = mr_id info, fu_user_id = u\<rparr>)]\<rparr>)"
    using v(1) send_registered [OF assms(1) v(2) reg assms(8)] p(1) by (simp add: svc_simps)
  with t(1,4) v(3,5) p(1,4) show ?thesis by (simp add: smap_snoc svc_simps)
qed

theorem uploaded_file_is_sent_witness:
  "\<exists>s t. prepare_upload sample_fenv sample_info 2 sample_fstate =
      (Inr (rp_ok (Some \<lparr>pr_result = Normal, pr_id = 5\<rparr>)), s) \<and>
    smap (\<lambda>j. partial_upload sample_fenv 5 j [sample_content j]) [1, 0] s =
      (Inr [rp_ok (Some [0]), rp_ok None], t) \<and>
    upload_mq t = [(''upload'', \<lparr>fu_move_id = 8, fu_user_id = 7\<rparr>)] \<and>
    map_of (disk t) (NormalPath 5) = Some [0, 1]"
proof -
  have c: "concat (map sample_content [0..<2]) = [0, 1]"
    by (simp add: sample_content_def numeral_eq_Suc)
  have f: "mr_hash sample_info = ''AA''" "mr_hash_algorithm sample_info = Blake3" "mr_id sample_info = 8"
    "mr_meta_id sample_info = 5" "mr_user_id sample_info = Some 7"
    "mr_destination sample_info = ToStorageServer (Some \<lparr>rn_file_type = Unkonwn, rn_kind = NormalFile (Some 70)\<rparr>)"
    "upload_mq sample_fstate = []" "upload_topic sample_fenv = ''upload''"
    by (simp_all add: sample_info_def sample_fstate_def sample_fenv_def)
  have h: "mr_hash sample_info = file_hash sample_fenv (mr_hash_algorithm sample_info) (concat (map sample_content [0..<2]))"
    unfolding c f by (rule sample_hash)
  have g: "0 < multipart_exp sample_fenv" "0 < move_exp sample_fenv" "clean (mr_hash sample_info)"
    "\<forall>(k, d, v) \<in> set (live sample_fstate). \<forall>x. v = RMove x \<longrightarrow>
      mr_id x \<noteq> mr_id sample_info \<and> mr_meta_id x \<noteq> mr_meta_id sample_info"
    "(case mr_user_id sample_info of Some u \<Rightarrow> Some u | None \<Rightarrow> repo_user_id (scope sample_fstate)) = Some 7"
    "set ([1] @ [0]) = {..<2 :: nat}" "(0 :: nat) \<notin> set [1]"
    by (auto simp: sample_fenv_def f live_def sample_fstate_def)
  obtain s where s: "prepare_upload sample_fenv sample_info 2 sample_fstate =
      (Inr (rp_ok (Some \<lparr>pr_result = Normal, pr_id = 5\<rparr>)), s)"
    using sample_prepared by blast
  have m: "map (\<lambda>j. rp_ok (Some (missing 2 (set (take (Suc j) [1]))))) [0..<length [1 :: nat]] @ [rp_ok None] =
      [rp_ok (Some [0]), rp_ok None]" by (simp add: missing_def numeral_eq_Suc)
  from uploaded_file_is_sent [OF sample_fenv_ok sample_fstate_ok g(1-5) f(6) s h g(6,7)] s
  show ?thesis unfolding c f m append_Cons append_Nil by blast
qed

text \<open>C35 The registration of a move is kept for a time that the parts of the upload do not renew, while
  the record of the upload is renewed by each part. When the registration is out of time, the last
  part is still answered with success, and the merged file is neither sent to the storage server nor
  made a snapshot.\<close>

theorem late_upload_not_moved:
  assumes "env_ok ev" "0 < multipart_exp ev" "uploaded s i m content there" "j < length (mp_parts m)"
    and "insert j there = {..<length (mp_parts m)}"
    and "mp_hash m = file_hash ev (mp_hash_algorithm m) (concat (map content [0..<length (mp_parts m)]))"
    and "\<forall>(k, d, v) \<in> set (live s). \<forall>r. v = RMove r \<longrightarrow> mr_meta_id r \<noteq> i"
  shows "\<exists>t. partial_upload ev i j [content j] s = (Inr (rp_ok None), t) \<and> upload_mq t = upload_mq s \<and>
    map_of (disk t) (SnapshotPath i) = map_of (disk s) (SnapshotPath i) \<and>
    map_of (disk t) (NormalPath i) = Some (concat (map content [0..<length (mp_parts m)]))"
proof -
  let ?n = "length (mp_parts m)"
  obtain u where u: "partial_upload ev i j [content j] s =
      sbind (satt (do_registered_moves ev i)) (\<lambda>r. sret (case r of Inl _ \<Rightarrow> rp_err 500 | Inr _ \<Rightarrow> rp_ok None)) u"
    "store_ok u" "upload_mq u = upload_mq s" "other_live u s"
    "map_of (disk u) (SnapshotPath i) = map_of (disk s) (SnapshotPath i)"
    "map_of (disk u) (NormalPath i) = Some (concat (map content [0..<?n]))"
    using last_part [OF assms(1-3) refl assms(4-6)] by blast
  have gone: "\<forall>(k, d, v) \<in> set (live u). \<not> (\<exists>r. v = RMove r \<and> mr_meta_id r = i)"
  proof safe
    fix k d v r assume v: "(k, d, RMove r) \<in> set (live u)" and i: "i = mr_meta_id r"
    have "(k, d, RMove r) \<in> set (live s)" using u(4) v by (simp add: other_live_def)
    with assms(7) i show False by blast
  qed
  have "get_all ev as_move (any_user_key_regex (meta_id_key_regex i)) u = (Inr [], u)"
    by (rule moves_by_file.all_none [OF TrueI assms(1) u(2) gone])
  then have "do_registered_moves ev i u = (Inr (), u)"
    by (simp add: do_registered_moves_def move_get_all_def svc_simps)
  with u show ?thesis by (simp add: svc_simps)
qed

definition sample_half :: fstate where
  "sample_half = sample_cached\<lparr>redis := [(id_hash_key 5 ''AA'', 1000, RMultipart \<lparr>mp_meta_id = 5,
     mp_hash = ''AA'', mp_hash_algorithm = Blake3, mp_parts = [True, False]\<rparr>)]\<rparr>"

lemma sample_half_uploaded:
  "uploaded sample_half 5 \<lparr>mp_meta_id = 5, mp_hash = ''AA'', mp_hash_algorithm = Blake3,
     mp_parts = [True, False]\<rparr> sample_content {0}"
  by (auto simp: uploaded_def upload_record_def store_ok_def live_def entry_multipart sample_half_def
      sample_cached_def sample_announced_def sample_fstate_def id_hash_key_def numeral_2_eq_2)

theorem late_upload_not_moved_witness:
  "\<exists>t. partial_upload sample_fenv 5 1 [sample_content 1] sample_half = (Inr (rp_ok None), t) \<and>
    upload_mq t = [] \<and> map_of (disk t) (SnapshotPath 5) = None \<and>
    map_of (disk t) (NormalPath 5) = Some [0, 1]"
proof -
  let ?m = "\<lparr>mp_meta_id = 5, mp_hash = ''AA'', mp_hash_algorithm = Blake3, mp_parts = [True, False]\<rparr>"
  have c: "concat (map sample_content [0..<2]) = [0, 1]"
    by (simp add: sample_content_def numeral_eq_Suc)
  have l: "length (mp_parts ?m) = 2" by simp
  have h: "0 < multipart_exp sample_fenv" "1 < length (mp_parts ?m)" "insert 1 {0} = {..<length (mp_parts ?m)}"
    by (auto simp: sample_fenv_def)
  have hash: "mp_hash ?m =
      file_hash sample_fenv (mp_hash_algorithm ?m) (concat (map sample_content [0..<length (mp_parts ?m)]))"
    using sample_hash c by (simp add: numeral_2_eq_2)
  have none: "\<forall>(k, d, v) \<in> set (live sample_half). \<forall>r. v = RMove r \<longrightarrow> mr_meta_id r \<noteq> 5"
    "upload_mq sample_half = []" "map_of (disk sample_half) (SnapshotPath 5) = None"
    by (simp_all add: live_def sample_half_def sample_cached_def sample_announced_def sample_fstate_def)
  from late_upload_not_moved [OF sample_fenv_ok h(1) sample_half_uploaded h(2,3) hash none(1)] none(2,3)
  show ?thesis unfolding l c by simp
qed

text \<open>A file that is recorded can not be recorded again: when a command to bring a file to the storage
  server is repeated after its metadata was stored (because a later step failed), the transaction fails,
  and the registration and the cached file stay as they were.\<close>

theorem upload_retry_fails:
  assumes "get_move_info ev (fu_move_id cmd) (new_scope (Some (fu_user_id cmd)) s) =
      (Inr (Some info), new_scope (Some (fu_user_id cmd)) s)"
    and "get_user_id ev (fu_move_id cmd) (new_scope (Some (fu_user_id cmd)) s) =
      (Inr (Some u), new_scope (Some (fu_user_id cmd)) s)"
    and "mr_destination info = ToStorageServer record"
    and "map_of (disk s) (NormalPath (mr_meta_id info)) = Some content"
    and "dispatcher_upload ev (mr_meta_id info) content (new_scope (Some (fu_user_id cmd)) s) =
      (Inr url, new_scope (Some (fu_user_id cmd)) s)"
    and "mr_meta_id info \<in> fmr_id ` set (file_metadata (file_tabs (db (scope s))))"
  shows "\<exists>t. file_upload_runner_consumer ev cmd s = (Inl (KernelErr DbErr), t) \<and>
    redis t = redis s \<and> disk t = disk s \<and> db (scope t) = db (scope s)"
  using assms
  by (simp add: file_upload_runner_consumer_def upload_file_def Let_def svc_simps net_disk_record_def
      read_cached_def record_meta_and_storage_def file_meta_insert_def insert_with_custom_user_id_def
      fresh_uuid_def draw_uuid_def on_scope_def push_file_def push_stmt_def files_save_changed_def
      save_changed_def new_scope_def file_meta_row_from_def)

text \<open>A command to bring a file to the storage server that succeeds: the cached file was sent to the
  default server, its metadata and its place are recorded, for the user of the registration, also
  after the entry in the net disk is made, and the cache does not have the file any more.\<close>

theorem upload_file_records:
  assumes "file_upload_runner_consumer ev cmd s = (Inr (), t)"
  shows "\<exists>info content sv url u.
    fst (get_move_info ev (fu_move_id cmd) (new_scope (Some (fu_user_id cmd)) s)) = Inr (Some info) \<and>
    fst (get_user_id ev (fu_move_id cmd) (new_scope (Some (fu_user_id cmd)) s)) = Inr (Some u) \<and>
    map_of (disk s) (NormalPath (mr_meta_id info)) = Some content \<and>
    find (\<lambda>r. sv_id r = default_storage_server_id ev) (storage_servers (file_tabs (db (scope s)))) = Some sv \<and>
    server_upload ev sv (mr_meta_id info) content = Inr url \<and>
    (\<exists>r \<in> set (file_metadata (file_tabs (db (scope t)))). fmr_id r = mr_meta_id info \<and>
      fmr_hash r = mr_hash info \<and> fmr_name r = mr_file_name info) \<and>
    (\<exists>q \<in> set (file_storages (file_tabs (db (scope t)))). fsr_file_metadata_id q = mr_meta_id info \<and>
      fsr_server_url q = url_string url \<and> fsr_created_user_id q = u) \<and>
    map_of (disk t) (NormalPath (mr_meta_id info)) = None"
proof -
  let ?s = "new_scope (Some (fu_user_id cmd)) s"
  have run: "upload_file ev cmd ?s = (Inr (), t)"
    using assms by (simp add: file_upload_runner_consumer_def svc_simps)
  obtain info where i: "get_move_info ev (fu_move_id cmd) ?s = (Inr (Some info), ?s)"
    using run by (fastforce simp: upload_file_def Let_def sbind_Inr_iff slift_run ok_or_def
        split: option.splits dest: get_move_info_state)
  obtain u where u: "get_user_id ev (fu_move_id cmd) ?s = (Inr (Some u), ?s)"
    using run i by (fastforce simp: upload_file_def Let_def sbind_Inr_iff slift_run ok_or_def
        split: option.splits dest: get_user_id_state)
  obtain rnd where d: "net_disk_record (mr_destination info) = Inr rnd"
    using run i u by (auto simp: upload_file_def Let_def sbind_Inr_iff slift_run)
  obtain content where c: "map_of (disk s) (NormalPath (mr_meta_id info)) = Some content"
    using run i u d by (auto simp: upload_file_def Let_def sbind_Inr_iff slift_run read_cached_def
        ok_or_def new_scope_def split: option.splits)
  have read: "read_cached (NormalPath (mr_meta_id info)) ?s = (Inr content, ?s)"
    using c by (simp add: read_cached_def new_scope_def)
  let ?up = "dispatcher_upload ev (mr_meta_id info) content ?s"
  let ?m = "\<lparr>fm_id = mr_meta_id info, fm_name = mr_file_name info, fm_hash = mr_hash info,
      fm_hash_algorithm = mr_hash_algorithm info, fm_size = mr_size info\<rparr>"
  have state: "snd ?up = ?s" by (simp add: dispatcher_upload_run)
  obtain url where up: "fst ?up = Inr url"
    using run i u d read state
    by (cases "fst ?up") (auto simp: upload_file_def Let_def svc_simps split: prod.splits sum.splits)
  let ?q = "\<lparr>fs_storage_server_id = su_storage_server_id url, fs_meta_id = mr_meta_id info,
      fs_server_url = url_string url\<rparr>"
  obtain v w x where rec: "record_meta_and_storage ev ?m ?q (Some u) ?s = (Inr (), v)"
    and net: "(case rnd of None \<Rightarrow> sret () | Some el \<Rightarrow> net_disk_create_file ev
        \<lparr>cf_meta_id = mr_meta_id info, cf_file_name = mr_file_name info, cf_file_type = rn_file_type el,
         cf_kind = rn_kind el\<rparr>) v = (Inr (), w)"
    and rm: "cache_operate (RemoveNormal (mr_meta_id info)) w = (Inr (), x)"
    and rest: "sthen (multipart_remove ev (mr_meta_id info)) (remove_all_with_meta_id ev (mr_meta_id info)) x = (Inr (), t)"
    using run i u d read state up
    by (auto simp: upload_file_def Let_def sbind_Inr_iff sthen_Inr_iff slift_run satt_run simp del: cache_operate.simps)
  obtain j where j: "recorded (file_meta_row_from ?m) (file_storage_row_from j u ?q) (scope v)"
    using record_run [OF rec] by blast
  let ?P = "\<lambda>s. recorded (file_meta_row_from ?m) (file_storage_row_from j u ?q) (scope s)"
  have "?P w" using j net by (rule keeps_run [where P = ?P, rotated]) (intro keeps_intro stays_create_file keeps_sret)
  then have "?P x" using rm by (rule keeps_run [where P = ?P, rotated]) (intro keeps_intro)
  then have all: "?P t" using rest by (rule keeps_run [where P = ?P, rotated]) (intro keeps_intro)
  have gone: "map_of (disk t) (NormalPath (mr_meta_id info)) = None"
    using remove_normal_none [OF rm] rest
    by (rule keeps_run [where P = "\<lambda>s. map_of (disk s) (NormalPath (mr_meta_id info)) = None", rotated])
      (intro keeps_intro multipart_remove_none remove_all_disk)
  have server: "\<exists>sv. find (\<lambda>r. sv_id r = default_storage_server_id ev)
      (storage_servers (file_tabs (db (scope s)))) = Some sv \<and> server_upload ev sv (mr_meta_id info) content = Inr url"
    using up by (auto simp: dispatcher_upload_run new_scope_def split: option.splits sum.splits)
  have meta: "\<exists>r \<in> set (file_metadata (file_tabs (db (scope t)))). fmr_id r = mr_meta_id info \<and>
      fmr_hash r = mr_hash info \<and> fmr_name r = mr_file_name info"
    using all unfolding recorded_def by (intro bexI [of _ "file_meta_row_from ?m"]) (auto simp: file_meta_row_from_def)
  have place: "\<exists>q \<in> set (file_storages (file_tabs (db (scope t)))). fsr_file_metadata_id q = mr_meta_id info \<and>
      fsr_server_url q = url_string url \<and> fsr_created_user_id q = u"
    using all unfolding recorded_def
    by (intro bexI [of _ "file_storage_row_from j u ?q"]) (auto simp: file_storage_row_from_def)
  from i u c gone server meta place show ?thesis by (auto intro!: exI [of _ info])
qed



theorem upload_file_records_witness:
  "\<exists>t. file_upload_runner_consumer sample_fenv sample_command sample_merged = (Inr (), t) \<and>
    (\<exists>r \<in> set (file_metadata (file_tabs (db (scope t)))). fmr_id r = 5 \<and> fmr_hash r = ''AA'') \<and>
    (\<exists>q \<in> set (file_storages (file_tabs (db (scope t)))). fsr_file_metadata_id q = 5 \<and> fsr_created_user_id q = 7) \<and>
    map_of (disk t) (NormalPath 5) = None"
proof -
  obtain t where t: "file_upload_runner_consumer sample_fenv sample_command sample_merged = (Inr (), t)"
    using sample_upload_run by blast
  have reads: "get_move_info sample_fenv 8 (new_scope (Some 7) sample_merged) = (Inr (Some sample_info), new_scope (Some 7) sample_merged)"
    "get_user_id sample_fenv 8 (new_scope (Some 7) sample_merged) = (Inr (Some 7), new_scope (Some 7) sample_merged)"
    using registered_reads(1,2) [OF sample_fenv_ok, of "new_scope (Some 7) sample_merged" 7 sample_info] sample_merged_ok(1,2)
    by (simp_all add: sample_info_def)
  have c: "fu_move_id sample_command = 8" "fu_user_id sample_command = 7" "mr_meta_id sample_info = 5" "mr_hash sample_info = ''AA''"
    by (simp_all add: sample_command_def sample_info_def)
  from upload_file_records [OF t] show ?thesis unfolding c reads fst_conv by (intro exI [of _ t]) (auto simp: c t)
qed

theorem upload_retry_fails_witness:
  "\<exists>t. file_upload_runner_consumer sample_fenv sample_command sample_again = (Inl (KernelErr DbErr), t) \<and>
    redis t = redis sample_again \<and> disk t = disk sample_again"
proof -
  let ?s = "new_scope (Some 7) sample_again"
  have same: "redis ?s = redis sample_merged" "now_ms ?s = now_ms sample_merged"
    by (simp_all add: sample_again_def new_scope_def)
  have "store_ok ?s" "registered ?s 7 sample_info"
    using sample_merged_ok(1,2) same by (simp_all add: store_ok_def registered_def live_def)
  from registered_reads(1,2) [OF sample_fenv_ok this]
  have reads: "get_move_info sample_fenv (fu_move_id sample_command) ?s = (Inr (Some sample_info), ?s)"
    "get_user_id sample_fenv (fu_move_id sample_command) ?s = (Inr (Some 7), ?s)"
    by (simp_all add: sample_info_def sample_command_def)
  have c: "fu_user_id sample_command = 7" "mr_meta_id sample_info = 5"
    "mr_destination sample_info = ToStorageServer (Some \<lparr>rn_file_type = Unkonwn, rn_kind = NormalFile (Some 70)\<rparr>)"
    "map_of (disk sample_again) (NormalPath 5) = Some [0, 1]"
    "5 \<in> fmr_id ` set (file_metadata (file_tabs (db (scope sample_again))))"
    by (simp_all add: sample_command_def sample_info_def sample_again_def sample_merged_def)
  have up: "dispatcher_upload sample_fenv 5 [0, 1] ?s =
      (Inr \<lparr>su_bucket = ''b'', su_storage_server_id = 3, su_meta_id = 5\<rparr>, ?s)"
    by (simp add: dispatcher_upload_run sample_fenv_def new_scope_def sample_again_def sample_merged_def
        sample_fstate_def sample_scope_def no_files_def)
  from upload_retry_fails [of sample_fenv sample_command sample_again, unfolded c(1), OF reads, unfolded c(2), OF c(3,4) up c(5)]
  show ?thesis by blast
qed

section \<open>Snapshots\<close>

text \<open>C31 Starting without snapshots, after any sequence of snapshots made from uploaded files, made of a file
  that is there, removed, running out of time, and of parts of uploads stored in between, a snapshot
  is either not known or its content is read: no record is left whose file is gone.\<close>

theorem snapshots_stay_readable:
  assumes "env_ok ev" "store_ok s0" "\<forall>(k, d, v) \<in> set (live s0). as_snapshot v = None"
    and "(snapshot_step ev)\<^sup>*\<^sup>* s0 s"
  shows "snapshot_read ev i s = (Inl (NoSuchSnapshot i), s) \<or> (\<exists>c. snapshot_read ev i s = (Inr c, s))"
proof -
  have none: "(k, d, RSnapshot n) \<notin> set (live s0)" for k d n
  proof
    assume "(k, d, RSnapshot n) \<in> set (live s0)"
    with assms(3) have "as_snapshot (RSnapshot n) = None" by blast
    then show False by simp
  qed
  have "snapshots_ok s0" using assms(2) none by (simp add: snapshots_ok_def)
  then have ok: "snapshots_ok s" by (rule steps_keep [OF assms(4,1)])
  then have st: "store_ok s" by (rule snapshots_ok_store)
  obtain q where q: "get_first ev as_snapshot (any_user_key_regex (snapshot_id_regex i)) s = (Inr q, s)"
    "\<And>n. q = Some n \<Longrightarrow> \<exists>k d. (k, d, RSnapshot n) \<in> set (live s)"
    using snapshot_by_id.first_found [OF TrueI assms(1) st, of i] by fastforce
  show ?thesis
  proof (cases q)
    case None
    with q(1) show ?thesis by (simp add: snapshot_read_def snapshot_get_one_def svc_simps)
  next
    case (Some n)
    then have "map_of (disk s) (SnapshotPath (sn_meta_id n)) \<noteq> None"
      using ok q(2) unfolding snapshots_ok_def by blast
    with q(1) Some show ?thesis
      by (auto simp: snapshot_read_def snapshot_get_one_def svc_simps read_cached_def)
  qed
qed

definition sample_snapshot :: snapshot where
  "sample_snapshot = \<lparr>sn_id = 9, sn_meta_id = 5, sn_node_id = 1, sn_file_id = 2, sn_timestamp = 0,
     sn_file_name = ''f'', sn_size = 2, sn_hash = ''AA'', sn_hash_algorithm = Blake3, sn_user_id = 7\<rparr>"

theorem snapshots_stay_readable_witness:
  "\<exists>s r t. snapshot_create sample_fenv sample_snapshot sample_merged = (Inr (), s) \<and>
    snapshot_remove sample_fenv 9 s = (r, t) \<and>
    (snapshot_read sample_fenv 9 t = (Inl (NoSuchSnapshot 9), t) \<or> (\<exists>c. snapshot_read sample_fenv 9 t = (Inr c, t)))"
proof -
  have none: "\<forall>(k, d, v) \<in> set (live sample_merged). as_snapshot v = None"
    by (simp add: live_def sample_merged_def)
  obtain s where s: "snapshot_create sample_fenv sample_snapshot sample_merged = (Inr (), s)"
    by (simp add: snapshot_create_def svc_simps read_cached_def sample_snapshot_def sample_merged_def
        snapshot_insert_def pset_ex_def sample_fenv_def)
  obtain r t where t: "snapshot_remove sample_fenv 9 s = (r, t)" by fastforce
  have "clean (sn_hash sample_snapshot)" by (simp add: sample_snapshot_def)
  moreover have "(k, d, RSnapshot n) \<notin> set (live sample_merged)" for k d n
    by (simp add: live_def sample_merged_def)
  ultimately have "snapshot_step sample_fenv sample_merged s" by (intro snapshot_step.create [OF s]) simp_all
  then have "(snapshot_step sample_fenv)\<^sup>*\<^sup>* sample_merged t"
    using snapshot_step.remove [OF t] by (meson r_into_rtranclp rtranclp.rtrancl_into_rtrancl)
  from snapshots_stay_readable [OF sample_fenv_ok sample_merged_ok(1) none this] s t show ?thesis by blast
qed

section \<open>Files read while a node runs\<close>

text \<open>C37 A request for a file of a running node leaves without its id: the message to the agent carries the
  nil id, while the connection is registered under a drawn id. An answer under the id of the message
  finds no connection (when no key of the store starts with the nil id), so the content is not delivered.\<close>

theorem realtime_reply_lost:
  assumes "env_ok ev" "store_ok s" "0 < realtime_exp ev" "new_uuid ev (drawn (scope s)) \<noteq> 0"
    and "\<forall>(k, d, v) \<in> set (live s). \<not> glob ev (req_id_key_regex 0) k"
  shows "\<exists>t req. realtime_file_consumer ev (client, cmd) s = (Inr (), t) \<and>
    realtime_mq t = realtime_mq s @ [(realtime_request_topic ev, req)] \<and>
    send_realtime ev (vr_req_id req) content t = (Inl (NoSuchReq (vr_req_id req)), t)"
proof -
  let ?i = "new_uuid ev (drawn (scope s))"
  let ?w = "\<lparr>ws_request_id = ?i, ws_client_id = client\<rparr>" and ?req = "cmd\<lparr>vr_req_id := 0\<rparr>"
  let ?s = "(new_scope None s)\<lparr>realtime_mq := realtime_mq s @ [(realtime_request_topic ev, ?req)],
      scope := (scope s)\<lparr>repo_user_id := None, statements := [], can_drop := True, drawn := Suc (drawn (scope s))\<rparr>\<rparr>"
  let ?k = "ws_key ?i client" and ?d = "now_ms s + realtime_exp ev"
  let ?t = "?s\<lparr>redis := AList.update ?k (?d, RWsReq ?w) (redis s)\<rparr>"
  have run: "realtime_file_consumer ev (client, cmd) s = (Inr (), ?t)"
    using assms(3) by (simp add: realtime_file_consumer_def request_realtime_file_def ws_insert_def pset_ex_run
        fresh_uuid_def draw_uuid_def on_scope_def new_scope_def svc_simps)
  have ok: "store_ok ?s" "live ?s = live s" "redis ?s = redis s" "now_ms ?s = now_ms s"
    using assms(2) by (simp_all add: store_ok_def live_def new_scope_def)
  have e: "entry_ok (?k, ?d, RWsReq ?w)" by (simp add: entry_ok_def ws_key_def)
  have e': "entry_ok (?k, ?d, RWsReq ?w)" "now_ms ?s < ?d" using e assms(3) by (simp_all add: ok)
  have new: "\<not> glob ev (req_id_key_regex 0) ?k"
    using glob_entry [OF _ e, of ev "[Some (show_uuid 0), None]" False] assms(1,4)
    by (simp add: req_id_key_regex_def env_ok_def)
  have "\<not> glob ev (req_id_key_regex 0) k" if v: "(k, d, v) \<in> set (live ?t)" for k d v
  proof (cases "k = ?k")
    case True
    with new show ?thesis by simp
  next
    case False
    then have "(k, d, v) \<in> set (live s)"
      using v live_update [OF ok(1) e'(1,2), of k d v] unfolding ok by simp
    with assms(5) show ?thesis by blast
  qed
  then have "filter (\<lambda>(k, _). glob ev (req_id_key_regex 0) k) (live ?t) = []" by (auto simp: filter_empty_conv)
  moreover have "keys_order ev [] = []" using assms(1) by (metis env_ok_def mset.simps(1) mset_zero_iff)
  ultimately have "query_keys ev (req_id_key_regex 0) ?t = []" by (simp only: query_keys_def list.map)
  then have "ws_get_one ev (req_id_key_regex 0) ?t = (Inr None, ?t)"
    by (simp only: ws_get_one_def get_first_def sbind_run sgets_run sret_run list.case prod.case sum.case)
  then have "send_realtime ev 0 content ?t = (Inl (NoSuchReq 0), ?t)"
    by (simp add: send_realtime_def get_client_id_def sbind_run slift_run ok_or_def)
  with run show ?thesis by (intro exI [of _ ?t] exI [of _ ?req]) (simp add: new_scope_def)
qed

theorem realtime_reply_lost_witness:
  "\<exists>t req. realtime_file_consumer sample_fenv (4, \<lparr>vr_req_id = 6, vr_node_id = 1, vr_meta_id = 2, vr_start_row = 0,
      vr_rows_per_page = 10, vr_regex = ''''\<rparr>) sample_fstate = (Inr (), t) \<and> realtime_mq t = [(''realtime'', req)] \<and>
    send_realtime sample_fenv (vr_req_id req) ''x'' t = (Inl (NoSuchReq (vr_req_id req)), t)"
proof -
  have h: "0 < realtime_exp sample_fenv" "new_uuid sample_fenv (drawn (scope sample_fstate)) \<noteq> 0"
    "\<forall>(k, d, v) \<in> set (live sample_fstate). \<not> glob sample_fenv (req_id_key_regex 0) k"
    "realtime_mq sample_fstate = []" "realtime_request_topic sample_fenv = ''realtime''"
    by (simp_all add: sample_fenv_def sample_fstate_def sample_scope_def live_def)
  from realtime_reply_lost [OF sample_fenv_ok sample_fstate_ok h(1-3)] show ?thesis by (simp add: h(4,5))
qed

section \<open>The net disk\<close>

text \<open>A file of a node is entered below the directory of its node: when the entry is made, the table has
  an entry under the node's id, and the file's entry has it as parent and belongs to the owner of the
  node's flow, whoever the request runs for. The id drawn for it is new.\<close>

theorem node_file_in_node_dir:
  assumes "create_node_instance_file ev node meta name ft s = (Inr (), t)" "statements (scope s) = []"
    and "node_by_id node (db (scope s)) = Inr n" "flow_by_id (flow_instance_id n) (db (scope s)) = Inr w"
    and "new_uuid ev (drawn (scope s)) \<notin> fy_id ` set (file_system (file_tabs (db (scope s)))) \<union>
      {node, flow_instance_id n, wi_user_id w + 2} \<union> set_option (repo_user_id (scope s))"
  shows "node \<in> fy_id ` set (file_system (file_tabs (db (scope t)))) \<and>
    (\<exists>row \<in> set (file_system (file_tabs (db (scope t)))). fy_parent_id row = Some node \<and>
      fy_file_metadata_id row = Some meta \<and> fy_owner_id row = wi_user_id w)"
proof -
  let ?u = "repo_user_id (scope s)" and ?w = "wi_user_id w"
  let ?A = "fy_id ` set (file_system (file_tabs (db (scope s)))) \<union> {node, flow_instance_id n, ?w + 2} \<union> set_option ?u"
  have gets: "on_scope (node_get_by_id node) s = (Inr n, s)"
    "on_scope (flow_get_by_id (flow_instance_id n)) s = (Inr w, s)"
    using assms(3,4) by (simp_all add: on_scope_def node_get_by_id_def flow_get_by_id_def read_db_def)
  let ?dir = "get_or_create_node_instance_dir node (flow_instance_id n) (ni_name n) (wi_name w) (Some ?w)"
  let ?meta = "Some (no_meta\<lparr>nm_flow_instance_id := Some (flow_instance_id n), nm_node_instance_id := Some node\<rparr>)"
  obtain d v x y i q j where run: "?dir s = (Inr d, v)" "fix_file_name ev (Some d) name (Some ?w) v = (Inr x, y)"
    "fresh_uuid ev y = (Inr i, q)" "insert_and_save (net_disk_file i (Some d) x ft meta ?meta (Some ?w)) q = (Inr j, t)"
    using assms(1) gets by (auto simp: create_node_instance_file_def Let_def sbind_Inr_iff sthen_Inr_iff sret_run)
  have start: "ids_in ?A ?u (drawn (scope s)) (scope s)" using assms(2) by (auto simp: ids_in_def)
  have d: "d = node" "ids_in ?A ?u (drawn (scope s)) (scope v)" "node \<in> fy_id ` set (file_system (file_tabs (db (scope v))))"
    using node_dir_run [OF run(1) start] by auto
  have "repo_user (scope v) (Some ?w) = Inr ?w" by (simp add: repo_user_def)
  then have y: "scope y = scope v" using run(2) fix_file_name_run [of v "Some ?w" ?w ev "Some d" name] by auto
  have i: "i = new_uuid ev (drawn (scope y))" and q: "file_tabs (db (scope q)) = file_tabs (db (scope y))"
    "statements (scope q) = []"
    using run(3) d(2) y by (auto simp: fresh_uuid_run ids_in_def)
  have "drawn (scope v) = drawn (scope s)" "fy_id ` set (file_system (file_tabs (db (scope v)))) \<subseteq> ?A"
    using d(2) by (simp_all add: ids_in_def)
  then have new: "i \<notin> fy_id ` set (file_system (file_tabs (db (scope q))))"
    using assms(5) unfolding i q(1) y by auto
  have user: "repo_user (scope q) (ne_user_id (net_disk_file i (Some d) x ft meta ?meta (Some ?w))) = Inr ?w"
    by (simp add: repo_user_def)
  have "scope t = (scope q)\<lparr>statements := [], can_drop := True, db := (db (scope q))\<lparr>file_tabs :=
      saved_tables ?w (net_disk_file i (Some d) x ft meta ?meta (Some ?w)) (file_tabs (db (scope q)))\<rparr>\<rparr>"
    using insert_and_save_run [OF q(2) user] run(4) by auto
  with new d(1,3) q(1) y show ?thesis
    by (auto simp: saved_tables_def Let_def no_meta_def net_disk_file_def root_dir_id_def)
qed

theorem node_file_in_node_dir_witness:
  "\<exists>t. create_node_instance_file sample_fenv 11 5 ''f'' Unkonwn sample_running = (Inr (), t) \<and>
    11 \<in> fy_id ` set (file_system (file_tabs (db (scope t)))) \<and>
    (\<exists>row \<in> set (file_system (file_tabs (db (scope t)))). fy_parent_id row = Some 11 \<and>
      fy_file_metadata_id row = Some 5 \<and> fy_owner_id row = 8)"
proof -
  obtain t where t: "create_node_instance_file sample_fenv 11 5 ''f'' Unkonwn sample_running = (Inr (), t)"
    using sample_node_file by blast
  have h: "statements (scope sample_running) = []"
    "node_by_id 11 (db (scope sample_running)) = Inr sample_node_instance"
    "flow_by_id (flow_instance_id sample_node_instance) (db (scope sample_running)) = Inr sample_flow"
    "new_uuid sample_fenv (drawn (scope sample_running)) \<notin>
      fy_id ` set (file_system (file_tabs (db (scope sample_running)))) \<union>
      {11, flow_instance_id sample_node_instance, wi_user_id sample_flow + 2} \<union> set_option (repo_user_id (scope sample_running))"
    using sample_running_rows
    by (simp_all add: sample_running_def sample_fstate_def sample_scope_def sample_fenv_def no_files_def sample_flow_def)
  from node_file_in_node_dir [OF t h] t show ?thesis by (auto simp: sample_flow_def)
qed

end
