(* ===== verification/KA_Text.thy ===== *)
theory KA_Text
  imports KP_Package
begin

text \<open>
  Text of the standard library that the agent and the download requests use: numbers read from
  decimal text, splitting, trimming and paths. A text is the list of its bytes; white space and
  digits are those of ASCII.
\<close>

section \<open>Numbers\<close>

definition is_digit :: "char \<Rightarrow> bool" where
  "is_digit c \<longleftrightarrow> 48 \<le> (of_char c :: nat) \<and> (of_char c :: nat) \<le> 57"

definition digits_value :: "string \<Rightarrow> nat" where
  "digits_value s = foldl (\<lambda>a c. a * 10 + (of_char c - 48)) 0 s"

definition strip_plus :: "string \<Rightarrow> string" where
  "strip_plus s = (case s of [] \<Rightarrow> [] | c # cs \<Rightarrow> if c = CHR ''+'' \<and> cs \<noteq> [] then cs else s)"

text \<open>\<open>u64::from_str\<close>, and \<open>i32::from_str\<close>, which takes a minus sign too.\<close>

definition parse_u64 :: "string \<Rightarrow> nat option" where
  "parse_u64 s = (let d = strip_plus s in
     if d \<noteq> [] \<and> list_all is_digit d \<and> digits_value d \<le> usize_max then Some (digits_value d) else None)"

definition parse_i32 :: "string \<Rightarrow> i32 option" where
  "parse_i32 s =
     (case s of
        CHR ''-'' # d \<Rightarrow> if d \<noteq> [] \<and> list_all is_digit d \<and> digits_value d \<le> 2 ^ 31
                     then Some (- of_nat (digits_value d)) else None
      | _ \<Rightarrow> (case parse_u64 s of
                Some n \<Rightarrow> if n < 2 ^ 31 then Some (of_nat n) else None
              | None \<Rightarrow> None))"

text \<open>\<open>as u64\<close> of a signed number.\<close>

definition int_as_u64 :: "int \<Rightarrow> nat" where
  "int_as_u64 i = nat (i mod 2 ^ 64)"

text \<open>\<open>+\<close> on \<open>u64\<close>.\<close>

definition u64_add :: "bool \<Rightarrow> nat \<Rightarrow> nat \<Rightarrow> nat option" where
  "u64_add oc a b =
     (if a + b \<le> usize_max then Some (a + b) else if oc then None else Some ((a + b) mod 2 ^ 64))"

section \<open>Splitting and trimming\<close>

definition starts_with :: "string \<Rightarrow> string \<Rightarrow> bool" where
  "starts_with p s \<longleftrightarrow> take (length p) s = p"

definition strip_prefix :: "string \<Rightarrow> string \<Rightarrow> string option" where
  "strip_prefix p s = (if starts_with p s then Some (drop (length p) s) else None)"

fun split_once :: "char \<Rightarrow> string \<Rightarrow> (string \<times> string) option" where
  "split_once c [] = None"
| "split_once c (x # xs) =
     (if x = c then Some ([], xs) else map_option (\<lambda>(a, b). (x # a, b)) (split_once c xs))"

definition rsplit_once :: "char \<Rightarrow> string \<Rightarrow> (string \<times> string) option" where
  "rsplit_once c s = map_option (\<lambda>(a, b). (rev b, rev a)) (split_once c (rev s))"

definition trim :: "string \<Rightarrow> string" where
  "trim s = trim_end (dropWhile is_space s)"

text \<open>\<open>str::replace\<close> of a non-empty pattern, and \<open>str::split_whitespace\<close>.\<close>

definition str_replace :: "string \<Rightarrow> string \<Rightarrow> string \<Rightarrow> string" where
  "str_replace pat by s = join by (str_split pat s)"

fun words_from :: "string \<Rightarrow> string \<Rightarrow> string list" where
  "words_from acc [] = (if acc = [] then [] else [rev acc])"
| "words_from acc (c # cs) =
     (if is_space c then (if acc = [] then words_from [] cs else rev acc # words_from [] cs)
      else words_from (c # acc) cs)"

definition split_whitespace :: "string \<Rightarrow> string list" where
  "split_whitespace s = words_from [] s"

text \<open>\<open>PathBuf::push\<close>: an absolute path replaces what is there.\<close>

definition path_push :: "string \<Rightarrow> string \<Rightarrow> string" where
  "path_push base p =
     (if starts_with ''/'' p \<or> base = [] then p
      else if last base = CHR ''/'' then base @ p else base @ ''/'' @ p)"

section \<open>Facts\<close>

lemma show_nat_ne [simp]: "show_nat n \<noteq> []"
  by (subst show_nat.simps) simp

lemma show_nat_all_digits: "list_all is_digit (show_nat n)"
proof (induction n rule: show_nat.induct)
  case (1 n)
  have d: "is_digit (char_of (48 + k))" if "k < 10" for k :: nat
    using that by (simp add: is_digit_def of_char_of)
  show ?case
  proof (cases "n < 10")
    case True
    then show ?thesis by (subst show_nat.simps) (simp add: d)
  next
    case False
    then show ?thesis using 1 by (subst show_nat.simps) (simp add: d)
  qed
qed

lemma digits_value_snoc: "digits_value (xs @ [c]) = digits_value xs * 10 + (of_char c - 48)"
  by (simp add: digits_value_def)

lemma digits_value_show [simp]: "digits_value (show_nat n) = n"
proof (induction n rule: show_nat.induct)
  case (1 n)
  show ?case
  proof (cases "n < 10")
    case True
    then show ?thesis by (subst show_nat.simps) (simp add: digits_value_def of_char_of)
  next
    case False
    then show ?thesis using 1 by (subst show_nat.simps) (simp add: digits_value_snoc of_char_of)
  qed
qed

lemma is_digit_plain: "is_digit c \<Longrightarrow> c \<notin> {CHR ''+'', CHR ''-'', CHR '':'', CHR ''/'', CHR '','', CHR '' ''}"
  by (auto simp: is_digit_def)

lemma show_nat_chars: "c \<in> set (show_nat n) \<Longrightarrow> is_digit c"
  using show_nat_all_digits [of n] by (simp add: list_all_iff)

lemma digits_strip_plus: "list_all is_digit s \<Longrightarrow> strip_plus s = s"
  by (auto simp: strip_plus_def dest: is_digit_plain split: list.split)

lemma parse_u64_digits:
  "s \<noteq> [] \<Longrightarrow> list_all is_digit s \<Longrightarrow> digits_value s \<le> usize_max \<Longrightarrow> parse_u64 s = Some (digits_value s)"
  by (simp add: parse_u64_def digits_strip_plus)

text \<open>A number that is printed and read comes back.\<close>

lemma parse_show: "n \<le> usize_max \<Longrightarrow> parse_u64 (show_nat n) = Some n"
  by (simp add: parse_u64_digits show_nat_all_digits)

text \<open>Splitting at a separator of one character.\<close>

lemma split_acc_char:
  "split_acc [c] acc 0 s = (case split_once c s of None \<Rightarrow> [rev acc @ s]
     | Some (a, b) \<Rightarrow> (rev acc @ a) # split_acc [c] [] 0 b)"
  by (induction s arbitrary: acc) (auto split: option.splits)

lemma split_once_none: "split_once c s = None \<longleftrightarrow> c \<notin> set s"
  by (induction s) auto

lemma split_once_append: "c \<notin> set a \<Longrightarrow> split_once c (a @ c # b) = Some (a, b)"
  by (induction a) auto

lemma str_split_char_none: "c \<notin> set s \<Longrightarrow> str_split [c] s = [s]"
  by (simp add: str_split_def split_acc_char split_once_none [THEN iffD2])

lemma str_split_char: "c \<notin> set a \<Longrightarrow> str_split [c] (a @ c # b) = a # str_split [c] b"
  by (subst (1) str_split_def) (simp add: split_acc_char split_once_append str_split_def)

end
