(* ===== verification/KF_Download.thy ===== *)
theory KF_Download
  imports KF_Control KA_Text
begin

text \<open>
  The downloads of the coordinator: the requests of \<open>co/src/controllers/file_storage.rs\<close>
  (\<open>FileDownloadUrl\<close>, \<open>FileDownloadUrls\<close>, \<open>RangelyDownloadFile\<close>), the dispatcher
  \<open>kernel/src/services/file/storage_server_download_dispatcher.rs\<close> and the broker
  \<open>co/src/infrastructure/external_services/minio_server_broker.rs\<close>.

  The client of the object store is a third-party package: \<open>get_object\<close> answers for a server, a key
  and a range header with the body, if there is one, and \<open>head_object\<close> with the length, if it is
  given. \<open>serves_ranges\<close> states what the documentation of the store says of a range: both ends
  belong to it, and an end past the content is cut.
\<close>

record object_store =
  os_overflow_checks :: bool
  get_object :: "storage_server \<Rightarrow> string \<Rightarrow> string option \<Rightarrow> string + bytes option"
  head_object :: "storage_server \<Rightarrow> string \<Rightarrow> string + int option"

record http_reply =
  hr_status :: nat
  hr_headers :: "(string \<times> string) list"
  hr_body :: bytes

definition text_bytes :: "string \<Rightarrow> bytes" where
  "text_bytes s = map of_char s"

definition hr_empty :: "nat \<Rightarrow> http_reply" where
  "hr_empty n = \<lparr>hr_status = n, hr_headers = [], hr_body = []\<rparr>"

section \<open>The broker: \<open>minio_server_broker.rs\<close>\<close>

type_synonym byte_range = "nat \<times> nat"

definition show_range :: "byte_range \<Rightarrow> string" where
  "show_range r = show_nat (fst r) @ ''-'' @ show_nat (snd r)"

definition object_key :: "storage_server \<Rightarrow> uuid \<Rightarrow> string" where
  "object_key server meta_id = ''storage-'' @ show_uuid (sv_id server) @ ''/'' @ show_uuid meta_id"

definition get_object_content :: "object_store \<Rightarrow> storage_server \<Rightarrow> uuid \<Rightarrow> byte_range option \<Rightarrow> bytes fsvc" where
  "get_object_content os server meta_id rg =
     (case get_object os server (object_key server meta_id)
             (map_option (\<lambda>r. ''bytes='' @ show_range r) rg) of
        Inl e \<Rightarrow> sfail (UploadFailed meta_id e)
      | Inr None \<Rightarrow> sfail (NoSuchKey (object_key server meta_id))
      | Inr (Some body) \<Rightarrow> sret body)"

definition broker_rangely_get_file ::
  "object_store \<Rightarrow> storage_server \<Rightarrow> uuid \<Rightarrow> byte_range list \<Rightarrow> bytes list fsvc" where
  "broker_rangely_get_file os server meta_id ranges =
     smap (\<lambda>r. get_object_content os server meta_id (Some r)) ranges"

text \<open>The length is an \<open>i64\<close> read as \<open>u64\<close>.\<close>

definition broker_get_file_size :: "object_store \<Rightarrow> storage_server \<Rightarrow> uuid \<Rightarrow> nat fsvc" where
  "broker_get_file_size os server meta_id =
     (case head_object os server (object_key server meta_id) of
        Inl e \<Rightarrow> sfail (UploadFailed meta_id e)
      | Inr None \<Rightarrow> sfail (NoSuchKey (object_key server meta_id))
      | Inr (Some n) \<Rightarrow> sret (int_as_u64 n))"

definition broker_get_download_url :: "storage_server \<Rightarrow> uuid \<Rightarrow> string fsvc" where
  "broker_get_download_url server meta_id =
     sbind (get_server_url (sv_id server) meta_id) (\<lambda>url.
     sret (sv_download_endpoint server @ ''/'' @ url))"

definition broker_get_bytes :: "object_store \<Rightarrow> storage_server \<Rightarrow> uuid \<Rightarrow> bytes fsvc" where
  "broker_get_bytes os server meta_id = get_object_content os server meta_id None"

section \<open>The dispatcher: \<open>storage_server_download_dispatcher.rs\<close>\<close>

definition dispatcher_get_bytes :: "fenv \<Rightarrow> object_store \<Rightarrow> uuid \<Rightarrow> bytes fsvc" where
  "dispatcher_get_bytes ev os meta_id =
     sbind (default_file_storage_server ev) (\<lambda>server. broker_get_bytes os server meta_id)"

definition dispatcher_rangely_get_file ::
  "fenv \<Rightarrow> object_store \<Rightarrow> uuid \<Rightarrow> byte_range list \<Rightarrow> bytes list fsvc" where
  "dispatcher_rangely_get_file ev os meta_id ranges =
     sbind (default_file_storage_server ev) (\<lambda>server. broker_rangely_get_file os server meta_id ranges)"

definition dispatcher_get_file_size :: "fenv \<Rightarrow> object_store \<Rightarrow> uuid \<Rightarrow> nat fsvc" where
  "dispatcher_get_file_size ev os meta_id =
     sbind (default_file_storage_server ev) (\<lambda>server. broker_get_file_size os server meta_id)"

definition dispatcher_get_download_url :: "fenv \<Rightarrow> uuid \<Rightarrow> string fsvc" where
  "dispatcher_get_download_url ev meta_id =
     sbind (default_file_storage_server ev) (\<lambda>server. broker_get_download_url server meta_id)"

section \<open>The requests: \<open>file_storage.rs\<close>\<close>

text \<open>
  None of the errors of the dispatcher is a \<open>FileStorageException\<close>: a failing look-up of the url is
  answered with 400.
\<close>

definition get_file_download_url :: "fenv \<Rightarrow> string \<Rightarrow> string response fsvc" where
  "get_file_download_url ev i =
     sthen (smodify (new_scope None))
       (case parse_uuid ev i of
          None \<Rightarrow> sret (rp_err 400)
        | Some meta_id \<Rightarrow>
            sbind (satt (dispatcher_get_download_url ev meta_id)) (\<lambda>r.
            sret (case r of Inl _ \<Rightarrow> rp_err 400 | Inr url \<Rightarrow> rp_ok (Some url))))"

text \<open>The first id that cannot be read, or has no url, ends the request.\<close>

fun download_urls :: "fenv \<Rightarrow> string list \<Rightarrow> string list \<Rightarrow> string list response fsvc" where
  "download_urls ev urls [] = sret (rp_ok (Some urls))"
| "download_urls ev urls (i # is) =
     (case parse_uuid ev i of
        None \<Rightarrow> sret (rp_err 500)
      | Some meta_id \<Rightarrow>
          sbind (satt (dispatcher_get_download_url ev meta_id)) (\<lambda>r.
          case r of
            Inl _ \<Rightarrow> sret (rp_err 400)
          | Inr url \<Rightarrow> download_urls ev (urls @ [url]) is))"

definition get_file_download_urls :: "fenv \<Rightarrow> string list \<Rightarrow> string list response fsvc" where
  "get_file_download_urls ev ids = sthen (smodify (new_scope None)) (download_urls ev [] ids)"

definition head_rangely_download_file :: "fenv \<Rightarrow> object_store \<Rightarrow> string \<Rightarrow> http_reply fsvc" where
  "head_rangely_download_file ev os i =
     sthen (smodify (new_scope None))
       (case parse_uuid ev i of
          None \<Rightarrow> sret (hr_empty 500)
        | Some meta_id \<Rightarrow>
            sbind (satt (dispatcher_get_file_size ev os meta_id)) (\<lambda>r.
            sret (case r of
                    Inl _ \<Rightarrow> hr_empty 500
                  | Inr file_size \<Rightarrow> (hr_empty 200)\<lparr>hr_headers :=
                      [(''accept-ranges'', ''bytes''), (''content-length'', show_nat file_size)]\<rparr>)))"

text \<open>The header \<open>Range\<close>: pieces \<open>start-end\<close> with both numbers, separated by a comma and a blank.\<close>

definition parse_range :: "string \<Rightarrow> byte_range option" where
  "parse_range rg =
     (case str_split ''-'' rg of
        a # b # _ \<Rightarrow>
          (case (parse_u64 a, parse_u64 b) of (Some start, Some end) \<Rightarrow> Some (start, end) | _ \<Rightarrow> None)
      | _ \<Rightarrow> None)"

definition parse_ranges :: "string \<Rightarrow> byte_range list option" where
  "parse_ranges header =
     (case strip_prefix ''bytes='' header of
        None \<Rightarrow> None
      | Some ranges \<Rightarrow> those (map parse_range (str_split '', '' ranges)))"

definition invalid_range :: http_reply where
  "invalid_range = (hr_empty 400)\<lparr>hr_body := text_bytes ''RANGE header is invalid''\<rparr>"

text \<open>The reply to one range; \<open>end - start + 1\<close> is computed on \<open>u64\<close>.\<close>

definition range_reply :: "object_store \<Rightarrow> nat \<Rightarrow> byte_range \<times> bytes \<Rightarrow> http_reply option" where
  "range_reply os file_size = (\<lambda>(r, body).
     (case usize_sub (os_overflow_checks os) (snd r) (fst r) of
        None \<Rightarrow> None
      | Some x \<Rightarrow>
          (case u64_add (os_overflow_checks os) x 1 of
             None \<Rightarrow> None
           | Some n \<Rightarrow> Some \<lparr>hr_status = 206,
               hr_headers = [(''content-type'', ''application/octet-stream''),
                 (''content-range'', ''bytes '' @ show_range r @ ''/'' @ show_nat file_size),
                 (''content-size'', show_nat n)],
               hr_body = body\<rparr>)))"

text \<open>The reply to several ranges: one section for each, written to a stream of announced length \<open>file_size\<close>.\<close>

definition range_section :: "uuid \<Rightarrow> nat \<Rightarrow> byte_range \<times> bytes \<Rightarrow> bytes" where
  "range_section meta_id file_size = (\<lambda>(r, body).
     text_bytes (''--'' @ show_uuid meta_id @ [CHR 0x0A] @ ''Content-Type: application/octet-stream'' @
       [CHR 0x0A] @ ''Content-Range: bytes '' @ show_range r @ ''/'' @ show_nat file_size @ [CHR 0x0A]) @
     body @ text_bytes [CHR 0x0A])"

definition sections_reply :: "uuid \<Rightarrow> nat \<Rightarrow> (byte_range \<times> bytes) list \<Rightarrow> http_reply" where
  "sections_reply meta_id file_size parts =
     \<lparr>hr_status = 206,
      hr_headers = [(''content-type'', ''multipart/byteranges; boundary='' @ show_uuid meta_id),
        (''content-length'', show_nat file_size)],
      hr_body = concat (map (range_section meta_id file_size) parts) @
        (if parts = [] then []
         else text_bytes ([CHR 0x0A] @ ''--'' @ show_uuid meta_id @ [CHR 0x0A]))\<rparr>"

definition get_rangely_download_file ::
  "fenv \<Rightarrow> object_store \<Rightarrow> string \<Rightarrow> string option \<Rightarrow> http_reply fsvc" where
  "get_rangely_download_file ev os i range_header =
     sthen (smodify (new_scope None))
       (case parse_uuid ev i of
          None \<Rightarrow> sret (hr_empty 500)
        | Some meta_id \<Rightarrow>
            (case range_header of
               None \<Rightarrow>
                 sbind (satt (dispatcher_get_bytes ev os meta_id)) (\<lambda>r.
                 sret (case r of Inl _ \<Rightarrow> hr_empty 500 | Inr body \<Rightarrow> (hr_empty 200)\<lparr>hr_body := body\<rparr>))
             | Some header \<Rightarrow>
                 (case parse_ranges header of
                    None \<Rightarrow> sret invalid_range
                  | Some ranges \<Rightarrow>
                      sbind (satt (dispatcher_rangely_get_file ev os meta_id ranges)) (\<lambda>results.
                      case results of
                        Inl _ \<Rightarrow> sret (hr_empty 500)
                      | Inr bodies \<Rightarrow>
                          sbind (satt (dispatcher_get_file_size ev os meta_id)) (\<lambda>r.
                          case r of
                            Inl _ \<Rightarrow> sret (hr_empty 500)
                          | Inr file_size \<Rightarrow>
                              (case zip ranges bodies of
                                 [part] \<Rightarrow> slift (ok_or FilePanic (range_reply os file_size part))
                               | parts \<Rightarrow> sret (sections_reply meta_id file_size parts)))))))"

section \<open>What the requests answer\<close>

text \<open>The documented behaviour of the object store on the server that keeps a content under a key.\<close>

definition serves_ranges :: "object_store \<Rightarrow> storage_server \<Rightarrow> string \<Rightarrow> bytes \<Rightarrow> bool" where
  "serves_ranges os server key content \<longleftrightarrow>
     head_object os server key = Inr (Some (int (length content))) \<and>
     get_object os server key None = Inr (Some content) \<and>
     (\<forall>a b. a \<le> b \<longrightarrow> a < length content \<longrightarrow> b \<le> usize_max \<longrightarrow>
       get_object os server key (Some (''bytes='' @ show_range (a, b))) =
         Inr (Some (take (b + 1 - a) (drop a content))))"

lemma default_server_run:
  "find (\<lambda>sv. sv_id sv = default_storage_server_id ev) (storage_servers (file_tabs (db (scope s)))) = Some server \<Longrightarrow>
   default_file_storage_server ev s = (Inr server, s)"
  by (simp add: default_file_storage_server_def storage_server_get_by_id_def file_rows_def on_scope_def svc_simps)

lemma show_range_split: "str_split ''-'' (show_range (a, b)) = [show_nat a, show_nat b]"
proof -
  have no: "CHR ''-'' \<notin> set (show_nat n)" for n using is_digit_plain show_nat_chars by blast
  show ?thesis using str_split_char [OF no [of a], of "show_nat b"] str_split_char_none [OF no [of b]]
    by (simp add: show_range_def)
qed

text \<open>No comma comes with a printed range.\<close>

lemma show_range_whole: "str_split '', '' (show_range (a, b)) = [show_range (a, b)]"
proof (rule str_split_plain, intro allI impI notI)
  fix i assume i: "i < length (show_range (a, b))" and p: "take (length '', '') (drop i (show_range (a, b))) = '', ''"
  then have "show_range (a, b) ! i = CHR '',''" by (metis Cons_nth_drop_Suc length_Cons nth_Cons_0 take_Suc_Cons list.inject)
  then have "CHR '','' \<in> set (show_range (a, b))" using i by (metis nth_mem)
  then show False using is_digit_plain show_nat_chars by (auto simp: show_range_def)
qed

lemma parse_ranges_show:
  "a \<le> usize_max \<Longrightarrow> b \<le> usize_max \<Longrightarrow> parse_ranges (''bytes='' @ show_range (a, b)) = Some [(a, b)]"
  by (simp add: parse_ranges_def strip_prefix_def starts_with_def show_range_whole parse_range_def
      show_range_split parse_show)

text \<open>A request for one range of a stored file is answered with the bytes of the range.\<close>

lemma range_request_run:
  assumes "parse_uuid ev (show_uuid i) = Some i"
    and "find (\<lambda>sv. sv_id sv = default_storage_server_id ev) (storage_servers (file_tabs (db (scope s)))) = Some server"
    and "serves_ranges os server (object_key server i) content"
    and "a \<le> b" "b < length content" "length content \<le> usize_max"
  shows "\<exists>hs. get_rangely_download_file ev os (show_uuid i) (Some (''bytes='' @ show_range (a, b))) s =
    (Inr \<lparr>hr_status = 206, hr_headers = hs, hr_body = take (b + 1 - a) (drop a content)\<rparr>, new_scope None s)"
proof -
  obtain hdr where hdr: "''bytes='' @ show_range (a, b) = hdr" by blast
  have d: "default_file_storage_server ev (new_scope None s) = (Inr server, new_scope None s)"
    using assms(2) by (intro default_server_run) (simp add: new_scope_def)
  have r: "parse_ranges hdr = Some [(a, b)]"
    unfolding hdr [symmetric] using assms(4-6) by (intro parse_ranges_show) auto
  have g: "get_object os server (object_key server i) (Some hdr) =
      Inr (Some (take (b + 1 - a) (drop a content)))"
    and h: "head_object os server (object_key server i) = Inr (Some (int (length content)))"
    using assms(3-6) by (auto simp: serves_ranges_def hdr [symmetric])
  have l: "usize_sub (os_overflow_checks os) b a = Some (b - a)"
    "u64_add (os_overflow_checks os) (b - a) (Suc 0) = Some (b - a + 1)"
    using assms(4-6) by (auto simp: usize_sub_def u64_add_def)
  show ?thesis unfolding hdr
    by (simp add: get_rangely_download_file_def assms(1) r d g h l svc_simps dispatcher_rangely_get_file_def
        broker_rangely_get_file_def get_object_content_def hdr [unfolded append.simps] dispatcher_get_file_size_def broker_get_file_size_def
        range_reply_def)
qed

lemma head_request_run:
  assumes "parse_uuid ev (show_uuid i) = Some i"
    and "find (\<lambda>sv. sv_id sv = default_storage_server_id ev) (storage_servers (file_tabs (db (scope s)))) = Some server"
    and "serves_ranges os server (object_key server i) content" "length content \<le> usize_max"
  shows "head_rangely_download_file ev os (show_uuid i) s =
    (Inr ((hr_empty 200)\<lparr>hr_headers := [(''accept-ranges'', ''bytes''),
      (''content-length'', show_nat (length content))]\<rparr>), new_scope None s)"
proof -
  have d: "default_file_storage_server ev (new_scope None s) = (Inr server, new_scope None s)"
    using assms(2) by (intro default_server_run) (simp add: new_scope_def)
  have h: "head_object os server (object_key server i) = Inr (Some (int (length content)))"
    using assms(3) by (auto simp: serves_ranges_def)
  have l: "int_as_u64 (int (length content)) = length content"
    using assms(4) by (simp add: int_as_u64_def usize_max_def)
  show ?thesis
    by (simp add: head_rangely_download_file_def assms(1) d h l svc_simps dispatcher_get_file_size_def
        broker_get_file_size_def)
qed

lemma whole_request_run:
  assumes "parse_uuid ev (show_uuid i) = Some i"
    and "find (\<lambda>sv. sv_id sv = default_storage_server_id ev) (storage_servers (file_tabs (db (scope s)))) = Some server"
    and "serves_ranges os server (object_key server i) content"
  shows "get_rangely_download_file ev os (show_uuid i) None s =
    (Inr ((hr_empty 200)\<lparr>hr_body := content\<rparr>), new_scope None s)"
proof -
  have d: "default_file_storage_server ev (new_scope None s) = (Inr server, new_scope None s)"
    using assms(2) by (intro default_server_run) (simp add: new_scope_def)
  have g: "get_object os server (object_key server i) None = Inr (Some content)"
    using assms(3) by (simp add: serves_ranges_def)
  show ?thesis
    by (simp add: get_rangely_download_file_def assms(1) d g svc_simps dispatcher_get_bytes_def
        broker_get_bytes_def get_object_content_def)
qed

end
