(* ===== verification/KT_Blocks.thy ===== *)
theory KT_Blocks
  imports KF_Types
begin

text \<open>
  The blocks in which the agent moves a file: \<open>agent/app/src/background_service/file_download_runner.rs\<close>
  and \<open>file_upload_runner.rs\<close>. Both cut a file of known length into blocks and give each block to a
  task of its own. The tasks share one open file: \<open>try_clone\<close> duplicates the handle, and the copies
  have the position in common. A task seeks and then reads or writes; the runtime may run the steps
  of several tasks in turn.

  A file position and a length are \<open>u64\<close> values, kept as numbers; the subtractions that may go below
  zero are written out with their overflow check.
\<close>

section \<open>The layout of the blocks\<close>

text \<open>The length of a block and the number of blocks.\<close>

definition block_layout :: "nat \<Rightarrow> nat \<Rightarrow> nat \<times> nat" where
  "block_layout max_block_length file_length =
     (if file_length > max_block_length then
        if file_length mod max_block_length \<noteq> 0
        then (max_block_length, file_length div max_block_length + 1)
        else (max_block_length, file_length div max_block_length)
      else (file_length, 1))"

text \<open>The length of block \<open>i\<close> less one, the last byte of an inclusive range; \<open>None\<close> is a panic.\<close>

definition real_block_length :: "bool \<Rightarrow> nat \<Rightarrow> nat \<Rightarrow> nat \<Rightarrow> nat \<Rightarrow> nat option" where
  "real_block_length oc file_length block_length block_count i =
     (if i = block_count - 1
      then (case usize_sub oc file_length (i * block_length) of
              None \<Rightarrow> None
            | Some x \<Rightarrow> usize_sub oc x 1)
      else usize_sub oc block_length 1)"

text \<open>The bytes of block \<open>i\<close>.\<close>

definition block_of :: "nat \<Rightarrow> nat \<Rightarrow> 'a list \<Rightarrow> 'a list" where
  "block_of block_length i content = take block_length (drop (i * block_length) content)"

section \<open>An open file\<close>

record open_file =
  of_content :: bytes
  of_position :: nat

definition file_seek :: "nat \<Rightarrow> open_file \<Rightarrow> open_file" where
  "file_seek n f = f\<lparr>of_position := n\<rparr>"

text \<open>\<open>read_exact\<close>: an error, at the end of the file, when it ends before the buffer is full.\<close>

definition file_read_exact :: "nat \<Rightarrow> open_file \<Rightarrow> (string + bytes) \<times> open_file" where
  "file_read_exact n f =
     (if of_position f + n \<le> length (of_content f)
      then (Inr (take n (drop (of_position f) (of_content f))), f\<lparr>of_position := of_position f + n\<rparr>)
      else (Inl ''early eof'', f\<lparr>of_position := max (of_position f) (length (of_content f))\<rparr>))"

text \<open>Writing past the end fills the gap with zeros.\<close>

definition overwrite :: "nat \<Rightarrow> bytes \<Rightarrow> bytes \<Rightarrow> bytes" where
  "overwrite n xs content =
     take n (content @ replicate (n - length content) 0) @ xs @ drop (n + length xs) content"

definition file_write_all :: "bytes \<Rightarrow> open_file \<Rightarrow> open_file" where
  "file_write_all xs f = (if xs = [] then f else
     f\<lparr>of_content := overwrite (of_position f) xs (of_content f), of_position := of_position f + length xs\<rparr>)"

text \<open>\<open>set_len\<close> on a file that was just created.\<close>

definition file_set_len :: "nat \<Rightarrow> open_file \<Rightarrow> open_file" where
  "file_set_len n f = f\<lparr>of_content := take n (of_content f) @ replicate (n - length (of_content f)) 0\<rparr>"

text \<open>The steps of the tasks on the shared file, in the order in which the runtime takes them.\<close>

datatype block_step = SeekBlock nat | MoveBlock nat

fun step_block :: "block_step \<Rightarrow> nat" where
  "step_block (SeekBlock i) = i"
| "step_block (MoveBlock i) = i"

text \<open>
  An order the runtime can choose: each task takes its two steps once, the seek before the other.
\<close>

fun seeks_first :: "nat list \<Rightarrow> block_step list \<Rightarrow> bool" where
  "seeks_first sought [] = True"
| "seeks_first sought (SeekBlock i # steps) = seeks_first (i # sought) steps"
| "seeks_first sought (MoveBlock i # steps) = (i \<in> set sought \<and> seeks_first sought steps)"

definition legal_order :: "nat \<Rightarrow> block_step list \<Rightarrow> bool" where
  "legal_order n steps \<longleftrightarrow>
     mset steps = mset (map SeekBlock [0..<n] @ map MoveBlock [0..<n]) \<and> seeks_first [] steps"

text \<open>No step of another task comes between the seek and the other step of a task.\<close>

definition one_at_a_time :: "nat list \<Rightarrow> block_step list" where
  "one_at_a_time is = concat (map (\<lambda>i. [SeekBlock i, MoveBlock i]) is)"

lemma one_at_a_time_simps [simp]:
  "one_at_a_time [] = []"
  "one_at_a_time (i # is) = SeekBlock i # MoveBlock i # one_at_a_time is"
  "one_at_a_time (is @ js) = one_at_a_time is @ one_at_a_time js"
  by (simp_all add: one_at_a_time_def)

lemma mset_one_at_a_time: "mset (one_at_a_time is) = mset (map SeekBlock is @ map MoveBlock is)"
  by (induction "is") simp_all

lemma seeks_first_one_at_a_time: "seeks_first sought (one_at_a_time is)"
  by (induction "is" arbitrary: sought) simp_all

lemma one_at_a_time_legal: "mset is = mset [0..<n] \<Longrightarrow> legal_order n (one_at_a_time is)"
  by (simp add: legal_order_def mset_one_at_a_time seeks_first_one_at_a_time)

text \<open>The order in which the second block seeks between the two steps of the first.\<close>

definition mixed_order :: "nat \<Rightarrow> block_step list" where
  "mixed_order n = [SeekBlock 0, SeekBlock 1, MoveBlock 0, MoveBlock 1] @ one_at_a_time [2..<n]"

lemma mixed_order_legal: "2 \<le> n \<Longrightarrow> legal_order n (mixed_order n)"
proof -
  assume "2 \<le> n"
  then have "[0..<n] = 0 # 1 # [2..<n]" by (simp add: upt_conv_Cons numeral_2_eq_2)
  then show ?thesis
    by (simp add: legal_order_def mixed_order_def mset_one_at_a_time seeks_first_one_at_a_time)
qed

section \<open>The layout covers the file\<close>

lemma usize_sub_le: "b \<le> a \<Longrightarrow> usize_sub oc a b = Some (a - b)"
  by (simp add: usize_sub_def)

text \<open>There is a block, no block is empty unless the file is, and the last block ends the file.\<close>

lemma block_layout_covers:
  assumes "block_layout m n = (bl, blocks)" "0 < m"
  shows "0 < blocks" "n \<le> blocks * bl" "(blocks - 1) * bl \<le> n" "0 < n \<Longrightarrow> 0 < bl \<and> (blocks - 1) * bl < n"
proof -
  obtain q r where qr: "q = n div m" "r = n mod m" by simp
  have n: "n = q * m + r" "r < m" using qr assms(2) by simp_all
  have big: "m < n \<Longrightarrow> 0 < q" using n by (cases q) auto
  have one: "r = 0 \<Longrightarrow> 0 < q \<Longrightarrow> (q - 1) * m < n" using n by (cases q) auto
  show "0 < blocks" "n \<le> blocks * bl" "(blocks - 1) * bl \<le> n" "0 < n \<Longrightarrow> 0 < bl \<and> (blocks - 1) * bl < n"
    using assms big one n by (auto simp: block_layout_def qr [symmetric] split: if_splits)
qed

lemma real_block_length_small:
  assumes "block_layout m n = (bl, blocks)" "0 < m" "0 < n" "i < blocks"
  shows "real_block_length oc n bl blocks i = Some (min bl (n - i * bl) - 1)"
proof -
  have c: "n \<le> blocks * bl" "0 < bl" "(blocks - 1) * bl < n"
    using block_layout_covers [OF assms(1,2)] assms(3) by auto
  show ?thesis
  proof (cases "i = blocks - 1")
    case True
    then have "n - i * bl \<le> bl" using c(1) assms(4) by (cases blocks) (auto simp: diff_le_eq)
    then show ?thesis using True c(3) by (auto simp: real_block_length_def usize_sub_def Suc_le_eq)
  next
    case False
    then have "(i + 1) * bl \<le> (blocks - 1) * bl" using assms(4) by (intro mult_le_mono1) auto
    then have "bl \<le> n - i * bl" using c(3) by (simp add: algebra_simps)
    then show ?thesis using False c(2) by (auto simp: real_block_length_def usize_sub_def Suc_le_eq)
  qed
qed

lemma block_of_length: "length (block_of bl i content) = min bl (length content - i * bl)"
  by (simp add: block_of_def)

lemma blocks_prefix: "concat (map (\<lambda>i. block_of bl i content) [0..<k]) = take (k * bl) content"
  by (induction k) (simp_all add: block_of_def take_add [symmetric] add.commute)

text \<open>The blocks make up the file.\<close>

lemma blocks_concat:
  assumes "block_layout m (length content) = (bl, blocks)" "0 < m"
  shows "concat (map (\<lambda>i. block_of bl i content) [0..<blocks]) = content"
  using block_layout_covers(2) [OF assms] by (simp add: blocks_prefix)

section \<open>Writing blocks\<close>

lemma overwrite_inside:
  "n + length xs \<le> length content \<Longrightarrow>
   overwrite n xs content = take n content @ xs @ drop (n + length xs) content"
  by (simp add: overwrite_def)

lemma overwrite_length: "n + length xs \<le> length content \<Longrightarrow> length (overwrite n xs content) = length content"
  by (simp add: overwrite_inside)

lemma overwrite_nth:
  "n + length xs \<le> length content \<Longrightarrow> k < length content \<Longrightarrow>
   overwrite n xs content ! k = (if n \<le> k \<and> k < n + length xs then xs ! (k - n) else content ! k)"
  by (auto simp: overwrite_inside nth_append min_def)

text \<open>Block \<open>i\<close> of a file is written where it belongs; positions are compared block by block.\<close>

lemma block_bounds: "k div bl = i \<longleftrightarrow> i * bl \<le> k \<and> k < i * bl + bl" if "0 < bl" for k bl :: nat
  using that by (metis add.commute div_nat_eqI dividend_less_times_div dividend_less_div_times mult.commute
      mult_Suc times_div_less_eq_dividend)

lemma overwrite_block:
  assumes "0 < bl" "length c = length content" "k < length c" "i * bl < length c"
  shows "overwrite (i * bl) (block_of bl i content) c ! k = (if k div bl = i then content ! k else c ! k)"
proof -
  have fits: "i * bl + length (block_of bl i content) \<le> length c"
    using assms(2,4) by (simp add: block_of_length)
  have inside: "i * bl \<le> k \<and> k < i * bl + length (block_of bl i content) \<longleftrightarrow> k div bl = i"
    using assms by (auto simp: block_bounds block_of_length)
  show ?thesis
    using overwrite_nth [OF fits assms(3)] inside assms(2,3)
    by (auto simp: block_of_def block_bounds [OF assms(1)])
qed

end
