(* ===== verification/KT_Transfer.thy ===== *)
theory KT_Transfer
  imports KA_Steps KF_Download KT_Blocks
begin

text \<open>
  The file transfers of the agent: \<open>agent/app/src/background_service/{file_download_runner,
  file_upload_runner,file_system_watch_runner}.rs\<close> and
  \<open>agent/app/src/infrastructure/service/file_load_service.rs\<close>.

  A transfer works on the local files and over HTTP and ends in a call of the job service of the agent.
  What is outside answers through \<open>tenv\<close>: \<open>http\<close> for a request and the number of the attempt (\<open>Inl\<close>
  when no answer comes, a timeout included), \<open>body_fault\<close> when the body of an answer can not be read,
  \<open>read_prepare\<close> for the JSON of a reply, \<open>fs_fault\<close> for a failing call of the file system, \<open>scp\<close> for a
  copy to or from the cluster behind a SSH proxy (with the file a copy brings), \<open>block_order\<close> for the
  order in which the runtime runs the steps of the tasks of a file. Waiting times are left out.
\<close>

section \<open>State and environment\<close>

definition bytes_text :: "bytes \<Rightarrow> string" where
  "bytes_text bs = map (\<lambda>b. char_of (unat b)) bs"

record ssh_proxy_config =
  sp_host :: string
  sp_username :: string
  sp_port :: nat
  sp_home_dir :: string
  sp_save_dir :: string

record agent_prepare_request =
  ap_file_name :: string
  ap_hash_algorithm :: string
  ap_hash :: string
  ap_size :: nat
  ap_count :: nat
  ap_node_instance_uuid :: uuid
  ap_file_metadata_id :: "uuid option"

datatype agent_prepare_result = ANormal | AUnfinished | AFlashUpload

record agent_prepare_response =
  apr_result :: agent_prepare_result
  apr_id :: uuid

datatype http_request =
    HttpHead string
  | HttpGet string "string option"
  | HttpPrepare string agent_prepare_request
  | HttpPart string nat uuid bytes
  | HttpText string uuid string

datatype fs_call =
    CreateParent string
  | CreateFile string
  | SetLen string
  | SeekFile string nat
  | WriteFile string nat
  | OpenFile string
  | ReadFile string
  | StatFile string

datatype scp_outcome = SpawnFailed string | WaitFailed string | Exited bool "bytes option"

record tenv =
  t_overflow_checks :: bool
  t_save_dir :: string
  t_base_url :: string
  t_ssh_proxy :: "ssh_proxy_config option"
  t_block_size :: nat
  url_join :: "string \<Rightarrow> string \<Rightarrow> string option"
  http :: "http_request \<Rightarrow> nat \<Rightarrow> string + http_reply"
  body_fault :: "http_request \<Rightarrow> nat \<Rightarrow> string option"
  status_text :: "nat \<Rightarrow> string"
  join_error :: string
  read_prepare :: "bytes \<Rightarrow> string + agent_prepare_response option"
  t_blake3 :: "bytes \<Rightarrow> string"
  is_utf8 :: "bytes \<Rightarrow> bool"
  t_parse_uuid :: "string \<Rightarrow> uuid option"
  fs_fault :: "fs_call \<Rightarrow> string option"
  scp :: "string \<Rightarrow> string \<Rightarrow> scp_outcome"
  block_order :: "nat \<Rightarrow> block_step list"

record tstate =
  agent :: astate
  local_files :: "(string \<times> bytes) list"
  requests :: "http_request list"

datatype terr = TransferPanic | TransferErr string | OfAgent aerr

type_synonym 'a tsvc = "(tstate, terr, 'a) svc"

fun terr_text :: "terr \<Rightarrow> string" where
  "terr_text (TransferErr e) = e"
| "terr_text (OfAgent e) = aerr_text e"
| "terr_text TransferPanic = ''''"

definition on_agent :: "'a asvc \<Rightarrow> 'a tsvc" where
  "on_agent m = (\<lambda>s. case m (agent s) of
     (r, t) \<Rightarrow> (case r of Inl e \<Rightarrow> Inl (OfAgent e) | Inr x \<Rightarrow> Inr x, s\<lparr>agent := t\<rparr>))"

definition fs :: "tenv \<Rightarrow> fs_call \<Rightarrow> unit tsvc" where
  "fs ev c = (case fs_fault ev c of None \<Rightarrow> sret () | Some e \<Rightarrow> sfail (TransferErr e))"

definition set_file :: "string \<Rightarrow> bytes \<Rightarrow> unit tsvc" where
  "set_file path content = smodify (\<lambda>s. s\<lparr>local_files := AList.update path content (local_files s)\<rparr>)"

text \<open>An attempt at a request, with the answer as a value.\<close>

definition attempt :: "tenv \<Rightarrow> http_request \<Rightarrow> nat \<Rightarrow> (string + http_reply) tsvc" where
  "attempt ev r n = (\<lambda>s. (Inr (http ev r n), s\<lparr>requests := requests s @ [r]\<rparr>))"

definition read_body :: "tenv \<Rightarrow> http_request \<Rightarrow> nat \<Rightarrow> http_reply \<Rightarrow> string + bytes" where
  "read_body ev r n a = (case body_fault ev r n of Some e \<Rightarrow> Inl e | None \<Rightarrow> Inr (hr_body a))"

text \<open>\<open>unwrap\<close>.\<close>

definition or_panic :: "'a tsvc \<Rightarrow> 'a tsvc" where
  "or_panic m = sbind (satt m) (\<lambda>r. case r of Inl _ \<Rightarrow> sfail TransferPanic | Inr x \<Rightarrow> sret x)"

definition join_base :: "tenv \<Rightarrow> string \<Rightarrow> string tsvc" where
  "join_base ev rel = slift (ok_or TransferPanic (url_join ev (t_base_url ev) rel))"

definition task_path :: "tenv \<Rightarrow> uuid \<Rightarrow> string \<Rightarrow> string" where
  "task_path ev parent name = path_push (path_push (t_save_dir ev) (show_uuid parent)) name"

definition remote_path :: "ssh_proxy_config \<Rightarrow> uuid \<Rightarrow> string \<Rightarrow> string" where
  "remote_path c parent name =
     path_push (path_push (path_push (sp_home_dir c) (sp_save_dir c)) (show_uuid parent)) name"

definition remote_target :: "ssh_proxy_config \<Rightarrow> string \<Rightarrow> string" where
  "remote_target c path = sp_username c @ ''@'' @ sp_host c @ '':'' @ path"

section \<open>Downloads: \<open>file_download_runner.rs\<close>\<close>

text \<open>Four attempts; the status of an answer is not looked at.\<close>

fun range_attempts :: "tenv \<Rightarrow> http_request \<Rightarrow> nat list \<Rightarrow> bytes tsvc" where
  "range_attempts ev r [] = sret []"
| "range_attempts ev r (i # is) =
     sbind (attempt ev r i) (\<lambda>a.
     case (case a of Inl e \<Rightarrow> Inl e | Inr x \<Rightarrow> read_body ev r i x) of
       Inr body \<Rightarrow> sret body
     | Inl e \<Rightarrow> if i = 4 then sfail (TransferErr e) else range_attempts ev r is)"

definition block_range :: "nat \<Rightarrow> nat \<Rightarrow> nat \<Rightarrow> string" where
  "block_range block block_length real_length =
     ''bytes='' @ show_range (block * block_length, block * block_length + real_length)"

text \<open>\<open>download_task\<close> up to its answer; its seek and its write are the two steps of the block.\<close>

definition download_task :: "tenv \<Rightarrow> string \<Rightarrow> nat \<Rightarrow> nat \<Rightarrow> nat \<Rightarrow> nat \<Rightarrow> bytes tsvc" where
  "download_task ev url file_length block_length blocks block =
     (case real_block_length (t_overflow_checks ev) file_length block_length blocks block of
        None \<Rightarrow> sfail TransferPanic
      | Some l \<Rightarrow> range_attempts ev (HttpGet url (Some (block_range block block_length l))) [1, 2, 3, 4])"

definition write_step ::
  "tenv \<Rightarrow> string \<Rightarrow> (nat \<Rightarrow> bytes option) \<Rightarrow> nat \<Rightarrow> block_step \<Rightarrow> open_file \<Rightarrow> open_file" where
  "write_step ev path answer block_length st f =
     (let i = step_block st in
      case answer i of
        None \<Rightarrow> f
      | Some xs \<Rightarrow>
          if fs_fault ev (SeekFile path i) \<noteq> None then f
          else (case st of
                  SeekBlock _ \<Rightarrow> file_seek (i * block_length) f
                | MoveBlock _ \<Rightarrow> if fs_fault ev (WriteFile path i) \<noteq> None then f else file_write_all xs f))"

text \<open>
  The tasks of the blocks. Only a panic of one of them is seen: the inner result of a task is thrown
  away.
\<close>

definition answer_of :: "(terr + bytes) list \<Rightarrow> nat \<Rightarrow> bytes option" where
  "answer_of rs i = (if i < length rs then (case rs ! i of Inr xs \<Rightarrow> Some xs | Inl _ \<Rightarrow> None) else None)"

definition any_panic :: "(terr + 'a) list \<Rightarrow> bool" where
  "any_panic rs = list_ex (\<lambda>r. case r of Inl TransferPanic \<Rightarrow> True | _ \<Rightarrow> False) rs"

definition download_blocks :: "tenv \<Rightarrow> string \<Rightarrow> string \<Rightarrow> nat \<Rightarrow> unit tsvc" where
  "download_blocks ev path url file_length =
     sthen (fs ev (CreateFile path))
     (sthen (set_file path [])
     (sthen (fs ev (SetLen path))
     (case block_layout (t_block_size ev) file_length of (block_length, blocks) \<Rightarrow>
      sbind (smap (\<lambda>i. satt (download_task ev url file_length block_length blocks i)) [0..<blocks]) (\<lambda>rs.
      let f = fold (write_step ev path (answer_of rs) block_length) (block_order ev blocks)
                (file_set_len file_length \<lparr>of_content = [], of_position = 0\<rparr>)
      in sthen (set_file path (of_content f))
         (if any_panic rs then sfail (TransferErr (join_error ev)) else sret ())))))"

text \<open>A file without a known length is read in one piece.\<close>

definition download_whole :: "tenv \<Rightarrow> string \<Rightarrow> string \<Rightarrow> unit tsvc" where
  "download_whole ev path url =
     sbind (attempt ev (HttpGet url None) 1) (\<lambda>a.
     case a of
       Inl e \<Rightarrow> sfail (TransferErr e)
     | Inr x \<Rightarrow>
         sthen (fs ev (CreateFile path))
         (sthen (set_file path [])
         (case read_body ev (HttpGet url None) 1 x of
            Inl _ \<Rightarrow> sfail TransferPanic
          | Inr body \<Rightarrow> sthen (fs ev (WriteFile path 0)) (set_file path body))))"

text \<open>The length the coordinator tells; zero when there is none.\<close>

definition content_length :: "string + http_reply \<Rightarrow> nat" where
  "content_length a =
     (case a of
        Inl _ \<Rightarrow> 0
      | Inr x \<Rightarrow>
          (case map_of (hr_headers x) ''content-length'' of
             None \<Rightarrow> 0
           | Some v \<Rightarrow> (case parse_u64 v of None \<Rightarrow> 0 | Some n \<Rightarrow> n)))"

definition download_file :: "tenv \<Rightarrow> uuid \<Rightarrow> agent_file \<Rightarrow> unit tsvc" where
  "download_file ev parent task_file =
     (let path = task_path ev parent (af_file_name task_file) in
      sbind (sgets (\<lambda>s. map_of (local_files s) path)) (\<lambda>present.
      sthen (if present = None then or_panic (fs ev (CreateParent path)) else sret ())
      (if af_is_generated task_file
       then sthen (fs ev (WriteFile path 0)) (set_file path (text_bytes (af_text task_file)))
       else sbind (join_base ev (''file-storage/RangelyDownloadFile/'' @ show_uuid (af_metadata_id task_file))) (\<lambda>url.
            sbind (attempt ev (HttpHead url) 1) (\<lambda>a.
            if content_length a = 0 then download_whole ev path url
            else download_blocks ev path url (content_length a))))))"

definition download_failure :: "agent_file \<Rightarrow> string \<Rightarrow> string" where
  "download_failure task_file e =
     ''Unable to download file '' @ show_uuid (af_metadata_id task_file) @ '', because of '' @ e"

definition job_call :: "unit asvc \<Rightarrow> unit tsvc" where
  "job_call m = on_agent (logged m)"

text \<open>
  A SSH proxy gets a copy. A copy that fails is reported, and the job is started all the same.
\<close>

definition push_remote :: "tenv \<Rightarrow> aenv \<Rightarrow> uuid \<Rightarrow> agent_file \<Rightarrow> unit tsvc" where
  "push_remote ev aev parent task_file =
     (case t_ssh_proxy ev of
        None \<Rightarrow> sret ()
      | Some c \<Rightarrow>
          (case scp ev (task_path ev parent (af_file_name task_file))
                 (remote_target c (remote_path c parent (af_file_name task_file))) of
             Exited ok _ \<Rightarrow>
               if ok then sret ()
               else job_call (fail_job aev (af_related_task_body task_file)
                 (download_failure task_file ''ssh transport not success.''))
           | SpawnFailed e \<Rightarrow> job_call (fail_job aev (af_related_task_body task_file) (download_failure task_file e))
           | WaitFailed e \<Rightarrow> job_call (fail_job aev (af_related_task_body task_file) (download_failure task_file e))))"

definition file_download_runner :: "tenv \<Rightarrow> aenv \<Rightarrow> file_transfer_command \<Rightarrow> unit tsvc" where
  "file_download_runner ev aev command =
     (if ft_status command \<noteq> FtStart then sret ()
      else sbind (slift (ok_or TransferPanic (ft_task_file command))) (\<lambda>task_file.
      sbind (satt (download_file ev (ft_parent_id command) task_file)) (\<lambda>r.
      case r of
        Inl TransferPanic \<Rightarrow> sfail TransferPanic
      | Inl e \<Rightarrow> job_call (fail_job aev (af_related_task_body task_file) (download_failure task_file (terr_text e)))
      | Inr _ \<Rightarrow>
          sthen (push_remote ev aev (ft_parent_id command) task_file)
            (job_call (run_job aev (af_id task_file))))))"

section \<open>Uploads: \<open>file_upload_runner.rs\<close>\<close>

text \<open>\<open>http_post\<close> and \<open>http_post_file\<close> retry until \<open>times\<close> reaches \<open>max_times\<close>.\<close>

definition is_error_status :: "nat \<Rightarrow> bool" where
  "is_error_status n \<longleftrightarrow> 400 \<le> n \<and> n < 600"

function post_loop :: "tenv \<Rightarrow> http_request \<Rightarrow> nat \<Rightarrow> nat \<Rightarrow> http_reply tsvc" where
  "post_loop ev r max_times tries =
     sbind (attempt ev r tries) (\<lambda>a.
     let retry = (\<lambda>e. if tries + 1 = max_times then sfail (TransferErr e)
                      else if max_times \<le> tries then sfail (OfAgent NeverReturns)
                      else post_loop ev r max_times (tries + 1)) in
     case a of
       Inl e \<Rightarrow> retry e
     | Inr x \<Rightarrow> if is_error_status (hr_status x) then retry (status_text ev (hr_status x)) else sret x)"
  by pat_completeness auto
termination
  by (relation "measure (\<lambda>(_, _, m, t). m - t)") auto

declare post_loop.simps [simp del]

definition read_reply :: "tenv \<Rightarrow> http_request \<Rightarrow> http_reply \<Rightarrow> agent_prepare_response option tsvc" where
  "read_reply ev r x =
     (case read_body ev r 0 x of
        Inl e \<Rightarrow> sfail (TransferErr e)
      | Inr body \<Rightarrow> (case read_prepare ev body of Inl e \<Rightarrow> sfail (TransferErr e) | Inr c \<Rightarrow> sret c))"

text \<open>A buffer longer than \<open>isize::MAX\<close> can not be made: a panic.\<close>

definition buffer_length :: "tenv \<Rightarrow> nat \<Rightarrow> nat \<Rightarrow> nat \<Rightarrow> nat \<Rightarrow> nat option" where
  "buffer_length ev file_length block_length blocks i =
     (case real_block_length (t_overflow_checks ev) file_length block_length blocks i of
        None \<Rightarrow> None
      | Some l \<Rightarrow> if l < 2 ^ 63 then Some l else None)"

type_synonym buffers = "(nat \<times> (string + bytes)) list"

definition read_step ::
  "tenv \<Rightarrow> string \<Rightarrow> (nat \<Rightarrow> nat option) \<Rightarrow> nat \<Rightarrow> block_step \<Rightarrow> open_file \<times> buffers \<Rightarrow> open_file \<times> buffers" where
  "read_step ev path lens block_length st = (\<lambda>(f, bufs).
     (case lens (step_block st) of
        None \<Rightarrow> (f, bufs)
      | Some l \<Rightarrow>
          (case st of
             SeekBlock i \<Rightarrow>
               (case fs_fault ev (SeekFile path i) of
                  Some e \<Rightarrow> (f, (i, Inl e) # bufs)
                | None \<Rightarrow> (file_seek (i * block_length) f, bufs))
           | MoveBlock i \<Rightarrow>
               if map_of bufs i \<noteq> None then (f, bufs)
               else (case file_read_exact l f of (b, g) \<Rightarrow> (g, (i, b) # bufs)))))"

text \<open>The url of the parts is the one the upload was announced at.\<close>

definition post_block :: "tenv \<Rightarrow> string \<Rightarrow> uuid \<Rightarrow> buffers \<Rightarrow> nat \<Rightarrow> (terr + http_reply) option tsvc" where
  "post_block ev url file_id bufs i =
     (case map_of bufs i of
        Some (Inr buffer) \<Rightarrow>
          sbind (satt (post_loop ev (HttpPart url i file_id buffer) 5 1)) (\<lambda>r. sret (Some r))
      | _ \<Rightarrow> sret None)"

definition upload_blocks :: "tenv \<Rightarrow> string \<Rightarrow> string \<Rightarrow> bytes \<Rightarrow> nat \<Rightarrow> nat \<Rightarrow> uuid \<Rightarrow> unit tsvc" where
  "upload_blocks ev path url content block_length blocks file_id =
     (let lens = buffer_length ev (length content) block_length blocks;
          (_, bufs) = fold (read_step ev path lens block_length) (block_order ev blocks)
            (\<lparr>of_content = content, of_position = length content\<rparr>, []) in
      sthen (smap (post_block ev url file_id bufs) [0..<blocks])
        (if list_ex (\<lambda>i. lens i = None) [0..<blocks] then sfail (TransferErr (join_error ev)) else sret ()))"

definition prepare_rel :: string where
  "prepare_rel = ''file-storage/PreparePartialUploadFromNodeInstance''"

definition prepare_body :: "tenv \<Rightarrow> uuid \<Rightarrow> string \<Rightarrow> uuid \<Rightarrow> bytes \<Rightarrow> nat \<Rightarrow> agent_prepare_request" where
  "prepare_body ev parent name i content blocks =
     \<lparr>ap_file_name = name, ap_hash_algorithm = ''blake3'',
      ap_hash = to_ascii_uppercase (t_blake3 ev content), ap_size = length content, ap_count = blocks,
      ap_node_instance_uuid = parent, ap_file_metadata_id = Some i\<rparr>"

definition upload_opened :: "tenv \<Rightarrow> uuid \<Rightarrow> agent_file \<Rightarrow> string \<Rightarrow> bytes \<Rightarrow> unit tsvc" where
  "upload_opened ev parent task_file path content =
     sthen (fs ev (ReadFile path))
     (sthen (fs ev (StatFile path))
     (case block_layout (t_block_size ev) (length content) of (block_length, blocks) \<Rightarrow>
      let body = prepare_body ev parent (af_file_name task_file) (af_metadata_id task_file) content blocks in
      sbind (join_base ev prepare_rel) (\<lambda>url.
      sbind (post_loop ev (HttpPrepare url body) 10 1) (\<lambda>x.
      sbind (read_reply ev (HttpPrepare url body) x) (\<lambda>c.
      case c of
        None \<Rightarrow> sfail (TransferErr ''Upload url is null.'')
      | Some response \<Rightarrow>
          if apr_result response \<noteq> AFlashUpload
          then upload_blocks ev path url content block_length blocks (apr_id response)
          else sret ())))))"

text \<open>\<open>scp\<close> from the cluster, whose exit status is not looked at.\<close>

definition fetch_file :: "tenv \<Rightarrow> uuid \<Rightarrow> string \<Rightarrow> string \<Rightarrow> unit tsvc" where
  "fetch_file ev parent name path =
     (case t_ssh_proxy ev of
        None \<Rightarrow> sret ()
      | Some c \<Rightarrow>
          (case scp ev (remote_target c (remote_path c parent name)) path of
             SpawnFailed e \<Rightarrow> sfail (TransferErr e)
           | WaitFailed e \<Rightarrow> sfail (TransferErr e)
           | Exited _ brought \<Rightarrow> (case brought of None \<Rightarrow> sret () | Some b \<Rightarrow> set_file path b)))"

definition open_local :: "tenv \<Rightarrow> string \<Rightarrow> bytes tsvc" where
  "open_local ev path =
     sthen (fs ev (OpenFile path))
     (sbind (sgets (\<lambda>s. map_of (local_files s) path)) (\<lambda>c.
      slift (ok_or (TransferErr ''No such file or directory (os error 2)'') c)))"

definition upload_task_file :: "tenv \<Rightarrow> uuid \<Rightarrow> agent_file \<Rightarrow> unit tsvc" where
  "upload_task_file ev parent task_file =
     (let path = task_path ev parent (af_file_name task_file) in
      sthen (fetch_file ev parent (af_file_name task_file) path)
      (sbind (satt (open_local ev path)) (\<lambda>r.
      case r of
        Inl e \<Rightarrow> if af_is_optional task_file then sret () else sfail e
      | Inr content \<Rightarrow> upload_opened ev parent task_file path content)))"

definition upload_failure :: "agent_file \<Rightarrow> uuid \<Rightarrow> string \<Rightarrow> string" where
  "upload_failure task_file parent e =
     ''Cannot upload File '' @ show_uuid (af_id task_file) @ '' to Node '' @ show_uuid parent @
     '' when uploading block, because of '' @ e"

definition file_upload_runner :: "tenv \<Rightarrow> aenv \<Rightarrow> file_transfer_command \<Rightarrow> unit tsvc" where
  "file_upload_runner ev aev command =
     (if ft_status command \<noteq> FtStart then sret ()
      else sbind (slift (ok_or TransferPanic (ft_task_file command))) (\<lambda>task_file.
      sbind (satt (upload_task_file ev (ft_parent_id command) task_file)) (\<lambda>r.
      case r of
        Inl TransferPanic \<Rightarrow> sfail TransferPanic
      | Inl e \<Rightarrow> job_call (fail_job aev (af_related_task_body task_file)
                 (upload_failure task_file (ft_parent_id command) (terr_text e)))
      | Inr _ \<Rightarrow> job_call (complete_job aev (ft_id command)))))"

section \<open>Collected outputs: \<open>file_load_service.rs\<close>\<close>

definition output_name :: "agent_collect_from \<Rightarrow> string" where
  "output_name from = (case from of AFileOut path \<Rightarrow> path | AStdout \<Rightarrow> ''STDOUT'' | AStderr \<Rightarrow> ''STDERR'')"

definition load_file :: "tenv \<Rightarrow> uuid \<Rightarrow> agent_collect_from \<Rightarrow> string tsvc" where
  "load_file ev parent from =
     (let path = task_path ev parent (output_name from) in
      sthen (fetch_file ev parent (output_name from) path)
      (sbind (open_local ev path) (\<lambda>content.
      sthen (fs ev (ReadFile path))
      (if is_utf8 ev content then sret (bytes_text content)
       else sfail (TransferErr ''stream did not contain valid UTF-8'')))))"

definition upload_refused :: "string \<Rightarrow> terr" where
  "upload_refused e = TransferErr (''Unable to upload, because of '' @ e)"

text \<open>A single part, or a text. The status of the last answer is not looked at.\<close>

definition save_file :: "tenv \<Rightarrow> uuid \<Rightarrow> string \<Rightarrow> agent_collect_to \<Rightarrow> unit tsvc" where
  "save_file ev parent output to =
     (case to of
        AToFile i path \<Rightarrow>
          let body = prepare_body ev parent path i (text_bytes output) 1 in
          sbind (join_base ev prepare_rel) (\<lambda>url.
          sbind (attempt ev (HttpPrepare url body) 1) (\<lambda>a.
          case a of
            Inl e \<Rightarrow> sfail (TransferErr e)
          | Inr x \<Rightarrow>
              sbind (read_reply ev (HttpPrepare url body) x) (\<lambda>c.
              sbind (slift (ok_or TransferPanic c)) (\<lambda>response.
              if apr_result response = AFlashUpload then sret ()
              else sbind (join_base ev ''file-storage/PartialUpload'') (\<lambda>part_url.
                   sbind (attempt ev (HttpPart part_url 0 (apr_id response) (text_bytes output)) 1) (\<lambda>a.
                   case a of Inl e \<Rightarrow> sfail (upload_refused e) | Inr _ \<Rightarrow> sret ()))))))
      | AToText i \<Rightarrow>
          sbind (join_base ev ''text-storage/upload'') (\<lambda>url.
          sbind (attempt ev (HttpText url i output) 1) (\<lambda>a.
          case a of Inl e \<Rightarrow> sfail (upload_refused e) | Inr _ \<Rightarrow> sret ())))"

section \<open>Signal files: \<open>file_system_watch_runner.rs\<close>\<close>

text \<open>A job writes the id of its sub-task into a file \<open>.co.sig\<close>; a new file of that name is read.\<close>

definition file_watch_event :: "tenv \<Rightarrow> aenv \<Rightarrow> bool \<Rightarrow> string \<Rightarrow> unit tsvc" where
  "file_watch_event ev aev is_create path =
     (if t_ssh_proxy ev \<noteq> None \<or> \<not> is_create \<or> last (str_split ''/'' path) \<noteq> ''.co.sig'' then sret ()
      else sbind (satt (open_local ev path)) (\<lambda>r.
      case r of
        Inl _ \<Rightarrow> sret ()
      | Inr content \<Rightarrow>
          (if fs_fault ev (ReadFile path) \<noteq> None \<or> \<not> is_utf8 ev content then sret ()
           else (case t_parse_uuid ev (bytes_text content) of
                   None \<Rightarrow> sret ()
                 | Some i \<Rightarrow> job_call (run_refresh_status aev i)))))"

end
