(* ===== verification/KT_Frame.thy ===== *)
theory KT_Frame
  imports KT_Transfer
begin

text \<open>
  Facts on the parts of a transfer: attempts only add to the requests, the tasks of the blocks are run
  one after the other, and a written file is read off block by block.
\<close>

section \<open>Attempts\<close>

lemma attempt_run [svc_simps]:
  "attempt ev r n s = (Inr (http ev r n), s\<lparr>requests := requests s @ [r]\<rparr>)"
  by (simp add: attempt_def)

lemma fs_run: "fs_fault ev c = None \<Longrightarrow> fs ev c = sret ()"
  by (simp add: fs_def)

lemma set_file_run [svc_simps]:
  "set_file path c s = (Inr (), s\<lparr>local_files := AList.update path c (local_files s)\<rparr>)"
  by (simp add: set_file_def svc_simps)

text \<open>The block tasks add requests, and their results do not depend on the state.\<close>

definition requests_only :: "'a tsvc \<Rightarrow> terr + 'a \<Rightarrow> bool" where
  "requests_only m r \<longleftrightarrow> (\<forall>s. \<exists>q. m s = (r, s\<lparr>requests := q\<rparr>))"

lemma requests_onlyE:
  assumes "requests_only m r" obtains q where "m s = (r, s\<lparr>requests := q\<rparr>)"
  using assms by (auto simp: requests_only_def)

lemma requests_only_slift: "requests_only (slift r) r"
  unfolding requests_only_def slift_def by (metis (no_types, lifting) tstate.surjective tstate.update_convs(3))

lemma requests_only_sret: "requests_only (sret x) (Inr x)"
  using requests_only_slift [of "Inr x"] by (simp add: slift_def sret_def)

lemma requests_only_sfail: "requests_only (sfail e) (Inl e)"
  using requests_only_slift [of "Inl e"] by (simp add: slift_def sfail_def)

lemma requests_only_attempt: "requests_only (attempt ev r n) (Inr (http ev r n))"
  by (auto simp: requests_only_def attempt_def)

lemma requests_only_sbind:
  assumes "requests_only m (Inr x)" "requests_only (f x) r"
  shows "requests_only (sbind m f) r"
  unfolding requests_only_def
proof
  fix s
  obtain q where q: "m s = (Inr x, s\<lparr>requests := q\<rparr>)" by (rule requests_onlyE [OF assms(1)])
  obtain p where "f x (s\<lparr>requests := q\<rparr>) = (r, s\<lparr>requests := q\<rparr>\<lparr>requests := p\<rparr>)"
    by (rule requests_onlyE [OF assms(2)])
  then show "\<exists>q. sbind m f s = (r, s\<lparr>requests := q\<rparr>)" using q by (auto simp: svc_simps)
qed

lemma requests_only_satt:
  assumes "requests_only m r" shows "requests_only (satt m) (Inr r)"
  unfolding requests_only_def
proof
  fix s
  obtain q where "m s = (r, s\<lparr>requests := q\<rparr>)" by (rule requests_onlyE [OF assms])
  then have "satt m s = (Inr r, s\<lparr>requests := q\<rparr>)" by (simp add: satt_run)
  then show "\<exists>q. satt m s = (Inr r, s\<lparr>requests := q\<rparr>)" by blast
qed

lemma requests_only_smap:
  assumes "\<And>i. i \<in> set is \<Longrightarrow> requests_only (m i) (r i)"
  shows "requests_only (smap (\<lambda>i. satt (m i)) is) (Inr (map r is))"
  using assms
proof (induction "is")
  case (Cons i "is")
  have "requests_only (m i) (r i)" using Cons.prems by simp
  then have a: "requests_only (satt (m i)) (Inr (r i))" by (rule requests_only_satt)
  show ?case unfolding smap.simps list.map
    by (rule requests_only_sbind [OF a requests_only_sbind [OF Cons.IH requests_only_sret]])
      (use Cons.prems in auto)
qed (simp add: requests_only_sret)

text \<open>What the four attempts at a range end in.\<close>

definition range_result :: "tenv \<Rightarrow> http_request \<Rightarrow> terr + bytes" where
  "range_result ev r = fst (range_attempts ev r [1, 2, 3, 4]
     \<lparr>agent = undefined, local_files = [], requests = []\<rparr>)"

lemma range_attempts_only: "\<exists>x. requests_only (range_attempts ev r is) x"
proof (induction "is")
  case (Cons i "is")
  obtain x where x: "requests_only (range_attempts ev r is) x" using Cons.IH by blast
  let ?v = "case http ev r i of Inl e \<Rightarrow> Inl e | Inr x \<Rightarrow> read_body ev r i x"
  obtain y where y: "requests_only (case ?v of Inr body \<Rightarrow> sret body
      | Inl e \<Rightarrow> if i = 4 then sfail (TransferErr e) else range_attempts ev r is) y"
  proof (cases ?v)
    case (Inl e)
    show ?thesis
    proof (cases "i = 4")
      case True
      with Inl show ?thesis using requests_only_sfail [of "TransferErr e"] by (intro that) simp
    next
      case False
      with Inl show ?thesis using x by (intro that) simp
    qed
  next
    case (Inr body)
    then show ?thesis using requests_only_sret [of body] by (intro that) simp
  qed
  show ?case unfolding range_attempts.simps
    by (rule exI, rule requests_only_sbind [OF requests_only_attempt]) (rule y)
qed (auto intro: requests_only_sret)

lemma range_attempts_result: "requests_only (range_attempts ev r [1, 2, 3, 4]) (range_result ev r)"
proof -
  obtain x where x: "requests_only (range_attempts ev r [1, 2, 3, 4]) x" using range_attempts_only by blast
  then show ?thesis unfolding range_result_def
    by (metis (no_types, lifting) fst_conv requests_onlyE)
qed

lemma range_result_first:
  "http ev r 1 = Inr x \<Longrightarrow> body_fault ev r 1 = None \<Longrightarrow> range_result ev r = Inr (hr_body x)"
  by (simp add: range_result_def svc_simps read_body_def)

lemma range_result_none:
  assumes "\<forall>n \<in> {1..4}. \<exists>e. http ev r n = Inl e"
  shows "\<exists>e. range_result ev r = Inl (TransferErr e)"
proof -
  obtain a b c d where "http ev r 1 = Inl a" "http ev r 2 = Inl b" "http ev r 3 = Inl c" "http ev r 4 = Inl d"
    using assms by fastforce
  then show ?thesis by (simp add: range_result_def svc_simps)
qed

section \<open>Writing the blocks\<close>

text \<open>Each block has its content for an answer, or nothing.\<close>

definition answers_blocks :: "nat \<Rightarrow> nat \<Rightarrow> bytes \<Rightarrow> nat set \<Rightarrow> (nat \<Rightarrow> bytes option) \<Rightarrow> bool" where
  "answers_blocks bl blocks content lost answer \<longleftrightarrow>
     (\<forall>i < blocks. if i \<in> lost then answer i \<in> {None, Some []}
       else answer i = Some (block_of bl i content))"

lemma write_one_block:
  assumes "\<And>c. fs_fault ev c = None" "answers_blocks bl blocks content lost answer" "i < blocks"
    and "0 < bl" "length (of_content f) = length content" "i * bl < length content"
  shows "length (of_content (write_step ev path answer bl (MoveBlock i) (write_step ev path answer bl (SeekBlock i) f))) =
      length content \<and>
    (\<forall>k < length content. of_content (write_step ev path answer bl (MoveBlock i)
        (write_step ev path answer bl (SeekBlock i) f)) ! k =
      (if k div bl = i \<and> i \<notin> lost then content ! k else of_content f ! k))"
proof (cases "i \<in> lost")
  case True
  then have "answer i \<in> {None, Some []}" using assms(2,3) by (auto simp: answers_blocks_def)
  then show ?thesis using True assms(1,5) by (auto simp: write_step_def file_write_all_def file_seek_def)
next
  case False
  then have a: "answer i = Some (block_of bl i content)" using assms(2,3) by (auto simp: answers_blocks_def)
  have fits: "i * bl + length (block_of bl i content) \<le> length (of_content f)"
    using assms(5,6) by (simp add: block_of_length)
  have ne: "block_of bl i content \<noteq> []" using assms(4,6) by (simp add: block_of_def)
  have w: "of_content (write_step ev path answer bl (MoveBlock i) (write_step ev path answer bl (SeekBlock i) f)) =
      overwrite (i * bl) (block_of bl i content) (of_content f)"
    using a ne assms(1) by (simp add: write_step_def file_write_all_def file_seek_def)
  show ?thesis
    unfolding w using overwrite_block [OF assms(4,5)] overwrite_length [OF fits] False assms(5,6) by auto
qed

lemma write_blocks:
  assumes "\<And>c. fs_fault ev c = None" "answers_blocks bl blocks content lost answer" "set is \<subseteq> {..<blocks}"
    and "0 < bl" "length (of_content f) = length content" "\<And>i. i < blocks \<Longrightarrow> i * bl < length content"
  shows "length (of_content (fold (write_step ev path answer bl) (one_at_a_time is) f)) = length content \<and>
    (\<forall>k < length content. of_content (fold (write_step ev path answer bl) (one_at_a_time is) f) ! k =
      (if k div bl \<in> set is - lost then content ! k else of_content f ! k))"
  using assms(3,5)
proof (induction "is" arbitrary: f)
  case (Cons i "is")
  let ?g = "write_step ev path answer bl (MoveBlock i) (write_step ev path answer bl (SeekBlock i) f)"
  have i: "i < blocks" using Cons.prems(1) by simp
  note g = write_one_block [OF assms(1,2) i assms(4) Cons.prems(2) assms(6) [OF i], of path]
  have "length (of_content ?g) = length content" using g by blast
  from Cons.IH [OF _ this] Cons.prems(1) g show ?case by auto
qed simp

text \<open>All blocks written, in any order: the file, with zeros where a block is lost.\<close>

lemma written_file:
  assumes "\<And>c. fs_fault ev c = None" "answers_blocks bl blocks content lost answer" "set is = {..<blocks}"
    and "block_layout m (length content) = (bl, blocks)" "0 < m" "content \<noteq> []"
  shows "of_content (fold (write_step ev path answer bl) (one_at_a_time is)
      (file_set_len (length content) \<lparr>of_content = [], of_position = 0\<rparr>)) =
    map (\<lambda>k. if k div bl \<in> lost then 0 else content ! k) [0..<length content]"
proof -
  let ?f = "file_set_len (length content) \<lparr>of_content = [], of_position = 0\<rparr>"
  have f: "of_content ?f = replicate (length content) 0" by (simp add: file_set_len_def)
  have c: "0 < bl" "(blocks - 1) * bl < length content" "length content \<le> blocks * bl"
    using block_layout_covers [OF assms(4,5)] assms(6) by auto
  have pos: "i * bl < length content" if "i < blocks" for i
  proof -
    have "i * bl \<le> (blocks - 1) * bl" using that by (intro mult_le_mono1) auto
    then show ?thesis using c(2) by (rule le_less_trans)
  qed
  have "k div bl < blocks" if "k < length content" for k
    using that c by (meson div_less_iff_less_mult less_le_trans)
  then show ?thesis
    using write_blocks [OF assms(1,2) _ c(1), of "is" ?f path] assms(3) pos f
    by (intro nth_equalityI) auto
qed

section \<open>The steps of a transfer seen from the agent\<close>

lemma on_agent_run: "on_agent m s = (case m (agent s) of
    (r, t) \<Rightarrow> (case r of Inl e \<Rightarrow> Inl (OfAgent e) | Inr x \<Rightarrow> Inr x, s\<lparr>agent := t\<rparr>))"
  by (simp add: on_agent_def)

lemma agent_of_job_call: "agent (snd (job_call m s)) = snd (m (agent s))"
  by (auto simp: job_call_def on_agent_def logged_def svc_simps split: prod.splits)

end
