(* ===== verification/KT_Steps.thy ===== *)
theory KT_Steps
  imports KT_Frame
begin




section \<open>Operations that leave the agent alone\<close>





















section \<open>Reports to the job service\<close>








end
