(* ===== verification/KT_Runs.thy ===== *)
theory KT_Runs
  imports KT_Steps KF_Moves
begin

text \<open>
  How the transfers run: the file a download leaves when its blocks come or do not come, the requests
  an upload makes, what the announcement of an upload leaves in the coordinator.
\<close>

section \<open>Runs of a download\<close>

abbreviation block_request :: "string \<Rightarrow> nat \<Rightarrow> nat \<Rightarrow> nat \<Rightarrow> http_request" where
  "block_request url n bl i \<equiv> HttpGet url (Some (block_range i bl (min bl (n - i * bl) - 1)))"

lemma download_task_result:
  assumes "block_layout m n = (bl, blocks)" "0 < m" "0 < n" "i < blocks"
  shows "requests_only (download_task ev url n bl blocks i) (range_result ev (block_request url n bl i))"
  using range_attempts_result [of ev "block_request url n bl i"]
  by (simp add: download_task_def real_block_length_small [OF assms])

lemma download_blocks_run:
  assumes "\<And>c. fs_fault ev c = None" "block_layout (t_block_size ev) n = (bl, blocks)" "0 < t_block_size ev" "0 < n"
    and "\<And>i. i < blocks \<Longrightarrow> range_result ev (block_request url n bl i) = r i"
    and "\<And>i. i < blocks \<Longrightarrow> r i \<noteq> Inl TransferPanic"
  shows "\<exists>q l. download_blocks ev path url n s = (Inr (), s\<lparr>requests := q, local_files := l\<rparr>) \<and>
    map_of l path = Some (of_content (fold (write_step ev path (answer_of (map r [0..<blocks])) bl) (block_order ev blocks)
      (file_set_len n \<lparr>of_content = [], of_position = 0\<rparr>)))"
proof -
  let ?m = "smap (\<lambda>i. satt (download_task ev url n bl blocks i)) [0..<blocks]"
  have "requests_only ?m (Inr (map r [0..<blocks]))"
  proof (rule requests_only_smap)
    fix i assume "i \<in> set [0..<blocks]"
    then show "requests_only (download_task ev url n bl blocks i) (r i)"
      using download_task_result [OF assms(2-4), of i ev url] assms(5) [of i] by simp
  qed
  then obtain q where q: "?m (s\<lparr>local_files := AList.update path [] (local_files s)\<rparr>) =
      (Inr (map r [0..<blocks]), s\<lparr>local_files := AList.update path [] (local_files s)\<rparr>\<lparr>requests := q\<rparr>)"
    by (rule requests_onlyE)
  have p: "\<not> any_panic (map r [0..<blocks])"
    using assms(6) by (auto simp: any_panic_def list_ex_iff split: sum.splits terr.splits)
  let ?l = "AList.update path (of_content (fold (write_step ev path (answer_of (map r [0..<blocks])) bl)
      (block_order ev blocks) (file_set_len n \<lparr>of_content = [], of_position = 0\<rparr>)))
      (AList.update path [] (local_files s))"
  have "download_blocks ev path url n s = (Inr (), s\<lparr>requests := q, local_files := ?l\<rparr>)"
    using q p by (simp add: download_blocks_def fs_run [OF assms(1)] assms(2) svc_simps Let_def)
  then show ?thesis by (intro exI conjI) (assumption, simp add: update_conv')
qed

text \<open>A file behind an address: what is assumed of a download that gets as far as its blocks.\<close>

definition downloading :: "tenv \<Rightarrow> file_transfer_command \<Rightarrow> agent_file \<Rightarrow> string \<Rightarrow> bool" where
  "downloading ev command f url \<longleftrightarrow>
     ft_status command = FtStart \<and> ft_task_file command = Some f \<and> \<not> af_is_generated f \<and>
     t_ssh_proxy ev = None \<and> 0 < t_block_size ev \<and>
     url_join ev (t_base_url ev) (''file-storage/RangelyDownloadFile/'' @ show_uuid (af_metadata_id f)) = Some url"

lemma download_run:
  assumes "downloading ev command f url" "\<And>c. fs_fault ev c = None"
    and "content_length (http ev (HttpHead url) 1) = n" "0 < n"
    and "block_layout (t_block_size ev) n = (bl, blocks)"
    and "\<And>i. i < blocks \<Longrightarrow> range_result ev (block_request url n bl i) = r i"
    and "\<And>i. i < blocks \<Longrightarrow> r i \<noteq> Inl TransferPanic"
  shows "\<exists>t. file_download_runner ev aev command s = job_call (run_job aev (af_id f)) t \<and> agent t = agent s \<and>
    map_of (local_files t) (task_path ev (ft_parent_id command) (af_file_name f)) =
      Some (of_content (fold (write_step ev (task_path ev (ft_parent_id command) (af_file_name f))
          (answer_of (map r [0..<blocks])) bl) (block_order ev blocks)
        (file_set_len n \<lparr>of_content = [], of_position = 0\<rparr>)))"
proof -
  note d = assms(1) [unfolded downloading_def]
  let ?path = "task_path ev (ft_parent_id command) (af_file_name f)"
  have b: "0 < t_block_size ev" using d by simp
  obtain q l where q: "download_blocks ev ?path url n (s\<lparr>requests := requests s @ [HttpHead url]\<rparr>) =
      (Inr (), s\<lparr>requests := q, local_files := l\<rparr>)"
    and l: "map_of l ?path = Some (of_content (fold (write_step ev ?path (answer_of (map r [0..<blocks])) bl)
      (block_order ev blocks) (file_set_len n \<lparr>of_content = [], of_position = 0\<rparr>)))"
    using download_blocks_run [OF assms(2,5) b assms(4,6,7), of ?path "s\<lparr>requests := requests s @ [HttpHead url]\<rparr>"]
    by auto
  have "download_file ev (ft_parent_id command) f s = (Inr (), s\<lparr>requests := q, local_files := l\<rparr>)"
    using d q assms(3,4)
    by (simp add: download_file_def Let_def fs_run [OF assms(2)] or_panic_def join_base_def svc_simps)
  then have "file_download_runner ev aev command s =
      job_call (run_job aev (af_id f)) (s\<lparr>requests := q, local_files := l\<rparr>)"
    using d by (simp add: file_download_runner_def push_remote_def svc_simps)
  with l show ?thesis by auto
qed

section \<open>Downloads from the coordinator\<close>

text \<open>The coordinator in state \<open>s\<close> as the server behind the address of a file.\<close>

definition answer_with :: "http_reply fsvc \<Rightarrow> fstate \<Rightarrow> string + http_reply" where
  "answer_with m s = (case fst (m s) of Inl _ \<Rightarrow> Inl ''connection closed'' | Inr x \<Rightarrow> Inr x)"

definition answered_by_coordinator :: "tenv \<Rightarrow> fenv \<Rightarrow> object_store \<Rightarrow> fstate \<Rightarrow> uuid \<Rightarrow> string \<Rightarrow> bool" where
  "answered_by_coordinator ev fev os s i url \<longleftrightarrow>
     (\<forall>n. http ev (HttpHead url) n = answer_with (head_rangely_download_file fev os (show_uuid i)) s \<and>
       body_fault ev (HttpHead url) n = None \<and>
       (\<forall>rg. http ev (HttpGet url rg) n = answer_with (get_rangely_download_file fev os (show_uuid i) rg) s \<and>
         body_fault ev (HttpGet url rg) n = None))"

section \<open>Mixed blocks\<close>

lemma overwrite_grows: "length c \<le> length (overwrite n xs c)"
  by (simp add: overwrite_def)

lemma overwrite_prefix:
  "k \<le> n \<Longrightarrow> k \<le> length c \<Longrightarrow> take k (overwrite n xs c) = take k c"
  by (auto simp: overwrite_def min_def)

text \<open>Writing behind a prefix keeps it.\<close>

lemma write_behind:
  assumes "\<And>i. i \<in> set is \<Longrightarrow> 1 \<le> i" "bl \<le> length (of_content f)" "take bl (of_content f) = p"
  shows "take bl (of_content (fold (write_step ev path answer bl) (one_at_a_time is) f)) = p"
  using assms
proof (induction "is" arbitrary: f)
  case (Cons i "is")
  let ?g = "write_step ev path answer bl (MoveBlock i) (write_step ev path answer bl (SeekBlock i) f)"
  have i: "1 \<le> i" using Cons.prems(1) by simp
  then have le: "bl \<le> i * bl" by (cases i) auto
  have "bl \<le> length (of_content ?g)" "take bl (of_content ?g) = p"
    using Cons.prems(2,3) le overwrite_prefix [OF le, of "of_content f"] overwrite_grows [of "of_content f" "i * bl"]
    by (auto simp: write_step_def file_write_all_def file_seek_def split: option.split intro: order_trans)
  with Cons show ?case by simp
qed simp

section \<open>Uploads\<close>

lemma butlast_block: "take (min bl (length content - i * bl) - 1) (drop (i * bl) content) = butlast (block_of bl i content)"
proof -
  have "min (min bl m - 1) bl = min bl m - 1" for m :: nat by (cases "bl \<le> m") auto
  then show ?thesis by (simp add: block_of_def butlast_conv_take min.commute [of bl])
qed

text \<open>Without faults, and without another block in between, every block is read up to its last byte.\<close>

lemma read_blocks:
  assumes "\<And>c. fs_fault ev c = None" "distinct is"
    and "\<And>i. i \<in> set is \<Longrightarrow> lens i = Some (min bl (length content - i * bl) - 1) \<and> i * bl < length content"
    and "of_content f = content" "\<And>i. i \<in> set is \<Longrightarrow> map_of bufs i = None"
  shows "\<exists>g b. fold (read_step ev path lens bl) (one_at_a_time is) (f, bufs) = (g, b) \<and> of_content g = content \<and>
    (\<forall>i. map_of b i = (if i \<in> set is then Some (Inr (butlast (block_of bl i content))) else map_of bufs i))"
  using assms(2-)
proof (induction "is" arbitrary: f bufs)
  case (Cons i "is")
  let ?l = "min bl (length content - i * bl) - 1"
  have l: "lens i = Some ?l" "i * bl < length content" "map_of bufs i = None" "of_content f = content"
    using Cons.prems by auto
  have fits: "i * bl + ?l \<le> length content" using l(2) by linarith
  obtain g where g: "fold (read_step ev path lens bl) [SeekBlock i, MoveBlock i] (f, bufs) =
      (g, (i, Inr (butlast (block_of bl i content))) # bufs)" "of_content g = content"
    using l fits by (simp add: read_step_def assms(1) file_seek_def file_read_exact_def butlast_block [symmetric])
  have "\<exists>h b. fold (read_step ev path lens bl) (one_at_a_time is) (g, (i, Inr (butlast (block_of bl i content))) # bufs) =
      (h, b) \<and> of_content h = content \<and> (\<forall>j. map_of b j = (if j \<in> set is then Some (Inr (butlast (block_of bl j content)))
        else map_of ((i, Inr (butlast (block_of bl i content))) # bufs) j))"
    using Cons.prems by (intro Cons.IH g(2)) auto
  then show ?case using g(1) Cons.prems(1) by fastforce
qed simp

text \<open>An attempt to post adds the request once or more often, and nothing else.\<close>

lemma post_loop_same:
  "\<exists>n x. post_loop ev r m k s = (x, s\<lparr>requests := requests s @ replicate (Suc n) r\<rparr>)"
proof (induction ev r m k arbitrary: s rule: post_loop.induct)
  case (1 ev r m k)
  let ?s = "s\<lparr>requests := requests s @ [r]\<rparr>"
  have again: "\<exists>n x. post_loop ev r m (k + 1) ?s = (x, s\<lparr>requests := requests s @ replicate (Suc n) r\<rparr>)"
    if less: "k + 1 \<noteq> m" "\<not> m \<le> k"
  proof -
    obtain n x where "post_loop ev r m (k + 1) ?s = (x, ?s\<lparr>requests := requests ?s @ replicate (Suc n) r\<rparr>)"
      using "1.IH" [OF less, of ?s] by blast
    then show ?thesis by (intro exI [of _ "Suc n"]) simp
  qed
  have once: "\<exists>n. s\<lparr>requests := requests s @ [r]\<rparr> = s\<lparr>requests := requests s @ replicate (Suc n) r\<rparr>"
    by (rule exI [of _ 0]) simp
  show ?case
    using again once
    by (subst post_loop.simps) (auto simp: svc_simps Let_def split: sum.split)
qed

lemma post_block_same:
  "\<exists>rs x. post_block ev url i bufs k s = (Inr x, s\<lparr>requests := requests s @ rs\<rparr>) \<and>
    (case map_of bufs k of Some (Inr b) \<Rightarrow> rs \<noteq> [] \<and> set rs = {HttpPart url k i b} | _ \<Rightarrow> rs = [])"
proof (cases "\<exists>b. map_of bufs k = Some (Inr b)")
  case True
  then obtain b where b: "map_of bufs k = Some (Inr b)" by blast
  obtain n x where "post_loop ev (HttpPart url k i b) 5 1 s =
      (x, s\<lparr>requests := requests s @ replicate (Suc n) (HttpPart url k i b)\<rparr>)"
    using post_loop_same by blast
  with b show ?thesis
    by (intro exI [of _ "replicate (Suc n) (HttpPart url k i b)"]) (simp add: post_block_def svc_simps set_replicate_conv_if)
next
  case False
  then have "post_block ev url i bufs k = sret None"
    by (auto simp: post_block_def split: option.split sum.split)
  then show ?thesis using False
    by (intro exI [of _ "[]"]) (auto simp: svc_simps split: option.split sum.split)
qed

lemma post_blocks_same:
  "\<exists>rs x. smap (post_block ev url i bufs) ks s = (Inr x, s\<lparr>requests := requests s @ rs\<rparr>) \<and>
    set rs = {HttpPart url k i b |k b. k \<in> set ks \<and> map_of bufs k = Some (Inr b)}"
proof (induction ks arbitrary: s)
  case (Cons k ks)
  obtain rs x where 1: "post_block ev url i bufs k s = (Inr x, s\<lparr>requests := requests s @ rs\<rparr>)"
    "case map_of bufs k of Some (Inr b) \<Rightarrow> rs \<noteq> [] \<and> set rs = {HttpPart url k i b} | _ \<Rightarrow> rs = []"
    using post_block_same by blast
  obtain ps y where 2: "smap (post_block ev url i bufs) ks (s\<lparr>requests := requests s @ rs\<rparr>) =
      (Inr y, s\<lparr>requests := requests s @ rs\<rparr>\<lparr>requests := requests (s\<lparr>requests := requests s @ rs\<rparr>) @ ps\<rparr>)"
    "set ps = {HttpPart url k i b |k b. k \<in> set ks \<and> map_of bufs k = Some (Inr b)}"
    using Cons.IH [of "s\<lparr>requests := requests s @ rs\<rparr>"] by blast
  have "set (rs @ ps) = {HttpPart url j i b |j b. j \<in> set (k # ks) \<and> map_of bufs j = Some (Inr b)}"
    using 1(2) 2(2) by (auto split: option.splits sum.splits)
  with 1(1) 2(1) show ?case by (intro exI [of _ "rs @ ps"]) (simp add: svc_simps)
qed (auto simp: svc_simps intro: exI [of _ "[]"])

lemma post_loop_first:
  "http ev r k = Inr x \<Longrightarrow> \<not> is_error_status (hr_status x) \<Longrightarrow>
   post_loop ev r m k s = (Inr x, s\<lparr>requests := requests s @ [r]\<rparr>)"
  by (subst post_loop.simps) (simp add: svc_simps)

lemma smap_upload_run:
  assumes "\<And>c. fs_fault ev c = None" "block_layout (t_block_size ev) (length content) = (bl, blocks)"
    and "0 < t_block_size ev" "content \<noteq> []" "length content < 2 ^ 63"
    and "distinct is" "set is = {..<blocks}" "block_order ev blocks = one_at_a_time is"
  shows "\<exists>rs. upload_blocks ev path url content bl blocks i s = (Inr (), s\<lparr>requests := requests s @ rs\<rparr>) \<and>
    set rs = {HttpPart url k i (butlast (block_of bl k content)) |k. k < blocks}"
proof -
  let ?lens = "buffer_length ev (length content) bl blocks"
  have n: "0 < length content" using assms(4) by simp
  have c: "0 < bl" "(blocks - 1) * bl < length content" using block_layout_covers [OF assms(2,3)] n by auto
  have lens: "?lens k = Some (min bl (length content - k * bl) - 1) \<and> k * bl < length content" if "k < blocks" for k
  proof -
    have "k * bl \<le> (blocks - 1) * bl" using that by (intro mult_le_mono1) auto
    then have "k * bl < length content" using c(2) by (rule le_less_trans)
    then show ?thesis
      using real_block_length_small [OF assms(2,3) n that] assms(5) by (auto simp: buffer_length_def)
  qed
  obtain g b where b: "fold (read_step ev path ?lens bl) (one_at_a_time is)
      (\<lparr>of_content = content, of_position = length content\<rparr>, []) = (g, b)"
    "\<And>k. map_of b k = (if k < blocks then Some (Inr (butlast (block_of bl k content))) else None)"
    using read_blocks [OF assms(1,6), of ?lens bl content "\<lparr>of_content = content, of_position = length content\<rparr>" "[]" path]
      lens assms(7) by auto
  obtain rs x where rs: "smap (post_block ev url i b) [0..<blocks] s = (Inr x, s\<lparr>requests := requests s @ rs\<rparr>)"
    "set rs = {HttpPart url k i p |k p. k \<in> set [0..<blocks] \<and> map_of b k = Some (Inr p)}"
    using post_blocks_same by blast
  have "set rs = {HttpPart url k i (butlast (block_of bl k content)) |k. k < blocks}"
    unfolding rs(2) b(2) by (auto split: if_splits)
  moreover have "\<not> list_ex (\<lambda>k. ?lens k = None) [0..<blocks]" using lens by (auto simp: list_ex_iff)
  ultimately show ?thesis
    using rs(1) b(1) assms(8) by (intro exI [of _ rs]) (simp add: upload_blocks_def svc_simps)
qed

text \<open>An empty file is not uploaded at all: the length of its only block is computed below zero.\<close>

lemma empty_file_fails: "buffer_length ev 0 0 1 0 = None"
  by (auto simp: buffer_length_def real_block_length_def usize_sub_def)

section \<open>Collected outputs\<close>

lemma upper_char_idem [simp]: "upper_char (upper_char c) = upper_char c"
  by (auto simp: upper_char_def of_char_of)

lemma to_ascii_uppercase_idem [simp]: "to_ascii_uppercase (to_ascii_uppercase s) = to_ascii_uppercase s"
  by (simp add: to_ascii_uppercase_def)

lemma get_node_user_id_state: "get_node_user_id i s = (r, t) \<Longrightarrow> t = s"
  by (auto simp: get_node_user_id_def node_get_by_id_def flow_get_by_id_def read_db_def svc_simps
      split: sum.splits)

text \<open>The request of an agent that is answered with \<open>Normal\<close> has registered the upload of the file.\<close>

lemma prepared_for_node:
  assumes "prepare_partial_upload_from_node_instance fev data i node s =
      (Inr (rp_ok (Some \<lparr>pr_result = Normal, pr_id = j\<rparr>)), t)"
    and "rq_hash_algorithm data = ''blake3''"
  shows "\<exists>u v. scope v = (scope (new_scope None s))\<lparr>drawn := Suc (drawn (scope s))\<rparr> \<and> redis v = redis s \<and>
    now_ms v = now_ms s \<and> disk v = disk s \<and> upload_mq v = upload_mq s \<and>
    prepare_upload fev (registration (fenv.new_uuid fev (drawn (scope s))) i data Blake3
        (net_disk_destination (NodeInstanceFile node)) (Some u)) (rq_count data) v =
      (Inr (rp_ok (Some \<lparr>pr_result = Normal, pr_id = j\<rparr>)), t)"
proof -
  let ?s = "new_scope None s"
  obtain r where r: "get_node_user_id node (scope ?s) = (r, scope ?s)"
    using get_node_user_id_state [of node "scope ?s"] by (metis prod.collapse)
  have o: "on_scope (get_node_user_id node) ?s = (case r of Inl e \<Rightarrow> Inl (KernelErr e) | Inr x \<Rightarrow> Inr x, ?s)"
    using r by (simp add: on_scope_def)
  obtain u where u: "r = Inr u"
    using assms o by (cases r) (auto simp: prepare_partial_upload_from_node_instance_def svc_simps
        hash_algorithm_from_str_def rp_ok_def rp_err_def)
  show ?thesis
    using assms o u
    by (intro exI [of _ u] exI [of _ "?s\<lparr>scope := (scope ?s)\<lparr>drawn := Suc (drawn (scope s))\<rparr>\<rparr>"])
      (auto simp: prepare_partial_upload_from_node_instance_def svc_simps hash_algorithm_from_str_def
        fresh_uuid_run new_scope_def)
qed

end
