(* ===== verification/KT_Samples.thy ===== *)
theory KT_Samples
  imports KT_Runs KF_Samples KA_Samples
begin

text \<open>Concrete surroundings of a transfer for the witnesses: a file of three bytes, in blocks of two.\<close>

definition sample_bytes :: bytes where
  "sample_bytes = [1, 2, 3]"

definition sample_tenv :: "(http_request \<Rightarrow> nat \<Rightarrow> string + http_reply) \<Rightarrow> (nat \<Rightarrow> block_step list) \<Rightarrow> tenv" where
  "sample_tenv h order =
     \<lparr>t_overflow_checks = True, t_save_dir = ''d'', t_base_url = ''b'', t_ssh_proxy = None, t_block_size = 2,
      url_join = (\<lambda>b r. Some (b @ ''/'' @ r)), http = h, body_fault = (\<lambda>_ _. None),
      status_text = (\<lambda>_. ''''), join_error = ''panic'',
      read_prepare = (\<lambda>_. Inr (Some \<lparr>apr_result = ANormal, apr_id = 5\<rparr>)),
      t_blake3 = fenv.blake3 sample_fenv, is_utf8 = (\<lambda>_. True), t_parse_uuid = (\<lambda>_. None),
      fs_fault = (\<lambda>_. None), scp = (\<lambda>_ _. Exited True None), block_order = order\<rparr>"

definition sample_transfer :: file_transfer_command where
  "sample_transfer = \<lparr>ft_id = 4, ft_parent_id = 7, ft_status = FtStart,
     ft_task_file = Some (sample_file 4 Downloading)\<rparr>"

definition sample_tstate :: tstate where
  "sample_tstate = \<lparr>agent = agent_with StRunning [sample_use_case StRunning] [sample_file 4 Downloading] 1,
     local_files = [], requests = []\<rparr>"

definition sample_url :: string where
  "sample_url = ''b/file-storage/RangelyDownloadFile/'' @ show_uuid 0"

lemma sample_tenv_fields [simp]:
  "t_save_dir (sample_tenv h ord) = ''d''" "t_base_url (sample_tenv h ord) = ''b''"
  "t_ssh_proxy (sample_tenv h ord) = None" "t_block_size (sample_tenv h ord) = 2"
  "url_join (sample_tenv h ord) b r = Some (b @ ''/'' @ r)" "http (sample_tenv h ord) = h"
  "body_fault (sample_tenv h ord) q n = None" "fs_fault (sample_tenv h ord) c = None"
  "t_blake3 (sample_tenv h ord) = fenv.blake3 sample_fenv" "block_order (sample_tenv h ord) = ord"
  "read_prepare (sample_tenv h ord) x = Inr (Some \<lparr>apr_result = ANormal, apr_id = 5\<rparr>)"
  by (simp_all add: sample_tenv_def)

lemma sample_transfer_fields [simp]:
  "ft_id sample_transfer = 4" "ft_parent_id sample_transfer = 7" "ft_status sample_transfer = FtStart"
  "ft_task_file sample_transfer = Some (sample_file 4 Downloading)"
  "af_id (sample_file i st) = i" "af_file_name (sample_file i st) = ''f''" "af_metadata_id (sample_file i st) = 0"
  "af_is_generated (sample_file i st) = False"
  by (simp_all add: sample_transfer_def sample_file_def)

lemma sample_task_path [simp]:
  "task_path (sample_tenv h ord) 7 ''f'' = path_push (path_push ''d'' (show_uuid 7)) ''f''"
  by (simp add: task_path_def)

lemma sample_downloading: "downloading (sample_tenv h ord) sample_transfer (sample_file 4 Downloading) sample_url"
  by (simp add: downloading_def sample_url_def)

lemma sample_layout: "block_layout (t_block_size (sample_tenv h ord)) (length sample_bytes) = (2, 2)"
  by (simp add: block_layout_def sample_bytes_def)

lemma sample_blocks: "block_of 2 0 sample_bytes = [1, 2]" "block_of 2 (Suc 0) sample_bytes = [3]"
  by (simp_all add: block_of_def sample_bytes_def)

lemma sample_zeros: "replicate 2 (0 :: 8 word) = [0, 0]"
  by (simp add: numeral_2_eq_2)

text \<open>An object store that keeps one content, and the coordinator before it.\<close>

definition sample_store :: "bytes \<Rightarrow> object_store" where
  "sample_store content = \<lparr>os_overflow_checks = True,
     get_object = (\<lambda>_ _ h. case h of None \<Rightarrow> Inr (Some content)
       | Some x \<Rightarrow> (case parse_ranges x of Some [(a, b)] \<Rightarrow> Inr (Some (take (b + 1 - a) (drop a content))) | _ \<Rightarrow> Inl '''')),
     head_object = (\<lambda>_ _. Inr (Some (int (length content))))\<rparr>"

lemma sample_store_serves: "serves_ranges (sample_store content) server key content"
  unfolding serves_ranges_def
proof (intro conjI allI impI)
  fix a b assume "a \<le> b" "a < length content" "b \<le> usize_max"
  then have "parse_ranges (''bytes='' @ show_range (a, b)) = Some [(a, b)]" by (intro parse_ranges_show) auto
  then show "get_object (sample_store content) server key (Some (''bytes='' @ show_range (a, b))) =
      Inr (Some (take (b + 1 - a) (drop a content)))"
    unfolding sample_store_def object_store.simps option.case by simp
qed (simp_all add: sample_store_def)

definition sample_server :: storage_server where
  "sample_server = \<lparr>sv_id = 3, sv_name = ''s3'', sv_bucket = ''b'', sv_download_endpoint = ''http://s3''\<rparr>"

lemma sample_server_found:
  "find (\<lambda>sv. sv_id sv = default_storage_server_id sample_fenv)
     (storage_servers (file_tabs (db (scope sample_fstate)))) = Some sample_server"
  by (simp add: sample_fenv_def sample_fstate_def sample_scope_def no_files_def sample_server_def)

definition coordinator_http :: "http_request \<Rightarrow> nat \<Rightarrow> string + http_reply" where
  "coordinator_http r n =
     (case r of
        HttpHead _ \<Rightarrow> answer_with (head_rangely_download_file sample_fenv (sample_store sample_bytes) (show_uuid 0))
          sample_fstate
      | HttpGet _ rg \<Rightarrow> answer_with (get_rangely_download_file sample_fenv (sample_store sample_bytes) (show_uuid 0) rg)
          sample_fstate
      | _ \<Rightarrow> Inl '''')"

text \<open>Replies of a coordinator whose blocks are given.\<close>

definition blocks_http :: "(string \<Rightarrow> string + http_reply) \<Rightarrow> http_request \<Rightarrow> nat \<Rightarrow> string + http_reply" where
  "blocks_http answer r n =
     (case r of
        HttpHead _ \<Rightarrow> Inr ((hr_empty 200)\<lparr>hr_headers := [(''content-length'', ''3'')]\<rparr>)
      | HttpGet _ (Some rg) \<Rightarrow> answer rg
      | _ \<Rightarrow> Inl '''')"

lemma blocks_http_length:
  "content_length (http (sample_tenv (blocks_http answer) ord) (HttpHead url) 1) = length sample_bytes"
proof -
  have "show_nat 3 = ''3''" by (subst show_nat.simps) (simp add: char_of_def bit_Suc_0_iff)
  then have "parse_u64 ''3'' = Some 3" using parse_show [of 3] by (simp add: usize_max_def)
  then show ?thesis by (simp add: content_length_def blocks_http_def sample_bytes_def)
qed

definition first_range :: string where
  "first_range = block_range 0 2 (min 2 (length sample_bytes - 0 * 2) - 1)"

definition second_range :: string where
  "second_range = block_range 1 2 (min 2 (length sample_bytes - 1 * 2) - 1)"

lemma sample_ranges: "first_range \<noteq> second_range"
  unfolding first_range_def second_range_def sample_bytes_def by code_simp

text \<open>The announcement of an output of two bytes by node 11, on a store with its flow.\<close>

definition sample_request :: upload_request where
  "sample_request = \<lparr>rq_file_name = ''f'', rq_hash = ''AA'', rq_hash_algorithm = ''blake3'', rq_size = 2, rq_count = 1\<rparr>"

lemma sample_node_prepared:
  "\<exists>s. prepare_partial_upload_from_node_instance sample_fenv sample_request 5 11 sample_running =
    (Inr (rp_ok (Some \<lparr>pr_result = Normal, pr_id = 5\<rparr>)), s)"
proof -
  let ?s = "new_scope None sample_running"
  have u: "on_scope (get_node_user_id 11) ?s = (Inr 8, ?s)"
    using sample_running_rows
    by (simp add: on_scope_def get_node_user_id_def node_get_by_id_def flow_get_by_id_def read_db_def svc_simps
        new_scope_def sample_flow_def)
  let ?t = "?s\<lparr>scope := (scope ?s)\<lparr>drawn := Suc (drawn (scope ?s))\<rparr>\<rparr>"
  let ?i = "registration (fenv.new_uuid sample_fenv (drawn (scope ?s))) 5 sample_request Blake3
      (net_disk_destination (NodeInstanceFile 11)) (Some 8)"
  have t: "redis ?t = []" "now_ms ?t = 0" "file_metadata (file_tabs (db (scope ?t))) = []"
    by (simp_all add: new_scope_def sample_running_def sample_fstate_def sample_scope_def no_files_def)
  have "\<exists>s. prepare_upload sample_fenv ?i 1 ?t = (Inr (rp_ok (Some \<lparr>pr_result = Normal, pr_id = 5\<rparr>)), s)"
    using t
    by (simp add: prepare_upload_def if_possible_do_flash_upload_def Let_def meta_satisfy_flash_upload_def
        get_by_hash_and_algorithm_def file_rows_def multipart_create_def multipart_get_one_def get_first_def
        query_keys_def live_def registration_def net_disk_destination_def sample_fenv_def sample_request_def
        multipart_insert_def pset_ex_def register_move_def move_insert_def svc_simps)
  then show ?thesis
    using u by (simp add: prepare_partial_upload_from_node_instance_def svc_simps hash_algorithm_from_str_def
        fresh_uuid_run sample_request_def)
qed

end
