(* ===== verification/KT_Props.thy ===== *)
theory KT_Props
  imports KT_Samples
begin

text \<open>
  The properties of the file transfers between the agent and the coordinator, each with its witness.
\<close>

section \<open>Downloads\<close>

text \<open>C6 A file that the storage server keeps is downloaded as it is: when the coordinator answers the
  requests of the agent, the storage server serves ranges as documented, and the runtime runs the
  seek and the write of each block without another block in between, in whatever order of the blocks,
  then the local file has the bytes of the stored one, for every length and block size, and the job
  of the file is started.\<close>

theorem download_restores_file:
  assumes "downloading ev command f url" "\<And>c. fs_fault ev c = None"
    and "answered_by_coordinator ev fev os s (af_metadata_id f) url"
    and "parse_uuid fev (show_uuid (af_metadata_id f)) = Some (af_metadata_id f)"
    and "find (\<lambda>sv. sv_id sv = default_storage_server_id fev) (storage_servers (file_tabs (db (scope s)))) = Some server"
    and "serves_ranges os server (object_key server (af_metadata_id f)) content"
    and "content \<noteq> []" "length content \<le> usize_max"
    and "\<And>n. \<exists>is. set is = {..<n} \<and> block_order ev n = one_at_a_time is"
  shows "\<exists>t. file_download_runner ev aev command a = job_call (run_job aev (af_id f)) t \<and> agent t = agent a \<and>
    map_of (local_files t) (task_path ev (ft_parent_id command) (af_file_name f)) = Some content"
proof -
  obtain bl blocks where lay: "block_layout (t_block_size ev) (length content) = (bl, blocks)" by force
  obtain "is" where order: "set is = {..<blocks}" "block_order ev blocks = one_at_a_time is"
    using assms(9) by blast
  have b: "0 < t_block_size ev" and n: "0 < length content" using assms(1,7) by (auto simp: downloading_def)
  have c: "0 < bl" "(blocks - 1) * bl < length content" using block_layout_covers [OF lay b] n by auto
  have head: "content_length (http ev (HttpHead url) 1) = length content"
    using assms(3) head_request_run [OF assms(4-6,8)] assms(8)
    by (simp add: answered_by_coordinator_def answer_with_def content_length_def parse_show)
  have range: "range_result ev (block_request url (length content) bl i) = Inr (block_of bl i content)"
    if i: "i < blocks" for i
  proof -
    have "i * bl \<le> (blocks - 1) * bl" using i by (intro mult_le_mono1) auto
    then have pos: "i * bl < length content" using c(2) by (rule le_less_trans)
    let ?b = "i * bl + (min bl (length content - i * bl) - 1)"
    have ok: "i * bl \<le> ?b" "?b < length content" "?b + 1 - i * bl = min bl (length content - i * bl)"
      using pos c(1) by (auto simp: min_def)
    have cut: "take (min bl (length content - i * bl)) (drop (i * bl) content) = block_of bl i content"
      by (simp add: block_of_def min_def)
    obtain hs where "get_rangely_download_file fev os (show_uuid (af_metadata_id f))
        (Some (block_range i bl (min bl (length content - i * bl) - 1))) s =
        (Inr \<lparr>hr_status = 206, hr_headers = hs, hr_body = block_of bl i content\<rparr>, new_scope None s)"
      using range_request_run [OF assms(4-6) ok(1,2) assms(8)] unfolding ok(3) cut block_range_def by blast
    then have "http ev (block_request url (length content) bl i) 1 =
        Inr \<lparr>hr_status = 206, hr_headers = hs, hr_body = block_of bl i content\<rparr>"
      using assms(3) by (simp add: answered_by_coordinator_def answer_with_def)
    moreover have "body_fault ev (block_request url (length content) bl i) 1 = None"
      using assms(3) by (simp add: answered_by_coordinator_def)
    ultimately show ?thesis using range_result_first by fastforce
  qed
  have ans: "answers_blocks bl blocks content {} (answer_of (map (\<lambda>i. Inr (block_of bl i content)) [0..<blocks]))"
    by (simp add: answers_blocks_def answer_of_def)
  have all: "map (\<lambda>k. if k div bl \<in> {} then 0 else content ! k) [0..<length content] = content"
    by (rule nth_equalityI) auto
  show ?thesis
    using download_run [OF assms(1,2) head n lay range, of aev a]
    unfolding order(2) written_file [OF assms(2) ans order(1) lay b assms(7)] all by simp
qed

theorem download_restores_file_witness:
  "\<exists>t. file_download_runner (sample_tenv coordinator_http (\<lambda>n. one_at_a_time (rev [0..<n]))) sample_agent sample_transfer
      sample_tstate = job_call (run_job sample_agent 4) t \<and> agent t = agent sample_tstate \<and>
    map_of (local_files t) (path_push (path_push ''d'' (show_uuid 7)) ''f'') =
      Some [1, 2, 3]"
proof -
  let ?ev = "sample_tenv coordinator_http (\<lambda>n. one_at_a_time (rev [0..<n]))"
  have net: "answered_by_coordinator ?ev sample_fenv (sample_store sample_bytes) sample_fstate 0 sample_url"
    by (simp add: answered_by_coordinator_def coordinator_http_def)
  have uuid: "parse_uuid sample_fenv (show_uuid 0) = Some 0" using sample_fenv_ok by (simp add: env_ok_def)
  have bytes: "sample_bytes \<noteq> []" "length sample_bytes \<le> usize_max" by (simp_all add: sample_bytes_def usize_max_def)
  have order: "\<exists>is. set is = {..<n} \<and> block_order ?ev n = one_at_a_time is" for n
    by (intro exI [of _ "rev [0..<n]"]) (simp add: atLeast0LessThan)
  have fs: "fs_fault ?ev c = None" for c by simp
  show ?thesis
    using download_restores_file [where f = "sample_file 4 Downloading" and a = sample_tstate and aev = sample_agent,
        OF sample_downloading fs, simplified sample_transfer_fields,
        OF net uuid sample_server_found sample_store_serves bytes order]
    by (simp add: sample_bytes_def)
qed

text \<open>C38 A block that does not come is not noticed: when the coordinator gives no answer to the four
  attempts at a block, or an answer with an empty body (as for an internal error), the download ends
  as a success, the block is zeros in the local file, and the job is started.\<close>

theorem lost_block_not_noticed:
  assumes "downloading ev command f url" "\<And>c. fs_fault ev c = None"
    and "content_length (http ev (HttpHead url) 1) = length content" "content \<noteq> []"
    and "block_layout (t_block_size ev) (length content) = (bl, blocks)"
    and "\<And>i. i < blocks \<Longrightarrow> i \<in> lost \<Longrightarrow>
      (\<forall>n \<in> {1..4}. \<exists>e. http ev (block_request url (length content) bl i) n = Inl e) \<or>
      (\<exists>x. http ev (block_request url (length content) bl i) 1 = Inr x \<and> hr_body x = [] \<and>
        body_fault ev (block_request url (length content) bl i) 1 = None)"
    and "\<And>i. i < blocks \<Longrightarrow> i \<notin> lost \<Longrightarrow>
      \<exists>x. http ev (block_request url (length content) bl i) 1 = Inr x \<and> hr_body x = block_of bl i content \<and>
        body_fault ev (block_request url (length content) bl i) 1 = None"
    and "set is = {..<blocks}" "block_order ev blocks = one_at_a_time is"
  shows "\<exists>t. file_download_runner ev aev command a = job_call (run_job aev (af_id f)) t \<and> agent t = agent a \<and>
    map_of (local_files t) (task_path ev (ft_parent_id command) (af_file_name f)) =
      Some (map (\<lambda>k. if k div bl \<in> lost then 0 else content ! k) [0..<length content])"
proof -
  let ?r = "\<lambda>i. range_result ev (block_request url (length content) bl i)"
  have b: "0 < t_block_size ev" and n: "0 < length content" using assms(1,4) by (auto simp: downloading_def)
  have lost: "?r i = Inr [] \<or> (\<exists>e. ?r i = Inl (TransferErr e))" if "i < blocks" "i \<in> lost" for i
    using assms(6) [OF that] range_result_none [of ev "block_request url (length content) bl i"]
      range_result_first [of ev "block_request url (length content) bl i"] by metis
  have kept: "?r i = Inr (block_of bl i content)" if "i < blocks" "i \<notin> lost" for i
    using assms(7) [OF that] range_result_first [of ev "block_request url (length content) bl i"] by metis
  have no_panic: "?r i \<noteq> Inl TransferPanic" if "i < blocks" for i
    using lost [OF that] kept [OF that] by (cases "i \<in> lost") auto
  have ans: "answers_blocks bl blocks content lost (answer_of (map ?r [0..<blocks]))"
    using lost kept by (fastforce simp: answers_blocks_def answer_of_def)
  show ?thesis
    using download_run [OF assms(1-3) n assms(5) refl no_panic, of aev a]
    unfolding assms(9) written_file [OF assms(2) ans assms(8,5) b assms(4)] by simp
qed

theorem lost_block_not_noticed_witness:
  "\<exists>t. file_download_runner (sample_tenv (blocks_http (\<lambda>rg. if rg = first_range then Inr \<lparr>hr_status = 206, hr_headers = [],
        hr_body = [1, 2]\<rparr> else Inr (hr_empty 500))) (\<lambda>n. one_at_a_time [0..<n])) sample_agent sample_transfer
      sample_tstate = job_call (run_job sample_agent 4) t \<and> agent t = agent sample_tstate \<and>
    map_of (local_files t) (path_push (path_push ''d'' (show_uuid 7)) ''f'') = Some [1, 2, 0]"
proof -
  let ?h = "blocks_http (\<lambda>rg. if rg = first_range then Inr \<lparr>hr_status = 206, hr_headers = [],
      hr_body = [1, 2]\<rparr> else Inr (hr_empty 500))"
  let ?ev = "sample_tenv ?h (\<lambda>n. one_at_a_time [0..<n])"
  have fs: "fs_fault ?ev c = None" for c by simp
  have bytes: "sample_bytes \<noteq> []" by (simp add: sample_bytes_def)
  have two: "i < 2 \<Longrightarrow> i = 0 \<or> i = Suc 0" for i :: nat by auto
  have req: "block_request sample_url (length sample_bytes) 2 0 = HttpGet sample_url (Some first_range)"
    "block_request sample_url (length sample_bytes) 2 (Suc 0) = HttpGet sample_url (Some second_range)"
    by (simp_all add: first_range_def second_range_def)
  have lost: "(\<forall>n \<in> {1..4}. \<exists>e. http ?ev (block_request sample_url (length sample_bytes) 2 i) n = Inl e) \<or>
      (\<exists>x. http ?ev (block_request sample_url (length sample_bytes) 2 i) 1 = Inr x \<and> hr_body x = [] \<and>
        body_fault ?ev (block_request sample_url (length sample_bytes) 2 i) 1 = None)"
    if "i < 2" "i \<in> {Suc 0}" for i
    using that(2) sample_ranges unfolding singleton_iff by (simp only: req) (simp add: blocks_http_def hr_empty_def)
  have kept: "\<exists>x. http ?ev (block_request sample_url (length sample_bytes) 2 i) 1 = Inr x \<and>
      hr_body x = block_of 2 i sample_bytes \<and>
      body_fault ?ev (block_request sample_url (length sample_bytes) 2 i) 1 = None"
    if "i < 2" "i \<notin> {Suc 0}" for i
    using two [OF that(1)] that(2) by (auto simp only: req) (simp_all add: blocks_http_def sample_blocks)
  have order: "set [0..<2] = {..<2 :: nat}" "block_order ?ev 2 = one_at_a_time [0..<2]" by auto
  show ?thesis
    using lost_block_not_noticed [where f = "sample_file 4 Downloading" and a = sample_tstate and aev = sample_agent
        and lost = "{Suc 0}", OF sample_downloading fs blocks_http_length bytes sample_layout lost kept order]
    by (simp add: sample_bytes_def)
qed

text \<open>C39 The blocks share one position in the file: when the runtime lets the second block seek between
  the seek and the write of the first, all answers being right, the first block of the local file
  stays zeros, and the job is started. So the file is not the stored one unless its first block is zeros.
\<close>

theorem mixed_blocks_lose_the_first:
  assumes "downloading ev command f url" "\<And>c. fs_fault ev c = None"
    and "content_length (http ev (HttpHead url) 1) = length content"
    and "block_layout (t_block_size ev) (length content) = (bl, blocks)" "2 \<le> blocks"
    and "\<And>i. i < blocks \<Longrightarrow>
      \<exists>x. http ev (block_request url (length content) bl i) 1 = Inr x \<and> hr_body x = block_of bl i content \<and>
        body_fault ev (block_request url (length content) bl i) 1 = None"
    and "block_order ev blocks = mixed_order blocks"
  shows "legal_order blocks (mixed_order blocks) \<and> (\<exists>t c. file_download_runner ev aev command a = job_call (run_job aev (af_id f)) t \<and> agent t = agent a \<and>
    map_of (local_files t) (task_path ev (ft_parent_id command) (af_file_name f)) = Some c \<and>
    take bl c = replicate bl 0)"
proof -
  let ?path = "task_path ev (ft_parent_id command) (af_file_name f)"
  let ?r = "\<lambda>i. range_result ev (block_request url (length content) bl i)"
  let ?a = "answer_of (map ?r [0..<blocks])"
  let ?w = "write_step ev ?path ?a bl"
  let ?f = "file_set_len (length content) \<lparr>of_content = [], of_position = 0\<rparr>"
  have b: "0 < t_block_size ev" using assms(1) by (simp add: downloading_def)
  have n: "0 < length content" using assms(4,5) by (auto simp: block_layout_def split: if_splits)
  have c: "0 < bl" "(blocks - 1) * bl < length content" using block_layout_covers [OF assms(4) b] n by auto
  have two: "bl \<le> length content"
    using c assms(5) by (cases "blocks - 1") auto
  have res: "?r i = Inr (block_of bl i content)" if "i < blocks" for i
    using assms(6) [OF that] range_result_first [of ev "block_request url (length content) bl i"] by metis
  have no_panic: "?r i \<noteq> Inl TransferPanic" if "i < blocks" for i using res [OF that] by simp
  have ans: "?a 0 = Some (block_of bl 0 content)" "?a 1 = Some (block_of bl 1 content)"
    using res [of 0] res [of 1] assms(5) by (simp_all add: answer_of_def)
  have f: "of_content ?f = replicate (length content) 0" by (simp add: file_set_len_def)
  have len0: "length (block_of bl 0 content) = bl" using two by (simp add: block_of_def)
  have ne: "block_of bl 0 content \<noteq> []" using len0 c(1) by auto
  let ?c1 = "overwrite bl (block_of bl 0 content) (replicate (length content) 0)"
  have c1: "take bl ?c1 = replicate bl 0" "bl \<le> length ?c1"
    using two overwrite_grows [of "replicate (length content) 0" bl "block_of bl 0 content"]
    by (simp_all add: overwrite_prefix)
  let ?g = "fold ?w [SeekBlock 0, SeekBlock 1, MoveBlock 0, MoveBlock 1] ?f"
  have g: "of_content ?g = (if block_of bl 1 content = [] then ?c1 else overwrite (bl + bl) (block_of bl 1 content) ?c1)"
    using ans f len0 ne by (simp add: write_step_def file_seek_def file_write_all_def assms(2))
  have "take bl (of_content ?g) = replicate bl 0" "bl \<le> length (of_content ?g)"
    unfolding g using c1 overwrite_grows [of ?c1 "bl + bl" "block_of bl 1 content"]
    by (auto simp: overwrite_prefix)
  then have "take bl (of_content (fold ?w (mixed_order blocks) ?f)) = replicate bl 0"
    unfolding mixed_order_def fold_append comp_def by (intro write_behind) auto
  then show ?thesis
    using download_run [OF assms(1-3) n assms(4) refl no_panic, of aev a] mixed_order_legal [OF assms(5)]
    unfolding assms(7) by auto
qed

theorem mixed_blocks_lose_the_first_witness:
  "legal_order 2 (mixed_order 2) \<and> (\<exists>t c.
    file_download_runner (sample_tenv (blocks_http (\<lambda>rg. Inr \<lparr>hr_status = 206, hr_headers = [],
        hr_body = if rg = first_range then [1, 2] else [3]\<rparr>)) mixed_order) sample_agent sample_transfer
      sample_tstate = job_call (run_job sample_agent 4) t \<and> agent t = agent sample_tstate \<and>
    map_of (local_files t) (path_push (path_push ''d'' (show_uuid 7)) ''f'') = Some c \<and> take 2 c = [0, 0])"
proof -
  let ?h = "blocks_http (\<lambda>rg. Inr \<lparr>hr_status = 206, hr_headers = [],
        hr_body = if rg = first_range then [1, 2] else [3]\<rparr>)"
  let ?ev = "sample_tenv ?h mixed_order"
  have fs: "fs_fault ?ev c = None" for c by simp
  have two: "i < 2 \<Longrightarrow> i = 0 \<or> i = Suc 0" for i :: nat by auto
  have req: "block_request sample_url (length sample_bytes) 2 0 = HttpGet sample_url (Some first_range)"
    "block_request sample_url (length sample_bytes) 2 (Suc 0) = HttpGet sample_url (Some second_range)"
    by (simp_all add: first_range_def second_range_def)
  have kept: "\<exists>x. http ?ev (block_request sample_url (length sample_bytes) 2 i) 1 = Inr x \<and>
      hr_body x = block_of 2 i sample_bytes \<and>
      body_fault ?ev (block_request sample_url (length sample_bytes) 2 i) 1 = None" if "i < 2" for i
    using two [OF that] sample_ranges by (auto simp only: req) (simp_all add: blocks_http_def sample_blocks)
  have order: "block_order ?ev 2 = mixed_order 2" by simp
  show ?thesis
    using mixed_blocks_lose_the_first [where f = "sample_file 4 Downloading" and a = sample_tstate and aev = sample_agent,
        OF sample_downloading fs blocks_http_length sample_layout order_refl kept order]
    by (simp add: sample_zeros)
qed

section \<open>Uploads\<close>

text \<open>C40 What an upload of the agent comes to, unless the coordinator knows the content already: the
  requests after the announcement go to the address of the announcement and not to the one that takes
  parts, each of them carries a block of the file without its last byte, and whatever is answered to
  them the file counts as uploaded.
\<close>

theorem upload_parts_misdirected:
  assumes "ft_status command = FtStart" "ft_task_file command = Some f" "t_ssh_proxy ev = None"
    and "\<And>c. fs_fault ev c = None" "0 < t_block_size ev"
    and "map_of (local_files s) (task_path ev (ft_parent_id command) (af_file_name f)) = Some content"
    and "content \<noteq> []" "length content < 2 ^ 63"
    and "block_layout (t_block_size ev) (length content) = (bl, blocks)"
    and "distinct is" "set is = {..<blocks}" "block_order ev blocks = one_at_a_time is"
    and "url_join ev (t_base_url ev) prepare_rel = Some url"
    and "announcement = HttpPrepare url
      (prepare_body ev (ft_parent_id command) (af_file_name f) (af_metadata_id f) content blocks)"
    and "http ev announcement 1 = Inr x" "\<not> is_error_status (hr_status x)"
    and "body_fault ev announcement 0 = None" "read_prepare ev (hr_body x) = Inr (Some response)"
    and "apr_result response \<noteq> AFlashUpload"
  shows "\<exists>t rs. file_upload_runner ev aev command s = job_call (complete_job aev (ft_id command)) t \<and>
    agent t = agent s \<and> requests t = requests s @ announcement # rs \<and>
    set rs = {HttpPart url k (apr_id response) (butlast (block_of bl k content)) |k. k < blocks}"
proof -
  let ?path = "task_path ev (ft_parent_id command) (af_file_name f)"
  let ?s = "s\<lparr>requests := requests s @ [announcement]\<rparr>"
  obtain rs where rs: "upload_blocks ev ?path url content bl blocks (apr_id response) ?s =
      (Inr (), ?s\<lparr>requests := requests ?s @ rs\<rparr>)"
    "set rs = {HttpPart url k (apr_id response) (butlast (block_of bl k content)) |k. k < blocks}"
    using smap_upload_run [OF assms(4,9,5,7,8,10-12)] by blast
  have post: "post_loop ev announcement 10 1 s = (Inr x, ?s)"
    by (rule post_loop_first [OF assms(15,16)])
  have reply: "read_reply ev announcement x = sret (Some response)"
    using assms(17,18) by (simp add: read_reply_def read_body_def)
  have "upload_opened ev (ft_parent_id command) f ?path content s = (Inr (), ?s\<lparr>requests := requests ?s @ rs\<rparr>)"
    using post reply rs(1) assms(9,19) unfolding assms(14)
    by (simp add: upload_opened_def Let_def fs_run [OF assms(4)] join_base_def assms(13) svc_simps)
  then have "file_upload_runner ev aev command s =
      job_call (complete_job aev (ft_id command)) (?s\<lparr>requests := requests ?s @ rs\<rparr>)"
    using assms(1-3,6)
    by (simp add: file_upload_runner_def Let_def upload_task_file_def fetch_file_def open_local_def fs_run [OF assms(4)] svc_simps)
  with rs(2) show ?thesis by (intro exI [of _ "?s\<lparr>requests := requests ?s @ rs\<rparr>"] exI [of _ rs]) simp
qed

theorem upload_parts_misdirected_witness:
  "\<exists>t rs. file_upload_runner (sample_tenv (\<lambda>_ _. Inr (hr_empty 200)) (\<lambda>n. one_at_a_time [0..<n])) sample_agent sample_transfer
      (sample_tstate\<lparr>local_files := [(path_push (path_push ''d'' (show_uuid 7)) ''f'', [1, 2, 3])]\<rparr>) =
      job_call (complete_job sample_agent 4) t \<and>
    agent t = agent sample_tstate \<and> length (requests t) = Suc (length rs) \<and>
    set rs = {HttpPart (''b/'' @ prepare_rel) 0 5 [1], HttpPart (''b/'' @ prepare_rel) 1 5 []}"
proof -
  let ?ev = "sample_tenv (\<lambda>_ _. Inr (hr_empty 200)) (\<lambda>n. one_at_a_time [0..<n])"
  let ?s = "sample_tstate\<lparr>local_files := [(path_push (path_push ''d'' (show_uuid 7)) ''f'', [1, 2, 3])]\<rparr>"
  let ?q = "HttpPrepare (''b/'' @ prepare_rel) (prepare_body ?ev 7 ''f'' 0 sample_bytes 2)"
  have h: "ft_status sample_transfer = FtStart" "ft_task_file sample_transfer = Some (sample_file 4 Downloading)"
    "t_ssh_proxy ?ev = None" "\<And>c. fs_fault ?ev c = None" "0 < t_block_size ?ev"
    "map_of (local_files ?s) (task_path ?ev (ft_parent_id sample_transfer) (af_file_name (sample_file 4 Downloading))) =
      Some sample_bytes"
    "sample_bytes \<noteq> []" "length sample_bytes < 2 ^ 63"
    "distinct [0..<2 :: nat]" "set [0..<2] = {..<2 :: nat}" "block_order ?ev 2 = one_at_a_time [0..<2]"
    "url_join ?ev (t_base_url ?ev) prepare_rel = Some (''b/'' @ prepare_rel)"
    "?q = HttpPrepare (''b/'' @ prepare_rel) (prepare_body ?ev (ft_parent_id sample_transfer)
      (af_file_name (sample_file 4 Downloading)) (af_metadata_id (sample_file 4 Downloading)) sample_bytes 2)"
    "http ?ev ?q 1 = Inr (hr_empty 200)" "\<not> is_error_status (hr_status (hr_empty 200))" "body_fault ?ev ?q 0 = None"
    "read_prepare ?ev (hr_body (hr_empty 200)) = Inr (Some \<lparr>apr_result = ANormal, apr_id = 5\<rparr>)"
    "apr_result \<lparr>apr_result = ANormal, apr_id = 5\<rparr> \<noteq> AFlashUpload"
    by (auto simp: sample_bytes_def is_error_status_def hr_empty_def)
  obtain t rs where t: "file_upload_runner ?ev sample_agent sample_transfer ?s =
      job_call (complete_job sample_agent (ft_id sample_transfer)) t" "agent t = agent ?s"
    "requests t = requests ?s @ ?q # rs"
    "set rs = {HttpPart (''b/'' @ prepare_rel) k 5 (butlast (block_of 2 k sample_bytes)) |k. k < 2}"
    using upload_parts_misdirected [where s = ?s and aev = sample_agent,
        OF h(1-8) sample_layout h(9-18)] by auto
  have k: "{f k |k. k < (2 :: nat)} = {f 0, f 1}" for f :: "nat \<Rightarrow> http_request"
    by (auto simp: less_2_cases_iff)
  show ?thesis
    using t unfolding k by (intro exI [of _ t] exI [of _ rs]) (simp add: sample_blocks sample_tstate_def)
qed



end
