(* ===== verification/Spec2Isabelle.thy ===== *)
theory Spec2Isabelle
  imports KC_DraftProps KC_FlowProps KA_Props KP_Props KF_Props KT_Props
begin

text \<open>
  A verification library for Kuintessence, which runs workflows of scientific software on remote
  clusters. All paths below are relative to \<open>src/src\<close>.

  \<^bold>\<open>The program.\<close> The coordinator (\<open>co\<close>, with its logic in \<open>kernel\<close>) keeps workflow drafts, turns a
  draft into an instance (a flow of node instances in the database), starts the nodes whose inputs
  are there, and sends a task for each software or script node to the message topic of a cluster.
  On the cluster an agent (\<open>agent\<close>) reads the topic, works a task off as a list of sub-tasks
  (software deployment, use case, collection of outputs), and posts results to the coordinator,
  whose status receiver records them, bills successes and schedules the successors. What a software
  node runs is described by two packages (\<open>lib-co-repo\<close>): one names the arguments, variables and
  files of a software, the other the slots of a use case and how they fill them. They are validated
  together, offered to the workflow editor as a node draft, and turned into the task of a node. The
  files of nodes and users go through the coordinator too: an upload is announced, sent in parts,
  merged in a cache, and then moved, as a snapshot or to the storage server and the net disk. An agent
  fetches the input files of a job from the coordinator in blocks, and uploads its outputs.

  \<^bold>\<open>Theories.\<close> Names starting with \<open>KC\<close> model the coordinator, with \<open>KA\<close> the agent, with
  \<open>KP\<close> the packages of software and use cases, with \<open>KF\<close> the file services of the coordinator, with \<open>KT\<close> the
  transfers of files between an agent and the coordinator.

    \<^item> \<open>KC_Prelude\<close>: machine integers, results, the service combinators (\<open>svc\<close>: state, errors, early
      return), \<open>keeps\<close> and \<open>returns\<close>, printing, and the locales \<open>keyed_table\<close> and \<open>unit_of_work\<close>.
    \<^item> \<open>KC_Types\<close>: the records and enums of \<open>kernel/src/models/workflow_engine/*.rs\<close>, \<open>models/task.rs\<close>
      and \<open>exceptions/workflow_draft.rs\<close>.
    \<^item> \<open>KC_Slots\<close>: operations on slots, nodes, relations and fillers (\<open>models/impls/common.rs\<close>,
      \<open>models/impls/workflow_instance.rs\<close>), among them \<open>sub_node_count\<close> and \<open>parse_sub_nodes\<close>.
    \<^item> \<open>KC_Draft\<close>: the validation of a draft (\<open>models/impls/workflow_draft.rs\<close>), and the order-free
      specification of the drafts it accepts.
    \<^item> \<open>KC_Instantiate\<close>: draft to instance and node instances (\<open>models/impls/node_instance.rs\<close>,
      \<open>models/impls/workflow_instance.rs\<close>).
    \<^item> \<open>KC_Orm\<close>: the repositories (\<open>co/src/infrastructure/repositories\<close>, \<open>database/model\<close>): rows and their
      integer codes, the queue of statements, the queries, clusters and texts (the file tables are
      those of \<open>KF_Tables\<close>). It interprets
      \<open>keyed_table\<close> for the node and flow tables and \<open>unit_of_work\<close> for the repository.
    \<^item> \<open>KC_UseCases\<close>: starting and commanding a node by its kind (\<open>kernel/src/services/use_cases\<close>,
      \<open>task_distribution.rs\<close>, \<open>inner_usecase_select_service.rs\<close>).
    \<^item> \<open>KC_Schedule\<close>: \<open>schedule_next_nodes\<close>, the expansion of batches, and pause, continue and terminate
      (\<open>kernel/src/services/workflow_engine/schedule.rs\<close>).
    \<^item> \<open>KC_Engine\<close>: submission and start (\<open>workflow.rs\<close>) and the status receiver
      (\<open>status_receiver.rs\<close>); the locales \<open>task_operator\<close> and \<open>usecase_sender\<close> of the interfaces the
      engine calls, interpreted on the services of \<open>KC_UseCases\<close>.
    \<^item> \<open>KC_Samples\<close>, \<open>KC_DraftProps\<close>, \<open>KC_FlowProps\<close>: concrete drafts and states, the properties of
      drafts and submissions, and the properties of running flows, each with its witness.
    \<^item> \<open>KA_Types\<close>: the agent's tasks, sub-tasks, files, jobs and commands (\<open>agent/domain\<close>), its state
      \<open>astate\<close>, and the environment \<open>aenv\<close> that answers its calls to the outside.
    \<^item> \<open>KA_Repo\<close>: the JSON repository (\<open>agent/app/src/infrastructure/repository.rs\<close>), three
      interpretations of \<open>keyed_table\<close>.
    \<^item> \<open>KA_Frame\<close>: what an operation on one sub-task may change; the locales \<open>state_preorder\<close> (composing
      relations along a service) and \<open>sub_task_contract\<close> (the contract of \<open>SubTaskService\<close>).
    \<^item> \<open>KA_RunJob\<close>, \<open>KA_Deploy\<close>, \<open>KA_Collect\<close>: the three services (\<open>agent/service/src/run_job.rs\<close>,
      \<open>deploy_software.rs\<close>, \<open>collection_task.rs\<close>), each an interpretation of \<open>sub_task_contract\<close>.
    \<^item> \<open>KA_Scheduler\<close>: \<open>task_scheduler.rs\<close>, the reports with their retries (\<open>http_client.rs\<close>) and the
      runners of \<open>agent/app/src/background_service\<close>.
    \<^item> \<open>KA_Message\<close>: the messages (\<open>agent/app/src/dto/mod.rs\<close>, \<open>message_queue.rs\<close>) and how the agent reads
      what the coordinator writes.
    \<^item> \<open>KA_Steps\<close>: the agent as a step relation and the invariant of its reachable states.
    \<^item> \<open>KA_Samples\<close>, \<open>KA_Props\<close>: concrete agents and the properties of the agent.
    \<^item> \<open>KP_Types\<close>: the content of packages (\<open>lib-co-repo/src/models/abilities\<close>).
    \<^item> \<open>KP_Package\<close>: reading a package from its archive and combining two of them
      (\<open>models/package.rs\<close>, \<open>models/software_computing_usecase.rs\<close>, \<open>client/mod.rs\<close>).
    \<^item> \<open>KP_Validate\<close>: \<open>package_validate\<close> and the preview of the command
      (\<open>services/package_validate.rs\<close>, \<open>models/command_preview.rs\<close>).
    \<^item> \<open>KP_NodeDraft\<close>: the node draft (\<open>services/parse_node.rs\<close>, \<open>dtos/node_draft.rs\<close>).
    \<^item> \<open>KP_ParseTask\<close>: \<open>parse_task\<close>, from a node to its task
      (\<open>kernel/src/services/use_cases/software_computing.rs\<close>).
    \<^item> \<open>KP_Match\<close>: the loops of the validation against those of \<open>parse_task\<close>; the locales
      \<open>loop_simulation\<close> and \<open>guarded_loop\<close>, interpreted on each of them.
    \<^item> \<open>KP_Samples\<close>, \<open>KP_Props\<close>: a concrete use case and the properties of packages.
    \<^item> \<open>KF_Types\<close>, \<open>KF_Tables\<close>: the file entities (\<open>kernel/src/models/file\<close>, \<open>models/commands.rs\<close>), and the
      four file tables with their keys (\<open>database/model/src/system\<close>).
    \<^item> \<open>KF_Redis\<close>: the state \<open>fstate\<close> of a request on files, its environment \<open>fenv\<close>, and the repositories on
      Redis, a list of keys with deadlines (\<open>co/src/infrastructure/repositories/redis_repository\<close>).
    \<^item> \<open>KF_Repo\<close>: the repositories on the file tables (\<open>sea_orm_db_repository\<close>).
    \<^item> \<open>KF_Cache\<close>, \<open>KF_NetDisk\<close>: the cached files and the net disk
      (\<open>kernel/src/services/file/supports/{cache,net_disk}.rs\<close>).
    \<^item> \<open>KF_Upload\<close>, \<open>KF_Mover\<close>: uploads in parts, snapshots, stored files, registered moves, the runner
      that brings a file to the storage server and the files read while a node runs
      (\<open>kernel/src/services/file\<close>, \<open>co/src/infrastructure/external_services/file_upload_runner.rs\<close>).
    \<^item> \<open>KF_Control\<close>: the requests on uploads (\<open>co/src/controllers/file_storage.rs\<close>).
    \<^item> \<open>KF_Keys\<close>, \<open>KF_Lookup\<close>: which keys a pattern matches, from the printing of ids; the locale
      \<open>key_pattern\<close> (what a look-up by a pattern returns), interpreted on the patterns of uploads, moves
      and snapshots.
    \<^item> \<open>KF_Parts\<close>, \<open>KF_Moves\<close>, \<open>KF_Records\<close>, \<open>KF_Dirs\<close>, \<open>KF_Snapshots\<close>: the record of an upload while its
      parts come in, its registration until the command is carried out, the rows that stay, the
      directories of the net disk, the invariant of the snapshots.
    \<^item> \<open>KF_Samples\<close>, \<open>KF_Props\<close>: concrete stores and the properties of the file services.
    \<^item> \<open>KA_Text\<close>: the text functions of the standard library that the code uses on headers and paths.
    \<^item> \<open>KF_Download\<close>: the download requests of the coordinator, the dispatcher and the broker of the
      object store (\<open>co/src/controllers/file_storage.rs\<close>, \<open>storage_server_download_dispatcher.rs\<close>,
      \<open>minio_server_broker.rs\<close>).
    \<^item> \<open>KT_Blocks\<close>: how a file is cut into blocks, the file the tasks of the blocks share, and the orders in
      which the runtime can take their steps.
    \<^item> \<open>KT_Transfer\<close>: the transfers of the agent, on its state \<open>tstate\<close> and the environment \<open>tenv\<close>
      (\<open>agent/app/src/background_service/{file_download_runner,file_upload_runner,file_system_watch_runner}.rs\<close>,
      \<open>agent/app/src/infrastructure/service/file_load_service.rs\<close>).
    \<^item> \<open>KT_Frame\<close>, \<open>KT_Runs\<close>: what a transfer leaves alone, what its blocks write and what it answers.
    \<^item> \<open>KT_Steps\<close>: the transfers as steps of the agent, by an interpretation of \<open>state_preorder\<close>.
    \<^item> \<open>KT_Samples\<close>, \<open>KT_Props\<close>: concrete transfers and their properties.
    \<^item> This theory: the properties that join the coordinator and the agent.

  \<^bold>\<open>How the code is modelled.\<close> A struct is a record and an enum a datatype. A pure fallible function
  returns \<open>error + value\<close>. A service method is a state transformer that also returns its error
  together with the state it leaves, so what was done before an early return stays done; every \<open>?\<close>
  is an \<open>sbind\<close>. A panic (\<open>unwrap\<close>, \<open>unreachable!\<close>, an overflow check) is the error \<open>Panic\<close> or
  \<open>APanic\<close>. The parameters \<open>overflow_checks\<close> tell a debug build from a release build. \<open>i32\<close> and \<open>u32\<close>
  arithmetic is on words; \<open>usize\<close> is \<open>nat\<close> with its bound written out where the code computes.

  \<^bold>\<open>Parameters and assumptions.\<close> \<open>Uuid::new_v4\<close> is a stream of ids; the properties that need fresh
  ids assume that the ids drawn are distinct and unused. The iteration order of a \<open>HashMap\<close> is a
  parameter that permutes its keys. The random choice of a cluster, BLAKE3, the storage server, URL
  parsing and HTTP answers are parameters, and so are the matching of patterns by Redis (\<open>glob\<close>; the
  properties assume the documented meaning of the star), the order of the keys in its answers, the
  reading of ids (assumed to give back a printed id) and the formatting of the time, the package server (\<open>fetch\<close>), the YAML readers
  of packages, the template engine (\<open>render\<close>) and the iteration order of the templates
  (\<open>template_order\<close>). The client of the object store is the parameter \<open>object_store\<close>; \<open>serves_ranges\<close> is
  the documented meaning of a range. In a transfer the network, the file system, \<open>scp\<close>, the reading of
  JSON and the order of the tasks of the blocks are the fields of \<open>tenv\<close>. The last modification time of a flow row changes only by
  the statements of the repository (the schema is not in the repository). In the agent an answer of
  the outside may depend on all calls made so far; the clock is read as one instant per handler.

  \<^bold>\<open>Bounds and fuel.\<close> \<open>sub_node_count\<close> recurses along the relations of a draft, which may be cyclic: it
  runs on fuel, and \<open>submit_returns\<close> shows that fuel above the rank of the nodes is enough for an
  acyclic draft, \<open>self_reliant_count_diverges\<close> that none is enough for a self-reliant one. The retry
  loop \<open>http_post_loop\<close> terminates by the distance to its bound.

  \<^bold>\<open>What the properties show.\<close> Coordinator: what the validation accepts, that a submission is stored
  whole or not at all, what instantiation keeps of the graph and how many sub-instances a batch gets,
  which nodes the two modes of the scheduler start, the exact effect of pause, continue and
  terminate, and of a task result. Agent: one active sub-task per task in every reachable state, jobs
  wait for their inputs, success is reported only when everything is complete, the exact effect of a
  pause, messages keep their bodies. Packages: the task of a node instantiates the preview of the
  validation, a validated use case neither gets stuck in \<open>parse_task\<close> nor in the drafting, every
  output slot is delivered, argument positions have no gap. Files:
  an announced upload whose parts come in any order reaches the queue to the storage server once, the
  command for it is carried out and leaves nothing behind, and no snapshot loses its file while it is known. Transfers: a stored file is
  downloaded as it is, a collected output reaches the queue to the storage server, and a transfer
  changes the agent only by its steps. Several properties state
  defects of the code: nodes held back in a flow that is finished early, self-reliant batches, script
  tasks no agent can read, uploads that outlive their registration, marks of parts lost to each other, answers
  to requests that left without their id, lost blocks that are not noticed, blocks that share one file
  position, uploads whose parts go to the wrong address. Lemmas beside the properties state what a
  package archive is read as, what an upload records and where the file of a node is entered, when an
  installation is added to a task, and further defects: commands that can not be repeated,
  validation of original batches, unbilled successes, start reports the coordinator refuses, flags no
  validation looks at.

  \<^bold>\<open>Interleaving.\<close> Every handler is one step. The tasks of the asynchronous runtime can interleave at
  their waiting points; that is modelled for the parts of an upload, whose three steps are
  definitions of their own (\<open>concurrent_part_lost\<close>), and for the seeks and writes of the blocks of a
  transfer (\<open>block_order\<close>); the calls of a transfer into the agent are steps of the agent. Time passes between the steps of \<open>KF_Snapshots\<close>,
  not within a request.

  \<^bold>\<open>Not modelled.\<close> \<open>get_template_keys\<close> of the package client, the extraction of contents from stored
  files, the billing service, the PBS, Slurm, Spack and Apptainer clients (their answers come from the
  environment), login and tokens, the other controllers, WebSockets, configuration, macros and migrations.
\<close>

section \<open>The coordinator and the agent\<close>


lemma script_unreadable: "read_message \<lparr>task_id = i, task_body = [ExecuteScript info], task_command = c\<rparr> = None"
  by (simp add: read_message_def)

lemma send_task_sends:
  "send_task tk cid s = (Inr (), t) \<Longrightarrow> \<exists>c. sent_tasks t = sent_tasks s @ [(c, tk)]"
  by (auto simp: send_task_def svc_simps cluster_get_by_id_def split: sum.splits)

lemma start_on_cluster_sends:
  assumes "start_on_cluster ev tk s = (Inr (), t)"
  shows "\<exists>c. sent_tasks t = sent_tasks s @ [(c, tk)]"
proof -
  have save: "sent_tasks (snd (save_changed u)) = sent_tasks u" for u
    by (simp add: save_changed_def split: option.split)
  obtain cid u where u: "send_task tk cid u = (Inr (), t)" "sent_tasks u = sent_tasks s"
  proof -
    obtain cid s1 where r: "get_random_cluster (rng ev) s = (Inr cid, s1)"
      using assms by (auto simp: start_on_cluster_def sbind_Inr_iff)
    moreover obtain n where "node_by_id (task_id tk) (db s1) = Inr n"
      using assms r by (auto simp: start_on_cluster_def svc_simps node_get_by_id_def split: sum.splits)
    moreover obtain b s3 where
      "save_changed (push_stmt (UpdateNode (node_row_from (n\<lparr>cluster_id := Some cid\<rparr>))) s1) = (Inr b, s3)"
      using assms calculation
      by (auto simp: start_on_cluster_def svc_simps node_get_by_id_def node_update_def split: prod.splits sum.splits)
    moreover from this have "sent_tasks s3 = sent_tasks s1"
      using save [of "push_stmt (UpdateNode (node_row_from (n\<lparr>cluster_id := Some cid\<rparr>))) s1"]
      by (simp add: push_stmt_def)
    moreover have "sent_tasks s1 = sent_tasks s"
      using r by (auto simp: get_random_cluster_def Let_def split: if_splits)
    ultimately show ?thesis using assms that [of cid s3]
      by (simp add: start_on_cluster_def svc_simps node_get_by_id_def node_update_def)
  qed
  from send_task_sends [OF u(1)] u(2) show ?thesis by simp
qed

text \<open>C34 A script node that is started successfully sends a single task to a cluster, and no agent
  reads it: whatever its state, the agent drops the message.\<close>

theorem script_task_dropped:
  assumes "script_handle_usecase ev ns s = (Inr (), t)"
  shows "\<exists>c tk. sent_tasks t = sent_tasks s @ [(c, tk)] \<and> task_id tk = ns_id ns \<and>
    (\<forall>aev a. receive_task aev tk a = (Inr (), a))"
proof -
  obtain info where "ns_kind ns = Script info"
    using assms by (auto simp: script_handle_usecase_def svc_simps split: node_kind.splits)
  let ?tk = "\<lparr>task_id = ns_id ns, task_body = [ExecuteScript info], task_command = CmdStart\<rparr>"
  have "start_on_cluster ev ?tk s = (Inr (), t)"
    using assms \<open>ns_kind ns = Script info\<close> by (simp add: script_handle_usecase_def)
  then obtain c where "sent_tasks t = sent_tasks s @ [(c, ?tk)]" using start_on_cluster_sends by blast
  moreover have "receive_task aev ?tk a = (Inr (), a)" for aev a
    by (simp add: receive_task_def script_unreadable svc_simps)
  ultimately show ?thesis by force
qed

definition sample_script :: node_spec where
  "sample_script = (sample_spec 1001 [] [])\<lparr>ns_kind := Script \<lparr>si_kind = Python, si_input_path = [],
     si_output_path = [], si_origin = Edit ''x''\<rparr>\<rparr>"

lemma script_task_dropped_witness:
  "\<exists>c tk. sent_tasks (snd (script_handle_usecase sample_env sample_script chain_scheduled)) = [(c, tk)] \<and>
     task_id tk = 1001 \<and> receive_task sample_agent tk empty_agent = (Inr (), empty_agent)"
proof -
  have "fst (script_handle_usecase sample_env sample_script chain_scheduled) = Inr ()"
    by (simp add: sample_script_def sample_eval script_handle_usecase_def start_on_cluster_def send_task_def
        get_random_cluster_def cluster_get_by_id_def node_get_by_id_def node_update_def)
  then obtain t where t: "script_handle_usecase sample_env sample_script chain_scheduled = (Inr (), t)"
    by (metis prod.collapse)
  have "sent_tasks chain_scheduled = []" "ns_id sample_script = 1001"
    by (simp_all add: sample_script_def sample_eval)
  with script_task_dropped [OF t] t show ?thesis by auto
qed



end
